(* ===== verification/Prelude.thy ===== *)
theory Prelude
  imports Main "HOL-Library.Sublist"
begin

text \<open>
  What every component shares: the outcome of a call (a value, a Python exception, or a loop that
  never returns), the services monad the coroutines of \<open>services/\<close> are written in, the
  effect calculus that proves what a whole service may do to the state it is given, and the generic
  facts on lists and decimal numerals the components use.
\<close>

section \<open>Outcomes\<close>

text \<open>
  The exceptions the modelled code raises or meets. The refusals of the application
  (\<^verbatim>\<open>helpers/*_error.py\<close>) carry the code they answer with; the rest are raised by the
  language, by the driver or by a gateway, and \<open>Raised\<close> is any other of a library, by the name of its class.
\<close>

datatype exc =
    ValidationError string string
  | ConflictError string
  | AuthenticationError string
  | AppError string
  | NotFoundError
  | IntegrityError
  | AttributeError
  | KeyError
  | IndexError
  | TypeError
  | ValueError
  | OverflowError
  | Unreadable
  | Silent
  | RateLimited nat
  | HTTPError
  | HTTPStatusError nat
  | NotImplementedError
  | PermissionError string
  | AddressRefused string
  | Raised string

text \<open>\<open>Hangs\<close> is the outcome of a loop that never ends, which no \<open>except\<close> clause can catch.\<close>

datatype 'a outcome = Ok 'a | Err exc | Hangs

type_synonym ('s, 'a) svc = "'s \<Rightarrow> 'a outcome \<times> 's"

section \<open>The services monad\<close>

definition ret :: "'a \<Rightarrow> ('s, 'a) svc" where
  "ret x = (\<lambda>s. (Ok x, s))"

definition throw :: "exc \<Rightarrow> ('s, 'a) svc" where
  "throw e = (\<lambda>s. (Err e, s))"

definition hang :: "('s, 'a) svc" where
  "hang = (\<lambda>s. (Hangs, s))"

definition andThen :: "('s, 'a) svc \<Rightarrow> ('a \<Rightarrow> ('s, 'b) svc) \<Rightarrow> ('s, 'b) svc" where
  "andThen m k = (\<lambda>s. case m s of
       (Ok x, t) \<Rightarrow> k x t
     | (Err e, t) \<Rightarrow> (Err e, t)
     | (Hangs, t) \<Rightarrow> (Hangs, t))"

definition reads :: "('s \<Rightarrow> 'a) \<Rightarrow> ('s, 'a) svc" where
  "reads f = (\<lambda>s. (Ok (f s), s))"

definition writes :: "('s \<Rightarrow> 's) \<Rightarrow> ('s, unit) svc" where
  "writes f = (\<lambda>s. (Ok (), f s))"

text \<open>An attribute of what a query did not find is an \<open>AttributeError\<close>.\<close>

definition need :: "'a option \<Rightarrow> ('s, 'a) svc" where
  "need x = (case x of None \<Rightarrow> throw AttributeError | Some y \<Rightarrow> ret y)"

definition lift :: "'a outcome \<Rightarrow> ('s, 'a) svc" where
  "lift r = (\<lambda>s. (r, s))"

text \<open>\<open>try: m except Exception as e: h e\<close>.\<close>

definition handle :: "('s, 'a) svc \<Rightarrow> (exc \<Rightarrow> ('s, 'a) svc) \<Rightarrow> ('s, 'a) svc" where
  "handle m h = (\<lambda>s. case m s of
       (Ok x, t) \<Rightarrow> (Ok x, t)
     | (Err e, t) \<Rightarrow> h e t
     | (Hangs, t) \<Rightarrow> (Hangs, t))"

text \<open>\<open>for x in xs: f x\<close>, collecting what the bodies answer.\<close>

fun each :: "('a \<Rightarrow> ('s, 'b) svc) \<Rightarrow> 'a list \<Rightarrow> ('s, 'b list) svc" where
  "each f [] = ret []"
| "each f (x # xs) = andThen (f x) (\<lambda>y. andThen (each f xs) (\<lambda>ys. ret (y # ys)))"

definition value_of :: "('s, 'a) svc \<Rightarrow> 's \<Rightarrow> 'a outcome" where
  "value_of m s = fst (m s)"

definition state_of :: "('s, 'a) svc \<Rightarrow> 's \<Rightarrow> 's" where
  "state_of m s = snd (m s)"

lemmas flow = ret_def throw_def hang_def andThen_def reads_def writes_def need_def lift_def handle_def
  value_of_def state_of_def

lemma andThen_ret [simp]: "andThen (ret x) k = k x"
  by (simp add: flow)

lemma andThen_throw [simp]: "andThen (throw e) k = throw e"
  by (simp add: flow)

lemma andThen_reads [simp]: "andThen (reads f) k s = k (f s) s"
  by (simp add: flow)

lemma andThen_writes [simp]: "andThen (writes f) k s = k () (f s)"
  by (simp add: flow)

lemma andThen_need_Some [simp]: "andThen (need (Some x)) k = k x"
  by (simp add: flow)

lemma andThen_need_None [simp]: "andThen (need None) k = throw AttributeError"
  by (simp add: flow)

lemma andThen_lift_Ok [simp]: "andThen (lift (Ok x)) k = k x"
  by (simp add: flow)

lemma andThen_lift_Err [simp]: "andThen (lift (Err e)) k = throw e"
  by (simp add: flow)

lemma andThen_lift_Hangs [simp]: "andThen (lift Hangs) k = hang"
  by (simp add: flow)

lemma hang_apply [simp]: "hang s = (Hangs, s)"
  by (simp add: flow)

lemma ret_apply [simp]: "ret x s = (Ok x, s)"
  by (simp add: flow)

lemma throw_apply [simp]: "throw e s = (Err e, s)"
  by (simp add: flow)

lemma andThen_ret_right [simp]: "andThen m ret = m"
  by (rule ext) (simp add: flow split: prod.splits outcome.splits)

lemma andThen_assoc: "andThen (andThen m f) g = andThen m (\<lambda>x. andThen (f x) g)"
  by (rule ext) (simp add: flow split: prod.splits outcome.splits)

lemma andThen_Ok: "m s = (Ok x, t) \<Longrightarrow> andThen m k s = k x t"
  by (simp add: flow)

lemma andThen_OkD:
  assumes "andThen m k s = (Ok y, u)"
  obtains x t where "m s = (Ok x, t)" and "k x t = (Ok y, u)"
  using assms by (auto simp: flow split: prod.splits outcome.splits)

section \<open>What a service may do to the state\<close>

text \<open>
  \<open>effect R m\<close> says that whatever \<open>m\<close> answers, the state it leaves is related by \<open>R\<close> to the
  one it was given. The rules below compose for every preorder, so that a service made of a hundred
  statements is shown to obey one from what its statements do.
\<close>

definition effect :: "('s \<Rightarrow> 's \<Rightarrow> bool) \<Rightarrow> ('s, 'a) svc \<Rightarrow> bool" where
  "effect R m \<longleftrightarrow> (\<forall>s. R s (snd (m s)))"

lemma effectI: "(\<And>s. R s (snd (m s))) \<Longrightarrow> effect R m"
  by (simp add: effect_def)

lemma effectD: "effect R m \<Longrightarrow> m s = (r, t) \<Longrightarrow> R s t"
  by (metis effect_def snd_conv)

lemma effectE: "effect R m \<Longrightarrow> R s (snd (m s))"
  by (simp add: effect_def)

locale effect_order =
  fixes R :: "'s \<Rightarrow> 's \<Rightarrow> bool"
  assumes stay: "R s s"
    and go: "R s t \<Longrightarrow> R t u \<Longrightarrow> R s u"
begin

lemma ret_ok: "effect R (ret x)"
  by (simp add: effect_def stay)

lemma throw_ok: "effect R (throw e)"
  by (simp add: effect_def stay)

lemma hang_ok: "effect R hang"
  by (simp add: effect_def hang_def stay)

lemma reads_ok: "effect R (reads f)"
  by (simp add: effect_def reads_def stay)

lemma need_ok: "effect R (need x)"
  by (simp add: effect_def need_def stay split: option.splits)

lemma lift_ok: "effect R (lift x)"
  by (simp add: effect_def lift_def stay)

lemma andThen_ok:
  assumes "effect R m" and "\<And>x. effect R (k x)"
  shows "effect R (andThen m k)"
proof (rule effectI)
  fix s
  obtain r t where m: "m s = (r, t)" by fastforce
  from assms(1) m have first: "R s t" by (rule effectD)
  show "R s (snd (andThen m k s))"
  proof (cases r)
    case (Ok x)
    have "R t (snd (k x t))" using assms(2) by (rule effectE)
    with first show ?thesis by (auto simp: andThen_def m Ok intro: go)
  qed (simp_all add: andThen_def m first)
qed

lemma handle_ok:
  assumes "effect R m" and "\<And>e. effect R (h e)"
  shows "effect R (handle m h)"
proof (rule effectI)
  fix s
  obtain r t where m: "m s = (r, t)" by fastforce
  from assms(1) m have first: "R s t" by (rule effectD)
  show "R s (snd (handle m h s))"
  proof (cases r)
    case (Err e)
    have "R t (snd (h e t))" using assms(2) by (rule effectE)
    with first show ?thesis by (auto simp: handle_def m Err intro: go)
  qed (simp_all add: handle_def m first)
qed

lemma each_ok:
  assumes "\<And>x. effect R (f x)"
  shows "effect R (each f xs)"
  by (induction xs) (auto intro: ret_ok andThen_ok assms simp del: ret_apply)

lemma if_ok: "effect R m \<Longrightarrow> effect R n \<Longrightarrow> effect R (if b then m else n)"
  by simp

lemma option_ok:
  "effect R m \<Longrightarrow> (\<And>x. effect R (k x)) \<Longrightarrow> effect R (case v of None \<Rightarrow> m | Some x \<Rightarrow> k x)"
  by (cases v) simp_all

lemma pair_ok: "(\<And>x y. effect R (k x y)) \<Longrightarrow> effect R (case p of (x, y) \<Rightarrow> k x y)"
  by (cases p) simp

lemma list_ok:
  "effect R m \<Longrightarrow> (\<And>x xs. effect R (k x xs)) \<Longrightarrow> effect R (case l of [] \<Rightarrow> m | x # xs \<Rightarrow> k x xs)"
  by (cases l) simp_all

lemma writes_ok: "(\<And>s. R s (f s)) \<Longrightarrow> effect R (writes f)"
  by (simp add: effect_def writes_def)

lemmas steps = ret_ok throw_ok hang_ok reads_ok need_ok lift_ok andThen_ok handle_ok each_ok if_ok
  option_ok pair_ok list_ok

end

text \<open>An invariant is the special case of a preorder that only ever keeps it.\<close>

definition keeps :: "('s \<Rightarrow> bool) \<Rightarrow> 's \<Rightarrow> 's \<Rightarrow> bool" where
  "keeps I s t \<longleftrightarrow> (I s \<longrightarrow> I t)"

lemma keepsI: "(I s \<Longrightarrow> I t) \<Longrightarrow> keeps I s t"
  by (simp add: keeps_def)

lemma keepsD: "keeps I s t \<Longrightarrow> I s \<Longrightarrow> I t"
  by (simp add: keeps_def)

lemma effect_keepsD: "effect (keeps I) m \<Longrightarrow> I s \<Longrightarrow> I (snd (m s))"
  by (simp add: effect_def keeps_def)

text \<open>A field no step of a service touches.\<close>

definition same :: "('s \<Rightarrow> 'v) \<Rightarrow> 's \<Rightarrow> 's \<Rightarrow> bool" where
  "same f s t \<longleftrightarrow> f t = f s"

interpretation same_order: effect_order "same f"
  by unfold_locales (simp_all add: same_def)

interpretation keeps_order: effect_order "keeps I"
  by unfold_locales (simp_all add: keeps_def)

lemma effect_sameD: "effect (same f) m \<Longrightarrow> f (snd (m s)) = f s"
  by (simp add: effect_def same_def)

section \<open>What a service answers\<close>

text \<open>
  \<open>wp m Q E s\<close>: run from \<open>s\<close>, the service returns, answers what \<open>Q\<close> says or raises what \<open>E\<close> says, and
  never loops. The rules push it through the statements of a service.
\<close>

definition wp :: "('s, 'a) svc \<Rightarrow> ('a \<Rightarrow> 's \<Rightarrow> bool) \<Rightarrow> (exc \<Rightarrow> 's \<Rightarrow> bool) \<Rightarrow> 's \<Rightarrow> bool" where
  "wp m Q E s \<longleftrightarrow> (case m s of (Ok x, t) \<Rightarrow> Q x t | (Err e, t) \<Rightarrow> E e t | (Hangs, t) \<Rightarrow> False)"

lemma wp_ret: "wp (ret x) Q E = Q x"
  by (rule ext) (simp add: wp_def)

lemma wp_Pair: "wp (Pair (Ok x)) Q E = Q x"
  by (rule ext) (simp add: wp_def)

lemma wp_throw: "wp (throw e) Q E = E e"
  by (rule ext) (simp add: wp_def)

lemma wp_hang: "wp hang Q E s = False"
  by (simp add: wp_def)

lemma wp_andThen: "wp (andThen m k) Q E = wp m (\<lambda>x. wp (k x) Q E) E"
  by (rule ext) (simp add: wp_def andThen_def split: prod.splits outcome.splits)

lemma wp_handle: "wp (handle m h) Q E = wp m Q (\<lambda>e. wp (h e) Q E)"
  by (rule ext) (simp add: wp_def handle_def split: prod.splits outcome.splits)

lemma wp_need: "wp (need x) Q E s = (case x of None \<Rightarrow> E AttributeError s | Some y \<Rightarrow> Q y s)"
  by (simp add: need_def wp_ret wp_throw split: option.splits)

lemma wp_lift: "wp (lift r) Q E s = (case r of Ok x \<Rightarrow> Q x s | Err e \<Rightarrow> E e s | Hangs \<Rightarrow> False)"
  by (simp add: wp_def lift_def)

lemma wp_reads: "wp (reads f) Q E s = Q (f s) s"
  by (simp add: wp_def reads_def)

lemma wp_if: "wp (if b then m else n) Q E s = (if b then wp m Q E s else wp n Q E s)"
  by simp

lemma wp_pair: "wp (case p of (x, y) \<Rightarrow> k x y) Q E s = (case p of (x, y) \<Rightarrow> wp (k x y) Q E s)"
  by (cases p) simp

lemmas wp_flow = wp_Pair wp_ret wp_throw wp_hang wp_andThen wp_handle wp_need wp_lift wp_reads wp_if wp_pair

lemma wp_conseq:
  assumes "wp m Q E s" and "\<And>x t. Q x t \<Longrightarrow> Q' x t" and "\<And>e t. E e t \<Longrightarrow> E' e t"
  shows "wp m Q' E' s"
  using assms by (auto simp: wp_def split: prod.splits outcome.splits)

lemma wp_and_effect:
  assumes "effect R m" and "wp m Q E s"
  shows "wp m (\<lambda>x t. Q x t \<and> R s t) (\<lambda>e t. E e t \<and> R s t) s"
  using assms by (auto simp: wp_def effect_def split: prod.splits outcome.splits dest: spec [of _ s])

lemma wp_D_Ok: "wp m Q E s \<Longrightarrow> m s = (Ok x, t) \<Longrightarrow> Q x t"
  by (simp add: wp_def)

lemma wp_each_all:
  assumes "\<And>x s. x \<in> set xs \<Longrightarrow> I s \<Longrightarrow> wp (f x) (\<lambda>_. I) E s" and "I s"
  shows "wp (each f xs) (\<lambda>_. I) E s"
  using assms
proof (induction xs arbitrary: s)
  case Nil
  then show ?case by (simp add: wp_ret del: ret_apply)
next
  case (Cons x xs)
  have "wp (f x) (\<lambda>_. I) E s" using Cons.prems by simp
  then show ?case unfolding each.simps wp_andThen
    by (rule wp_conseq) (simp_all add: wp_andThen wp_ret Cons.IH Cons.prems(1) del: ret_apply)
qed

text \<open>\<open>answers m Q s\<close>: if the service answers at all, \<open>Q\<close> holds of what it answers and leaves.\<close>

definition answers :: "('s, 'a) svc \<Rightarrow> ('a \<Rightarrow> 's \<Rightarrow> bool) \<Rightarrow> 's \<Rightarrow> bool" where
  "answers m Q s \<longleftrightarrow> (\<forall>x t. m s = (Ok x, t) \<longrightarrow> Q x t)"

lemma after_ret: "answers (ret x) Q = Q x"
  by (rule ext) (simp add: answers_def)

lemma after_Pair: "answers (Pair (Ok x)) Q = Q x"
  by (rule ext) (simp add: answers_def)

lemma after_throw: "answers (throw e) Q = (\<lambda>_. True)"
  by (rule ext) (simp add: answers_def)

lemma after_hang: "answers hang Q = (\<lambda>_. True)"
  by (rule ext) (simp add: answers_def)

lemma after_andThen: "answers (andThen m k) Q = answers m (\<lambda>x. answers (k x) Q)"
  by (rule ext) (auto simp: answers_def andThen_def split: prod.splits outcome.splits)

lemma after_need: "answers (need x) Q s = (case x of None \<Rightarrow> True | Some y \<Rightarrow> Q y s)"
  by (simp add: need_def after_ret after_throw split: option.splits)

lemma after_lift: "answers (lift r) Q s = (case r of Ok x \<Rightarrow> Q x s | _ \<Rightarrow> True)"
  by (auto simp: answers_def lift_def split: outcome.splits)

lemma after_reads: "answers (reads f) Q s = Q (f s) s"
  by (simp add: answers_def reads_def)

lemma after_if: "answers (if b then m else n) Q s = (if b then answers m Q s else answers n Q s)"
  by simp

lemma after_pair: "answers (case p of (x, y) \<Rightarrow> k x y) Q s = (case p of (x, y) \<Rightarrow> answers (k x y) Q s)"
  by (cases p) simp

lemmas after_flow = after_Pair after_ret after_throw after_hang after_andThen after_need after_lift after_reads after_if after_pair

lemma after_conseq: "answers m Q s \<Longrightarrow> (\<And>x t. Q x t \<Longrightarrow> Q' x t) \<Longrightarrow> answers m Q' s"
  by (simp add: answers_def)

lemma after_effect: "effect R m \<Longrightarrow> (\<And>x t. R s t \<Longrightarrow> Q x t) \<Longrightarrow> answers m Q s"
  by (auto simp: answers_def effect_def dest: spec [of _ s])

lemma after_D: "answers m Q s \<Longrightarrow> m s = (Ok x, t) \<Longrightarrow> Q x t"
  by (simp add: answers_def)

section \<open>Lists\<close>

lemma find_Some_in: "List.find p xs = Some x \<Longrightarrow> x \<in> set xs \<and> p x"
  by (induction xs) (auto split: if_splits)

lemma find_None_iff_all: "List.find p xs = None \<longleftrightarrow> (\<forall>x\<in>set xs. \<not> p x)"
  by (induction xs) auto

lemma find_append: "List.find p (xs @ ys) = (case List.find p xs of None \<Rightarrow> List.find p ys | Some x \<Rightarrow> Some x)"
  by (induction xs) auto

section \<open>Numerals as text\<close>

text \<open>\<open>f"{n}"\<close> of a natural number, and the same padded with zeros to a width.\<close>

definition digit_char :: "nat \<Rightarrow> char" where
  "digit_char d = char_of (48 + d)"

fun decimal :: "nat \<Rightarrow> string" where
  "decimal n = (if n < 10 then [digit_char n] else decimal (n div 10) @ [digit_char (n mod 10)])"

declare decimal.simps [simp del]

definition padded :: "nat \<Rightarrow> nat \<Rightarrow> string" where
  "padded w n = replicate (w - length (decimal n)) (CHR ''0'') @ decimal n"

definition is_digit :: "char \<Rightarrow> bool" where
  "is_digit c \<longleftrightarrow> 48 \<le> (of_char c :: nat) \<and> (of_char c :: nat) \<le> 57"

fun read_digits :: "nat \<Rightarrow> string \<Rightarrow> nat" where
  "read_digits acc [] = acc"
| "read_digits acc (c # cs) = read_digits (10 * acc + (of_char c - 48)) cs"

lemma of_digit_char [simp]: "d < 10 \<Longrightarrow> (of_char (digit_char d) :: nat) = 48 + d"
  by (simp add: digit_char_def)

lemma read_digits_append: "read_digits acc (xs @ ys) = read_digits (read_digits acc xs) ys"
  by (induction xs arbitrary: acc) simp_all

lemma read_decimal: "read_digits 0 (decimal n) = n"
proof (induction n rule: decimal.induct)
  case (1 n)
  show ?case
  proof (cases "n < 10")
    case True
    then show ?thesis by (simp add: decimal.simps [of n])
  next
    case False
    with "1.IH" have "read_digits 0 (decimal (n div 10)) = n div 10" by simp
    with False show ?thesis by (simp add: decimal.simps [of n] read_digits_append)
  qed
qed

lemma decimal_inj: "decimal m = decimal n \<longleftrightarrow> m = n"
  by (metis read_decimal)

lemma decimal_digits: "\<forall>c\<in>set (decimal n). is_digit c"
proof (induction n rule: decimal.induct)
  case (1 n)
  show ?case
  proof (cases "n < 10")
    case True
    then show ?thesis by (simp add: decimal.simps [of n] is_digit_def)
  next
    case False
    with "1.IH" have "\<forall>c\<in>set (decimal (n div 10)). is_digit c" by simp
    with False show ?thesis by (auto simp: decimal.simps [of n] is_digit_def)
  qed
qed

lemma decimal_nonempty [simp]: "decimal n \<noteq> []"
  by (subst decimal.simps) simp

lemma read_padded: "read_digits 0 (padded w n) = n"
proof -
  have zeros: "read_digits 0 (replicate k (CHR ''0'')) = 0" for k
    by (induction k) simp_all
  show ?thesis by (simp add: padded_def read_digits_append zeros read_decimal)
qed

lemma length_decimal_le: "n < 10 ^ w \<Longrightarrow> 0 < w \<Longrightarrow> length (decimal n) \<le> w"
proof (induction w arbitrary: n)
  case 0
  then show ?case by simp
next
  case (Suc w)
  show ?case
  proof (cases "n < 10")
    case True
    then show ?thesis by (simp add: decimal.simps [of n])
  next
    case False
    from Suc.prems have "n div 10 < 10 ^ w" by (simp add: less_mult_imp_div_less mult.commute)
    moreover from this False have "0 < w" by (cases w) simp_all
    moreover note Suc.IH
    ultimately have "n div 10 < 10 ^ w" and "0 < w" by simp_all
    then have "length (decimal (n div 10)) \<le> w" by (rule Suc.IH)
    with False show ?thesis by (simp add: decimal.simps [of n])
  qed
qed

lemma length_padded: "n < 10 ^ w \<Longrightarrow> 0 < w \<Longrightarrow> length (padded w n) = w"
  using length_decimal_le [of n w] by (simp add: padded_def)

lemma padded_inj: "padded w m = padded w n \<longleftrightarrow> m = n"
  by (metis read_padded)

lemma padded_digits: "\<forall>c\<in>set (padded w n). is_digit c"
  using decimal_digits [of n] by (auto simp: padded_def is_digit_def)

end
