(* ===== verification/Clock.thy ===== *)
theory Clock
  imports Prelude
begin

text \<open>
  The calendar of \<^verbatim>\<open>helpers/dates.py\<close>: UTC instants as Python's \<open>datetime\<close> holds them (a
  proleptic Gregorian date in the years 1 to 9999 and the microseconds of the day), their order, and
  the two steps the delivery schedule walks by, \<open>add_months\<close> and \<open>add_interval\<close>. Every instant of the
  application is UTC, so no offset is kept: \<open>as_utc\<close> and \<open>naive_utc\<close> are identities here. What a
  \<open>timedelta\<close> or a \<open>replace\<close> refuses is an error outcome.
\<close>

section \<open>Instants\<close>

datatype datetime = DateTime (year: int) (month: int) (day: int) (micros: int)

instantiation datetime :: linorder
begin

definition less_eq_datetime :: "datetime \<Rightarrow> datetime \<Rightarrow> bool" where
  "a \<le> b \<longleftrightarrow> year a < year b \<or> year a = year b \<and> (month a < month b \<or> month a = month b \<and>
     (day a < day b \<or> day a = day b \<and> micros a \<le> micros b))"

definition less_datetime :: "datetime \<Rightarrow> datetime \<Rightarrow> bool" where
  "a < b \<longleftrightarrow> year a < year b \<or> year a = year b \<and> (month a < month b \<or> month a = month b \<and>
     (day a < day b \<or> day a = day b \<and> micros a < micros b))"

instance
proof
  fix a b c :: datetime
  show "a < b \<longleftrightarrow> a \<le> b \<and> \<not> b \<le> a"
    by (auto simp: less_eq_datetime_def less_datetime_def)
  show "a \<le> a" by (simp add: less_eq_datetime_def)
  show "a \<le> b \<Longrightarrow> b \<le> c \<Longrightarrow> a \<le> c"
    by (auto simp: less_eq_datetime_def)
  show "a \<le> b \<Longrightarrow> b \<le> a \<Longrightarrow> a = b"
    by (auto simp: less_eq_datetime_def intro: datetime.expand)
  show "a \<le> b \<or> b \<le> a"
    by (auto simp: less_eq_datetime_def)
qed

end

definition is_leap :: "int \<Rightarrow> bool" where
  "is_leap y \<longleftrightarrow> y mod 4 = 0 \<and> (y mod 100 \<noteq> 0 \<or> y mod 400 = 0)"

text \<open>\<open>calendar.monthrange(year, month)[1]\<close>.\<close>

definition days_in_month :: "int \<Rightarrow> int \<Rightarrow> int" where
  "days_in_month y m =
     (if m = 2 then (if is_leap y then 29 else 28)
      else if m = 4 \<or> m = 6 \<or> m = 9 \<or> m = 11 then 30 else 31)"

definition valid_date :: "int \<Rightarrow> int \<Rightarrow> int \<Rightarrow> bool" where
  "valid_date y m d \<longleftrightarrow> 1 \<le> m \<and> m \<le> 12 \<and> 1 \<le> d \<and> d \<le> days_in_month y m"

definition day_micros :: int where
  "day_micros = 86400000000"

definition valid :: "datetime \<Rightarrow> bool" where
  "valid t \<longleftrightarrow> 1 \<le> year t \<and> year t \<le> 9999 \<and> valid_date (year t) (month t) (day t)
     \<and> 0 \<le> micros t \<and> micros t < day_micros"

section \<open>Ordinals\<close>

text \<open>Days before a year and before a month, and the ordinal of a date (1 is 0001-01-01).\<close>

definition days_before_year :: "int \<Rightarrow> int" where
  "days_before_year y = (y - 1) * 365 + (y - 1) div 4 - (y - 1) div 100 + (y - 1) div 400"

definition days_before_month :: "int \<Rightarrow> int \<Rightarrow> int" where
  "days_before_month y m =
     (if m \<le> 1 then 0 else if m = 2 then 31 else
      (if is_leap y then 1 else 0) +
      (if m = 3 then 59 else if m = 4 then 90 else if m = 5 then 120 else if m = 6 then 151
       else if m = 7 then 181 else if m = 8 then 212 else if m = 9 then 243 else if m = 10 then 273
       else if m = 11 then 304 else if m = 12 then 334 else 365))"

definition toordinal :: "int \<Rightarrow> int \<Rightarrow> int \<Rightarrow> int" where
  "toordinal y m d = days_before_year y + days_before_month y m + d"

text \<open>The month a day of the year (counted from 0) falls in.\<close>

definition month_at :: "int \<Rightarrow> int \<Rightarrow> int" where
  "month_at y n =
     (if n < days_before_month y 2 then 1 else if n < days_before_month y 3 then 2
      else if n < days_before_month y 4 then 3 else if n < days_before_month y 5 then 4
      else if n < days_before_month y 6 then 5 else if n < days_before_month y 7 then 6
      else if n < days_before_month y 8 then 7 else if n < days_before_month y 9 then 8
      else if n < days_before_month y 10 then 9 else if n < days_before_month y 11 then 10
      else if n < days_before_month y 12 then 11 else 12)"

text \<open>\<open>date.fromordinal\<close>, through the cycles of 400, 100, 4 and 1 years.\<close>

definition fromordinal :: "int \<Rightarrow> int \<times> int \<times> int" where
  "fromordinal n =
     (let n400 = (n - 1) div 146097; r400 = (n - 1) mod 146097;
          n100 = r400 div 36524; r100 = r400 mod 36524;
          n4 = r100 div 1461; r4 = r100 mod 1461;
          n1 = r4 div 365; r1 = r4 mod 365;
          y = n400 * 400 + n100 * 100 + n4 * 4 + n1 + 1
      in if n1 = 4 \<or> n100 = 4 then (y - 1, 12, 31)
         else let m = month_at y r1 in (y, m, r1 - days_before_month y m + 1))"

definition max_ordinal :: int where
  "max_ordinal = 3652059"

section \<open>The steps of the schedule\<close>

text \<open>\<open>moment + timedelta(days=n)\<close>, which overflows out of the calendar or past the widest timedelta.\<close>

definition add_days :: "datetime \<Rightarrow> int \<Rightarrow> datetime outcome" where
  "add_days t n =
     (if \<bar>n\<bar> > 999999999 then Err OverflowError
      else let k = toordinal (year t) (month t) (day t) + n in
        if k < 1 \<or> max_ordinal < k then Err OverflowError
        else case fromordinal k of (y, m, d) \<Rightarrow> Ok (DateTime y m d (micros t)))"

definition add_months :: "datetime \<Rightarrow> int \<Rightarrow> datetime outcome" where
  "add_months moment months =
     (let total = month moment - 1 + months;
          y = year moment + total div 12;
          m = total mod 12 + 1;
          d = min (day moment) (days_in_month y m)
      in if y < 1 \<or> 9999 < y then Err ValueError else Ok (DateTime y m d (micros moment)))"

datatype interval_unit = DAY | WEEK | MONTH | YEAR

text \<open>\<open>STEPS\<close>: how far one of each unit walks, in days and in months.\<close>

fun STEPS :: "interval_unit \<Rightarrow> int \<times> int" where
  "STEPS DAY = (1, 0)"
| "STEPS WEEK = (7, 0)"
| "STEPS MONTH = (0, 1)"
| "STEPS YEAR = (0, 12)"

text \<open>
  The columns of a benefit that hold the interval may be null: \<open>STEPS[None]\<close> is a \<open>KeyError\<close> and
  a product with \<open>None\<close> a \<open>TypeError\<close>.
\<close>

definition add_interval :: "datetime \<Rightarrow> interval_unit option \<Rightarrow> int option \<Rightarrow> datetime outcome" where
  "add_interval moment unit amount =
     (case unit of None \<Rightarrow> Err KeyError
      | Some u \<Rightarrow> (case amount of None \<Rightarrow> Err TypeError
        | Some v \<Rightarrow> (case STEPS u of (days, months) \<Rightarrow>
            (case add_days moment (days * v) of
               Ok moved \<Rightarrow> add_months moved (months * v)
             | Err e \<Rightarrow> Err e
             | Hangs \<Rightarrow> Hangs))))"

section \<open>Time elapsed\<close>

text \<open>
  The microseconds since the first ordinal. A window such as \<open>x < now() - timedelta(minutes=30)\<close> compares
  this count.
\<close>

definition instant :: "datetime \<Rightarrow> int" where
  "instant t = toordinal (year t) (month t) (day t) * day_micros + micros t"

definition seconds :: "int \<Rightarrow> int" where
  "seconds n = n * 1000000"

definition minutes :: "int \<Rightarrow> int" where
  "minutes n = n * 60000000"

definition before_by :: "datetime \<Rightarrow> int \<Rightarrow> datetime \<Rightarrow> bool" where
  "before_by moment window x \<longleftrightarrow> instant x < instant moment - window"

section \<open>The calendar is sound\<close>

lemma div_step:
  assumes k: "0 < (k::int)"
  shows "y div k = (y - 1) div k + (if k dvd y then 1 else 0)"
proof -
  have *: "(q * k + r) div k = q" if "0 \<le> r" "r < k" for q r
    using that k by (simp add: div_add1_eq)
  define q r where "q = y div k" and "r = y mod k"
  have y: "y = q * k + r" and r: "0 \<le> r" "r < k" using k by (simp_all add: q_def r_def)
  show ?thesis
  proof (cases "r = 0")
    case True
    then have eq: "y - 1 = (q - 1) * k + (k - 1)" using y by (simp add: algebra_simps)
    have "(y - 1) div k = q - 1" unfolding eq by (rule *) (use k in simp_all)
    moreover have "k dvd y" using True r_def by (simp add: dvd_eq_mod_eq_0)
    ultimately show ?thesis by (simp add: q_def)
  next
    case False
    then have eq: "y - 1 = q * k + (r - 1)" using y by simp
    have "(y - 1) div k = q" unfolding eq by (rule *) (use r False in simp_all)
    moreover have "\<not> k dvd y" using False r_def by (simp add: dvd_eq_mod_eq_0)
    ultimately show ?thesis by (simp add: q_def)
  qed
qed

lemma leap_cases:
  "is_leap y \<longleftrightarrow> 400 dvd y \<or> 4 dvd y \<and> \<not> 100 dvd y"
proof -
  have "4 dvd y" if "400 dvd y" using that by (rule dvd_trans [rotated]) simp
  moreover have "100 dvd y" if "400 dvd y" using that by (rule dvd_trans [rotated]) simp
  ultimately show ?thesis by (auto simp: is_leap_def mod_eq_0_iff_dvd)
qed

lemma days_before_year_step: "days_before_year (y + 1) = days_before_year y + (if is_leap y then 366 else 365)"
proof -
  have d: "100 dvd y \<Longrightarrow> 4 dvd y" by (rule dvd_trans [of 4 100]) simp_all
  have e: "400 dvd y \<Longrightarrow> 100 dvd y" by (rule dvd_trans [of 100 400]) simp_all
  have s: "y div 4 = (y - 1) div 4 + (if 4 dvd y then 1 else 0)"
    "y div 100 = (y - 1) div 100 + (if 100 dvd y then 1 else 0)"
    "y div 400 = (y - 1) div 400 + (if 400 dvd y then 1 else 0)"
    by (rule div_step, simp)+
  have "days_before_year (y + 1) = y * 365 + y div 4 - y div 100 + y div 400"
    by (simp add: days_before_year_def)
  also have "\<dots> = days_before_year y + 365 + (if 4 dvd y then 1 else 0) - (if 100 dvd y then 1 else 0)
      + (if 400 dvd y then 1 else 0)"
    unfolding s by (simp add: days_before_year_def)
  finally show ?thesis using d e by (auto simp: leap_cases)
qed

lemma days_before_year_mono: "y < z \<Longrightarrow> days_before_year y + (if is_leap y then 366 else 365) \<le> days_before_year z"
proof (induction "nat (z - y)" arbitrary: z)
  case 0
  then show ?case by simp
next
  case (Suc n)
  show ?case
  proof (cases "z = y + 1")
    case True
    then show ?thesis by (simp add: days_before_year_step)
  next
    case False
    with Suc have "days_before_year y + (if is_leap y then 366 else 365) \<le> days_before_year (z - 1)" by simp
    also have "\<dots> \<le> days_before_year z" using days_before_year_step [of "z - 1"] by simp
    finally show ?thesis .
  qed
qed

lemma month_cases: "1 \<le> m \<Longrightarrow> m \<le> 12 \<Longrightarrow> m = 1 \<or> m = 2 \<or> m = 3 \<or> m = 4 \<or> m = 5 \<or> m = 6 \<or> m = 7 \<or> m = 8 \<or> m = 9 \<or> m = 10 \<or> m = 11 \<or> m = (12::int)"
  by arith

lemma days_before_month_step:
  "1 \<le> m \<Longrightarrow> m \<le> 12 \<Longrightarrow> days_before_month y (m + 1) = days_before_month y m + days_in_month y m"
  by (drule (1) month_cases) (auto simp: days_before_month_def days_in_month_def)

lemma days_before_month_mono:
  assumes "1 \<le> m" "m < n" "n \<le> 13"
  shows "days_before_month y (m + 1) \<le> days_before_month y n"
proof -
  have "m = 1 \<or> m = 2 \<or> m = 3 \<or> m = 4 \<or> m = 5 \<or> m = 6 \<or> m = 7 \<or> m = 8 \<or> m = 9 \<or> m = 10 \<or> m = 11 \<or> m = 12"
    using assms by arith
  then show ?thesis using assms by (elim disjE) (simp_all add: days_before_month_def)
qed

lemma days_before_month_13: "days_before_month y 13 = (if is_leap y then 366 else 365)"
  by (simp add: days_before_month_def)

lemma days_in_month_pos: "28 \<le> days_in_month y m" "days_in_month y m \<le> 31"
  by (auto simp: days_in_month_def)

lemma toordinal_month_less:
  assumes "valid_date y m d" and "m < m'" and "m' \<le> 13"
  shows "days_before_month y m + d \<le> days_before_month y m'"
proof -
  from assms have "days_before_month y m + d \<le> days_before_month y (m + 1)"
    by (simp add: valid_date_def days_before_month_step)
  also have "\<dots> \<le> days_before_month y m'"
    using assms by (intro days_before_month_mono) (simp_all add: valid_date_def)
  finally show ?thesis .
qed

lemma day_of_year_bounds:
  assumes "valid_date y m d"
  shows "1 \<le> days_before_month y m + d" and "days_before_month y m + d \<le> (if is_leap y then 366 else 365)"
proof -
  from assms show "1 \<le> days_before_month y m + d" by (auto simp: valid_date_def days_before_month_def)
  show "days_before_month y m + d \<le> (if is_leap y then 366 else 365)"
    using toordinal_month_less [OF assms, of 13] assms by (simp add: days_before_month_13 valid_date_def)
qed

lemma toordinal_less:
  assumes "valid_date y m d" and "valid_date y' m' d'"
    and "y < y' \<or> y = y' \<and> (m < m' \<or> m = m' \<and> d < d')"
  shows "toordinal y m d < toordinal y' m' d'"
  using assms(3)
proof (elim disjE conjE)
  assume "y < y'"
  have "toordinal y m d \<le> days_before_year y + (if is_leap y then 366 else 365)"
    using day_of_year_bounds [OF assms(1)] by (simp add: toordinal_def)
  also have "\<dots> \<le> days_before_year y'" using \<open>y < y'\<close> by (rule days_before_year_mono)
  also have "\<dots> < toordinal y' m' d'"
    using day_of_year_bounds [OF assms(2)] by (simp add: toordinal_def)
  finally show ?thesis .
next
  assume "y = y'" "m < m'"
  with assms(2) toordinal_month_less [OF assms(1), of m'] show ?thesis
    by (simp add: toordinal_def valid_date_def)
next
  assume "y = y'" "m = m'" "d < d'"
  then show ?thesis by (simp add: toordinal_def)
qed

lemma month_at_ok:
  assumes "0 \<le> n" and "n < (if is_leap y then 366 else 365)"
  shows "1 \<le> month_at y n \<and> month_at y n \<le> 12 \<and> days_before_month y (month_at y n) \<le> n
    \<and> n < days_before_month y (month_at y n) + days_in_month y (month_at y n)"
  using assms by (cases "is_leap y") (simp_all add: month_at_def days_before_month_def days_in_month_def)

lemma div_digits:
  assumes "0 \<le> b" "b \<le> 3" "0 \<le> c" "c \<le> 24" "0 \<le> d" "d \<le> (3::int)"
  shows "(a * 400 + b * 100 + c * 4 + d) div 4 = a * 100 + b * 25 + c"
    and "(a * 400 + b * 100 + c * 4 + d) div 100 = a * 4 + b"
    and "(a * 400 + b * 100 + c * 4 + d) div 400 = a"
  using assms by linarith+

lemma days_before_year_digits:
  assumes y: "y - 1 = a * 400 + b * 100 + c * 4 + d"
    and r: "0 \<le> b" "b \<le> 3" "0 \<le> c" "c \<le> 24" "0 \<le> d" "d \<le> 3"
  shows "days_before_year y = a * 146097 + b * 36524 + c * 1461 + d * 365"
  unfolding days_before_year_def y div_digits [OF r] by simp

lemma fromordinal_ok:
  assumes "fromordinal n = (y, m, d)"
  shows "valid_date y m d \<and> toordinal y m d = n"
proof -
  define a r where "a = (n - 1) div 146097" and "r = (n - 1) mod 146097"
  define b r2 where "b = r div 36524" and "r2 = r mod 36524"
  define c r3 where "c = r2 div 1461" and "r3 = r2 mod 1461"
  define e r4 where "e = r3 div 365" and "r4 = r3 mod 365"
  have n: "n = a * 146097 + r + 1" and r: "0 \<le> r" "r < 146097"
    by (simp_all add: a_def r_def)
  have r': "r = b * 36524 + r2" and r2: "0 \<le> r2" "r2 < 36524"
    by (simp_all add: b_def r2_def)
  have r2': "r2 = c * 1461 + r3" and r3: "0 \<le> r3" "r3 < 1461"
    by (simp_all add: c_def r3_def)
  have r3': "r3 = e * 365 + r4" and r4: "0 \<le> r4" "r4 < 365"
    by (simp_all add: e_def r4_def)
  have b: "0 \<le> b" "b \<le> 4" using r' r r2 by linarith+
  have c: "0 \<le> c" "c \<le> 24" using r2' r2 r3 by linarith+
  have e: "0 \<le> e" "e \<le> 4" using r3' r3 r4 by linarith+
  have b4: "b = 4 \<Longrightarrow> r2 = 0" using r' r r2 by linarith
  have e4: "e = 4 \<Longrightarrow> r4 = 0" using r3' r3 r4 by linarith
  define z where "z = a * 400 + b * 100 + c * 4 + e + 1"
  have f: "fromordinal n = (if e = 4 \<or> b = 4 then (z - 1, 12, 31)
      else (z, month_at z r4, r4 - days_before_month z (month_at z r4) + 1))"
    unfolding fromordinal_def Let_def z_def a_def r_def b_def r2_def c_def r3_def e_def r4_def by (rule refl)
  show ?thesis
  proof (cases "e = 4 \<or> b = 4")
    case last: True
    then have ym: "y = z - 1" "m = 12" "d = 31" using assms f by simp_all
    have "is_leap (z - 1) \<and> days_before_year (z - 1) + 366 = n"
    proof (cases "b = 4")
      case True
      then have "c = 0" "r3 = 0" "e = 0" "r4 = 0" using b4 r2' r3' c r3 r4 e by linarith+
      then have "n = a * 146097 + 4 * 36524 + 1" "z - 1 = (a + 1) * 400"
        and z1: "z - 1 - 1 = a * 400 + 3 * 100 + 24 * 4 + 3"
        using n r' r2' r3' True by (simp_all add: z_def)
      then show ?thesis using days_before_year_digits [OF z1] by (simp add: leap_cases)
    next
      case False
      then have "e = 4" "r4 = 0" "b \<le> 3" using last e4 b by simp_all
      then have "c \<noteq> 24" using r3' r2' r2 by auto
      have "z - 1 = a * 400 + b * 100 + (c + 1) * 4" "1 \<le> c + 1" "c + 1 \<le> 24"
        using \<open>e = 4\<close> c \<open>c \<noteq> 24\<close> by (simp_all add: z_def)
      then have z': "z - 1 = 100 * (4 * a + b) + 4 * (c + 1)" and c4: "1 \<le> c + 1" "c + 1 \<le> 24" by simp_all
      have "\<not> 100 dvd 4 * (c + 1)" using c4 by (intro zdvd_not_zless) simp_all
      then have "\<not> 100 dvd z - 1" unfolding z' by (subst dvd_add_right_iff) simp_all
      moreover have "4 dvd z - 1" unfolding z' by (rule dvd_add) simp_all
      ultimately have "is_leap (z - 1)" by (simp add: leap_cases)
      moreover have z1: "z - 1 - 1 = a * 400 + b * 100 + c * 4 + 3" using \<open>e = 4\<close> by (simp add: z_def)
      moreover have "n = a * 146097 + b * 36524 + c * 1461 + 1460 + 1"
        using n r' r2' r3' \<open>e = 4\<close> \<open>r4 = 0\<close> by simp
      ultimately show ?thesis using days_before_year_digits [OF z1] b c \<open>b \<le> 3\<close> by simp
    qed
    then show ?thesis
      by (simp add: ym valid_date_def days_in_month_def toordinal_def days_before_month_def)
  next
    case False
    then have be: "b \<le> 3" "e \<le> 3" using b e by linarith+
    have ym: "y = z" "m = month_at z r4" "d = r4 - days_before_month z (month_at z r4) + 1"
      using assms f False by auto
    have "z - 1 = a * 400 + b * 100 + c * 4 + e" by (simp add: z_def)
    then have "days_before_year z = a * 146097 + b * 36524 + c * 1461 + e * 365"
      by (rule days_before_year_digits) (use b c e be in simp_all)
    then have "days_before_year z + r4 + 1 = n" using n r' r2' r3' by simp
    moreover have "r4 < (if is_leap z then 366 else 365)" using r4 by simp
    ultimately show ?thesis
      using month_at_ok [OF r4(1) \<open>r4 < (if is_leap z then 366 else 365)\<close>]
      unfolding ym valid_date_def toordinal_def by linarith
  qed
qed

lemma fromordinal_toordinal:
  assumes "valid_date y m d"
  shows "fromordinal (toordinal y m d) = (y, m, d)"
proof -
  obtain y' m' d' where f: "fromordinal (toordinal y m d) = (y', m', d')" by (metis prod_cases3)
  then have v: "valid_date y' m' d'" and o': "toordinal y' m' d' = toordinal y m d"
    using fromordinal_ok by auto
  have "\<not> (y < y' \<or> y = y' \<and> (m < m' \<or> m = m' \<and> d < d'))"
    using toordinal_less [OF assms v] o' by auto
  moreover have "\<not> (y' < y \<or> y' = y \<and> (m' < m \<or> m' = m \<and> d' < d))"
    using toordinal_less [OF v assms] o' by auto
  ultimately show ?thesis using f by auto
qed

lemma toordinal_order:
  assumes "valid_date y m d" "valid_date y' m' d'" "toordinal y m d < toordinal y' m' d'"
  shows "y < y' \<or> y = y' \<and> (m < m' \<or> m = m' \<and> d < d')"
proof (rule ccontr)
  assume "\<not> ?thesis"
  then consider "y' < y \<or> y' = y \<and> (m' < m \<or> m' = m \<and> d' < d)" | "y' = y" "m' = m" "d' = d" by fastforce
  then show False
  proof cases
    case 1
    with toordinal_less [OF assms(2,1)] assms(3) show False by simp
  next
    case 2
    with assms(3) show False by simp
  qed
qed

lemma instant_less_iff:
  assumes "valid s" "valid t"
  shows "instant s < instant t \<longleftrightarrow> s < t"
proof -
  have v: "valid_date (year s) (month s) (day s)" "valid_date (year t) (month t) (day t)"
    and ms: "0 \<le> micros s" "micros s < day_micros" "0 \<le> micros t" "micros t < day_micros"
    using assms by (simp_all add: valid_def)
  let ?a = "toordinal (year s) (month s) (day s)" and ?b = "toordinal (year t) (month t) (day t)"
  have mul: "?a * day_micros + day_micros \<le> ?b * day_micros" if "?a < ?b"
    using mult_right_mono [of "?a + 1" ?b day_micros] that by (simp add: day_micros_def)
  have mul': "?b * day_micros + day_micros \<le> ?a * day_micros" if "?b < ?a"
    using mult_right_mono [of "?b + 1" ?a day_micros] that by (simp add: day_micros_def)
  consider "?a < ?b" | "?b < ?a" | "?a = ?b" by linarith
  then show ?thesis
  proof cases
    case 1
    then have "s < t" using toordinal_order [OF v 1] by (auto simp: less_datetime_def)
    moreover have "instant s < instant t" using mul [OF 1] ms by (simp add: instant_def)
    ultimately show ?thesis by simp
  next
    case 2
    then have "t < s" using toordinal_order [OF v(2,1) 2] by (auto simp: less_datetime_def)
    moreover have "instant t < instant s" using mul' [OF 2] ms by (simp add: instant_def)
    ultimately show ?thesis by auto
  next
    case 3
    then have "(year s, month s, day s) = (year t, month t, day t)"
      using fromordinal_toordinal [OF v(1)] fromordinal_toordinal [OF v(2)] by metis
    then have "year s = year t" "month s = month t" "day s = day t" by simp_all
    then show ?thesis by (simp add: instant_def less_datetime_def)
  qed
qed

lemma max_ordinal_year:
  assumes "valid_date y m d" and "1 \<le> toordinal y m d" and "toordinal y m d \<le> max_ordinal"
  shows "1 \<le> y \<and> y \<le> 9999"
proof -
  have v1: "valid_date 0 12 31" "valid_date 10000 1 1"
    by (simp_all add: valid_date_def days_in_month_def)
  have o1: "toordinal 0 12 31 = 0" "toordinal 10000 1 1 = max_ordinal + 1"
    by (simp_all add: toordinal_def days_before_year_def days_before_month_def is_leap_def max_ordinal_def)
  have "\<not> (y < 10000) \<Longrightarrow> y = 10000 \<and> (m = 1 \<and> d = 1) \<or> toordinal 10000 1 1 < toordinal y m d"
    using toordinal_less [OF v1(2) assms(1)] assms(1)
    by (cases "y = 10000"; cases "m = 1"; cases "d = 1") (auto simp: valid_date_def)
  moreover have "\<not> (0 < y) \<Longrightarrow> y = 0 \<and> m = 12 \<and> d = 31 \<or> toordinal y m d < toordinal 0 12 31"
  proof -
    assume "\<not> 0 < y"
    moreover have "days_in_month 0 12 = 31" by (simp add: days_in_month_def)
    ultimately show ?thesis
      using toordinal_less [OF assms(1) v1(1)] assms(1) by (cases "y = 0"; cases "m = 12"; cases "d = 31") (auto simp: valid_date_def)
  qed
  ultimately show ?thesis using assms(2,3) o1 by fastforce
qed

lemma add_days_Ok:
  assumes "valid t" and "add_days t n = Ok u"
  shows "valid u" and "instant u = instant t + n * day_micros"
proof -
  let ?k = "toordinal (year t) (month t) (day t) + n"
  obtain y m d where f: "fromordinal ?k = (y, m, d)" by (metis prod_cases3)
  from assms(2) f have k: "1 \<le> ?k" "?k \<le> max_ordinal" and u: "u = DateTime y m d (micros t)"
    by (auto simp: add_days_def Let_def split: if_splits)
  from fromordinal_ok [OF f] have v: "valid_date y m d" and o': "toordinal y m d = ?k" by simp_all
  show "valid u" using max_ordinal_year [OF v] v o' k assms(1) by (simp add: u valid_def)
  show "instant u = instant t + n * day_micros" by (simp add: u instant_def o' algebra_simps)
qed

lemma add_days_0: "valid t \<Longrightarrow> add_days t 0 = Ok t"
proof -
  assume v: "valid t"
  then have d: "valid_date (year t) (month t) (day t)" by (simp add: valid_def)
  have "valid_date 1 1 1" "valid_date 9999 12 31" by (simp_all add: valid_date_def days_in_month_def)
  moreover have "toordinal 1 1 1 = 1" "toordinal 9999 12 31 = max_ordinal"
    by (simp_all add: toordinal_def days_before_year_def days_before_month_def is_leap_def max_ordinal_def)
  moreover have "\<not> toordinal (year t) (month t) (day t) < toordinal 1 1 1"
    using toordinal_order [OF d \<open>valid_date 1 1 1\<close>] v by (auto simp: valid_def valid_date_def)
  moreover have "\<not> toordinal 9999 12 31 < toordinal (year t) (month t) (day t)"
  proof
    assume "toordinal 9999 12 31 < toordinal (year t) (month t) (day t)"
    from toordinal_order [OF \<open>valid_date 9999 12 31\<close> d this] v show False
      by (auto simp: valid_def valid_date_def days_in_month_def)
  qed
  ultimately show ?thesis using fromordinal_toordinal [OF d]
    by (cases t) (simp add: add_days_def Let_def)
qed

lemma add_months_Ok:
  assumes "valid t" and "add_months t n = Ok u"
  shows "valid u"
    and "year u * 12 + (month u - 1) = year t * 12 + (month t - 1) + n"
    and "day u = min (day t) (days_in_month (year u) (month u))"
    and "micros u = micros t"
proof -
  let ?total = "month t - 1 + n"
  from assms(2) have u: "u = DateTime (year t + ?total div 12) (?total mod 12 + 1)
      (min (day t) (days_in_month (year t + ?total div 12) (?total mod 12 + 1))) (micros t)"
    and y: "1 \<le> year t + ?total div 12" "year t + ?total div 12 \<le> 9999"
    by (auto simp: add_months_def Let_def split: if_splits)
  have m: "0 \<le> ?total mod 12" "?total mod 12 < 12" by simp_all
  show "valid u"
    using y m assms(1) days_in_month_pos(1) [of "year t + ?total div 12" "?total mod 12 + 1"]
    by (auto simp: u valid_def valid_date_def)
  show "year u * 12 + (month u - 1) = year t * 12 + (month t - 1) + n"
    using div_mult_mod_eq [of ?total 12] by (simp add: u)
  show "day u = min (day t) (days_in_month (year u) (month u))" "micros u = micros t"
    by (simp_all add: u)
qed

lemma add_months_less:
  assumes "valid t" and "add_months t n = Ok u" and "0 < n"
  shows "t < u"
proof -
  from add_months_Ok [OF assms(1,2)] have v: "valid u"
    and e: "year u * 12 + (month u - 1) = year t * 12 + (month t - 1) + n" by simp_all
  have "1 \<le> month t" "month t \<le> 12" "1 \<le> month u" "month u \<le> 12"
    using assms(1) v by (simp_all add: valid_def valid_date_def)
  then have "year t < year u \<or> year t = year u \<and> month t < month u"
    using e assms(3) by linarith
  then show ?thesis by (auto simp: less_datetime_def)
qed

lemma add_months_0: "valid t \<Longrightarrow> add_months t 0 = Ok t"
proof -
  assume v: "valid t"
  then have "(month t - 1) div 12 = 0" "(month t - 1) mod 12 = month t - 1"
    by (simp_all add: valid_def valid_date_def)
  with v show ?thesis by (cases t) (auto simp: add_months_def Let_def valid_def valid_date_def)
qed

lemma add_interval_OkE:
  assumes "valid t" and "add_interval t (Some u) (Some v) = Ok w"
  obtains (days) k where "k = (if u = DAY then v else 7 * v)" "u = DAY \<or> u = WEEK" "add_days t k = Ok w"
    | (months) k where "k = (if u = MONTH then v else 12 * v)" "u = MONTH \<or> u = YEAR" "add_months t k = Ok w"
proof (cases u)
  case DAY
  with assms(2) obtain x where x: "add_days t v = Ok x" "add_months x 0 = Ok w"
    by (auto simp: add_interval_def split: outcome.splits)
  with add_days_Ok(1) [OF assms(1)] have "x = w" by (simp add: add_months_0)
  with x show thesis using DAY by (intro days [of v]) simp_all
next
  case WEEK
  with assms(2) obtain x where x: "add_days t (7 * v) = Ok x" "add_months x 0 = Ok w"
    by (auto simp: add_interval_def split: outcome.splits)
  with add_days_Ok(1) [OF assms(1)] have "x = w" by (simp add: add_months_0)
  with x show thesis using WEEK by (intro days [of "7 * v"]) simp_all
next
  case MONTH
  with assms show thesis by (intro months [of v]) (simp_all add: add_interval_def add_days_0)
next
  case YEAR
  with assms show thesis by (intro months [of "12 * v"]) (simp_all add: add_interval_def add_days_0 mult.commute)
qed

lemma add_interval_valid:
  assumes "valid t" and "add_interval t u v = Ok w"
  shows "valid w"
proof -
  from assms(2) obtain u' v' where "u = Some u'" "v = Some v'"
    by (auto simp: add_interval_def split: option.splits)
  with assms(2) have "add_interval t (Some u') (Some v') = Ok w" by simp
  from assms(1) this show ?thesis
    by (rule add_interval_OkE) (use assms(1) add_days_Ok(1) add_months_Ok(1) in blast)+
qed

lemma add_interval_less:
  assumes "valid t" and "add_interval t u (Some v) = Ok w" and "1 \<le> v"
  shows "t < w"
proof -
  from assms(2) obtain u' where "u = Some u'" by (auto simp: add_interval_def split: option.splits)
  with assms(2) have "add_interval t (Some u') (Some v) = Ok w" by simp
  from assms(1) this show ?thesis
  proof (cases rule: add_interval_OkE)
    case (days k)
    from add_days_Ok [OF assms(1) days(3)] have "valid w" and i: "instant w = instant t + k * day_micros" by simp_all
    moreover have "0 < k * day_micros" using days(1) assms(3) by (simp add: day_micros_def)
    ultimately show ?thesis using instant_less_iff [OF assms(1) \<open>valid w\<close>] by simp
  next
    case (months k)
    then show ?thesis using add_months_less [OF assms(1) months(3)] assms(3) by simp
  qed
qed

section \<open>The calendar is long enough\<close>

text \<open>Up to the year 9000, an interval of at most 900 units never leaves the calendar.\<close>

definition near :: "datetime \<Rightarrow> bool" where
  "near t \<longleftrightarrow> valid t \<and> year t \<le> 9000"

lemma add_days_total:
  assumes "near t" and "0 \<le> n" and "n \<le> 6300"
  shows "\<exists>u. add_days t n = Ok u"
proof -
  have d: "valid_date (year t) (month t) (day t)" using assms(1) by (simp add: near_def valid_def)
  have v: "valid_date 1 1 1" "valid_date 9001 1 1" by (simp_all add: valid_date_def days_in_month_def)
  have o': "toordinal 1 1 1 = 1" "toordinal 9001 1 1 + 6300 \<le> max_ordinal"
    by (simp_all add: toordinal_def days_before_year_def days_before_month_def is_leap_def max_ordinal_def)
  have "\<not> toordinal (year t) (month t) (day t) < toordinal 1 1 1"
    using toordinal_order [OF d v(1)] assms(1) by (auto simp: near_def valid_def valid_date_def)
  moreover have "toordinal (year t) (month t) (day t) < toordinal 9001 1 1"
    using assms(1) by (intro toordinal_less d v) (simp add: near_def)
  ultimately show ?thesis using o' assms(2,3)
    by (auto simp: add_days_def Let_def split: prod.splits)
qed

lemma add_months_total:
  assumes "near t" and "0 \<le> n" and "n \<le> 10800"
  shows "\<exists>u. add_months t n = Ok u"
proof -
  have "1 \<le> month t" "month t \<le> 12" "1 \<le> year t" "year t \<le> 9000"
    using assms(1) by (simp_all add: near_def valid_def valid_date_def)
  moreover from this assms have "0 \<le> (month t - 1 + n) div 12" "(month t - 1 + n) div 12 \<le> 900" by simp_all
  ultimately show ?thesis by (simp add: add_months_def Let_def)
qed

lemma add_interval_total:
  assumes "near t" and "1 \<le> v" and "v \<le> 900"
  shows "\<exists>w. add_interval t (Some u) (Some v) = Ok w"
proof -
  have t: "valid t" using assms(1) by (simp add: near_def)
  show ?thesis
  proof (cases "u = DAY \<or> u = WEEK")
    case True
    then obtain x where "add_days t (fst (STEPS u) * v) = Ok x"
      using add_days_total [OF assms(1), of "fst (STEPS u) * v"] assms(2,3) by auto
    then show ?thesis using True add_months_0 [OF add_days_Ok(1) [OF t]] by (auto simp: add_interval_def)
  next
    case False
    then have "u = MONTH \<or> u = YEAR" by (cases u) simp_all
    then show ?thesis using add_months_total [OF assms(1), of "snd (STEPS u) * v"] assms(2,3) add_days_0 [OF t]
      by (auto simp: add_interval_def)
  qed
qed

end
