(* ===== verification/Enums.thy ===== *)
theory Enums
  imports Prelude
begin

text \<open>
  The closed sets of the domain, one datatype per module of \<^verbatim>\<open>enums/\<close> with the members of the
  \<^verbatim>\<open>StrEnum\<close>, and the groups of members the services test against. Members of two enumerations with
  one name are told apart by their type, as in \<open>subscription_status.ACTIVE\<close>. The member of
  \<^verbatim>\<open>BenefitPolicy\<close> spelled ALL is \<open>ALL_BENEFITS\<close>, a reserved word otherwise.
\<close>

section \<open>Accounts, letters and reports\<close>

datatype user_role = NORMAL | EDITOR | ADMINISTRATOR

datatype user_status = PENDING | ACTIVE | BLOCKED | ERASED

datatype authentication_surface = SITE | ADMIN

datatype social_provider = GOOGLE | APPLE | FACEBOOK | INSTAGRAM | GITHUB | LINKEDIN | MICROSOFT | DISCORD

datatype app_event_status = PENDING | PROCESSING | PROCESSED | IGNORED | FAILED

datatype outbound_email_status = PENDING | SENDING | SENT | FAILED | REFUSED

definition PANEL_ROLES :: "user_role list" where
  "PANEL_ROLES = [EDITOR, ADMINISTRATOR]"

section \<open>Subscriptions and what they hand over\<close>

datatype subscription_status = PENDING | TRIALING | ACTIVE | GRACE_PERIOD | SUSPENDED | EXPIRED | REVOKED

datatype benefit_status = ACTIVE | PAUSED | ENDED

datatype benefit_type = ACCESS | CREDIT | PRODUCT

datatype benefit_cadence = ON_ACTIVATION | RECURRING | ONCE_PER_USER

datatype benefit_policy = NONE | ACCESS_ONLY | ALL_BENEFITS

datatype missed_cycle_policy = SKIP | LATEST_ONLY | CATCH_UP

datatype resume_delivery_policy = SAME_CYCLE | NEW_CYCLE

datatype benefit_grant_status = PROCESSING | COMPLETED | SKIPPED | FAILED

datatype user_entitlement_status = ACTIVE | EXPIRED

datatype environment = SANDBOX | PRODUCTION

definition ELIGIBLE_SUBSCRIPTION_STATUSES :: "subscription_status list" where
  "ELIGIBLE_SUBSCRIPTION_STATUSES =
     [subscription_status.TRIALING, subscription_status.ACTIVE, subscription_status.GRACE_PERIOD]"

definition SCHEDULE_ADVANCE_STATUSES :: "benefit_grant_status list" where
  "SCHEDULE_ADVANCE_STATUSES = [benefit_grant_status.COMPLETED, benefit_grant_status.SKIPPED]"

definition CLOSED_SUBSCRIPTION_STATUSES :: "subscription_status list" where
  "CLOSED_SUBSCRIPTION_STATUSES = [subscription_status.EXPIRED, subscription_status.REVOKED]"

section \<open>Commerce\<close>

datatype purchase_status = PENDING | PAID | CANCELED | FAILED | REFUNDED | CHARGED_BACK

datatype credit_transaction_type = CREDIT | DEBIT | REVERSAL | ADJUSTMENT

definition SETTLED_PURCHASE_STATUSES :: "purchase_status list" where
  "SETTLED_PURCHASE_STATUSES = [purchase_status.PAID, purchase_status.REFUNDED, purchase_status.CHARGED_BACK]"

section \<open>Gateways, notices and logs\<close>

datatype provider = REVENUECAT | STRIPE

datatype normalized_action = ACTIVATE | RENEW | CANCEL_AT_PERIOD_END | SUSPEND | RESUME | EXPIRE | REFUND
  | CHANGE_PLAN | ENTER_GRACE | EXTEND

datatype webhook_event_status = RECEIVED | PROCESSING | COMPLETED | IGNORED | FAILED

datatype log_level = INFO | SUCCESS | WARNING | ERROR

datatype log_category = CRON | ADMIN | ACCOUNT | PURCHASE | CONTENT

lemmas status_groups = ELIGIBLE_SUBSCRIPTION_STATUSES_def SCHEDULE_ADVANCE_STATUSES_def
  CLOSED_SUBSCRIPTION_STATUSES_def SETTLED_PURCHASE_STATUSES_def

lemma closed_not_eligible:
  "st \<in> set CLOSED_SUBSCRIPTION_STATUSES \<Longrightarrow> st \<notin> set ELIGIBLE_SUBSCRIPTION_STATUSES"
  by (cases st) (simp_all add: status_groups)

end
