(* ===== verification/Tables.thy ===== *)
theory Tables
  imports Prelude
begin

text \<open>
  The statements the services send to the database, over a table as the list of its rows in the order
  of their keys. A SELECT filters the list and a scalar one answers its first row; an UPDATE with a
  WHERE rewrites every row that meets the condition and answers how many (its \<open>rowcount\<close>); an INSERT
  appends a row under the next key and is refused where a unique key of the table would be held twice.
  \<open>insert_or_read\<close> is \<^verbatim>\<open>helpers/db.py\<close>'s write that settles a race instead of failing one.
\<close>

section \<open>Rows and tables\<close>

record row = rid :: nat

definition fetch :: "nat \<Rightarrow> ('a row_scheme) list \<Rightarrow> 'a row_scheme option" where
  "fetch i t = List.find (\<lambda>r. rid r = i) t"

definition amend :: "('a row_scheme \<Rightarrow> bool) \<Rightarrow> ('a row_scheme \<Rightarrow> 'a row_scheme) \<Rightarrow> ('a row_scheme) list \<Rightarrow> ('a row_scheme) list" where
  "amend p f t = map (\<lambda>r. if p r then f r else r) t"

definition hits :: "('a row_scheme \<Rightarrow> bool) \<Rightarrow> ('a row_scheme) list \<Rightarrow> nat" where
  "hits p t = length (filter p t)"

definition next_id :: "('a row_scheme) list \<Rightarrow> nat" where
  "next_id t = Suc (foldr max (map rid t) 0)"

text \<open>
  A unique key may be null, and no null equals another: a row is free of the others where none of them
  holds the key it holds, and a key is unique on a table where every row is free of those after it.
\<close>

definition free_of :: "('r \<Rightarrow> 'k option) \<Rightarrow> 'r list \<Rightarrow> 'r \<Rightarrow> bool" where
  "free_of key t r \<longleftrightarrow> (case key r of None \<Rightarrow> True | Some k \<Rightarrow> list_all (\<lambda>q. key q \<noteq> Some k) t)"

fun unique_on :: "('r \<Rightarrow> 'k option) \<Rightarrow> 'r list \<Rightarrow> bool" where
  "unique_on key [] = True"
| "unique_on key (r # t) = (free_of key t r \<and> unique_on key t)"

definition append_row :: "'a row_scheme \<Rightarrow> ('a row_scheme) list \<Rightarrow> ('a row_scheme) list" where
  "append_row r t = t @ [r\<lparr>rid := next_id t\<rparr>]"

section \<open>What settles a race\<close>

text \<open>
  What \<open>insert_or_read\<close> answers: the very row it was handed, now written; the row somebody else wrote; or
  nothing, where a unique key refused the insert and the read does not name the row that holds it.
\<close>

datatype 'r settled = Wrote 'r | Found 'r | Missed

definition insert_or_read ::
  "('a row_scheme list \<Rightarrow> 'a row_scheme \<Rightarrow> bool) \<Rightarrow> ('a row_scheme \<Rightarrow> bool) \<Rightarrow> 'a row_scheme \<Rightarrow> 'a row_scheme list
    \<Rightarrow> 'a row_scheme settled \<times> 'a row_scheme list" where
  "insert_or_read accepts read new t =
     (case List.find read t of
        Some r \<Rightarrow> (Found r, t)
      | None \<Rightarrow>
          if accepts t new then (Wrote (new\<lparr>rid := next_id t\<rparr>), append_row new t)
          else (case List.find read t of Some r \<Rightarrow> (Found r, t) | None \<Rightarrow> (Missed, t)))"

section \<open>Facts of the statements\<close>

lemma fetch_Some_in: "fetch i t = Some r \<Longrightarrow> r \<in> set t \<and> rid r = i"
  using find_Some_in [of "\<lambda>r. rid r = i" t r] by (simp add: fetch_def)

lemma fetch_None_iff: "fetch i t = None \<longleftrightarrow> i \<notin> rid ` set t"
  by (auto simp: fetch_def find_None_iff_all)

lemma fetch_distinct: "distinct (map rid t) \<Longrightarrow> r \<in> set t \<Longrightarrow> fetch (rid r) t = Some r"
  by (induction t) (auto simp: fetch_def image_iff)

lemma fetch_append_row:
  "fetch i (append_row r t) = (case fetch i t of Some q \<Rightarrow> Some q | None \<Rightarrow> if i = next_id t then Some (r\<lparr>rid := i\<rparr>) else None)"
  by (auto simp: append_row_def fetch_def find_append split: option.splits)

lemma fetch_amend:
  assumes "\<And>r. p r \<Longrightarrow> rid (f r) = rid r"
  shows "fetch i (amend p f t) = map_option (\<lambda>r. if p r then f r else r) (fetch i t)"
  using assms by (induction t) (auto simp: fetch_def amend_def)

lemma amend_rid:
  assumes "\<And>r. p r \<Longrightarrow> rid (f r) = rid r"
  shows "map rid (amend p f t) = map rid t"
  using assms by (simp add: amend_def)

lemma amend_none: "(\<And>r. r \<in> set t \<Longrightarrow> \<not> p r) \<Longrightarrow> amend p f t = t"
  by (simp add: amend_def map_idI)

lemma hits_0_amend: "hits p t = 0 \<Longrightarrow> amend p f t = t"
  by (intro amend_none) (simp add: hits_def filter_empty_conv)

lemma length_amend [simp]: "length (amend p f t) = length t"
  by (simp add: amend_def)

lemma set_amend: "r \<in> set (amend p f t) \<longleftrightarrow> (\<exists>q\<in>set t. r = (if p q then f q else q))"
  by (auto simp: amend_def)

lemma map_amend:
  assumes "\<And>r. p r \<Longrightarrow> g (f r) = g r"
  shows "map g (amend p f t) = map g t"
  using assms by (simp add: amend_def)

lemma map_filter_amend:
  assumes "\<And>r. p r \<Longrightarrow> g (f r) = g r"
  shows "List.map_filter g (amend p f t) = List.map_filter g t"
  using assms by (induction t) (auto simp: amend_def List.map_filter_def)

lemma rid_less_next: "r \<in> set t \<Longrightarrow> rid r < next_id t"
proof (induction t)
  case Nil
  then show ?case by simp
next
  case (Cons q t)
  then show ?case by (auto simp: next_id_def less_Suc_eq_le le_max_iff_disj)
qed

lemma fetch_next_id [simp]: "fetch (next_id t) t = None"
  using rid_less_next [of _ t] by (fastforce simp: fetch_None_iff)

lemma distinct_append_row: "distinct (map rid t) \<Longrightarrow> distinct (map rid (append_row r t))"
  using rid_less_next [of _ t] by (fastforce simp: append_row_def)

lemma set_append_row: "set (append_row r t) = insert (r\<lparr>rid := next_id t\<rparr>) (set t)"
  by (simp add: append_row_def)

lemma unique_on_append:
  "unique_on key (t @ [r]) \<longleftrightarrow> unique_on key t \<and> free_of key t r"
  by (induction t) (auto simp: free_of_def list_all_iff split: option.splits)

lemma free_of_keys: "free_of key t r \<longleftrightarrow> key r = None \<or> key r \<notin> key ` set t"
  by (cases "key r") (auto simp: free_of_def list_all_iff image_iff)

lemma keys_amend:
  assumes "\<And>r. p r \<Longrightarrow> key (f r) = key r"
  shows "key ` set (amend p f t) = key ` set t"
  using map_amend [of p key f t] assms by (metis list.set_map)

lemma unique_on_amend:
  assumes "\<And>r. p r \<Longrightarrow> key (f r) = key r"
  shows "unique_on key (amend p f t) = unique_on key t"
proof (induction t)
  case Nil
  then show ?case by (simp add: amend_def)
next
  case (Cons r t)
  have "key (if p r then f r else r) = key r" using assms by simp
  moreover have "key ` set (amend p f t) = key ` set t" using assms by (rule keys_amend)
  ultimately have "free_of key (amend p f t) (if p r then f r else r) = free_of key t r"
    by (simp only: free_of_keys)
  with Cons show ?case by (simp add: amend_def)
qed

lemma unique_onD:
  "unique_on key t \<Longrightarrow> r \<in> set t \<Longrightarrow> q \<in> set t \<Longrightarrow> key r = Some k \<Longrightarrow> key q = Some k \<Longrightarrow> r = q"
  by (induction t) (auto simp: free_of_def list_all_iff)

section \<open>The contract of insert or read\<close>

text \<open>
  The interface every table that is written idempotently offers: a named key that no two rows share, a
  read that names a row by it, and the promise that the write never leaves two rows under one key.
\<close>

locale keyed_table =
  fixes accepts :: "'a row_scheme list \<Rightarrow> 'a row_scheme \<Rightarrow> bool"
    and key :: "'a row_scheme \<Rightarrow> 'k option"
  assumes accepts_free: "accepts t r \<Longrightarrow> free_of key t r"
    and key_rid: "key (r\<lparr>rid := i\<rparr>) = key r"
begin

lemma append_unique:
  assumes "unique_on key t" and "accepts t r"
  shows "unique_on key (append_row r t)"
proof -
  have "free_of key t (r\<lparr>rid := next_id t\<rparr>)"
    using accepts_free [OF assms(2)] by (simp add: free_of_def key_rid)
  with assms(1) show ?thesis by (simp add: append_row_def unique_on_append)
qed

lemma insert_or_read_unique:
  "unique_on key t \<Longrightarrow> insert_or_read accepts read r t = (w, u) \<Longrightarrow> unique_on key u"
  by (auto simp: insert_or_read_def append_unique split: option.splits if_splits)

lemma insert_or_read_again:
  assumes "insert_or_read accepts read r t = (w, u)" and "read (r\<lparr>rid := next_id t\<rparr>)" and "w \<noteq> Missed"
  shows "\<exists>q. insert_or_read accepts read r u = (Found q, u)"
proof (cases "List.find read t")
  case (Some q)
  with assms(1) show ?thesis by (auto simp: insert_or_read_def)
next
  case None
  with assms(1,3) have "u = append_row r t"
    by (auto simp: insert_or_read_def split: if_splits)
  with None assms(2) have "List.find read u = Some (r\<lparr>rid := next_id t\<rparr>)"
    by (simp add: append_row_def find_append)
  then show ?thesis by (simp add: insert_or_read_def)
qed

end

lemma insert_or_read_cases:
  assumes "insert_or_read accepts read r t = (w, u)"
  obtains (found) q where "w = Found q" "u = t" "q \<in> set t" "read q"
    | (wrote) "w = Wrote (r\<lparr>rid := next_id t\<rparr>)" "u = append_row r t" "accepts t r" "List.find read t = None"
    | (missed) "w = Missed" "u = t" "\<not> accepts t r" "List.find read t = None"
proof (cases "List.find read t")
  case None
  with assms show thesis
    by (cases "accepts t r") (auto simp: insert_or_read_def intro: wrote missed)
next
  case (Some q)
  with assms have "w = Found q" "u = t" by (simp_all add: insert_or_read_def)
  with find_Some_in [OF Some] show thesis by (intro found [of q]) simp_all
qed

end
