(* ===== verification/Domain.thy ===== *)
theory Domain
  imports Clock Enums Tables
begin

text \<open>
  The tables of \<^verbatim>\<open>models/\<close> the subscription, commerce and gateway services read and write, one record
  per mapped class with the columns those services use (a column whose only reader is a screen is left
  out), the database as one record of tables, and the session a service runs in: the database as the
  open transaction sees it, as it was last committed, and the clock. A row with its unique constraints
  is what decides whether the database takes an insert. A free-form JSON column is kept only where a
  service reads it back; the amounts of credits are integers as in the schema, and a price, a \<^verbatim>\<open>NUMERIC(12,3)\<close>, counts thousandths.
\<close>

section \<open>Catalogue: plans, entitlements, benefits, products, currencies\<close>

record plan_row = row +
  pl_tenant :: "nat option"
  pl_name :: string
  pl_resume_delivery_policy :: resume_delivery_policy
  pl_trial_benefit_policy :: benefit_policy
  pl_grace_benefit_policy :: benefit_policy

record plan_entitlement_row = row +
  pe_plan :: nat
  pe_entitlement :: nat

record benefit_row = row +
  be_entitlement :: nat
  be_product :: "nat option"
  be_currency :: "nat option"
  be_type :: benefit_type
  be_target :: string
  be_quantity :: int
  be_cadence :: benefit_cadence
  be_interval_unit :: "interval_unit option"
  be_interval_value :: "int option"
  be_grant_on_activation :: bool
  be_missed_cycle_policy :: missed_cycle_policy
  be_active :: bool

record product_row = row +
  pr_tenant :: "nat option"
  pr_name :: string
  pr_credits :: int
  pr_credits_currency :: "nat option"
  pr_currency :: string
  pr_price :: int

record currency_row = row +
  cu_tenant :: "nat option"

section \<open>Brands and languages\<close>

record tenant_row = row +
  te_code :: string
  te_name :: string
  te_domain :: string
  te_email_contact :: string
  te_active :: bool

record language_row = row +
  la_code_iso_639_1 :: string
  la_active :: bool

section \<open>What an account holds\<close>

record user_row = row +
  us_tenant :: "nat option"
  us_token :: string
  us_language :: "nat option"
  us_username :: "string option"
  us_email :: "string option"
  us_document :: "string option"
  us_mobile_phone :: "string option"
  us_password_hash :: string
  us_role :: user_role
  us_reaches_shared :: bool
  us_status :: user_status
  us_first_name :: "string option"
  us_last_name :: "string option"
  us_nickname :: "string option"
  us_avatar :: "string option"
  us_notes :: "string option"
  us_recovery_token :: "string option"
  us_recovery_token_created_at :: "datetime option"
  us_pending_email :: "string option"
  us_confirmation_token :: "string option"
  us_confirmation_sent_at :: "datetime option"
  us_reconciled_at :: "datetime option"
  us_last_login_at :: "datetime option"
  us_failed_sign_ins :: nat
  us_sign_in_blocked_until :: "datetime option"
  us_session_epoch :: nat
  us_erased_at :: "datetime option"

record provider_meta =
  pm_store :: "string option"
  pm_ownership :: "string option"
  pm_period_type :: "string option"
  pm_recurring :: bool

record subscription_row = row +
  su_tenant :: "nat option"
  su_user :: nat
  su_plan :: nat
  su_integration :: "nat option"
  su_external_product :: "nat option"
  su_external_id :: "string option"
  su_status :: subscription_status
  su_benefit_status :: benefit_status
  su_environment :: "environment option"
  su_started_at :: "datetime option"
  su_current_period_started_at :: "datetime option"
  su_current_period_ends_at :: "datetime option"
  su_access_until :: "datetime option"
  su_trial_ends_at :: "datetime option"
  su_grace_until :: "datetime option"
  su_cancel_at_period_end :: bool
  su_canceled_at :: "datetime option"
  su_expired_at :: "datetime option"
  su_stated_at :: "datetime option"
  su_provider_meta :: "provider_meta option"

record user_entitlement_row = row +
  ue_subscription :: nat
  ue_entitlement :: nat
  ue_status :: user_entitlement_status
  ue_started_at :: "datetime option"
  ue_expires_at :: "datetime option"
  ue_revoked_at :: "datetime option"

record subscription_benefit_row = row +
  sb_subscription :: nat
  sb_benefit :: nat
  sb_user_entitlement :: nat
  sb_product :: "nat option"
  sb_currency :: "nat option"
  sb_status :: benefit_status
  sb_benefit_type :: benefit_type
  sb_target :: string
  sb_quantity :: int
  sb_cadence :: benefit_cadence
  sb_interval_unit :: "interval_unit option"
  sb_interval_value :: "int option"
  sb_grant_on_activation :: bool
  sb_missed_cycle_policy :: missed_cycle_policy
  sb_anchor_at :: datetime
  sb_cycle :: nat
  sb_last_grant_at :: "datetime option"
  sb_next_grant_at :: "datetime option"

datatype grant_result =
    NoResult
  | AccessResult nat
  | CreditResult nat int
  | ProductResult "nat option" nat

record benefit_grant_row = row +
  bg_subscription_benefit :: nat
  bg_grant_key :: string
  bg_user_benefit_key :: "string option"
  bg_cycle :: nat
  bg_cycle_key :: string
  bg_scheduled_at :: datetime
  bg_status :: benefit_grant_status
  bg_requested_quantity :: int
  bg_granted_quantity :: int
  bg_result :: grant_result
  bg_error_code :: "string option"
  bg_attempts :: nat
  bg_started_at :: "datetime option"
  bg_completed_at :: "datetime option"

record user_product_row = row +
  up_user :: nat
  up_product :: nat
  up_purchase :: "nat option"
  up_subscription :: "nat option"
  up_benefit_grant :: "nat option"
  up_granted_at :: datetime

record user_balance_row = row +
  ub_user :: nat
  ub_currency :: nat
  ub_amount :: int

record credit_transaction_row = row +
  ct_user :: nat
  ct_currency :: nat
  ct_benefit_grant :: "nat option"
  ct_type :: credit_transaction_type
  ct_amount :: int
  ct_balance_after :: int
  ct_idempotency_key :: string
  ct_description :: "string option"

section \<open>Payments, gateways and notices\<close>

record purchase_row = row +
  pu_tenant :: "nat option"
  pu_user :: nat
  pu_product :: nat
  pu_integration :: "nat option"
  pu_reference :: string
  pu_external_id :: "string option"
  pu_currency :: string
  pu_price :: int
  pu_status :: purchase_status
  pu_paid_at :: "datetime option"

record external_product_row = row +
  ep_integration :: nat
  ep_plan :: nat
  ep_external_id :: string
  ep_active :: bool

record integration_row = row +
  in_tenant :: "nat option"
  in_provider :: provider
  in_webhook_key :: string
  in_api_key :: "string option"
  in_webhook_secret :: "string option"
  in_active :: bool

record webhook_event_row = row +
  we_tenant :: "nat option"
  we_integration :: nat
  we_user :: "nat option"
  we_subscription :: "nat option"
  we_external_event_id :: string
  we_payload :: string
  we_occurred_at :: "datetime option"
  we_processed_at :: "datetime option"
  we_status :: webhook_event_status
  we_error_code :: "string option"
  we_attempts :: nat
  we_created_at :: datetime
  we_updated_at :: datetime

record system_log_row = row +
  lo_tenant :: "nat option"
  lo_user :: "nat option"
  lo_level :: log_level
  lo_category :: "log_category option"
  lo_description :: string

record client_request_row = row +
  cr_user :: nat
  cr_idempotency_key :: string
  cr_endpoint :: string
  cr_answer :: "string option"
  cr_claimed_at :: datetime

section \<open>Reports, letters and ways in\<close>

record app_event_row = row +
  ae_tenant :: "nat option"
  ae_user :: "nat option"
  ae_uuid :: string
  ae_name :: string
  ae_status :: app_event_status
  ae_attempts :: nat
  ae_error_code :: "string option"
  ae_processed_at :: "datetime option"
  ae_created_at :: datetime
  ae_updated_at :: datetime

record outbound_email_row = row +
  oe_tenant :: "nat option"
  oe_to :: string
  oe_reply_to :: "string option"
  oe_subject :: string
  oe_template :: string
  oe_locale :: string
  oe_context :: "(string \<times> string) list"
  oe_status :: outbound_email_status
  oe_attempts :: nat
  oe_error_code :: "string option"
  oe_sent_at :: "datetime option"
  oe_created_at :: datetime
  oe_updated_at :: datetime

record suppressed_address_row = row +
  sa_address :: string
  sa_reason :: string

record login_ticket_row = row +
  lt_tenant :: "nat option"
  lt_user :: nat
  lt_session_epoch :: nat
  lt_token_digest :: string
  lt_browser_digest :: string
  lt_expires_at :: datetime
  lt_consumed_at :: "datetime option"

record email_login_challenge_row = row +
  el_tenant :: "nat option"
  el_scope_key :: string
  el_surface :: authentication_surface
  el_email :: string
  el_token :: string
  el_code_digest :: string
  el_attempts :: nat
  el_expires_at :: datetime
  el_resend_at :: datetime
  el_consumed_at :: "datetime option"

record social_identity_row = row +
  si_tenant :: "nat option"
  si_user :: nat
  si_provider :: social_provider
  si_subject :: string
  si_created_at :: datetime

record social_login_attempt_row = row +
  sl_tenant :: "nat option"
  sl_user :: "nat option"
  sl_session_epoch :: "nat option"
  sl_surface :: authentication_surface
  sl_provider :: social_provider
  sl_state_digest :: string
  sl_browser_digest :: string
  sl_nonce :: string
  sl_verifier_encrypted :: string
  sl_redirect_uri :: string
  sl_next_path :: string
  sl_expires_at :: datetime
  sl_consumed_at :: "datetime option"

record stored_file_row = row +
  sf_key :: string
  sf_claimed_at :: "datetime option"
  sf_created_at :: datetime

section \<open>The database and the session\<close>

record db =
  tenants :: "tenant_row list"
  languages :: "language_row list"
  plans :: "plan_row list"
  plan_entitlements :: "plan_entitlement_row list"
  benefits :: "benefit_row list"
  products :: "product_row list"
  currencies :: "currency_row list"
  users :: "user_row list"
  subscriptions :: "subscription_row list"
  user_entitlements :: "user_entitlement_row list"
  subscription_benefits :: "subscription_benefit_row list"
  grants :: "benefit_grant_row list"
  user_products :: "user_product_row list"
  balances :: "user_balance_row list"
  ledger :: "credit_transaction_row list"
  purchases :: "purchase_row list"
  external_products :: "external_product_row list"
  integrations :: "integration_row list"
  webhook_events :: "webhook_event_row list"
  logs :: "system_log_row list"
  client_requests :: "client_request_row list"
  app_events :: "app_event_row list"
  outbound_emails :: "outbound_email_row list"
  suppressed_addresses :: "suppressed_address_row list"
  login_tickets :: "login_ticket_row list"
  email_login_challenges :: "email_login_challenge_row list"
  stored_files :: "stored_file_row list"
  social_identities :: "social_identity_row list"
  social_login_attempts :: "social_login_attempt_row list"

record session =
  live :: db
  kept :: db
  clock :: datetime

type_synonym 'a service = "(session, 'a) svc"

section \<open>The unique constraints of the tables\<close>

definition user_entitlement_key :: "user_entitlement_row \<Rightarrow> (nat \<times> nat) option" where
  "user_entitlement_key r = Some (ue_subscription r, ue_entitlement r)"

definition subscription_benefit_key :: "subscription_benefit_row \<Rightarrow> (nat \<times> nat) option" where
  "subscription_benefit_key r = Some (sb_subscription r, sb_benefit r)"

definition grant_key_of :: "benefit_grant_row \<Rightarrow> string option" where
  "grant_key_of r = Some (bg_grant_key r)"

definition grant_cycle_of :: "benefit_grant_row \<Rightarrow> (nat \<times> string) option" where
  "grant_cycle_of r = Some (bg_subscription_benefit r, bg_cycle_key r)"

definition accepts_grant :: "benefit_grant_row list \<Rightarrow> benefit_grant_row \<Rightarrow> bool" where
  "accepts_grant t r \<longleftrightarrow> free_of grant_key_of t r \<and> free_of grant_cycle_of t r \<and> free_of bg_user_benefit_key t r"

definition owner_key :: "user_product_row \<Rightarrow> (nat \<times> nat) option" where
  "owner_key r = Some (up_user r, up_product r)"

definition balance_key :: "user_balance_row \<Rightarrow> (nat \<times> nat) option" where
  "balance_key r = Some (ub_user r, ub_currency r)"

definition ledger_key :: "credit_transaction_row \<Rightarrow> string option" where
  "ledger_key r = Some (ct_idempotency_key r)"

definition reference_key :: "purchase_row \<Rightarrow> string option" where
  "reference_key r = Some (pu_reference r)"

definition payment_key :: "purchase_row \<Rightarrow> (nat \<times> string) option" where
  "payment_key r = (case (pu_integration r, pu_external_id r) of (Some i, Some e) \<Rightarrow> Some (i, e) | _ \<Rightarrow> None)"

definition receipt_key :: "subscription_row \<Rightarrow> (nat \<times> string) option" where
  "receipt_key r = (case (su_integration r, su_external_id r) of (Some i, Some e) \<Rightarrow> Some (i, e) | _ \<Rightarrow> None)"

definition holding_key :: "subscription_row \<Rightarrow> (nat \<times> nat \<times> nat) option" where
  "holding_key r = (case (su_integration r, su_external_product r) of (Some i, Some p) \<Rightarrow> Some (su_user r, i, p) | _ \<Rightarrow> None)"

definition accepts_subscription :: "subscription_row list \<Rightarrow> subscription_row \<Rightarrow> bool" where
  "accepts_subscription t r \<longleftrightarrow> free_of receipt_key t r \<and> free_of holding_key t r"

definition subscription_keys :: "subscription_row list \<Rightarrow> bool" where
  "subscription_keys t \<longleftrightarrow> unique_on receipt_key t \<and> unique_on holding_key t"

definition notice_key :: "webhook_event_row \<Rightarrow> (nat \<times> string) option" where
  "notice_key r = Some (we_integration r, we_external_event_id r)"

definition user_token_key :: "user_row \<Rightarrow> string option" where
  "user_token_key r = Some (us_token r)"

text \<open>\<open>tenant_scoped_unique\<close>: unique inside the tenant, where the rows with no tenant are a scope of their own.\<close>

definition scoped :: "(user_row \<Rightarrow> string option) \<Rightarrow> user_row \<Rightarrow> (nat \<times> string) option" where
  "scoped column r = map_option (\<lambda>v. (case us_tenant r of None \<Rightarrow> 0 | Some t \<Rightarrow> t, v)) (column r)"

definition accepts_user :: "user_row list \<Rightarrow> user_row \<Rightarrow> bool" where
  "accepts_user t r \<longleftrightarrow> free_of user_token_key t r \<and> free_of (scoped us_username) t r \<and> free_of (scoped us_email) t r
     \<and> free_of (scoped us_document) t r \<and> free_of (scoped us_mobile_phone) t r"

definition user_keys :: "user_row list \<Rightarrow> bool" where
  "user_keys t \<longleftrightarrow> unique_on user_token_key t \<and> unique_on (scoped us_username) t \<and> unique_on (scoped us_email) t
     \<and> unique_on (scoped us_document) t \<and> unique_on (scoped us_mobile_phone) t"

definition report_key :: "app_event_row \<Rightarrow> string option" where
  "report_key r = Some (ae_uuid r)"

definition address_key :: "suppressed_address_row \<Rightarrow> string option" where
  "address_key r = Some (sa_address r)"

definition ticket_key :: "login_ticket_row \<Rightarrow> string option" where
  "ticket_key r = Some (lt_token_digest r)"

definition attempt_key :: "social_login_attempt_row \<Rightarrow> string option" where
  "attempt_key r = Some (sl_state_digest r)"

definition identity_subject :: "social_identity_row \<Rightarrow> (nat \<times> social_provider \<times> string) option" where
  "identity_subject r = Some (case si_tenant r of None \<Rightarrow> 0 | Some t \<Rightarrow> t, si_provider r, si_subject r)"

definition accepts_identity :: "social_identity_row list \<Rightarrow> social_identity_row \<Rightarrow> bool" where
  "accepts_identity t r \<longleftrightarrow> free_of identity_subject t r \<and> free_of (\<lambda>q. Some (si_user q, si_provider q)) t r"

definition accepts_challenge :: "email_login_challenge_row list \<Rightarrow> email_login_challenge_row \<Rightarrow> bool" where
  "accepts_challenge t r \<longleftrightarrow> free_of (\<lambda>q. Some (el_scope_key q)) t r \<and> free_of (\<lambda>q. Some (el_token q)) t r"

definition request_key :: "client_request_row \<Rightarrow> (nat \<times> string) option" where
  "request_key r = Some (cr_user r, cr_idempotency_key r)"

lemmas key_defs = user_entitlement_key_def subscription_benefit_key_def grant_key_of_def grant_cycle_of_def
  owner_key_def balance_key_def ledger_key_def reference_key_def payment_key_def receipt_key_def
  holding_key_def notice_key_def request_key_def

section \<open>Statements and transactions\<close>

definition query :: "(db \<Rightarrow> 'a) \<Rightarrow> 'a service" where
  "query f = reads (\<lambda>s. f (live s))"

definition now :: "datetime service" where
  "now = reads clock"

definition commit :: "unit service" where
  "commit = writes (\<lambda>s. s\<lparr>kept := live s\<rparr>)"

definition rollback :: "unit service" where
  "rollback = writes (\<lambda>s. s\<lparr>live := kept s\<rparr>)"

text \<open>
  An UPDATE over one table, where \<open>holds\<close> is what the unique constraints ask of the table it leaves: it
  is refused with an \<open>IntegrityError\<close>, and answers its rowcount otherwise. A write to the attributes of
  one mapped object is the same statement over its key.
\<close>

type_synonym 'r put = "('r list \<Rightarrow> 'r list) \<Rightarrow> db \<Rightarrow> db"

definition alter :: "(db \<Rightarrow> 'r row_scheme list) \<Rightarrow> 'r row_scheme put \<Rightarrow> ('r row_scheme list \<Rightarrow> bool)
    \<Rightarrow> ('r row_scheme \<Rightarrow> bool) \<Rightarrow> ('r row_scheme \<Rightarrow> 'r row_scheme) \<Rightarrow> nat service" where
  "alter get put holds p f = (\<lambda>s. let t = get (live s); u = amend p f t in
     if hits p t = 0 \<or> holds u then (Ok (hits p t), s\<lparr>live := put (\<lambda>_. u) (live s)\<rparr>) else (Err IntegrityError, s))"

definition free_keys :: "'r list \<Rightarrow> bool" where
  "free_keys t \<longleftrightarrow> True"

definition named :: "nat \<Rightarrow> 'r row_scheme \<Rightarrow> bool" where
  "named i r \<longleftrightarrow> rid r = i"

lemma hits_alone:
  assumes "distinct (map rid t)" and "fetch i t = Some r"
  shows "hits (\<lambda>q. named i q \<and> p q) t = (if p r then 1 else 0)"
proof -
  have "hits (\<lambda>q. named i q \<and> p q) t = length (filter p (filter (named i) t))" by (simp add: hits_def)
  also have "filter (named i) t = [r]"
    using assms
  proof (induction t)
    case Nil
    then show ?case by (simp add: fetch_def)
  next
    case (Cons q t)
    show ?case
    proof (cases "rid q = i")
      case True
      then have "q = r" using Cons.prems(2) by (simp add: fetch_def)
      moreover have "\<not> named i x" if "x \<in> set t" for x
        using that True Cons.prems(1) by (auto simp: named_def image_iff)
      ultimately show ?thesis using True by (simp add: named_def filter_empty_conv)
    next
      case False
      with Cons show ?thesis by (simp add: fetch_def named_def)
    qed
  qed
  finally show ?thesis by simp
qed

text \<open>A DELETE over one table, which answers its rowcount.\<close>

definition remove :: "(db \<Rightarrow> 'r row_scheme list) \<Rightarrow> 'r row_scheme put \<Rightarrow> ('r row_scheme \<Rightarrow> bool) \<Rightarrow> nat service" where
  "remove get put p = (\<lambda>s. (Ok (hits p (get (live s))),
     s\<lparr>live := put (\<lambda>_. filter (\<lambda>r. \<not> p r) (get (live s))) (live s)\<rparr>))"

text \<open>\<open>db.add(row)\<close> and the flush that gives it its key.\<close>

definition store :: "(db \<Rightarrow> 'r row_scheme list) \<Rightarrow> 'r row_scheme put \<Rightarrow> ('r row_scheme list \<Rightarrow> 'r row_scheme \<Rightarrow> bool)
    \<Rightarrow> 'r row_scheme \<Rightarrow> 'r row_scheme service" where
  "store get put accepts r = (\<lambda>s. let t = get (live s) in
     if accepts t r then (Ok (r\<lparr>rid := next_id t\<rparr>), s\<lparr>live := put (\<lambda>_. append_row r t) (live s)\<rparr>)
     else (Err IntegrityError, s))"

definition settle :: "(db \<Rightarrow> 'r row_scheme list) \<Rightarrow> 'r row_scheme put \<Rightarrow> ('r row_scheme list \<Rightarrow> 'r row_scheme \<Rightarrow> bool)
    \<Rightarrow> ('r row_scheme \<Rightarrow> bool) \<Rightarrow> 'r row_scheme \<Rightarrow> 'r row_scheme settled service" where
  "settle get put accepts read r = (\<lambda>s. case insert_or_read accepts read r (get (live s)) of
     (w, u) \<Rightarrow> (Ok w, s\<lparr>live := put (\<lambda>_. u) (live s)\<rparr>))"

text \<open>\<open>db.get(Model, key)\<close>, where what reads an attribute of a missing row raises.\<close>

definition load :: "(db \<Rightarrow> 'r row_scheme list) \<Rightarrow> nat \<Rightarrow> 'r row_scheme service" where
  "load get i = andThen (query (\<lambda>d. fetch i (get d))) need"

lemmas statements = query_def now_def commit_def rollback_def alter_def store_def settle_def load_def

text \<open>
  \<open>refusing\<close> of \<^verbatim>\<open>helpers/db.py\<close>: a constraint the database enforced on the write is a conflict the
  caller can act on, and the transaction is rolled back.
\<close>

definition refusing :: "string \<Rightarrow> 'a service \<Rightarrow> 'a service" where
  "refusing code m = handle m (\<lambda>e. case e of
       IntegrityError \<Rightarrow> andThen rollback (\<lambda>_. throw (ConflictError code))
     | _ \<Rightarrow> throw e)"

text \<open>The updates of the tables whose written columns are in no unique key, or are only ever cleared of one.\<close>

abbreviation "write_subscriptions \<equiv> alter subscriptions subscriptions_update free_keys"
abbreviation "write_entitlements \<equiv> alter user_entitlements user_entitlements_update free_keys"
abbreviation "write_benefits \<equiv> alter subscription_benefits subscription_benefits_update free_keys"
abbreviation "write_grants \<equiv> alter grants grants_update free_keys"
abbreviation "write_events \<equiv> alter webhook_events webhook_events_update free_keys"

section \<open>The system log\<close>

text \<open>
  \<open>system_log_service.stage\<close> adds an entry to the transaction of the caller, and \<open>record\<close> commits it,
  together with everything the caller had written by then.
\<close>

definition stage :: "nat option \<Rightarrow> nat option \<Rightarrow> log_level \<Rightarrow> log_category option \<Rightarrow> string \<Rightarrow> unit service" where
  "stage tenant user level category description =
     andThen (store logs logs_update (\<lambda>_ _. True)
       \<lparr>rid = 0, lo_tenant = tenant, lo_user = user, lo_level = level, lo_category = category, lo_description = description\<rparr>)
     (\<lambda>_. ret ())"

definition record_log :: "nat option \<Rightarrow> nat option \<Rightarrow> log_level \<Rightarrow> log_category option \<Rightarrow> string \<Rightarrow> unit service" where
  "record_log tenant user level category description =
     andThen (stage tenant user level category description) (\<lambda>_. commit)"

end
