(* ===== verification/Effects.thy ===== *)
theory Effects
  imports Domain
begin

text \<open>
  What a service leaves of the database. An invariant is kept by a session when both the database its
  transaction sees and the committed one satisfy it, so neither a commit nor a rollback can lose it.
  A preorder on databases (a ledger that only grows, products nobody takes back) advances through a
  session when the transaction and every commit it makes only move along it. Both compose over the
  statements of a service; each statement owes one fact about one table.
\<close>

section \<open>Invariants of both databases\<close>

definition steady :: "(db \<Rightarrow> bool) \<Rightarrow> session \<Rightarrow> bool" where
  "steady I s \<longleftrightarrow> I (live s) \<and> I (kept s)"

lemma steady_commit: "effect (keeps (steady I)) commit"
  by (simp add: effect_def commit_def writes_def keeps_def steady_def)

lemma steady_rollback: "effect (keeps (steady I)) rollback"
  by (simp add: effect_def rollback_def writes_def keeps_def steady_def)

lemma steady_query: "effect (keeps (steady I)) (query f)"
  unfolding query_def by (rule keeps_order.reads_ok)

lemma steady_now: "effect (keeps (steady I)) now"
  unfolding now_def by (rule keeps_order.reads_ok)

lemma steady_load: "effect (keeps (steady I)) (load get i)"
  unfolding load_def by (intro keeps_order.andThen_ok steady_query keeps_order.need_ok)

lemma steady_alter:
  assumes "\<And>d u. I d \<Longrightarrow> u = amend p f (get d) \<Longrightarrow> hits p (get d) = 0 \<or> holds u \<Longrightarrow> I (put (\<lambda>_. u) d)"
  shows "effect (keeps (steady I)) (alter get put holds p f)"
proof (rule effectI, rule keepsI)
  fix s :: session
  assume inv: "steady I s"
  show "steady I (snd (alter get put holds p f s))"
    using inv assms [of "live s" "amend p f (get (live s))"]
    by (auto simp: alter_def Let_def steady_def)
qed

lemma steady_store:
  assumes "\<And>d. I d \<Longrightarrow> accepts (get d) r \<Longrightarrow> I (put (\<lambda>_. append_row r (get d)) d)"
  shows "effect (keeps (steady I)) (store get put accepts r)"
proof (rule effectI, rule keepsI)
  fix s :: session
  assume "steady I s"
  with assms [of "live s"] show "steady I (snd (store get put accepts r s))"
    by (auto simp: store_def Let_def steady_def)
qed

lemma steady_settle:
  assumes "\<And>d. I d \<Longrightarrow> accepts (get d) r \<Longrightarrow> I (put (\<lambda>_. append_row r (get d)) d)"
    and "\<And>d. I d \<Longrightarrow> I (put (\<lambda>_. get d) d)"
  shows "effect (keeps (steady I)) (settle get put accepts read r)"
proof (rule effectI, rule keepsI)
  fix s :: session
  assume inv: "steady I s"
  obtain w u where io: "insert_or_read accepts read r (get (live s)) = (w, u)" by fastforce
  then have "I (put (\<lambda>_. u) (live s))"
    using inv assms by (cases rule: insert_or_read_cases) (auto simp: steady_def)
  with inv io show "steady I (snd (settle get put accepts read r s))"
    by (simp add: settle_def steady_def)
qed

lemma steady_remove:
  assumes "\<And>d. I d \<Longrightarrow> I (put (\<lambda>_. filter (\<lambda>r. \<not> p r) (get d)) d)"
  shows "effect (keeps (steady I)) (remove get put p)"
  using assms by (auto simp: effect_def keeps_def steady_def remove_def)

lemma steady_refusing:
  assumes "effect (keeps (steady I)) m"
  shows "effect (keeps (steady I)) (refusing code m)"
  unfolding refusing_def
proof (rule keeps_order.handle_ok [OF assms])
  fix e
  show "effect (keeps (steady I)) (case e of IntegrityError \<Rightarrow> andThen rollback (\<lambda>_. throw (ConflictError code)) | _ \<Rightarrow> throw e)"
    by (cases e) (auto intro: keeps_order.andThen_ok keeps_order.throw_ok steady_rollback)
qed

lemmas steady_statements = steady_commit steady_rollback steady_query steady_now steady_load steady_refusing

lemmas steady_steps = keeps_order.steps steady_statements

lemma effect_steadyD: "effect (keeps (steady I)) m \<Longrightarrow> steady I s \<Longrightarrow> m s = (r, t) \<Longrightarrow> steady I t"
  by (auto simp: effect_def keeps_def dest: spec [of _ s])

section \<open>Orders the database advances along\<close>

definition advances :: "(db \<Rightarrow> db \<Rightarrow> bool) \<Rightarrow> session \<Rightarrow> session \<Rightarrow> bool" where
  "advances Q s t \<longleftrightarrow> (Q (kept s) (live s) \<longrightarrow> Q (kept t) (live t) \<and> Q (kept s) (kept t))"

locale db_order =
  fixes Q :: "db \<Rightarrow> db \<Rightarrow> bool"
  assumes rest: "Q d d"
    and onward: "Q d e \<Longrightarrow> Q e f \<Longrightarrow> Q d f"
begin

sublocale path: effect_order "advances Q"
  by unfold_locales (auto simp: advances_def intro: rest onward)

lemma commit_ok: "effect (advances Q) commit"
  by (simp add: effect_def commit_def writes_def advances_def rest)

lemma rollback_ok: "effect (advances Q) rollback"
  by (simp add: effect_def rollback_def writes_def advances_def rest)

lemma query_ok: "effect (advances Q) (query f)"
  unfolding query_def by (rule path.reads_ok)

lemma now_ok: "effect (advances Q) now"
  unfolding now_def by (rule path.reads_ok)

lemma load_ok: "effect (advances Q) (load get i)"
  unfolding load_def by (intro path.andThen_ok query_ok path.need_ok)

lemma move_ok:
  assumes "kept t = kept s" and "Q (live s) (live t)"
  shows "advances Q s t"
  using assms by (auto simp: advances_def intro: rest onward)

lemma alter_ok:
  assumes "\<And>d. Q d (put (\<lambda>_. amend p f (get d)) d)"
  shows "effect (advances Q) (alter get put holds p f)"
  using assms by (auto simp: effect_def alter_def Let_def path.stay intro!: move_ok)

lemma store_ok:
  assumes "\<And>d. accepts (get d) r \<Longrightarrow> Q d (put (\<lambda>_. append_row r (get d)) d)"
  shows "effect (advances Q) (store get put accepts r)"
  using assms by (auto simp: effect_def store_def Let_def path.stay intro!: move_ok)

lemma settle_ok:
  assumes "\<And>d. accepts (get d) r \<Longrightarrow> Q d (put (\<lambda>_. append_row r (get d)) d)"
    and "\<And>d. Q d (put (\<lambda>_. get d) d)"
  shows "effect (advances Q) (settle get put accepts read r)"
proof (rule effectI)
  fix s :: session
  obtain w u where io: "insert_or_read accepts read r (get (live s)) = (w, u)" by fastforce
  then have "Q (live s) (put (\<lambda>_. u) (live s))"
    using assms by (cases rule: insert_or_read_cases) auto
  with io show "advances Q s (snd (settle get put accepts read r s))"
    by (auto simp: settle_def intro: move_ok)
qed

lemma refusing_ok:
  assumes "effect (advances Q) m"
  shows "effect (advances Q) (refusing code m)"
  unfolding refusing_def
proof (rule path.handle_ok [OF assms])
  fix e
  show "effect (advances Q) (case e of IntegrityError \<Rightarrow> andThen rollback (\<lambda>_. throw (ConflictError code)) | _ \<Rightarrow> throw e)"
    by (cases e) (auto intro: path.andThen_ok path.throw_ok rollback_ok)
qed

lemmas statements_ok = commit_ok rollback_ok query_ok now_ok load_ok refusing_ok

lemmas steps_ok = path.steps statements_ok

text \<open>A service that starts with nothing uncommitted only ever moves the committed database along.\<close>

lemma advancesD:
  assumes "effect (advances Q) m" and "m s = (r, t)" and "live s = kept s"
  shows "Q (kept s) (kept t)" and "Q (kept s) (live t)"
proof -
  from effectD [OF assms(1,2)] assms(3) have "Q (kept t) (live t) \<and> Q (kept s) (kept t)"
    by (simp add: advances_def rest)
  then show "Q (kept s) (kept t)" and "Q (kept s) (live t)" by (auto intro: onward)
qed

end

section \<open>The parts of the database a service never writes\<close>

text \<open>
  A service that does not write the part \<open>f\<close> leaves it as its transaction or as the last commit had it:
  it may have committed what the caller had written, or rolled it back.
\<close>

definition leaves :: "(db \<Rightarrow> 'v) \<Rightarrow> session \<Rightarrow> session \<Rightarrow> bool" where
  "leaves f s t \<longleftrightarrow>
     f (live t) = f (live s) \<and> (f (kept t) = f (kept s) \<or> f (kept t) = f (live s))
     \<or> f (live t) = f (kept s) \<and> f (kept t) = f (kept s)"

interpretation leaves_order: effect_order "leaves f"
proof
  fix s t u :: session
  show "leaves f s s" by (simp add: leaves_def)
  show "leaves f s t \<Longrightarrow> leaves f t u \<Longrightarrow> leaves f s u" unfolding leaves_def by (elim disjE conjE) simp_all
qed

lemma leaves_commit: "effect (leaves f) commit"
  by (simp add: effect_def commit_def writes_def leaves_def)

lemma leaves_rollback: "effect (leaves f) rollback"
  by (simp add: effect_def rollback_def writes_def leaves_def)

lemma leaves_query: "effect (leaves f) (query g)"
  unfolding query_def by (rule leaves_order.reads_ok)

lemma leaves_now: "effect (leaves f) now"
  unfolding now_def by (rule leaves_order.reads_ok)

lemma leaves_load: "effect (leaves f) (load get i)"
  unfolding load_def by (intro leaves_order.andThen_ok leaves_query leaves_order.need_ok)

lemma leaves_alter:
  assumes "\<And>d u. f (put (\<lambda>_. u) d) = f d"
  shows "effect (leaves f) (alter get put holds p g)"
  using assms by (auto simp: effect_def alter_def Let_def leaves_def)

lemma leaves_store:
  assumes "\<And>d u. f (put (\<lambda>_. u) d) = f d"
  shows "effect (leaves f) (store get put accepts r)"
  using assms by (auto simp: effect_def store_def Let_def leaves_def)

lemma leaves_settle:
  assumes "\<And>d u. f (put (\<lambda>_. u) d) = f d"
  shows "effect (leaves f) (settle get put accepts read r)"
  using assms by (auto simp: effect_def settle_def leaves_def split: prod.splits)

lemma leaves_remove:
  assumes "\<And>d u. f (put (\<lambda>_. u) d) = f d"
  shows "effect (leaves f) (remove get put p)"
  using assms by (auto simp: effect_def remove_def leaves_def)

lemma leaves_refusing:
  assumes "effect (leaves f) m"
  shows "effect (leaves f) (refusing code m)"
  unfolding refusing_def
proof (rule leaves_order.handle_ok [OF assms])
  fix e
  show "effect (leaves f) (case e of IntegrityError \<Rightarrow> andThen rollback (\<lambda>_. throw (ConflictError code)) | _ \<Rightarrow> throw e)"
    by (cases e) (auto intro: leaves_order.andThen_ok leaves_order.throw_ok leaves_rollback)
qed

lemmas leaves_steps = leaves_order.steps leaves_commit leaves_rollback leaves_query leaves_now leaves_load
  leaves_refusing

text \<open>What rests on a part a service does not write is kept by it.\<close>

lemma leaves_keeps:
  assumes "effect (leaves f) m" and "\<And>d e. f d = f e \<Longrightarrow> I d \<Longrightarrow> I e"
  shows "effect (keeps (steady I)) m"
proof (rule effectI, rule keepsI)
  fix s :: session
  assume "steady I s"
  moreover have "leaves f s (snd (m s))" using assms(1) by (rule effectE)
  ultimately show "steady I (snd (m s))"
    using assms(2) unfolding steady_def leaves_def by (metis (no_types))
qed

lemma leaves_advances:
  assumes "effect (leaves f) m" and "\<And>d e d' e'. f d = f d' \<Longrightarrow> f e = f e' \<Longrightarrow> Q d e \<Longrightarrow> Q d' e'" and "\<And>d. Q d d"
  shows "effect (advances Q) m"
proof (rule effectI)
  fix s
  have l: "leaves f s (snd (m s))" using assms(1) by (rule effectE)
  show "advances Q s (snd (m s))"
    using l assms(2) [of "kept s" _ "live s"] assms(2) [of "live s" _ "live s"] assms(2) [of "kept s" _ "kept s"] assms(3)
    unfolding advances_def leaves_def by (metis (no_types))
qed

section \<open>The clock\<close>

text \<open>No statement moves the clock of the session, which one reading of a pass stands for.\<close>

lemma clock_statements:
  "effect (same clock) commit" "effect (same clock) rollback" "effect (same clock) (query f)"
  "effect (same clock) now" "effect (same clock) (load get i)" "effect (same clock) (alter get put holds p g)"
  "effect (same clock) (store get put accepts r)" "effect (same clock) (settle get put accepts read r)"
  "effect (same clock) (remove get put p)"
  by (auto simp: effect_def statements remove_def flow same_def Let_def split: prod.splits option.splits)

lemmas clock_steps = same_order.steps clock_statements

section \<open>The session after one statement\<close>

lemma query_apply [simp]: "query f s = (Ok (f (live s)), s)"
  by (simp add: query_def reads_def)

lemma now_apply [simp]: "now s = (Ok (clock s), s)"
  by (simp add: now_def reads_def)

lemma commit_apply [simp]: "commit s = (Ok (), s\<lparr>kept := live s\<rparr>)"
  by (simp add: commit_def writes_def)

lemma rollback_apply [simp]: "rollback s = (Ok (), s\<lparr>live := kept s\<rparr>)"
  by (simp add: rollback_def writes_def)

lemma load_Some [simp]: "fetch i (get (live s)) = Some r \<Longrightarrow> load get i s = (Ok r, s)"
  by (simp add: load_def andThen_def need_def)

lemma load_None [simp]: "fetch i (get (live s)) = None \<Longrightarrow> load get i s = (Err AttributeError, s)"
  by (simp add: load_def andThen_def need_def)

lemma andThen_query [simp]: "andThen (query f) k s = k (f (live s)) s"
  by (simp add: andThen_def)

lemma andThen_now [simp]: "andThen now k s = k (clock s) s"
  by (simp add: andThen_def)

lemma andThen_commit [simp]: "andThen commit k s = k () (s\<lparr>kept := live s\<rparr>)"
  by (simp add: andThen_def)

lemma andThen_rollback [simp]: "andThen rollback k s = k () (s\<lparr>live := kept s\<rparr>)"
  by (simp add: andThen_def)

lemma andThen_load [simp]: "fetch i (get (live s)) = Some r \<Longrightarrow> andThen (load get i) k s = k r s"
  by (simp add: andThen_def)

lemma remove_apply [simp]: "remove get put p s = (Ok (hits p (get (live s))),
     s\<lparr>live := put (\<lambda>_. filter (\<lambda>r. \<not> p r) (get (live s))) (live s)\<rparr>)"
  by (simp add: remove_def)

section \<open>What the statements answer\<close>

lemma wp_remove: "wp (remove get put p) Q E s = Q (hits p (get (live s)))
     (s\<lparr>live := put (\<lambda>_. filter (\<lambda>r. \<not> p r) (get (live s))) (live s)\<rparr>)"
  by (simp add: wp_def)

lemma wp_store: "wp (store get put accepts r) Q E s = (let t = get (live s) in
     if accepts t r then Q (r\<lparr>rid := next_id t\<rparr>) (s\<lparr>live := put (\<lambda>_. append_row r t) (live s)\<rparr>) else E IntegrityError s)"
  by (simp add: wp_def store_def Let_def)

lemma wp_query: "wp (query f) Q E s = Q (f (live s)) s"
  by (simp add: wp_def)

lemma wp_now: "wp now Q E s = Q (clock s) s"
  by (simp add: wp_def)

lemma wp_commit: "wp commit Q E s = Q () (s\<lparr>kept := live s\<rparr>)"
  by (simp add: wp_def)

lemma wp_rollback: "wp rollback Q E s = Q () (s\<lparr>live := kept s\<rparr>)"
  by (simp add: wp_def)

lemma wp_load: "wp (load get i) Q E s = (case fetch i (get (live s)) of None \<Rightarrow> E AttributeError s | Some r \<Rightarrow> Q r s)"
  by (simp add: load_def wp_andThen wp_query wp_need)

lemma wp_alter_free: "wp (alter get put free_keys p f) Q E s =
    Q (hits p (get (live s))) (s\<lparr>live := put (\<lambda>_. amend p f (get (live s))) (live s)\<rparr>)"
  by (simp add: wp_def alter_def free_keys_def Let_def)

lemma wp_any: "wp m (\<lambda>_ _. True) (\<lambda>_ _. True) s \<longleftrightarrow> fst (m s) \<noteq> Hangs"
  by (auto simp: wp_def split: prod.splits outcome.splits)

lemma wp_alter: "wp (alter get put holds p f) Q E s =
    (let t = get (live s); u = amend p f t in
     if hits p t = 0 \<or> holds u then Q (hits p t) (s\<lparr>live := put (\<lambda>_. u) (live s)\<rparr>) else E IntegrityError s)"
  by (simp add: wp_def alter_def Let_def)

lemma wp_settle: "wp (settle get put accepts read r) Q E s = (case insert_or_read accepts read r (get (live s)) of
     (w, u) \<Rightarrow> Q w (s\<lparr>live := put (\<lambda>_. u) (live s)\<rparr>))"
  by (simp add: wp_def settle_def split: prod.splits)

lemmas wp_statements = wp_query wp_now wp_commit wp_rollback wp_load wp_alter_free

lemma after_query: "answers (query f) Q s = Q (f (live s)) s"
  by (simp add: answers_def)

lemma after_now: "answers now Q s = Q (clock s) s"
  by (simp add: answers_def)

lemma after_commit: "answers commit Q s = Q () (s\<lparr>kept := live s\<rparr>)"
  by (simp add: answers_def)

lemma after_load: "answers (load get i) Q s = (case fetch i (get (live s)) of None \<Rightarrow> True | Some r \<Rightarrow> Q r s)"
  by (simp add: answers_def load_def need_def andThen_def split: option.splits)

lemmas after_statements = after_query after_now after_commit after_load

lemma after_alter: "answers (alter get put holds p f) Q s =
    (hits p (get (live s)) = 0 \<or> holds (amend p f (get (live s))) \<longrightarrow>
      Q (hits p (get (live s))) (s\<lparr>live := put (\<lambda>_. amend p f (get (live s))) (live s)\<rparr>))"
  by (auto simp: answers_def alter_def Let_def)

lemma after_settle: "answers (settle get put accepts read r) Q s = (case insert_or_read accepts read r (get (live s)) of
     (w, u) \<Rightarrow> Q w (s\<lparr>live := put (\<lambda>_. u) (live s)\<rparr>))"
  by (simp add: answers_def settle_def split: prod.splits)

section \<open>What the transaction holds of a part nobody here writes or rolls back\<close>

definition calm :: "(db \<Rightarrow> 'v) \<Rightarrow> session \<Rightarrow> session \<Rightarrow> bool" where
  "calm f s t \<longleftrightarrow> f (live t) = f (live s)"

interpretation calm_order: effect_order "calm f"
  by unfold_locales (simp_all add: calm_def)

lemma calm_statements:
  "effect (calm f) commit" "effect (calm f) (query g)" "effect (calm f) now" "effect (calm f) (load get i)"
  by (auto simp: effect_def calm_def wp_def load_def andThen_def need_def split: option.splits)

lemma calm_alter:
  assumes "\<And>d. f (put (\<lambda>_. amend p g (get d)) d) = f d"
  shows "effect (calm f) (alter get put holds p g)"
  using assms by (auto simp: effect_def calm_def alter_def Let_def)

lemma calm_store:
  assumes "\<And>d u. f (put (\<lambda>_. u) d) = f d"
  shows "effect (calm f) (store get put accepts r)"
  using assms by (auto simp: effect_def calm_def store_def Let_def)

lemma calm_settle:
  assumes "\<And>d u. f (put (\<lambda>_. u) d) = f d"
  shows "effect (calm f) (settle get put accepts read r)"
  using assms by (auto simp: effect_def calm_def settle_def split: prod.splits)

lemmas calm_steps = calm_order.steps calm_statements

text \<open>A stretch that starts by committing may roll back and still leave the part as it was.\<close>

lemma calm_commit_first:
  assumes "\<And>x. effect (leaves f) (k x)"
  shows "effect (calm f) (andThen commit k)"
proof (rule effectI)
  fix s :: session
  have "leaves f (s\<lparr>kept := live s\<rparr>) (snd (k () (s\<lparr>kept := live s\<rparr>)))" using assms by (rule effectE)
  then show "calm f s (snd (andThen commit k s))" by (auto simp: calm_def leaves_def)
qed

lemma calm_record_log:
  assumes "\<And>d u. f (logs_update (\<lambda>_. u) d) = f d"
  shows "effect (calm f) (record_log tenant user level category description)"
  unfolding record_log_def stage_def by (intro calm_steps calm_store assms)

end
