(* ===== verification/Sample.thy ===== *)
theory Sample
  imports Effects
begin

text \<open>
  A small shop the properties are applied to: one account of one tenant, a currency, a plan that promises
  one entitlement with a monthly benefit of credits and access to a catalogue, a product of its own with
  credits in it, a gateway, and a subscription that started on the last day of January.
\<close>

definition on_day :: "int \<Rightarrow> int \<Rightarrow> int \<Rightarrow> datetime" where
  "on_day y m d = DateTime y m d 36000000000"

definition empty_db :: db where
  "empty_db = \<lparr>tenants = [], languages = [], plans = [], plan_entitlements = [], benefits = [], products = [], currencies = [], users = [],
     subscriptions = [], user_entitlements = [], subscription_benefits = [], grants = [], user_products = [],
     balances = [], ledger = [], purchases = [], external_products = [], integrations = [], webhook_events = [],
     logs = [], client_requests = [], app_events = [], outbound_emails = [], suppressed_addresses = [], login_tickets = [],
     email_login_challenges = [], stored_files = [], social_identities = [], social_login_attempts = []\<rparr>"

definition sample_tenant :: tenant_row where
  "sample_tenant = \<lparr>rid = 1, te_code = ''shop'', te_name = ''Shop'', te_domain = ''shop.example.com'',
     te_email_contact = ''hello@shop.example.com'', te_active = True\<rparr>"

definition sample_user :: user_row where
  "sample_user = \<lparr>rid = 1, us_tenant = Some 1, us_token = ''reader'', us_language = None, us_username = Some ''reader'',
     us_email = Some ''reader@example.com'', us_document = None, us_mobile_phone = None, us_password_hash = ''hash'',
     us_role = NORMAL, us_reaches_shared = False, us_status = user_status.ACTIVE, us_first_name = None,
     us_last_name = None, us_nickname = None, us_avatar = None, us_notes = None, us_recovery_token = None, us_recovery_token_created_at = None,
     us_pending_email = None, us_confirmation_token = None, us_confirmation_sent_at = None, us_reconciled_at = None,
     us_last_login_at = None, us_failed_sign_ins = 0, us_sign_in_blocked_until = None, us_session_epoch = 0,
     us_erased_at = None\<rparr>"

definition sample_plan :: plan_row where
  "sample_plan = \<lparr>rid = 1, pl_tenant = Some 1, pl_name = ''pro'', pl_resume_delivery_policy = SAME_CYCLE,
     pl_trial_benefit_policy = ACCESS_ONLY, pl_grace_benefit_policy = NONE\<rparr>"

definition sample_credit :: benefit_row where
  "sample_credit = \<lparr>rid = 1, be_entitlement = 1, be_product = None, be_currency = Some 1, be_type = benefit_type.CREDIT,
     be_target = ''coins'', be_quantity = 50, be_cadence = RECURRING, be_interval_unit = Some MONTH, be_interval_value = Some 1,
     be_grant_on_activation = True, be_missed_cycle_policy = CATCH_UP, be_active = True\<rparr>"

definition sample_access :: benefit_row where
  "sample_access = \<lparr>rid = 2, be_entitlement = 1, be_product = None, be_currency = None, be_type = ACCESS,
     be_target = ''catalog'', be_quantity = 1, be_cadence = ON_ACTIVATION, be_interval_unit = None, be_interval_value = None,
     be_grant_on_activation = True, be_missed_cycle_policy = SKIP, be_active = True\<rparr>"

definition sample_product :: product_row where
  "sample_product = \<lparr>rid = 1, pr_tenant = Some 1, pr_name = ''pack'', pr_credits = 20, pr_credits_currency = Some 1,
     pr_currency = ''USD'', pr_price = 499\<rparr>"

definition sample_purchase :: purchase_row where
  "sample_purchase = \<lparr>rid = 1, pu_tenant = Some 1, pu_user = 1, pu_product = 1, pu_integration = Some 1, pu_reference = ''purchase-1'',
     pu_external_id = None, pu_currency = ''USD'', pu_price = 499, pu_status = purchase_status.PENDING, pu_paid_at = None\<rparr>"

definition sample_subscription :: subscription_row where
  "sample_subscription = \<lparr>rid = 1, su_tenant = Some 1, su_user = 1, su_plan = 1, su_integration = Some 1,
     su_external_product = Some 1, su_external_id = Some ''receipt'', su_status = subscription_status.ACTIVE,
     su_benefit_status = benefit_status.ACTIVE, su_environment = Some PRODUCTION, su_started_at = Some (on_day 2024 1 31),
     su_current_period_started_at = Some (on_day 2024 1 31), su_current_period_ends_at = Some (on_day 2025 1 31),
     su_access_until = Some (on_day 2025 1 31), su_trial_ends_at = None, su_grace_until = None,
     su_cancel_at_period_end = False, su_canceled_at = None, su_expired_at = None, su_stated_at = None, su_provider_meta = None\<rparr>"

definition sample_integration :: integration_row where
  "sample_integration = \<lparr>rid = 1, in_tenant = Some 1, in_provider = STRIPE, in_webhook_key = ''hook'',
     in_api_key = Some ''key'', in_webhook_secret = Some ''secret'', in_active = True\<rparr>"

definition sample_db :: db where
  "sample_db = empty_db\<lparr>tenants := [sample_tenant], plans := [sample_plan], plan_entitlements := [\<lparr>rid = 1, pe_plan = 1, pe_entitlement = 1\<rparr>],
     benefits := [sample_credit, sample_access], products := [sample_product], currencies := [\<lparr>rid = 1, cu_tenant = None\<rparr>],
     users := [sample_user], subscriptions := [sample_subscription], purchases := [sample_purchase],
     external_products := [\<lparr>rid = 1, ep_integration = 1, ep_plan = 1, ep_external_id = ''monthly'', ep_active = True\<rparr>],
     integrations := [sample_integration]\<rparr>"

definition opened_at :: "datetime \<Rightarrow> db \<Rightarrow> session" where
  "opened_at moment d = \<lparr>live = d, kept = d, clock = moment\<rparr>"

definition sample :: session where
  "sample = opened_at (on_day 2024 3 5) sample_db"

text \<open>The same shop with one benefit already promised to the subscription and one grant being worked on.\<close>

definition sample_snapshot :: subscription_benefit_row where
  "sample_snapshot = \<lparr>rid = 1, sb_subscription = 1, sb_benefit = 2, sb_user_entitlement = 1, sb_product = None,
     sb_currency = None, sb_status = benefit_status.ACTIVE, sb_benefit_type = ACCESS, sb_target = ''catalog'', sb_quantity = 1,
     sb_cadence = ON_ACTIVATION, sb_interval_unit = None, sb_interval_value = None, sb_grant_on_activation = True,
     sb_missed_cycle_policy = SKIP, sb_anchor_at = on_day 2024 1 31, sb_cycle = 0, sb_last_grant_at = None,
     sb_next_grant_at = None\<rparr>"

definition sample_grant :: benefit_grant_row where
  "sample_grant = \<lparr>rid = 1, bg_subscription_benefit = 1, bg_grant_key = ''1:activation:0'', bg_user_benefit_key = None,
     bg_cycle = 0, bg_cycle_key = ''activation:0'', bg_scheduled_at = on_day 2024 1 31,
     bg_status = benefit_grant_status.FAILED, bg_requested_quantity = 1, bg_granted_quantity = 0, bg_result = NoResult,
     bg_error_code = Some ''TypeError'', bg_attempts = 1, bg_started_at = Some (on_day 2024 3 4), bg_completed_at = None\<rparr>"

definition promised_db :: db where
  "promised_db = empty_db\<lparr>plans := [sample_plan], subscriptions := [sample_subscription],
     user_entitlements := [\<lparr>rid = 1, ue_subscription = 1, ue_entitlement = 1, ue_status = user_entitlement_status.ACTIVE,
       ue_started_at = None, ue_expires_at = None, ue_revoked_at = None\<rparr>],
     subscription_benefits := [sample_snapshot]\<rparr>"

definition sample_promised :: session where
  "sample_promised = opened_at (on_day 2024 3 5) promised_db"

definition sample_failed :: session where
  "sample_failed = opened_at (on_day 2024 3 5) (promised_db\<lparr>grants := [sample_grant]\<rparr>)"

lemmas sample_defs = sample_def opened_at_def sample_db_def empty_db_def sample_tenant_def sample_user_def sample_plan_def sample_credit_def
  sample_access_def sample_product_def sample_purchase_def sample_subscription_def sample_integration_def on_day_def
  sample_snapshot_def sample_grant_def promised_db_def sample_promised_def sample_failed_def

end
