(* ===== verification/Schedule.thy ===== *)
theory Schedule
  imports Effects Sample
begin

text \<open>
  The dates of a recurring benefit: the part of \<^verbatim>\<open>services/delivery_service.py\<close> that reads no database
  (\<open>landing\<close>, \<open>first_due\<close>, \<open>resolve_due_slot\<close>, \<open>cycle_key\<close>, \<open>activation_key\<close>) and the loops both walks
  make over a calendar. The calendar is an interface: any step that only ever moves forward makes both
  loops end, on the slot the moment falls in. \<open>add_interval\<close> is interpreted as one.
\<close>

section \<open>The two walks\<close>

text \<open>
  A walk over \<open>step\<close> may never end (an interval of zero), which is \<open>None\<close>; a step that raises ends it.
\<close>

partial_function (option) walk :: "('t \<Rightarrow> 't outcome) \<Rightarrow> ('t :: linorder) \<Rightarrow> 't \<Rightarrow> 't outcome option" where
  "walk step moment slot =
     (case step slot of
        Ok following \<Rightarrow> if following \<le> moment then walk step moment following else Some (Ok slot)
      | Err e \<Rightarrow> Some (Err e)
      | Hangs \<Rightarrow> Some Hangs)"

text \<open>The second loop, which keeps the slot it is on and the one after it.\<close>

partial_function (option) chase :: "('t \<Rightarrow> 't outcome) \<Rightarrow> ('t :: linorder) \<Rightarrow> 't \<Rightarrow> 't \<Rightarrow> ('t \<times> 't) outcome option" where
  "chase step moment latest following =
     (if following \<le> moment
      then (case step following of
          Ok after \<Rightarrow> chase step moment following after
        | Err e \<Rightarrow> Some (Err e)
        | Hangs \<Rightarrow> Some Hangs)
      else Some (Ok (latest, following)))"

declare walk.simps [code] chase.simps [code]

definition ended :: "'a outcome option \<Rightarrow> 'a outcome" where
  "ended x = (case x of None \<Rightarrow> Hangs | Some r \<Rightarrow> r)"

definition interval_of :: "subscription_benefit_row \<Rightarrow> datetime \<Rightarrow> datetime outcome" where
  "interval_of benefit moment = add_interval moment (sb_interval_unit benefit) (sb_interval_value benefit)"

definition landing :: "subscription_benefit_row \<Rightarrow> datetime \<Rightarrow> datetime \<Rightarrow> datetime outcome" where
  "landing benefit since moment = ended (walk (interval_of benefit) moment since)"

definition first_due :: "subscription_benefit_row \<Rightarrow> datetime \<Rightarrow> datetime option outcome" where
  "first_due benefit moment =
     (if sb_cadence benefit = RECURRING
      then (case landing benefit (sb_anchor_at benefit) moment of Ok t \<Rightarrow> Ok (Some t) | Err e \<Rightarrow> Err e | Hangs \<Rightarrow> Hangs)
      else Ok (if sb_grant_on_activation benefit then Some (sb_anchor_at benefit) else None))"

text \<open>
  What a due benefit does: the slot it delivers now, or nothing and the date its schedule resumes on
  (the assignment \<open>benefit.next_grant_at = following\<close> of the source, made by the caller of the model).
\<close>

datatype due = Deliver datetime | Resume datetime

definition resolve_due_slot :: "subscription_benefit_row \<Rightarrow> datetime \<Rightarrow> datetime \<Rightarrow> due outcome" where
  "resolve_due_slot benefit next_grant_at moment =
     (case interval_of benefit next_grant_at of
        Ok following \<Rightarrow>
          if moment < following then Ok (Deliver next_grant_at) else
          (case ended (chase (interval_of benefit) moment next_grant_at following) of
             Ok (latest, after) \<Rightarrow>
               if sb_missed_cycle_policy benefit = CATCH_UP then Ok (Deliver next_grant_at)
               else if sb_missed_cycle_policy benefit = LATEST_ONLY then Ok (Deliver latest)
               else Ok (Resume after)
           | Err e \<Rightarrow> Err e
           | Hangs \<Rightarrow> Hangs)
      | Err e \<Rightarrow> Err e
      | Hangs \<Rightarrow> Hangs)"

section \<open>The names of the cycles\<close>

definition second_of_day :: "datetime \<Rightarrow> nat" where
  "second_of_day t = nat (micros t div 1000000)"

definition cycle_key :: "datetime \<Rightarrow> string" where
  "cycle_key t = decimal (nat (year t)) @ padded 2 (nat (month t)) @ padded 2 (nat (day t))
     @ padded 2 (second_of_day t div 3600) @ padded 2 (second_of_day t div 60 mod 60) @ padded 2 (second_of_day t mod 60)"

definition activation_key :: "subscription_benefit_row \<Rightarrow> datetime \<Rightarrow> string" where
  "activation_key benefit slot =
     (if sb_cadence benefit = RECURRING \<and> sb_cycle benefit = 0 then cycle_key slot
      else ''activation:'' @ decimal (sb_cycle benefit))"

definition cycle_grant_key :: "nat \<Rightarrow> string \<Rightarrow> string" where
  "cycle_grant_key benefit_id key = decimal benefit_id @ '':'' @ key"

section \<open>A calendar\<close>

text \<open>
  The interface the two loops rely on: the step keeps good dates good and moves them strictly forward,
  and the order of the dates is that of an integer clock.
\<close>

locale calendar =
  fixes good :: "'t :: linorder \<Rightarrow> bool"
    and at :: "'t \<Rightarrow> int"
    and step :: "'t \<Rightarrow> 't outcome"
  assumes clock_order: "good s \<Longrightarrow> good t \<Longrightarrow> at s < at t \<longleftrightarrow> s < t"
    and forward: "good t \<Longrightarrow> step t = Ok u \<Longrightarrow> good u \<and> t < u"
    and steps_end: "good t \<Longrightarrow> step t \<noteq> Hangs"
begin

text \<open>The slots the calendar visits from one date on.\<close>

inductive visits :: "'t \<Rightarrow> 't \<Rightarrow> bool" for since :: 't where
  here: "visits since since"
| onward: "visits since t \<Longrightarrow> step t = Ok u \<Longrightarrow> visits since u"

lemma visits_good: "visits since t \<Longrightarrow> good since \<Longrightarrow> good t"
  by (induction rule: visits.induct) (simp_all add: forward)

lemma visits_after: "visits since t \<Longrightarrow> good since \<Longrightarrow> since \<le> t"
proof (induction rule: visits.induct)
  case here
  then show ?case by simp
next
  case (onward t u)
  then have "t < u" using forward visits_good by blast
  with onward show ?case by simp
qed

lemma gap_shrinks:
  assumes "good moment" "good t" "step t = Ok u" "u \<le> moment"
  shows "nat (at moment - at u) < nat (at moment - at t)"
proof -
  have u: "good u" "t < u" using forward assms(2,3) by auto
  then have "at t < at u" using clock_order assms(2) by simp
  moreover have "at u \<le> at moment" using clock_order [OF assms(1) u(1)] assms(4) by (meson leD leI)
  ultimately show ?thesis by simp
qed

lemma walk_ends:
  assumes "good moment" and "good slot"
  shows "\<exists>r. walk step moment slot = Some r \<and> r \<noteq> Hangs"
  using assms
proof (induction "nat (at moment - at slot)" arbitrary: slot rule: less_induct)
  case less
  show ?case
  proof (cases "step slot")
    case (Ok u)
    then show ?thesis
      using less.hyps [of u] less.prems gap_shrinks [of moment slot u] forward [of slot u]
      by (cases "u \<le> moment") (simp_all add: walk.simps [of step moment slot])
  next
    case (Err e)
    then show ?thesis by (simp add: walk.simps [of step moment slot])
  next
    case Hangs
    with steps_end less.prems show ?thesis by blast
  qed
qed

text \<open>The slot a walk ends on is visited from where it set out, and the one after it is past the moment.\<close>

lemma walk_lands:
  assumes "good moment" and "good slot" and "visits since slot" and "slot \<le> moment \<or> slot = since"
    and "walk step moment slot = Some (Ok t)"
  shows "visits since t \<and> (t \<le> moment \<or> t = since) \<and> (\<exists>u. step t = Ok u \<and> moment < u)"
  using assms
proof (induction "nat (at moment - at slot)" arbitrary: slot rule: less_induct)
  case less
  have w: "walk step moment slot = (case step slot of
        Ok following \<Rightarrow> if following \<le> moment then walk step moment following else Some (Ok slot)
      | Err e \<Rightarrow> Some (Err e) | Hangs \<Rightarrow> Some Hangs)" by (rule walk.simps)
  with less.prems(5) obtain u where u: "step slot = Ok u" by (auto split: outcome.splits)
  show ?case
  proof (cases "u \<le> moment")
    case True
    then show ?thesis
      using less.hyps [of u] less.prems gap_shrinks [of moment slot u] forward [of slot u] u w
      by (simp add: visits.onward)
  next
    case False
    with less.prems u w show ?thesis by auto
  qed
qed

text \<open>The two loops agree: the chase ends on the slot the walk ends on, with the one after it.\<close>

lemma chase_walk:
  assumes "good moment" and "good latest" and "step latest = Ok following"
  shows "chase step moment latest following = map_option (\<lambda>r. case r of
      Ok t \<Rightarrow> (case step t of Ok u \<Rightarrow> Ok (t, u) | Err e \<Rightarrow> Err e | Hangs \<Rightarrow> Hangs)
    | Err e \<Rightarrow> Err e | Hangs \<Rightarrow> Hangs) (walk step moment latest)"
  using assms
proof (induction "nat (at moment - at latest)" arbitrary: latest following rule: less_induct)
  case less
  note c = chase.simps [of step moment latest following]
  note w = walk.simps [of step moment latest]
  show ?case
  proof (cases "following \<le> moment")
    case False
    with less.prems show ?thesis by (simp add: c w)
  next
    case True
    have f: "good following" using forward less.prems by blast
    show ?thesis
    proof (cases "step following")
      case (Ok after)
      then show ?thesis
        using less.hyps [of following after] less.prems True f gap_shrinks [of moment latest following]
        by (simp add: c w)
    next
      case (Err e)
      then show ?thesis using less.prems True by (simp add: c w walk.simps [of step moment following])
    next
      case Hangs
      with steps_end f show ?thesis by blast
    qed
  qed
qed

end

section \<open>The interval of a benefit is a calendar\<close>

lemma add_days_ends: "add_days t n \<noteq> Hangs"
  by (auto simp: add_days_def Let_def split: prod.splits)

lemma add_months_ends: "add_months t n \<noteq> Hangs"
  by (simp add: add_months_def Let_def)

lemma add_interval_ends: "add_interval t u v \<noteq> Hangs"
  using add_days_ends add_months_ends
  by (auto simp: add_interval_def split: option.splits prod.splits outcome.splits)

text \<open>An interval of at least one unit, which is what \<^verbatim>\<open>benefit_service\<close> lets into the catalogue.\<close>

definition paced :: "subscription_benefit_row \<Rightarrow> bool" where
  "paced benefit \<longleftrightarrow> (\<exists>v. sb_interval_value benefit = Some v \<and> 1 \<le> v)"

interpretation benefit_calendar: calendar valid instant "\<lambda>t. add_interval t unit (Some (max 1 v))"
proof
  fix t u :: datetime
  show "valid t \<Longrightarrow> valid u \<Longrightarrow> instant t < instant u \<longleftrightarrow> t < u" by (rule instant_less_iff)
  show "add_interval t unit (Some (max 1 v)) \<noteq> Hangs" by (rule add_interval_ends)
  assume "valid t" "add_interval t unit (Some (max 1 v)) = Ok u"
  then show "valid u \<and> t < u" using add_interval_valid add_interval_less [of t unit "max 1 v" u] by auto
qed

text \<open>The slots of a benefit from a date on.\<close>

inductive slots :: "subscription_benefit_row \<Rightarrow> datetime \<Rightarrow> datetime \<Rightarrow> bool" for benefit since where
  start: "slots benefit since since"
| following: "slots benefit since t \<Longrightarrow> interval_of benefit t = Ok u \<Longrightarrow> slots benefit since u"

lemma paced_step:
  assumes "paced benefit"
  obtains v where "interval_of benefit = (\<lambda>t. add_interval t (sb_interval_unit benefit) (Some (max 1 v)))"
proof -
  from assms obtain v where "sb_interval_value benefit = Some v" "max 1 v = v" by (auto simp: paced_def)
  then have "interval_of benefit = (\<lambda>t. add_interval t (sb_interval_unit benefit) (Some (max 1 v)))"
    by (intro ext) (simp add: interval_of_def)
  then show thesis by (rule that)
qed

lemma slots_visits:
  "interval_of benefit = (\<lambda>t. add_interval t unit (Some (max 1 v))) \<Longrightarrow>
    benefit_calendar.visits unit v since t = slots benefit since t"
proof
  assume step: "interval_of benefit = (\<lambda>t. add_interval t unit (Some (max 1 v)))"
  show "benefit_calendar.visits unit v since t \<Longrightarrow> slots benefit since t"
    by (induction rule: benefit_calendar.visits.induct) (auto simp: step intro: slots.intros)
  show "slots benefit since t \<Longrightarrow> benefit_calendar.visits unit v since t"
    by (induction rule: slots.induct) (auto simp: step intro: benefit_calendar.visits.intros)
qed

lemma landing_ends:
  assumes "paced benefit" "valid since" "valid moment"
  shows "landing benefit since moment \<noteq> Hangs"
  using paced_step [OF assms(1)] benefit_calendar.walk_ends [OF assms(3,2)]
  by (metis landing_def ended_def option.simps(5))

lemma landing_lands:
  assumes "paced benefit" "valid since" "valid moment" "landing benefit since moment = Ok t"
  shows "slots benefit since t \<and> (t \<le> moment \<or> t = since) \<and> (\<exists>u. interval_of benefit t = Ok u \<and> moment < u)"
proof -
  from paced_step [OF assms(1)] obtain v where
    step: "interval_of benefit = (\<lambda>t. add_interval t (sb_interval_unit benefit) (Some (max 1 v)))" by blast
  have "walk (interval_of benefit) moment since = Some (Ok t)"
    using assms(4) by (auto simp: landing_def ended_def split: option.splits)
  then have "walk (\<lambda>t. add_interval t (sb_interval_unit benefit) (Some (max 1 v))) moment since = Some (Ok t)"
    by (simp only: step)
  from benefit_calendar.walk_lands [OF assms(3,2) benefit_calendar.visits.here _ this]
  show ?thesis by (simp add: slots_visits [OF step] step)
qed

text \<open>What a due slot is, in terms of the cycle the moment falls in.\<close>

lemma due_slot:
  assumes "paced benefit" "valid due" "valid moment"
  shows "resolve_due_slot benefit due moment =
    (case landing benefit due moment of
       Ok t \<Rightarrow> (case interval_of benefit t of
          Ok after \<Rightarrow> Ok (if t = due \<or> sb_missed_cycle_policy benefit = CATCH_UP then Deliver due
            else if sb_missed_cycle_policy benefit = LATEST_ONLY then Deliver t else Resume after)
        | Err e \<Rightarrow> Err e | Hangs \<Rightarrow> Hangs)
     | Err e \<Rightarrow> Err e | Hangs \<Rightarrow> Hangs)"
proof -
  from paced_step [OF assms(1)] obtain v where
    step: "interval_of benefit = (\<lambda>t. add_interval t (sb_interval_unit benefit) (Some (max 1 v)))" by blast
  show ?thesis
  proof (cases "interval_of benefit due")
    case (Ok after)
    show ?thesis
    proof (cases "after \<le> moment")
      case False
      then have "landing benefit due moment = Ok due"
        using Ok by (simp add: landing_def ended_def walk.simps [of _ moment due])
      with False Ok show ?thesis by (simp add: resolve_due_slot_def not_le)
    next
      case True
      have w: "walk (interval_of benefit) moment due = walk (interval_of benefit) moment after"
        using True Ok by (simp add: walk.simps [of _ moment due])
      have "valid after" "due < after"
        using benefit_calendar.forward [OF assms(2)] Ok by (auto simp: step)
      have later: "t \<noteq> due" if "walk (interval_of benefit) moment due = Some (Ok t)" for t
      proof -
        have "benefit_calendar.visits (sb_interval_unit benefit) v after t"
          using benefit_calendar.walk_lands [OF assms(3) \<open>valid after\<close> benefit_calendar.visits.here] that w True by (auto simp: step)
        then have "after \<le> t" using benefit_calendar.visits_after \<open>valid after\<close> by blast
        with \<open>due < after\<close> show ?thesis by auto
      qed
      have "chase (interval_of benefit) moment due after = map_option (\<lambda>r. case r of
          Ok t \<Rightarrow> (case interval_of benefit t of Ok u \<Rightarrow> Ok (t, u) | Err e \<Rightarrow> Err e | Hangs \<Rightarrow> Hangs)
        | Err e \<Rightarrow> Err e | Hangs \<Rightarrow> Hangs) (walk (interval_of benefit) moment due)"
        using Ok unfolding step by (rule benefit_calendar.chase_walk [OF assms(3,2)])
      with True Ok later show ?thesis
        by (auto simp: resolve_due_slot_def landing_def ended_def split: option.splits outcome.splits)
    qed
  next
    case (Err e)
    then show ?thesis by (simp add: resolve_due_slot_def landing_def ended_def walk.simps [of _ moment due])
  next
    case Hangs
    then show ?thesis by (simp add: interval_of_def add_interval_ends)
  qed
qed

section \<open>Names are told apart\<close>

lemma length_two: "n < 100 \<Longrightarrow> length (padded 2 n) = 2"
  by (rule length_padded) simp_all

lemma valid_second: "valid t \<Longrightarrow> second_of_day t < 86400"
  by (auto simp: valid_def second_of_day_def day_micros_def)

lemma second_digits: "(n :: nat) < 86400 \<Longrightarrow> n div 3600 < 24 \<and> n div 60 mod 60 < 60 \<and> n mod 60 < 60
    \<and> n = (n div 3600) * 3600 + (n div 60 mod 60) * 60 + n mod 60"
proof -
  assume n: "n < 86400"
  have d: "n div 3600 = n div 60 div 60" by (simp add: div_mult2_eq [symmetric])
  have "n = (n div 60) * 60 + n mod 60" "n div 60 = (n div 60 div 60) * 60 + n div 60 mod 60" by simp_all
  then have "n = (n div 60 div 60) * 3600 + (n div 60 mod 60) * 60 + n mod 60" by linarith
  with d have "n = (n div 3600) * 3600 + (n div 60 mod 60) * 60 + n mod 60" by simp
  moreover have "n div 3600 < 24" using n by (simp add: div_less_iff_less_mult)
  ultimately show ?thesis by simp
qed

lemma cycle_key_inj:
  assumes "valid s" and "valid t" and "cycle_key s = cycle_key t"
  shows "year s = year t \<and> month s = month t \<and> day s = day t \<and> second_of_day s = second_of_day t"
proof -
  have small: "nat (month x) < 100" "nat (day x) < 100" "1 \<le> year x" "1 \<le> month x" "1 \<le> day x" if "valid x" for x
    using that days_in_month_pos(2) [of "year x" "month x"] by (auto simp: valid_def valid_date_def)
  note two = length_two [OF small(1)] length_two [OF small(2)]
  have tail: "length (padded 2 (second_of_day x div 3600)) = 2" "length (padded 2 (second_of_day x div 60 mod 60)) = 2"
      "length (padded 2 (second_of_day x mod 60)) = 2" if "valid x" for x
    using second_digits [OF valid_second [OF that]] by (simp_all add: length_two)
  from assms(3) have eqs: "nat (year s) = nat (year t)" "nat (month s) = nat (month t)" "nat (day s) = nat (day t)"
    "second_of_day s div 3600 = second_of_day t div 3600" "second_of_day s div 60 mod 60 = second_of_day t div 60 mod 60"
    "second_of_day s mod 60 = second_of_day t mod 60"
    by (simp_all add: cycle_key_def append_eq_append_conv two [OF assms(1)] two [OF assms(2)]
        tail [OF assms(1)] tail [OF assms(2)] decimal_inj padded_inj)
  have "second_of_day s = second_of_day t"
    using second_digits [OF valid_second [OF assms(1)]] second_digits [OF valid_second [OF assms(2)]] eqs by metis
  with eqs small [OF assms(1)] small [OF assms(2)] show ?thesis by (simp add: nat_eq_iff)
qed

lemma cycle_grant_key_inj:
  assumes "cycle_grant_key a k = cycle_grant_key b l"
  shows "a = b \<and> k = l"
proof -
  have split: "takeWhile is_digit (cycle_grant_key i x) = decimal i" "dropWhile is_digit (cycle_grant_key i x) = CHR '':'' # x" for i x
    using decimal_digits [of i] by (auto simp: cycle_grant_key_def takeWhile_append dropWhile_append is_digit_def)
  from assms have "decimal a = decimal b" "CHR '':'' # k = CHR '':'' # l" by (metis split)+
  then show ?thesis by (simp add: decimal_inj)
qed

section \<open>The schedule keeps its promises\<close>

definition steady_pace :: "subscription_benefit_row \<Rightarrow> bool" where
  "steady_pace benefit \<longleftrightarrow> sb_interval_unit benefit \<noteq> None
     \<and> (case sb_interval_value benefit of None \<Rightarrow> False | Some v \<Rightarrow> 1 \<le> v \<and> v \<le> 900)"

lemma steady_paced: "steady_pace benefit \<Longrightarrow> paced benefit"
  by (auto simp: steady_pace_def paced_def split: option.splits)

lemma steady_next: "steady_pace benefit \<Longrightarrow> near t \<Longrightarrow> \<exists>u. interval_of benefit t = Ok u"
  using add_interval_total by (auto simp: steady_pace_def interval_of_def split: option.splits)

lemma near_walk:
  assumes "steady_pace benefit" "near moment" "near slot"
  shows "\<exists>t. walk (interval_of benefit) moment slot = Some (Ok t)"
  using assms(3)
proof (induction "nat (instant moment - instant slot)" arbitrary: slot rule: less_induct)
  case less
  from steady_next [OF assms(1) less.prems] obtain u where u: "interval_of benefit slot = Ok u" by blast
  from paced_step [OF steady_paced [OF assms(1)]] obtain v where
    step: "interval_of benefit = (\<lambda>t. add_interval t (sb_interval_unit benefit) (Some (max 1 v)))" by blast
  show ?case
  proof (cases "u \<le> moment")
    case True
    have v: "valid slot" "valid moment" using less.prems assms(2) by (simp_all add: near_def)
    then have "valid u" using benefit_calendar.forward u step by metis
    moreover have "year u \<le> year moment" using True by (auto simp: less_eq_datetime_def)
    ultimately have "near u" using assms(2) by (simp add: near_def)
    moreover have "nat (instant moment - instant u) < nat (instant moment - instant slot)"
      using benefit_calendar.gap_shrinks [OF v(2,1) _ True] u step by metis
    ultimately show ?thesis using less.hyps u True by (simp add: walk.simps [of _ moment slot])
  qed (simp add: walk.simps [of _ moment slot] u)
qed

text \<open>
  C13: A recurring benefit always lands. Whatever date the walk of \<open>landing\<close> sets out from, and however long
  the benefit was not running, the loop ends and answers a slot of the benefit's own schedule: one that is
  not ahead of the moment (or the very start, where nothing is owed yet), while the slot after it is.
\<close>

theorem landing_is_current_cycle:
  assumes "steady_pace benefit" and "near since" and "near moment"
  shows "\<exists>slot after. landing benefit since moment = Ok slot \<and> slots benefit since slot \<and> (slot \<le> moment \<or> slot = since)
    \<and> interval_of benefit slot = Ok after \<and> moment < after"
proof -
  from near_walk [OF assms(1,3,2)] obtain t where "landing benefit since moment = Ok t"
    by (auto simp: landing_def ended_def)
  with landing_lands [OF steady_paced [OF assms(1)], of since moment t] assms(2,3) show ?thesis
    by (auto simp: near_def)
qed

definition monthly :: subscription_benefit_row where
  "monthly = \<lparr>rid = 7, sb_subscription = 1, sb_benefit = 1, sb_user_entitlement = 1, sb_product = None, sb_currency = Some 1,
     sb_status = benefit_status.ACTIVE, sb_benefit_type = benefit_type.CREDIT, sb_target = ''coins'', sb_quantity = 50,
     sb_cadence = RECURRING, sb_interval_unit = Some MONTH, sb_interval_value = Some 1, sb_grant_on_activation = True,
     sb_missed_cycle_policy = CATCH_UP, sb_anchor_at = on_day 2024 1 31, sb_cycle = 0, sb_last_grant_at = None,
     sb_next_grant_at = Some (on_day 2024 1 31)\<rparr>"

lemma monthly_paced: "steady_pace monthly" "near (on_day 2024 1 31)" "near (on_day 2024 5 5)"
  by (simp_all add: steady_pace_def monthly_def near_def valid_def valid_date_def on_day_def days_in_month_def is_leap_def day_micros_def)

theorem landing_is_current_cycle_witness:
  "\<exists>slot after. landing monthly (on_day 2024 1 31) (on_day 2024 5 5) = Ok slot \<and> slots monthly (on_day 2024 1 31) slot
    \<and> (slot \<le> on_day 2024 5 5 \<or> slot = on_day 2024 1 31) \<and> interval_of monthly slot = Ok after \<and> on_day 2024 5 5 < after"
  by (rule landing_is_current_cycle [OF monthly_paced])

text \<open>
  C14: What becomes of a benefit behind on its cycles. Where the one slot due is the only one, it is
  delivered; where more than one passed, \<open>catch_up\<close> delivers the oldest, \<open>latest_only\<close> the one the moment falls
  in, and \<open>skip\<close> none, its schedule resuming on the first slot ahead of the moment.
\<close>

theorem due_slot_by_policy:
  assumes "steady_pace benefit" and "near due" and "near moment"
  shows "\<exists>slot after. landing benefit due moment = Ok slot \<and> interval_of benefit slot = Ok after \<and> moment < after
    \<and> resolve_due_slot benefit due moment = Ok (
        if slot = due then Deliver due
        else case sb_missed_cycle_policy benefit of CATCH_UP \<Rightarrow> Deliver due | LATEST_ONLY \<Rightarrow> Deliver slot | SKIP \<Rightarrow> Resume after)"
proof -
  from near_walk [OF assms(1,3,2)] obtain t where t: "landing benefit due moment = Ok t"
    by (auto simp: landing_def ended_def)
  with landing_lands [OF steady_paced [OF assms(1)], of due moment t] assms(2,3) obtain u where
    "interval_of benefit t = Ok u" "moment < u" by (auto simp: near_def)
  with t due_slot [OF steady_paced [OF assms(1)], of due moment] assms(2,3) show ?thesis
    by (auto simp: near_def split: missed_cycle_policy.splits)
qed

theorem due_slot_by_policy_witness:
  "\<exists>slot after. landing monthly (on_day 2024 1 31) (on_day 2024 5 5) = Ok slot \<and> interval_of monthly slot = Ok after
    \<and> on_day 2024 5 5 < after
    \<and> resolve_due_slot monthly (on_day 2024 1 31) (on_day 2024 5 5) = Ok (
        if slot = on_day 2024 1 31 then Deliver (on_day 2024 1 31)
        else case sb_missed_cycle_policy monthly of CATCH_UP \<Rightarrow> Deliver (on_day 2024 1 31) | LATEST_ONLY \<Rightarrow> Deliver slot
          | SKIP \<Rightarrow> Resume after)"
  by (rule due_slot_by_policy [OF monthly_paced])

text \<open>
  Two slots of a benefit never share a key. The name of a cycle forgets the microseconds, yet two slots
  that follow one another in a schedule are always named apart, so the grant key that makes a cycle
  idempotent never takes one cycle for the next.
\<close>

theorem next_cycle_named_apart:
  assumes "steady_pace benefit" and "near slot" and "interval_of benefit slot = Ok following"
  shows "cycle_grant_key benefit_id (cycle_key slot) \<noteq> cycle_grant_key benefit_id (cycle_key following)"
proof
  assume eq: "cycle_grant_key benefit_id (cycle_key slot) = cycle_grant_key benefit_id (cycle_key following)"
  obtain u v where b: "sb_interval_unit benefit = Some u" "sb_interval_value benefit = Some v" "1 \<le> v"
    using assms(1) by (auto simp: steady_pace_def split: option.splits)
  have s: "valid slot" using assms(2) by (simp add: near_def)
  have i: "add_interval slot (Some u) (Some v) = Ok following" using assms(3) b by (simp add: interval_of_def)
  have f: "valid following" "slot < following" using add_interval_valid [OF s i] add_interval_less [OF s i b(3)] by auto
  have "cycle_key slot = cycle_key following" using cycle_grant_key_inj [OF eq] by simp
  from cycle_key_inj [OF s f(1) this] have same: "year slot = year following" "month slot = month following" "day slot = day following"
    by simp_all
  from s i show False
  proof (cases rule: add_interval_OkE)
    case (days k)
    from add_days_Ok(2) [OF s days(3)] have "micros following = micros slot + k * day_micros" using same by (simp add: instant_def)
    moreover have "day_micros \<le> k * day_micros" using days(1,2) b(3) by (auto simp: day_micros_def)
    ultimately show False using s f(1) by (simp add: valid_def)
  next
    case (months k)
    from add_months_Ok(4) [OF s months(3)] same have "slot = following" by (simp add: datetime.expand)
    with f(2) show False by simp
  qed
qed

theorem next_cycle_named_apart_witness:
  "cycle_grant_key 7 (cycle_key (on_day 2024 1 31)) \<noteq> cycle_grant_key 7 (cycle_key (on_day 2024 2 29))"
  by (rule next_cycle_named_apart [OF monthly_paced(1,2)]) code_simp

end
