(* ===== verification/Ledger.thy ===== *)
theory Ledger
  imports Effects Sample
begin

text \<open>
  The wallet: \<^verbatim>\<open>services/credit_transaction_service.py\<close> and the \<open>held\<close> of
  \<^verbatim>\<open>services/user_balance_service.py\<close>. Every movement of a balance is one append to the ledger of its
  currency, keyed so that a replay is handed the entry the first one wrote, and the balance row is
  rewritten in the same transaction.
\<close>

section \<open>The movement\<close>

definition BIG_INTEGER_MAX :: int where
  "BIG_INTEGER_MAX = 9223372036854775807"

fun DIRECTIONS :: "credit_transaction_type \<Rightarrow> int option" where
  "DIRECTIONS credit_transaction_type.CREDIT = Some 1"
| "DIRECTIONS DEBIT = Some (-1)"
| "DIRECTIONS REVERSAL = Some (-1)"
| "DIRECTIONS ADJUSTMENT = None"

definition signed_amount :: "credit_transaction_type \<Rightarrow> int \<Rightarrow> int outcome" where
  "signed_amount transaction_type amount =
     (case DIRECTIONS transaction_type of
        None \<Rightarrow> Ok amount
      | Some direction \<Rightarrow>
          if amount < 0 then Err (ValidationError ''error.amount-must-be-positive'' ''amount'')
          else Ok (direction * amount))"

definition of_account :: "nat \<Rightarrow> nat \<Rightarrow> user_balance_row \<Rightarrow> bool" where
  "of_account user currency r \<longleftrightarrow> ub_user r = user \<and> ub_currency r = currency"

text \<open>\<open>user_balance_service.held\<close>: the row is written where there is none, then read under its lock.\<close>

definition held :: "nat \<Rightarrow> nat \<Rightarrow> user_balance_row service" where
  "held user currency =
     andThen (settle balances balances_update (free_of balance_key) (of_account user currency)
       \<lparr>rid = 0, ub_user = user, ub_currency = currency, ub_amount = 0\<rparr>) (\<lambda>_.
     andThen (query (\<lambda>d. List.find (of_account user currency) (balances d))) need)"

definition settled_by_key :: "string \<Rightarrow> credit_transaction_row option service" where
  "settled_by_key key = query (\<lambda>d. List.find (\<lambda>r. ct_idempotency_key r = key) (ledger d))"

text \<open>The line and the balance it leaves, written and committed together.\<close>

definition write_line :: "user_balance_row \<Rightarrow> credit_transaction_row \<Rightarrow> credit_transaction_row service" where
  "write_line wallet line = refusing ''error.duplicated-record'' (
     andThen (store ledger ledger_update (free_of ledger_key) line) (\<lambda>transaction.
     andThen (alter balances balances_update free_keys (named (rid wallet)) (\<lambda>r. r\<lparr>ub_amount := ct_balance_after line\<rparr>)) (\<lambda>_.
     andThen commit (\<lambda>_. ret transaction))))"

definition move :: "nat \<Rightarrow> nat \<Rightarrow> credit_transaction_type \<Rightarrow> int \<Rightarrow> string option \<Rightarrow> string \<Rightarrow> nat option
    \<Rightarrow> credit_transaction_row service" where
  "move user_id currency_id transaction_type amount description idempotency_key benefit_grant_id =
     andThen (settled_by_key idempotency_key) (\<lambda>existing. case existing of Some r \<Rightarrow> ret r | None \<Rightarrow>
     andThen (query (\<lambda>d. fetch user_id (users d))) (\<lambda>user.
     andThen (query (\<lambda>d. fetch currency_id (currencies d))) (\<lambda>currency.
     andThen (need currency) (\<lambda>currency. andThen (need user) (\<lambda>user.
     if \<not> (cu_tenant currency = None \<or> cu_tenant currency = us_tenant user)
     then throw (ValidationError ''error.related-not-found'' ''currency_id'') else
     andThen (held user_id currency_id) (\<lambda>wallet.
     andThen (settled_by_key idempotency_key) (\<lambda>settled. case settled of Some r \<Rightarrow> ret r | None \<Rightarrow>
     andThen (lift (signed_amount transaction_type amount)) (\<lambda>signed.
     let balance = ub_amount wallet + signed in
     if balance < 0 then throw (ValidationError ''error.insufficient-credits'' ''amount'')
     else if BIG_INTEGER_MAX < balance then throw (ValidationError ''error.balance-out-of-range'' ''amount'')
     else
     write_line wallet
       \<lparr>rid = 0, ct_user = user_id, ct_currency = currency_id, ct_benefit_grant = benefit_grant_id,
        ct_type = transaction_type, ct_amount = signed, ct_balance_after = balance,
        ct_idempotency_key = idempotency_key, ct_description = description\<rparr>))))))))"

section \<open>What the books owe\<close>

text \<open>What the ledger of one account and one currency adds up to.\<close>

definition total :: "credit_transaction_row list \<Rightarrow> nat \<Rightarrow> nat \<Rightarrow> int" where
  "total t user currency = sum_list (map ct_amount (filter (\<lambda>r. ct_user r = user \<and> ct_currency r = currency) t))"

text \<open>Every line carries the balance it left.\<close>

fun running :: "credit_transaction_row list \<Rightarrow> credit_transaction_row list \<Rightarrow> bool" where
  "running seen [] = True"
| "running seen (r # t) = (ct_balance_after r = total (seen @ [r]) (ct_user r) (ct_currency r) \<and> running (seen @ [r]) t)"

definition explained :: "db \<Rightarrow> user_balance_row \<Rightarrow> bool" where
  "explained d b \<longleftrightarrow> ub_amount b = total (ledger d) (ub_user b) (ub_currency b) \<and> 0 \<le> ub_amount b \<and> ub_amount b \<le> BIG_INTEGER_MAX"

text \<open>
  The books: one balance per account and currency, which is what its ledger adds up to, never below
  zero and never past the column; one line per idempotency key; every line has a balance behind it and
  carries the balance it left.
\<close>

definition books :: "db \<Rightarrow> bool" where
  "books d \<longleftrightarrow> distinct (map rid (balances d)) \<and> unique_on balance_key (balances d) \<and> unique_on ledger_key (ledger d)
     \<and> list_all (explained d) (balances d)
     \<and> list_all (\<lambda>r. list_ex (of_account (ct_user r) (ct_currency r)) (balances d)) (ledger d)
     \<and> running [] (ledger d)"

lemma total_append: "total (t @ [r]) u c = total t u c + (if ct_user r = u \<and> ct_currency r = c then ct_amount r else 0)"
  by (simp add: total_def)

lemma total_none: "(\<And>r. r \<in> set t \<Longrightarrow> \<not> (ct_user r = u \<and> ct_currency r = c)) \<Longrightarrow> total t u c = 0"
  by (induction t) (auto simp: total_def)

lemma running_append: "running seen (t @ [r]) \<longleftrightarrow>
    running seen t \<and> ct_balance_after r = total (seen @ t @ [r]) (ct_user r) (ct_currency r)"
  by (induction t arbitrary: seen) auto

lemma of_account_key: "of_account u c r \<longleftrightarrow> balance_key r = Some (u, c)"
  by (auto simp: of_account_def balance_key_def)

lemma holds_account: "list_ex (of_account u c) t \<longleftrightarrow> Some (u, c) \<in> balance_key ` set t"
  by (auto simp: list_ex_iff of_account_key image_iff eq_commute)

section \<open>The outcomes of a movement\<close>

definition empty_wallet :: "nat \<Rightarrow> nat \<Rightarrow> db \<Rightarrow> user_balance_row" where
  "empty_wallet user currency d = \<lparr>rid = next_id (balances d), ub_user = user, ub_currency = currency, ub_amount = 0\<rparr>"

definition opened :: "nat \<Rightarrow> nat \<Rightarrow> db \<Rightarrow> db" where
  "opened user currency d = (case List.find (of_account user currency) (balances d) of
     Some b \<Rightarrow> d | None \<Rightarrow> d\<lparr>balances := balances d @ [empty_wallet user currency d]\<rparr>)"

definition wallet_of :: "nat \<Rightarrow> nat \<Rightarrow> db \<Rightarrow> user_balance_row" where
  "wallet_of user currency d = (case List.find (of_account user currency) (balances d) of
     Some b \<Rightarrow> b | None \<Rightarrow> empty_wallet user currency d)"

lemma held_apply: "held u c s = (Ok (wallet_of u c (live s)), s\<lparr>live := opened u c (live s)\<rparr>)"
proof (cases "List.find (of_account u c) (balances (live s))")
  case (Some b)
  then show ?thesis
    by (simp add: held_def settle_def insert_or_read_def andThen_def need_def wallet_of_def opened_def)
next
  case None
  let ?r = "\<lparr>rid = 0, ub_user = u, ub_currency = c, ub_amount = 0\<rparr>"
  have "free_of balance_key (balances (live s)) ?r"
    using None by (auto simp: free_of_keys find_None_iff_all of_account_def balance_key_def)
  moreover have "of_account u c (empty_wallet u c (live s))"
    by (simp add: of_account_def empty_wallet_def)
  ultimately show ?thesis using None
    by (simp add: held_def settle_def insert_or_read_def andThen_def need_def wallet_of_def opened_def
        append_row_def empty_wallet_def find_append)
qed

lemma wallet_in_opened: "wallet_of u c d \<in> set (balances (opened u c d))"
  using find_Some_in [of "of_account u c" "balances d"]
  by (auto simp: wallet_of_def opened_def split: option.splits)

lemma wallet_account: "ub_user (wallet_of u c d) = u" "ub_currency (wallet_of u c d) = c"
  using find_Some_in [of "of_account u c" "balances d"]
  by (auto simp: wallet_of_def empty_wallet_def of_account_def split: option.splits)

lemma opened_ledger [simp]: "ledger (opened u c d) = ledger d"
  by (simp add: opened_def split: option.splits)

text \<open>The line a movement writes, and the database it leaves.\<close>

definition line_of :: "nat \<Rightarrow> nat \<Rightarrow> credit_transaction_type \<Rightarrow> int \<Rightarrow> string option \<Rightarrow> string \<Rightarrow> nat option \<Rightarrow> db
    \<Rightarrow> credit_transaction_row" where
  "line_of u c ty signed description key g d =
     \<lparr>rid = next_id (ledger d), ct_user = u, ct_currency = c, ct_benefit_grant = g, ct_type = ty, ct_amount = signed,
      ct_balance_after = ub_amount (wallet_of u c d) + signed, ct_idempotency_key = key, ct_description = description\<rparr>"

definition posted :: "nat \<Rightarrow> nat \<Rightarrow> credit_transaction_type \<Rightarrow> int \<Rightarrow> string option \<Rightarrow> string \<Rightarrow> nat option \<Rightarrow> db \<Rightarrow> db" where
  "posted u c ty signed description key g d = (opened u c d)
     \<lparr>ledger := ledger d @ [line_of u c ty signed description key g d],
      balances := amend (named (rid (wallet_of u c d))) (\<lambda>r. r\<lparr>ub_amount := ub_amount (wallet_of u c d) + signed\<rparr>)
        (balances (opened u c d))\<rparr>"

definition line_keyed :: "string \<Rightarrow> db \<Rightarrow> credit_transaction_row option" where
  "line_keyed key d = List.find (\<lambda>r. ct_idempotency_key r = key) (ledger d)"

definition may_hold :: "nat \<Rightarrow> nat \<Rightarrow> db \<Rightarrow> bool" where
  "may_hold u c d = (case (fetch c (currencies d), fetch u (users d)) of
     (Some currency, Some user) \<Rightarrow> cu_tenant currency = None \<or> cu_tenant currency = us_tenant user | _ \<Rightarrow> False)"

lemma move_again: "line_keyed key (live s) = Some r \<Longrightarrow> move u c ty amount description key g s = (Ok r, s)"
  by (simp add: move_def settled_by_key_def line_keyed_def)

lemma move_barred:
  assumes "line_keyed key (live s) = None" and "\<not> may_hold u c (live s)"
  shows "\<exists>e. move u c ty amount description key g s = (Err e, s)"
  using assms
  by (auto simp: move_def settled_by_key_def line_keyed_def may_hold_def split: option.splits)

lemma move_open:
  assumes "line_keyed key (live s) = None" and "may_hold u c (live s)"
  shows "move u c ty amount description key g s =
    (case signed_amount ty amount of
       Ok signed \<Rightarrow>
         (let balance = ub_amount (wallet_of u c (live s)) + signed; h = s\<lparr>live := opened u c (live s)\<rparr>;
              d = posted u c ty signed description key g (live s) in
          if balance < 0 then (Err (ValidationError ''error.insufficient-credits'' ''amount''), h)
          else if BIG_INTEGER_MAX < balance then (Err (ValidationError ''error.balance-out-of-range'' ''amount''), h)
          else (Ok (line_of u c ty signed description key g (live s)), s\<lparr>live := d, kept := d\<rparr>))
     | Err e \<Rightarrow> (Err e, s\<lparr>live := opened u c (live s)\<rparr>)
     | Hangs \<Rightarrow> (Hangs, s\<lparr>live := opened u c (live s)\<rparr>))"
proof -
  obtain cu us where c: "fetch c (currencies (live s)) = Some cu" and u: "fetch u (users (live s)) = Some us"
    and reach: "cu_tenant cu = None \<or> cu_tenant cu = us_tenant us"
    using assms(2) by (auto simp: may_hold_def split: option.splits)
  have free: "free_of ledger_key (ledger (live s)) r" if "ct_idempotency_key r = key" for r
    using assms(1) that by (auto simp: line_keyed_def find_None_iff_all free_of_keys ledger_key_def)
  have first: "andThen (held u c) k s = k (wallet_of u c (live s)) (s\<lparr>live := opened u c (live s)\<rparr>)"
    for k :: "user_balance_row \<Rightarrow> credit_transaction_row service"
    by (rule andThen_Ok) (rule held_apply)
  have last: "write_line (wallet_of u c (live s)) \<lparr>rid = 0, ct_user = u, ct_currency = c, ct_benefit_grant = g, ct_type = ty,
      ct_amount = signed, ct_balance_after = ub_amount (wallet_of u c (live s)) + signed, ct_idempotency_key = key,
      ct_description = description\<rparr> (s\<lparr>live := opened u c (live s)\<rparr>)
    = (Ok (line_of u c ty signed description key g (live s)),
       s\<lparr>live := posted u c ty signed description key g (live s), kept := posted u c ty signed description key g (live s)\<rparr>)" for signed
    by (simp add: write_line_def refusing_def handle_def store_def andThen_def alter_def commit_def writes_def free
        free_keys_def posted_def line_of_def append_row_def Let_def)
  show ?thesis
    using assms(1) c u reach
    by (cases "signed_amount ty amount")
      (auto simp: move_def settled_by_key_def line_keyed_def first last Let_def)
qed

section \<open>The books stay balanced\<close>

lemma books_opened:
  assumes "books d"
  shows "books (opened u c d)"
proof (cases "List.find (of_account u c) (balances d)")
  case (Some b)
  then show ?thesis using assms by (simp add: opened_def)
next
  case None
  let ?w = "empty_wallet u c d"
  have none: "\<not> of_account u c b" if "b \<in> set (balances d)" for b
    using None that by (simp add: find_None_iff_all)
  have "total (ledger d) u c = 0"
  proof (rule total_none)
    fix r
    assume "r \<in> set (ledger d)"
    with assms obtain b where "b \<in> set (balances d)" "of_account (ct_user r) (ct_currency r) b"
      by (auto simp: books_def list_all_iff list_ex_iff)
    with none show "\<not> (ct_user r = u \<and> ct_currency r = c)" by auto
  qed
  moreover have "explained (opened u c d) b = explained d b" for b
    by (simp add: explained_def)
  moreover have "rid ?w \<notin> rid ` set (balances d)"
    using rid_less_next [of _ "balances d"] by (fastforce simp: empty_wallet_def)
  moreover have "free_of balance_key (balances d) ?w"
    using none by (auto simp: free_of_keys of_account_key balance_key_def empty_wallet_def)
  ultimately show ?thesis
    using assms None
    by (auto simp: books_def opened_def explained_def empty_wallet_def unique_on_append list_all_iff list_ex_iff
        BIG_INTEGER_MAX_def)
qed

lemma wallet_explained: "books d \<Longrightarrow> explained (opened u c d) (wallet_of u c d)"
  using books_opened [of d u c] wallet_in_opened [of u c d] by (auto simp: books_def list_all_iff)

lemma books_posted:
  assumes "books d" and "line_keyed key d = None"
    and "0 \<le> ub_amount (wallet_of u c d) + signed" and "ub_amount (wallet_of u c d) + signed \<le> BIG_INTEGER_MAX"
  shows "books (posted u c ty signed description key g d)"
proof -
  let ?o = "opened u c d" and ?w = "wallet_of u c d" and ?l = "line_of u c ty signed description key g d"
  let ?p = "posted u c ty signed description key g d"
  have o': "books ?o" using assms(1) by (rule books_opened)
  then have ids: "distinct (map rid (balances ?o))" and keys: "unique_on balance_key (balances ?o)"
    by (simp_all add: books_def)
  have w: "?w \<in> set (balances ?o)" by (rule wallet_in_opened)
  have same: "b = ?w" if "b \<in> set (balances ?o)" "rid b = rid ?w" for b
    using that(2) by (metis fetch_distinct [OF ids that(1)] fetch_distinct [OF ids w] option.inject)
  have amount: "explained ?p (if named (rid ?w) b then b\<lparr>ub_amount := ub_amount ?w + signed\<rparr> else b)"
    if b: "b \<in> set (balances ?o)" for b
  proof (cases "rid b = rid ?w")
    case True
    then have "b = ?w" using b same by blast
    with wallet_explained [OF assms(1), of u c] assms(3,4) show ?thesis
      by (simp add: explained_def posted_def named_def total_append line_of_def wallet_account)
  next
    case False
    have "\<not> (ub_user b = u \<and> ub_currency b = c)"
      using unique_onD [OF keys b w, of "(u, c)"] False by (auto simp: balance_key_def wallet_account)
    moreover have "explained ?o b" using o' b by (auto simp: books_def list_all_iff)
    ultimately show ?thesis using False
      by (auto simp: explained_def posted_def named_def total_append line_of_def)
  qed
  have backed: "list_ex (of_account (ct_user r) (ct_currency r)) (balances ?p)" if "r \<in> set (ledger d) \<or> r = ?l" for r
  proof -
    have "\<exists>b\<in>set (balances ?o). of_account (ct_user r) (ct_currency r) b"
      using that
    proof
      assume "r \<in> set (ledger d)"
      with o' show ?thesis by (auto simp: books_def list_all_iff list_ex_iff)
    next
      assume "r = ?l"
      with w show ?thesis by (intro bexI [of _ ?w]) (simp_all add: line_of_def of_account_def wallet_account)
    qed
    moreover have "balance_key ` set (balances ?p) = balance_key ` set (balances ?o)"
      by (simp add: posted_def, rule keys_amend) (simp add: balance_key_def)
    ultimately show ?thesis
      unfolding holds_account of_account_key by (metis imageI)
  qed
  have "distinct (map rid (balances ?p))"
    using ids by (simp add: posted_def amend_rid)
  moreover have "unique_on balance_key (balances ?p)"
    using keys by (simp add: posted_def unique_on_amend balance_key_def)
  moreover have "unique_on ledger_key (ledger ?p)"
    using assms(1,2) by (auto simp: posted_def books_def unique_on_append free_of_keys ledger_key_def line_of_def
        line_keyed_def find_None_iff_all)
  moreover have "list_all (explained ?p) (balances ?p)"
    using amount by (auto simp: list_all_iff posted_def set_amend)
  moreover have "list_all (\<lambda>r. list_ex (of_account (ct_user r) (ct_currency r)) (balances ?p)) (ledger ?p)"
    using backed by (auto simp: list_all_iff posted_def)
  moreover have "running [] (ledger ?p)"
    using assms(1) wallet_explained [OF assms(1), of u c]
    by (simp add: posted_def books_def running_append total_append line_of_def explained_def wallet_account)
  ultimately show ?thesis by (simp add: books_def)
qed

lemma move_books: "effect (keeps (steady books)) (move u c ty amount description key g)"
proof (rule effectI, rule keepsI)
  fix s :: session
  assume inv: "steady books s"
  show "steady books (snd (move u c ty amount description key g s))"
  proof (cases "line_keyed key (live s)")
    case (Some r)
    then show ?thesis using inv by (simp add: move_again)
  next
    case None
    show ?thesis
    proof (cases "may_hold u c (live s)")
      case False
      from move_barred [OF None False] obtain e where "move u c ty amount description key g s = (Err e, s)" by blast
      then show ?thesis using inv by simp
    next
      case True
      then show ?thesis using inv None books_opened [of "live s" u c] books_posted [of "live s" key u c]
        by (auto simp: move_open steady_def Let_def split: outcome.splits)
    qed
  qed
qed

section \<open>The ledger is append-only\<close>

definition ledger_grows :: "db \<Rightarrow> db \<Rightarrow> bool" where
  "ledger_grows d e \<longleftrightarrow> prefix (ledger d) (ledger e)"

interpretation ledger_order: db_order ledger_grows
  by unfold_locales (auto simp: ledger_grows_def)

lemma move_ledger_grows: "effect (advances ledger_grows) (move u c ty amount description key g)"
proof (rule effectI)
  fix s :: session
  show "advances ledger_grows s (snd (move u c ty amount description key g s))"
  proof (cases "line_keyed key (live s)")
    case (Some r)
    then show ?thesis by (simp add: move_again ledger_order.path.stay)
  next
    case None
    show ?thesis
    proof (cases "may_hold u c (live s)")
      case False
      from move_barred [OF None False] obtain e where "move u c ty amount description key g s = (Err e, s)" by blast
      then show ?thesis by (simp add: ledger_order.path.stay)
    next
      case True
      have "prefix (ledger (live s)) (ledger (posted u c ty x description key g (live s)))" for x
        by (simp add: posted_def)
      then show ?thesis using None True
        by (auto simp: move_open advances_def ledger_grows_def Let_def split: outcome.splits
            intro: prefix_order.trans)
    qed
  qed
qed

section \<open>What the wallet promises\<close>

lemma line_keyed_later:
  assumes "line_keyed key d = Some r" and "ledger_grows d e"
  shows "line_keyed key e = Some r"
proof -
  from assms(2) obtain new where "ledger e = ledger d @ new" by (auto simp: ledger_grows_def prefix_def)
  with assms(1) show ?thesis by (simp add: line_keyed_def find_append)
qed

lemma move_keyed:
  assumes "fst (move u c ty amount description key g s) = Ok r"
  shows "line_keyed key (live (snd (move u c ty amount description key g s))) = Some r"
proof (cases "line_keyed key (live s)")
  case (Some q)
  with assms show ?thesis by (simp add: move_again)
next
  case None
  have m: "may_hold u c (live s)"
  proof (rule ccontr)
    assume "\<not> may_hold u c (live s)"
    from move_barred [OF None this] obtain e where "move u c ty amount description key g s = (Err e, s)" by blast
    with assms show False by simp
  qed
  have "line_keyed key (posted u c ty x description key g (live s)) = Some (line_of u c ty x description key g (live s))" for x
    using None by (simp add: line_keyed_def posted_def find_append line_of_def)
  with assms None m show ?thesis
    by (auto simp: move_open Let_def split: outcome.splits if_splits)
qed

text \<open>
  Credits move once. Whoever asks again under the key of a movement that went through, at any later time
  and with any other amount or account, is handed the line the first one wrote, and nothing is written.
\<close>

theorem move_once:
  assumes "fst (move u c ty amount description key g s) = Ok line"
    and "ledger_grows (live (snd (move u c ty amount description key g s))) (live later)"
  shows "move u' c' ty' amount' description' key g' later = (Ok line, later)"
  by (rule move_again, rule line_keyed_later, rule move_keyed [OF assms(1)], rule assms(2))

theorem move_once_witness:
  "move 1 1 DEBIT 99 None ''top-up'' None (snd (move 1 1 credit_transaction_type.CREDIT 30 None ''top-up'' None sample))
    = (Ok (line_of 1 1 credit_transaction_type.CREDIT 30 None ''top-up'' None sample_db),
       snd (move 1 1 credit_transaction_type.CREDIT 30 None ''top-up'' None sample))"
proof (rule move_once)
  show "fst (move 1 1 credit_transaction_type.CREDIT 30 None ''top-up'' None sample)
      = Ok (line_of 1 1 credit_transaction_type.CREDIT 30 None ''top-up'' None sample_db)" by code_simp
qed (simp add: ledger_grows_def)

text \<open>
  A movement, on every branch. An amount of the wrong sign, a debit past what is held and a credit past
  what the column holds are refused with nothing on the ledger and nothing committed; otherwise the line
  carries the balance it leaves, that balance is what the wallet then holds, and both are committed.
\<close>

theorem move_outcome:
  assumes "line_keyed key (live s) = None" and "may_hold u c (live s)"
  shows "move u c ty amount description key g s =
    (case signed_amount ty amount of
       Ok signed \<Rightarrow>
         (let balance = ub_amount (wallet_of u c (live s)) + signed; h = s\<lparr>live := opened u c (live s)\<rparr>;
              d = posted u c ty signed description key g (live s) in
          if balance < 0 then (Err (ValidationError ''error.insufficient-credits'' ''amount''), h)
          else if BIG_INTEGER_MAX < balance then (Err (ValidationError ''error.balance-out-of-range'' ''amount''), h)
          else (Ok (line_of u c ty signed description key g (live s)), s\<lparr>live := d, kept := d\<rparr>))
     | Err e \<Rightarrow> (Err e, s\<lparr>live := opened u c (live s)\<rparr>)
     | Hangs \<Rightarrow> (Hangs, s\<lparr>live := opened u c (live s)\<rparr>))"
  using assms by (rule move_open)

theorem move_outcome_witness:
  "fst (move 1 1 DEBIT 30 None ''spend'' None sample) = Err (ValidationError ''error.insufficient-credits'' ''amount'')"
proof -
  have "line_keyed ''spend'' (live sample) = None" "may_hold 1 1 (live sample)"
    by (simp_all add: line_keyed_def may_hold_def fetch_def sample_defs)
  from move_outcome [OF this, of DEBIT 30 None None] show ?thesis by (simp only:) code_simp
qed

text \<open>
  C4: The books always balance. In what a movement leaves, committed or not and whatever it answered, every
  balance is what the ledger of its account and currency adds up to, is not negative and fits its column,
  no two lines share an idempotency key, and every line carries the balance it left.
\<close>

theorem move_keeps_books:
  assumes "steady books s"
  shows "steady books (snd (move u c ty amount description key g s))"
  using move_books assms by (rule effect_keepsD)

theorem move_keeps_books_witness:
  "steady books (snd (move 1 1 credit_transaction_type.CREDIT 30 None ''top-up'' None sample))"
  by (rule move_keeps_books) (simp add: steady_def books_def sample_defs)

end
