(* ===== verification/Commerce.thy ===== *)
theory Commerce
  imports Ledger
begin

text \<open>
  What buying and being given a product both go through: \<^verbatim>\<open>services/commerce_service.py\<close> and the
  \<open>owned_by\<close> of \<^verbatim>\<open>services/user_product_service.py\<close>. A purchase is opened before the buyer leaves and
  settled by what the gateway says of it; the word paid hands the product over, once, with its credits.
\<close>

section \<open>Handing a product over\<close>

definition owns :: "nat \<Rightarrow> nat \<Rightarrow> user_product_row \<Rightarrow> bool" where
  "owns user product r \<longleftrightarrow> up_user r = user \<and> up_product r = product"

definition owned_by :: "nat \<Rightarrow> nat \<Rightarrow> bool service" where
  "owned_by user product = query (\<lambda>d. List.find (owns user product) (user_products d) \<noteq> None)"

text \<open>The credits of a product, put in the balance of the currency it names where it names one.\<close>

definition product_credits :: "nat \<Rightarrow> product_row \<Rightarrow> string \<Rightarrow> nat option \<Rightarrow> unit service" where
  "product_credits user_id product source_key benefit_grant_id =
     (case pr_credits_currency product of
        None \<Rightarrow> ret ()
      | Some currency \<Rightarrow>
          if pr_credits product = 0 then ret ()
          else andThen (move user_id currency credit_transaction_type.CREDIT (pr_credits product) (Some (pr_name product))
                 (''product:'' @ source_key) benefit_grant_id) (\<lambda>_. ret ()))"

definition owned_row :: "nat \<Rightarrow> nat \<Rightarrow> nat option \<Rightarrow> nat option \<Rightarrow> nat option \<Rightarrow> datetime \<Rightarrow> user_product_row" where
  "owned_row user_id product_id subscription_id purchase_id benefit_grant_id moment =
     \<lparr>rid = 0, up_user = user_id, up_product = product_id, up_purchase = purchase_id, up_subscription = subscription_id,
      up_benefit_grant = benefit_grant_id, up_granted_at = moment\<rparr>"

definition grant :: "nat \<Rightarrow> nat \<Rightarrow> string \<Rightarrow> nat option \<Rightarrow> nat option \<Rightarrow> nat option \<Rightarrow> (user_product_row \<times> bool) service" where
  "grant user_id product_id source_key subscription_id purchase_id benefit_grant_id =
     andThen now (\<lambda>moment.
     andThen (settle user_products user_products_update (free_of owner_key) (owns user_id product_id)
       (owned_row user_id product_id subscription_id purchase_id benefit_grant_id moment)) (\<lambda>settled.
     case settled of
       Found r \<Rightarrow> ret (r, False)
     | Missed \<Rightarrow> throw AttributeError
     | Wrote r \<Rightarrow>
         andThen (load products product_id) (\<lambda>product.
         andThen (product_credits user_id product source_key benefit_grant_id) (\<lambda>_.
         andThen commit (\<lambda>_. ret (r, True))))))"

section \<open>A payment\<close>

definition accepts_purchase :: "purchase_row list \<Rightarrow> purchase_row \<Rightarrow> bool" where
  "accepts_purchase t r \<longleftrightarrow> free_of reference_key t r \<and> free_of payment_key t r"

text \<open>The reference is minted as \<open>purchase-<uuid4>\<close>, which is what the caller of the model names.\<close>

definition open_purchase :: "nat option \<Rightarrow> nat \<Rightarrow> product_row \<Rightarrow> nat option \<Rightarrow> string \<Rightarrow> purchase_row service" where
  "open_purchase brand user product integration_id reference =
     andThen (owned_by user (rid product)) (\<lambda>owned.
     if owned then throw (ConflictError ''error.product-already-owned'') else
     refusing ''error.duplicated-record'' (
       andThen (store purchases purchases_update accepts_purchase
         \<lparr>rid = 0, pu_tenant = brand, pu_user = user, pu_product = rid product, pu_integration = integration_id,
          pu_reference = reference, pu_external_id = None, pu_currency = pr_currency product, pu_price = pr_price product,
          pu_status = purchase_status.PENDING, pu_paid_at = None\<rparr>) (\<lambda>purchase.
       andThen commit (\<lambda>_. ret purchase))))"

text \<open>
  What moves a payment: not the word it already carries, never back to waiting, never out of a refund,
  and out of a settled word only to another settled one.
\<close>

definition settles :: "purchase_status \<Rightarrow> purchase_status \<Rightarrow> bool" where
  "settles held_status status \<longleftrightarrow>
     \<not> held_status = status \<and>
     \<not> (status = purchase_status.PENDING \<or> held_status = purchase_status.REFUNDED \<or>
        (held_status \<in> set SETTLED_PURCHASE_STATUSES \<and> status \<notin> set SETTLED_PURCHASE_STATUSES))"

definition settlement :: "purchase_status \<Rightarrow> string option \<Rightarrow> datetime \<Rightarrow> purchase_row \<Rightarrow> purchase_row" where
  "settlement status external_id moment r =
     r\<lparr>pu_status := status,
       pu_external_id := (case external_id of None \<Rightarrow> pu_external_id r
         | Some e \<Rightarrow> if e = '''' then pu_external_id r else Some e),
       pu_paid_at := (if status = purchase_status.PAID then Some moment else pu_paid_at r)\<rparr>"

definition purchase_keys :: "purchase_row list \<Rightarrow> bool" where
  "purchase_keys t \<longleftrightarrow> unique_on payment_key t"

text \<open>
  \<open>settle_purchase\<close> of a payment whose object was read with the status \<open>seen\<close>. The write is conditioned
  on that status, and a call that lost reads the row again and decides again: the fuel counts the times
  it may lose.
\<close>

fun settle_purchase :: "nat \<Rightarrow> nat \<Rightarrow> purchase_status \<Rightarrow> purchase_status \<Rightarrow> string option \<Rightarrow> purchase_row service" where
  "settle_purchase 0 purchase seen status external_id = hang"
| "settle_purchase (Suc fuel) purchase seen status external_id =
     (if \<not> settles seen status then load purchases purchase else
      andThen now (\<lambda>moment.
      andThen (alter purchases purchases_update purchase_keys (\<lambda>r. named purchase r \<and> pu_status r = seen)
        (settlement status external_id moment)) (\<lambda>rowcount.
      andThen (load purchases purchase) (\<lambda>r.
      if rowcount \<noteq> 1 then settle_purchase fuel purchase (pu_status r) status external_id
      else andThen (if status = purchase_status.PAID
               then andThen (grant (pu_user r) (pu_product r) (pu_reference r) None (Some purchase) None) (\<lambda>_. ret ())
               else ret ()) (\<lambda>_.
           andThen commit (\<lambda>_. load purchases purchase))))))"

section \<open>Products are owned once and for good\<close>

definition ownership :: "db \<Rightarrow> (nat \<times> nat) list" where
  "ownership d = map (\<lambda>r. (up_user r, up_product r)) (user_products d)"

definition ownership_grows :: "db \<Rightarrow> db \<Rightarrow> bool" where
  "ownership_grows d e \<longleftrightarrow> set (ownership d) \<subseteq> set (ownership e)"

definition owned_once :: "db \<Rightarrow> bool" where
  "owned_once d \<longleftrightarrow> distinct (ownership d)"

interpretation ownership_order: db_order ownership_grows
  by unfold_locales (auto simp: ownership_grows_def)

interpretation product_owners: keyed_table "free_of owner_key" owner_key
  by unfold_locales (simp_all add: owner_key_def)

lemma ownership_iff: "(u, p) \<in> set (ownership d) \<longleftrightarrow> List.find (owns u p) (user_products d) \<noteq> None"
  by (auto simp: ownership_def find_None_iff_all owns_def)

lemma ownership_append:
  "free_of owner_key (user_products d) r \<longleftrightarrow> (up_user r, up_product r) \<notin> set (ownership d)"
  by (auto simp: free_of_keys owner_key_def ownership_def)

text \<open>A movement writes the two tables of the wallet and nothing else.\<close>

lemma move_leaves:
  assumes "\<And>d l. f (d\<lparr>ledger := l\<rparr>) = f d" and "\<And>d b. f (d\<lparr>balances := b\<rparr>) = f d"
  shows "effect (leaves f) (move u c ty amount description key g)"
proof (rule effectI)
  fix s :: session
  have o: "f (opened u c d) = f d" for d by (simp add: opened_def assms(2) split: option.splits)
  then have p: "f (posted u c ty x description key g d) = f d" for x d
    by (simp add: posted_def assms)
  show "leaves f s (snd (move u c ty amount description key g s))"
  proof (cases "line_keyed key (live s) = None \<and> may_hold u c (live s)")
    case True
    then show ?thesis
      by (auto simp: move_open leaves_def Let_def o p split: outcome.splits)
  next
    case False
    then have "\<exists>r. move u c ty amount description key g s = (r, s)"
      using move_again [of key s] move_barred [of key s] by (cases "line_keyed key (live s)") blast+
    then show ?thesis by (auto simp: leaves_order.stay)
  qed
qed

lemma grant_owned:
  "List.find (owns u p) (user_products (live s)) = Some r \<Longrightarrow> grant u p key sub pur g s = (Ok (r, False), s)"
  by (simp add: grant_def settle_def insert_or_read_def andThen_def)

definition handed :: "nat \<Rightarrow> nat \<Rightarrow> nat option \<Rightarrow> nat option \<Rightarrow> nat option \<Rightarrow> session \<Rightarrow> session" where
  "handed u p sub pur g s = s\<lparr>live := (live s)\<lparr>user_products :=
     append_row (owned_row u p sub pur g (clock s)) (user_products (live s))\<rparr>\<rparr>"

lemma grant_fresh:
  assumes "List.find (owns u p) (user_products (live s)) = None"
  shows "grant u p key sub pur g s =
    andThen (load products p) (\<lambda>product. andThen (product_credits u product key g) (\<lambda>_. andThen commit (\<lambda>_.
      ret ((owned_row u p sub pur g (clock s))\<lparr>rid := next_id (user_products (live s))\<rparr>, True)))) (handed u p sub pur g s)"
proof -
  have "free_of owner_key (user_products (live s)) (owned_row u p sub pur g (clock s))"
    using assms ownership_iff [of u p "live s"] ownership_append [of "live s" "owned_row u p sub pur g (clock s)"]
    by (simp add: owned_row_def)
  with assms show ?thesis
    by (simp add: grant_def settle_def insert_or_read_def handed_def andThen_def [of "\<lambda>s. (Ok _, _ s)"])
      (simp add: andThen_def)
qed

lemma ownership_handed: "ownership (live (handed u p sub pur g s)) = ownership (live s) @ [(u, p)]"
  by (simp add: handed_def ownership_def append_row_def owned_row_def)

lemma product_credits_leaves:
  assumes "\<And>d l. f (d\<lparr>ledger := l\<rparr>) = f d" and "\<And>d b. f (d\<lparr>balances := b\<rparr>) = f d"
  shows "effect (leaves f) (product_credits u product key g)"
  unfolding product_credits_def by (intro leaves_steps move_leaves assms)

lemma product_credits_books: "effect (keeps (steady books)) (product_credits u product key g)"
  unfolding product_credits_def by (intro keeps_order.steps move_books)

lemma product_credits_ledger: "effect (advances ledger_grows) (product_credits u product key g)"
  unfolding product_credits_def by (intro ledger_order.steps_ok move_ledger_grows)

lemma product_credits_ownership: "effect (advances ownership_grows) (product_credits u product key g)"
  by (rule leaves_advances [of user_products], rule product_credits_leaves) (simp_all add: ownership_grows_def ownership_def)

lemma product_credits_owned_once: "effect (keeps (steady owned_once)) (product_credits u product key g)"
  by (rule leaves_keeps [of user_products], rule product_credits_leaves) (simp_all add: owned_once_def ownership_def)

text \<open>What \<open>grant\<close> may do, for each of the laws of the database.\<close>

lemma settled_ok:
  assumes "\<And>r. effect R (f r)" and "\<And>r. effect R (g r)" and "effect R h"
  shows "effect R (case w of Wrote r \<Rightarrow> f r | Found r \<Rightarrow> g r | Missed \<Rightarrow> h)"
  using assms by (cases w) simp_all

lemma books_frame: "balances d = balances e \<Longrightarrow> ledger d = ledger e \<Longrightarrow> books d \<Longrightarrow> books e"
proof -
  assume same: "balances d = balances e" "ledger d = ledger e"
  then have "explained d = explained e" by (intro ext) (simp add: explained_def)
  with same show "books d \<Longrightarrow> books e" by (simp add: books_def)
qed

lemma grant_leaves:
  assumes "\<And>d l. f (d\<lparr>ledger := l\<rparr>) = f d" and "\<And>d b. f (d\<lparr>balances := b\<rparr>) = f d"
    and "\<And>d x. f (d\<lparr>user_products := x\<rparr>) = f d"
  shows "effect (leaves f) (grant u p key sub pur g)"
  unfolding grant_def by (intro leaves_steps settled_ok leaves_settle product_credits_leaves assms)

lemma grant_books: "effect (keeps (steady books)) (grant u p key sub pur g)"
  unfolding grant_def
  by (intro keeps_order.steps steady_statements settled_ok steady_settle product_credits_books)
    (auto elim!: books_frame [rotated 2])

lemma grant_ledger_grows: "effect (advances ledger_grows) (grant u p key sub pur g)"
  unfolding grant_def
  by (intro ledger_order.steps_ok settled_ok ledger_order.settle_ok product_credits_ledger)
    (simp_all add: ledger_grows_def)

lemma grant_ownership_grows: "effect (advances ownership_grows) (grant u p key sub pur g)"
  unfolding grant_def
  by (intro ownership_order.steps_ok settled_ok ownership_order.settle_ok product_credits_ownership)
    (auto simp: ownership_grows_def ownership_def append_row_def)

lemma grant_owned_once: "effect (keeps (steady owned_once)) (grant u p key sub pur g)"
  unfolding grant_def
  by (intro keeps_order.steps steady_statements settled_ok steady_settle product_credits_owned_once)
    (auto simp: owned_once_def ownership_append ownership_def append_row_def)

section \<open>What buying promises\<close>

text \<open>A movement never rolls back, so what the transaction held elsewhere is held after it.\<close>

lemma move_keeps:
  assumes "\<And>d l. f (d\<lparr>ledger := l\<rparr>) = f d" and "\<And>d b. f (d\<lparr>balances := b\<rparr>) = f d"
  shows "f (live (snd (move u c ty amount description key g s))) = f (live s)"
proof (cases "line_keyed key (live s) = None \<and> may_hold u c (live s)")
  case True
  have o: "f (opened u c d) = f d" for d by (simp add: opened_def assms(2) split: option.splits)
  then have p: "f (posted u c ty x description key g d) = f d" for x d by (simp add: posted_def assms)
  show ?thesis using True by (auto simp: move_open Let_def o p split: outcome.splits)
next
  case False
  then have "\<exists>r. move u c ty amount description key g s = (r, s)"
    using move_again [of key s] move_barred [of key s] by (cases "line_keyed key (live s)") blast+
  then show ?thesis by auto
qed

lemma credits_keep:
  assumes "\<And>d l. f (d\<lparr>ledger := l\<rparr>) = f d" and "\<And>d b. f (d\<lparr>balances := b\<rparr>) = f d"
  shows "f (live (snd (product_credits u product key g s))) = f (live s)"
  using move_keeps [of f, OF assms]
  by (auto simp: product_credits_def andThen_def split: option.splits prod.splits outcome.splits) (metis snd_conv)+

lemma grant_keeps:
  assumes "\<And>d l. f (d\<lparr>ledger := l\<rparr>) = f d" and "\<And>d b. f (d\<lparr>balances := b\<rparr>) = f d"
    and "\<And>d x. f (d\<lparr>user_products := x\<rparr>) = f d"
  shows "f (live (snd (grant u p key sub pur g s))) = f (live s)"
proof (cases "List.find (owns u p) (user_products (live s))")
  case (Some q)
  then show ?thesis by (simp add: grant_owned)
next
  case None
  let ?h = "handed u p sub pur g s"
  have h: "f (live ?h) = f (live s)" by (simp add: handed_def assms(3))
  show ?thesis
  proof (cases "fetch p (products (live ?h))")
    case None
    with grant_fresh [OF \<open>List.find _ _ = None\<close>, of key sub pur g] h show ?thesis by (simp add: andThen_def [of "load _ _"])
  next
    case (Some product)
    with grant_fresh [OF None, of key sub pur g] h credits_keep [of f u product key g ?h, OF assms(1,2)] show ?thesis
      by (auto simp: andThen_def [of "product_credits _ _ _ _"] split: prod.splits outcome.splits)
  qed
qed

lemma grant_owns:
  assumes "grant u p key sub pur g s = (Ok (r, b), t)"
  shows "(u, p) \<in> set (ownership (live t))"
proof (cases "List.find (owns u p) (user_products (live s))")
  case (Some q)
  with assms ownership_iff [of u p "live s"] show ?thesis by (auto simp: grant_owned)
next
  case None
  let ?h = "handed u p sub pur g s"
  from assms grant_fresh [OF None, of key sub pur g] obtain product where
    product: "fetch p (products (live ?h)) = Some product"
    by (cases "fetch p (products (live ?h))") (simp_all add: andThen_def [of "load _ _"])
  have "live t = live (snd (product_credits u product key g ?h))"
    using assms grant_fresh [OF None, of key sub pur g] product
    by (cases "product_credits u product key g ?h"; cases "fst (product_credits u product key g ?h)")
      (auto simp: andThen_def [of "product_credits _ _ _ _"])
  then have "user_products (live t) = user_products (live ?h)" by (simp add: credits_keep [of user_products])
  then have "ownership (live t) = ownership (live ?h)" by (simp add: ownership_def)
  then show ?thesis by (simp add: ownership_handed)
qed

text \<open>
  A product is handed over once. Whoever asks for it again for the same account, from any door and at any
  later time, is handed the row already there with no credits moved and nothing written.
\<close>

theorem grant_once:
  assumes "fst (grant u p key sub pur g s) = Ok (r, b)"
    and "ownership_grows (live (snd (grant u p key sub pur g s))) (live later)"
  shows "\<exists>q. grant u p key' sub' pur' g' later = (Ok (q, False), later) \<and> up_user q = u \<and> up_product q = p"
proof -
  obtain t where "grant u p key sub pur g s = (Ok (r, b), t)" using assms(1) by (metis prod.collapse)
  from grant_owns [OF this] assms(2) this have "(u, p) \<in> set (ownership (live later))"
    by (auto simp: ownership_grows_def)
  then obtain q where q: "List.find (owns u p) (user_products (live later)) = Some q"
    by (auto simp: ownership_iff)
  with find_Some_in [OF q] show ?thesis by (auto simp: grant_owned owns_def)
qed

theorem grant_once_witness:
  "\<exists>q. grant 1 1 ''elsewhere'' (Some 1) None None (snd (grant 1 1 ''purchase-1'' None (Some 1) None sample))
     = (Ok (q, False), snd (grant 1 1 ''purchase-1'' None (Some 1) None sample)) \<and> up_user q = 1 \<and> up_product q = 1"
proof (rule grant_once)
  show "fst (grant 1 1 ''purchase-1'' None (Some 1) None sample)
      = Ok ((owned_row 1 1 None (Some 1) None (on_day 2024 3 5))\<lparr>rid := 1\<rparr>, True)"
    by code_simp
qed (simp add: ownership_order.rest)

section \<open>The words a payment may take\<close>

text \<open>
  Where a payment may be found later: it never goes back to waiting, a refund is final, and what is settled
  stays settled.
\<close>

definition becomes :: "purchase_status \<Rightarrow> purchase_status \<Rightarrow> bool" where
  "becomes a b \<longleftrightarrow> a = b \<or> b \<noteq> purchase_status.PENDING \<and> a \<noteq> purchase_status.REFUNDED
     \<and> (a \<in> set SETTLED_PURCHASE_STATUSES \<longrightarrow> b \<in> set SETTLED_PURCHASE_STATUSES)"

lemma becomes_settles: "becomes a b \<longleftrightarrow> a = b \<or> settles a b"
  by (auto simp: becomes_def settles_def)

lemma becomes_trans: "becomes a b \<Longrightarrow> becomes b c \<Longrightarrow> becomes a c"
  by (auto simp: becomes_def SETTLED_PURCHASE_STATUSES_def)

definition payment_words :: "db \<Rightarrow> (nat \<times> purchase_status) list" where
  "payment_words d = map (\<lambda>r. (rid r, pu_status r)) (purchases d)"

definition purchases_move :: "db \<Rightarrow> db \<Rightarrow> bool" where
  "purchases_move d e \<longleftrightarrow> length (payment_words d) \<le> length (payment_words e)
     \<and> list_all2 (\<lambda>(i, a) (j, b). i = j \<and> becomes a b) (payment_words d) (take (length (payment_words d)) (payment_words e))"

lemma purchases_move_refl: "purchases_move d d"
  by (auto simp: purchases_move_def becomes_def list_all2_same)

lemma purchases_move_nth:
  "purchases_move d e \<longleftrightarrow> length (payment_words d) \<le> length (payment_words e) \<and> (\<forall>k < length (payment_words d).
    fst (payment_words d ! k) = fst (payment_words e ! k) \<and> becomes (snd (payment_words d ! k)) (snd (payment_words e ! k)))"
  by (auto simp: purchases_move_def list_all2_conv_all_nth split_beta)

interpretation purchase_order: db_order purchases_move
proof
  fix d e f
  show "purchases_move d d" by (rule purchases_move_refl)
  show "purchases_move d e \<Longrightarrow> purchases_move e f \<Longrightarrow> purchases_move d f"
    by (auto simp: purchases_move_nth intro: becomes_trans)
qed

lemma purchases_move_frame: "purchases d = purchases d' \<Longrightarrow> purchases e = purchases e' \<Longrightarrow> purchases_move d e \<Longrightarrow> purchases_move d' e'"
  by (simp add: purchases_move_def payment_words_def)

lemma purchases_move_amend:
  "(\<And>r. p r \<Longrightarrow> rid (f r) = rid r \<and> becomes (pu_status r) (pu_status (f r))) \<Longrightarrow>
    purchases_move d (d\<lparr>purchases := amend p f (purchases d)\<rparr>)"
  by (auto simp: purchases_move_nth payment_words_def amend_def) (simp add: becomes_def)

lemma settle_purchase_moves: "effect (advances purchases_move) (settle_purchase fuel i seen status ext)"
proof (induction fuel arbitrary: seen)
  case 0
  show ?case unfolding settle_purchase.simps by (rule purchase_order.path.hang_ok)
next
  case (Suc fuel)
  have grants: "effect (advances purchases_move) (grant u p key sub pur g)" for u p key sub pur g
    by (rule leaves_advances [of purchases], rule grant_leaves) (simp_all add: purchases_move_refl, erule (2) purchases_move_frame)
  have moving: "effect (advances purchases_move) (alter purchases purchases_update purchase_keys
      (\<lambda>r. named i r \<and> pu_status r = seen) (settlement status ext moment))" if "settles seen status" for moment
    by (rule purchase_order.alter_ok, rule purchases_move_amend)
      (use that in \<open>auto simp: settlement_def becomes_settles\<close>)
  show ?case
  proof (cases "settles seen status")
    case True
    then show ?thesis unfolding settle_purchase.simps
      by (intro purchase_order.steps_ok grants moving Suc.IH)
  next
    case False
    then show ?thesis unfolding settle_purchase.simps by (simp add: purchase_order.load_ok)
  qed
qed

text \<open>
  C10: What a gateway says of a payment only moves it forward. Whatever the words are, in whatever order they
  arrive and wherever one is cut short, no committed payment goes back to waiting, none leaves a refund, and
  one that was settled is only ever found settled.
\<close>

theorem payments_move_forward:
  assumes "live s = kept s" and "settle_purchase fuel i seen status ext s = (r, t)"
  shows "purchases_move (kept s) (kept t) \<and> purchases_move (kept t) (live t)"
  using purchase_order.advancesD(1) [OF settle_purchase_moves assms(2,1)]
    effectD [OF settle_purchase_moves assms(2)] assms(1)
  by (simp add: advances_def purchases_move_refl)

theorem payments_move_forward_witness:
  "purchases_move (kept sample) (kept (snd (settle_purchase 2 1 purchase_status.PENDING purchase_status.CANCELED (Some ''ch_1'') sample)))
   \<and> purchases_move (kept (snd (settle_purchase 2 1 purchase_status.PENDING purchase_status.CANCELED (Some ''ch_1'') sample)))
      (live (snd (settle_purchase 2 1 purchase_status.PENDING purchase_status.CANCELED (Some ''ch_1'') sample)))"
  by (rule payments_move_forward [OF _ prod.collapse [symmetric]]) (simp add: sample_def opened_at_def)

text \<open>What becomes of one payment.\<close>

lemma wp_grant_any: "wp (grant u p key sub pur g) (\<lambda>_ t. (u, p) \<in> set (ownership (live t)) \<and> purchases (live t) = purchases (live s)) (\<lambda>_ _. True) s
    \<longleftrightarrow> fst (grant u p key sub pur g s) \<noteq> Hangs"
  using grant_owns [of u p key sub pur g s] grant_keeps [of purchases u p key sub pur g s]
  by (auto simp: wp_def split: prod.splits outcome.splits)

lemma move_ends: "fst (move u c ty amount description key g s) \<noteq> Hangs"
proof (cases "line_keyed key (live s) = None \<and> may_hold u c (live s)")
  case True
  have "signed_amount ty amount \<noteq> Hangs" by (auto simp: signed_amount_def split: option.splits)
  with True show ?thesis by (auto simp: move_open Let_def split: outcome.splits)
next
  case False
  then have "\<exists>r. r \<noteq> Hangs \<and> move u c ty amount description key g s = (r, s)"
    using move_again [of key s] move_barred [of key s] by (cases "line_keyed key (live s)") blast+
  then show ?thesis by auto
qed

lemma grant_ends: "fst (grant u p key sub pur g s) \<noteq> Hangs"
proof -
  have m: "wp (move u c ty amount description key g) (\<lambda>_ _. True) (\<lambda>_ _. True) t" for c ty amount description key t
    by (simp add: wp_any move_ends)
  have credits: "wp (product_credits u product key g) (\<lambda>_ _. True) (\<lambda>_ _. True) t" for product t
    by (auto simp: product_credits_def wp_flow intro: wp_conseq [OF m] split: option.splits)
  have "wp (grant u p key sub pur g) (\<lambda>_ _. True) (\<lambda>_ _. True) s"
    unfolding grant_def wp_andThen wp_now wp_settle
    by (auto simp: wp_ret wp_throw wp_andThen wp_load wp_commit split: settled.splits prod.splits option.splits
        intro: wp_conseq [OF credits])
  then show ?thesis by (simp add: wp_any)
qed

definition settled_as :: "purchase_row \<Rightarrow> purchase_status \<Rightarrow> purchase_row \<Rightarrow> session \<Rightarrow> bool" where
  "settled_as before status r t \<longleftrightarrow>
     pu_status r = (if settles (pu_status before) status then status else pu_status before)
     \<and> (status = purchase_status.PAID \<and> settles (pu_status before) status \<longrightarrow>
          (pu_user before, pu_product before) \<in> set (ownership (live t)))"

lemma settle_current:
  assumes d: "distinct (map rid (purchases (live s)))" and r: "fetch i (purchases (live s)) = Some r0"
  shows "wp (settle_purchase (Suc n) i (pu_status r0) status ext) (settled_as r0 status) (\<lambda>_ _. True) s"
proof (cases "settles (pu_status r0) status")
  case False
  with r show ?thesis by (simp add: wp_load settled_as_def)
next
  case True
  let ?m = "settlement status ext (clock s)"
  let ?u = "amend (\<lambda>q. named i q \<and> pu_status q = pu_status r0) ?m (purchases (live s))"
  have id: "rid (settlement st ext m q) = rid q" "pu_user (settlement st ext m q) = pu_user q"
    "pu_product (settlement st ext m q) = pu_product q" "pu_status (settlement st ext m q) = st" for st m q
    by (simp_all add: settlement_def)
  have row: "fetch i ?u = Some (?m r0)"
    using r fetch_Some_in [OF r] by (simp add: fetch_amend id named_def)
  have paid: "wp (grant (pu_user r0) (pu_product r0) key None (Some i) None)
      (\<lambda>_ t. (pu_user r0, pu_product r0) \<in> set (ownership (live t)) \<and> purchases (live t) = purchases (live v)) (\<lambda>_ _. True) v" for key v
    by (simp add: wp_grant_any grant_ends)
  show ?thesis
    using True row hits_alone [OF d r, of "\<lambda>q. pu_status q = pu_status r0"]
    by (auto simp: wp_flow wp_statements wp_alter Let_def id settled_as_def intro!: wp_conseq [OF paid])
qed

lemma settle_stale:
  assumes "fetch i (purchases (live s)) = Some r0" and "settles seen status"
    and none: "hits (\<lambda>q. named i q \<and> pu_status q = seen) (purchases (live s)) = 0"
  shows "settle_purchase (Suc n) i seen status ext s = settle_purchase n i (pu_status r0) status ext s"
proof -
  have a: "alter purchases purchases_update purchase_keys (\<lambda>q. named i q \<and> pu_status q = seen) f s = (Ok 0, s)" for f
    by (simp add: alter_def Let_def none hits_0_amend [OF none])
  have b: "andThen (alter purchases purchases_update purchase_keys (\<lambda>q. named i q \<and> pu_status q = seen) f) k s = k 0 s"
    for f and k :: "nat \<Rightarrow> purchase_row service"
    by (rule andThen_Ok) (rule a)
  show ?thesis using assms(1,2) by (simp add: b)
qed

text \<open>
  C11: Settling a payment ends, and ends right. Even where the object it is handed is out of date, one more
  reading is enough: the payment is found under the new word where its own word allows it and left alone
  where not, and a payment that became paid has its product owned by the account that paid.
\<close>

theorem settling_ends:
  assumes "distinct (map rid (purchases (live s)))" and "fetch i (purchases (live s)) = Some r0"
    and "settles seen status"
  shows "wp (settle_purchase 2 i seen status ext) (settled_as r0 status) (\<lambda>_ _. True) s"
proof (cases "seen = pu_status r0")
  case True
  with settle_current [OF assms(1,2), of 1] show ?thesis by (simp add: numeral_2_eq_2)
next
  case False
  then have none: "hits (\<lambda>q. named i q \<and> pu_status q = seen) (purchases (live s)) = 0"
    using hits_alone [OF assms(1,2), of "\<lambda>q. pu_status q = seen"] by simp
  show ?thesis
    using settle_current [OF assms(1,2), of 0] settle_stale [OF assms(2,3) none, of "Suc 0" ext]
    by (simp only: numeral_2_eq_2 wp_def)
qed

theorem settling_ends_witness:
  "wp (settle_purchase 2 1 purchase_status.FAILED purchase_status.PAID (Some ''ch_1'')) (settled_as sample_purchase purchase_status.PAID)
    (\<lambda>_ _. True) sample"
  by (rule settling_ends) (simp_all add: sample_defs fetch_def settles_def SETTLED_PURCHASE_STATUSES_def)

end
