(* ===== verification/Delivery.thy ===== *)
theory Delivery
  imports Schedule Commerce
begin

text \<open>
  The engine of \<^verbatim>\<open>services/delivery_service.py\<close> that turns a live subscription into what its account
  receives, with \<^verbatim>\<open>services/subscription.py\<close> and the groups of \<^verbatim>\<open>enums/subscription.py\<close>. A mapped
  object is named by its key and read where the source reads its attributes; a list of objects answered
  by a service is the list of their keys, read again at the end as the source reads them.
\<close>

definition ABANDONED_AFTER :: int where
  "ABANDONED_AFTER = minutes 30"

definition MAX_ATTEMPTS :: nat where
  "MAX_ATTEMPTS = 5"

definition DUE_BATCH :: nat where
  "DUE_BATCH = 100"

definition EXPIRY_BATCH :: nat where
  "EXPIRY_BATCH = 200"

definition RETRY_BATCH :: nat where
  "RETRY_BATCH = 50"

section \<open>What a subscription is eligible for\<close>

definition is_eligible_for_benefits :: "subscription_row \<Rightarrow> bool" where
  "is_eligible_for_benefits r \<longleftrightarrow>
     su_status r \<in> set ELIGIBLE_SUBSCRIPTION_STATUSES \<and> su_benefit_status r = benefit_status.ACTIVE"

definition benefit_policy_of :: "subscription_row \<Rightarrow> plan_row \<Rightarrow> benefit_policy" where
  "benefit_policy_of subscription plan =
     (if su_status subscription = subscription_status.TRIALING then pl_trial_benefit_policy plan
      else if su_status subscription = subscription_status.GRACE_PERIOD then pl_grace_benefit_policy plan
      else ALL_BENEFITS)"

definition still_owed :: "nat \<Rightarrow> bool service" where
  "still_owed benefit =
     andThen (load subscription_benefits benefit) (\<lambda>b.
     if sb_status b \<noteq> benefit_status.ACTIVE then ret False
     else andThen (load subscriptions (sb_subscription b)) (\<lambda>s. ret (is_eligible_for_benefits s)))"

definition policy_allows :: "nat \<Rightarrow> bool service" where
  "policy_allows benefit =
     andThen (load subscription_benefits benefit) (\<lambda>b.
     andThen (load subscriptions (sb_subscription b)) (\<lambda>s.
     andThen (load plans (su_plan s)) (\<lambda>plan.
     let policy = benefit_policy_of s plan in
     if policy = ALL_BENEFITS then ret True
     else if policy = NONE then ret False
     else ret (sb_benefit_type b = ACCESS))))"

text \<open>The row is written with its own key, which takes its lock, and read again under it.\<close>

definition hold_subscription :: "nat \<Rightarrow> subscription_row option service" where
  "hold_subscription subscription_id =
     andThen (write_subscriptions (named subscription_id) (\<lambda>r. r)) (\<lambda>_.
     query (\<lambda>d. fetch subscription_id (subscriptions d)))"

section \<open>What ends\<close>

definition of_subscription :: "nat \<Rightarrow> subscription_benefit_row \<Rightarrow> bool" where
  "of_subscription subscription r \<longleftrightarrow> sb_subscription r = subscription"

definition expire_entitlements :: "nat \<Rightarrow> unit service" where
  "expire_entitlements subscription =
     andThen (write_entitlements (\<lambda>r. ue_subscription r = subscription)
       (\<lambda>r. r\<lparr>ue_status := user_entitlement_status.EXPIRED\<rparr>)) (\<lambda>_. ret ())"

definition end_benefits :: "nat \<Rightarrow> unit service" where
  "end_benefits subscription =
     andThen (write_benefits (of_subscription subscription)
       (\<lambda>r. r\<lparr>sb_status := benefit_status.ENDED, sb_next_grant_at := None\<rparr>)) (\<lambda>_.
     expire_entitlements subscription)"

definition past_access :: "datetime \<Rightarrow> subscription_row \<Rightarrow> bool" where
  "past_access moment r \<longleftrightarrow>
     su_status r \<in> set ELIGIBLE_SUBSCRIPTION_STATUSES \<and> (case su_access_until r of None \<Rightarrow> False | Some t \<Rightarrow> t < moment)"

definition expire_subscriptions :: "nat list service" where
  "expire_subscriptions =
     andThen now (\<lambda>moment.
     andThen (query (\<lambda>d. map rid (take EXPIRY_BATCH (filter (past_access moment) (subscriptions d))))) (\<lambda>expired.
     andThen (each (\<lambda>subscription.
       andThen (write_subscriptions (\<lambda>r. named subscription r \<and> past_access moment r)
         (\<lambda>r. r\<lparr>su_status := subscription_status.EXPIRED, su_expired_at := Some moment, su_benefit_status := benefit_status.ENDED\<rparr>))
       (\<lambda>rowcount. if rowcount \<noteq> 1 then ret [] else
         andThen (end_benefits subscription) (\<lambda>_. ret [subscription]))) expired) (\<lambda>closed.
     andThen commit (\<lambda>_. ret (concat closed)))))"

section \<open>The snapshot of what the plan promises\<close>

definition entitlements_of :: "nat \<Rightarrow> user_entitlement_row list service" where
  "entitlements_of subscription = query (\<lambda>d. filter (\<lambda>r. ue_subscription r = subscription) (user_entitlements d))"

definition benefits_of :: "nat \<Rightarrow> subscription_benefit_row list service" where
  "benefits_of subscription = query (\<lambda>d. filter (of_subscription subscription) (subscription_benefits d))"

text \<open>Writes the row of one promised entitlement and answers it with the entitlement it is for.\<close>

definition promise_entitlement :: "subscription_row \<Rightarrow> user_entitlement_row list \<Rightarrow> datetime \<Rightarrow> plan_entitlement_row
    \<Rightarrow> (nat \<times> nat) service" where
  "promise_entitlement subscription by_entitlement moment plan_entitlement =
     (let entitlement = pe_entitlement plan_entitlement in
      andThen
        (case List.find (\<lambda>r. ue_entitlement r = entitlement) by_entitlement of
           None \<Rightarrow>
             andThen (settle user_entitlements user_entitlements_update (free_of user_entitlement_key)
               (\<lambda>r. ue_subscription r = rid subscription \<and> ue_entitlement r = entitlement)
               \<lparr>rid = 0, ue_subscription = rid subscription, ue_entitlement = entitlement,
                ue_status = user_entitlement_status.ACTIVE, ue_started_at = Some moment, ue_expires_at = None, ue_revoked_at = None\<rparr>)
             (\<lambda>settled. case settled of Wrote r \<Rightarrow> ret (rid r) | Found r \<Rightarrow> ret (rid r) | Missed \<Rightarrow> throw AttributeError)
         | Some r \<Rightarrow>
             andThen (write_entitlements (named (rid r))
               (\<lambda>r. r\<lparr>ue_status := user_entitlement_status.ACTIVE, ue_revoked_at := None\<rparr>)) (\<lambda>_. ret (rid r)))
        (\<lambda>row.
      andThen (write_entitlements (named row) (\<lambda>r. r\<lparr>ue_expires_at := su_access_until subscription\<rparr>)) (\<lambda>_.
      ret (entitlement, row))))"

definition reconcile_entitlements :: "subscription_row \<Rightarrow> (nat \<times> nat) list service" where
  "reconcile_entitlements subscription =
     andThen (query (\<lambda>d. filter (\<lambda>r. pe_plan r = su_plan subscription) (plan_entitlements d))) (\<lambda>plan_entitlements.
     andThen (entitlements_of (rid subscription)) (\<lambda>by_entitlement.
     andThen now (\<lambda>moment.
     andThen (each (promise_entitlement subscription by_entitlement moment) plan_entitlements) (\<lambda>promised.
     andThen (each (\<lambda>r.
       if ue_entitlement r \<in> set (map fst promised) then ret ()
       else andThen (write_entitlements (named (rid r)) (\<lambda>r. r\<lparr>ue_status := user_entitlement_status.EXPIRED\<rparr>)) (\<lambda>_. ret ()))
       by_entitlement) (\<lambda>_.
     ret promised)))))"

text \<open>A benefit that was not running comes back owing the cycle it lands in and none of the ones before it.\<close>

definition resume :: "subscription_benefit_row \<Rightarrow> datetime \<Rightarrow> unit service" where
  "resume benefit anchor =
     (if sb_status benefit = benefit_status.ACTIVE then ret () else
      andThen (write_benefits (named (rid benefit)) (\<lambda>r. r\<lparr>sb_status := benefit_status.ACTIVE\<rparr>)) (\<lambda>_.
      if sb_cadence benefit \<noteq> RECURRING then ret () else
      andThen now (\<lambda>moment.
      andThen (lift (case sb_last_grant_at benefit of None \<Rightarrow> Ok anchor | Some granted \<Rightarrow> interval_of benefit granted)) (\<lambda>since.
      andThen (lift (landing benefit since moment)) (\<lambda>slot.
      andThen (write_benefits (named (rid benefit)) (\<lambda>r. r\<lparr>sb_next_grant_at := Some slot\<rparr>)) (\<lambda>_. ret ()))))))"

definition snapshot_of :: "nat \<Rightarrow> nat \<Rightarrow> datetime \<Rightarrow> benefit_row \<Rightarrow> subscription_benefit_row" where
  "snapshot_of subscription user_entitlement anchor benefit =
     \<lparr>rid = 0, sb_subscription = subscription, sb_benefit = rid benefit, sb_user_entitlement = user_entitlement,
      sb_product = be_product benefit, sb_currency = be_currency benefit, sb_status = benefit_status.ACTIVE,
      sb_benefit_type = be_type benefit, sb_target = be_target benefit, sb_quantity = be_quantity benefit,
      sb_cadence = be_cadence benefit, sb_interval_unit = be_interval_unit benefit, sb_interval_value = be_interval_value benefit,
      sb_grant_on_activation = be_grant_on_activation benefit, sb_missed_cycle_policy = be_missed_cycle_policy benefit,
      sb_anchor_at = anchor, sb_cycle = 0, sb_last_grant_at = None, sb_next_grant_at = None\<rparr>"

text \<open>The snapshot of one benefit of the catalogue, resumed where it is there and written where it is not.\<close>

definition promise_benefit :: "nat \<Rightarrow> (nat \<times> nat) list \<Rightarrow> subscription_benefit_row list \<Rightarrow> datetime \<Rightarrow> benefit_row
    \<Rightarrow> (nat \<times> nat) service" where
  "promise_benefit subscription entitlements by_benefit anchor benefit =
     (case List.find (\<lambda>r. sb_benefit r = rid benefit) by_benefit of
        Some snapshot \<Rightarrow> andThen (resume snapshot anchor) (\<lambda>_. ret (rid benefit, rid snapshot))
      | None \<Rightarrow>
          (case map_of entitlements (be_entitlement benefit) of
             None \<Rightarrow> throw KeyError
           | Some user_entitlement \<Rightarrow>
               let snapshot = snapshot_of subscription user_entitlement anchor benefit in
               andThen now (\<lambda>moment.
               andThen (lift (first_due snapshot moment)) (\<lambda>due.
               andThen (settle subscription_benefits subscription_benefits_update (free_of subscription_benefit_key)
                 (\<lambda>r. sb_subscription r = subscription \<and> sb_benefit r = rid benefit) (snapshot\<lparr>sb_next_grant_at := due\<rparr>)) (\<lambda>settled.
               case settled of Wrote r \<Rightarrow> ret (rid benefit, rid r) | Found r \<Rightarrow> ret (rid benefit, rid r) | Missed \<Rightarrow> throw AttributeError)))))"

definition snapshot_benefits :: "subscription_row \<Rightarrow> (nat \<times> nat) list \<Rightarrow> nat list service" where
  "snapshot_benefits subscription entitlements =
     andThen (query (\<lambda>d. filter (\<lambda>b. be_entitlement b \<in> set (map fst entitlements) \<and> be_active b) (benefits d))) (\<lambda>catalog_benefits.
     andThen (benefits_of (rid subscription)) (\<lambda>by_benefit.
     andThen now (\<lambda>moment.
     let anchor = (case su_started_at subscription of Some t \<Rightarrow> t | None \<Rightarrow> moment) in
     andThen (each (promise_benefit (rid subscription) entitlements by_benefit anchor) catalog_benefits) (\<lambda>promised.
     andThen (each (\<lambda>r.
       if sb_benefit r \<in> set (map fst promised) then ret ()
       else andThen (write_benefits (named (rid r)) (\<lambda>r. r\<lparr>sb_status := benefit_status.ENDED, sb_next_grant_at := None\<rparr>)) (\<lambda>_. ret ()))
       by_benefit) (\<lambda>_.
     ret (map snd promised))))))"

section \<open>One cycle\<close>

text \<open>The grant a cycle owns, as the constructor and the fields set before it is written leave it.\<close>

definition new_grant :: "subscription_benefit_row \<Rightarrow> string \<Rightarrow> datetime \<Rightarrow> datetime \<Rightarrow> benefit_grant_row" where
  "new_grant benefit key scheduled_at moment =
     \<lparr>rid = 0, bg_subscription_benefit = rid benefit, bg_grant_key = cycle_grant_key (rid benefit) key,
      bg_user_benefit_key = None, bg_cycle = sb_cycle benefit, bg_cycle_key = key, bg_scheduled_at = scheduled_at,
      bg_status = benefit_grant_status.PROCESSING, bg_requested_quantity = sb_quantity benefit, bg_granted_quantity = 0,
      bg_result = NoResult, bg_error_code = None, bg_attempts = 1, bg_started_at = Some moment, bg_completed_at = None\<rparr>"

text \<open>Only the running cycle that produced the closed grant moves its schedule.\<close>

definition advance :: "nat \<Rightarrow> benefit_grant_row \<Rightarrow> unit service" where
  "advance benefit bg =
     (if bg_status bg \<notin> set SCHEDULE_ADVANCE_STATUSES then ret () else
      andThen (load subscription_benefits benefit) (\<lambda>b.
      andThen (lift (if sb_cadence b = RECURRING
          then (case interval_of b (bg_scheduled_at bg) of Ok t \<Rightarrow> Ok (Some t) | Err e \<Rightarrow> Err e | Hangs \<Rightarrow> Hangs)
          else Ok None)) (\<lambda>following.
      andThen now (\<lambda>moment.
      andThen (write_benefits (\<lambda>r. named benefit r \<and> sb_cycle r = bg_cycle bg \<and> sb_status r = benefit_status.ACTIVE)
        (\<lambda>r. r\<lparr>sb_last_grant_at := Some moment, sb_next_grant_at := following\<rparr>)) (\<lambda>_. ret ())))))"

text \<open>The row of this cycle, whoever wrote it, and whether it is the very grant that was handed in.\<close>

definition same_identity :: "benefit_grant_row \<Rightarrow> benefit_grant_row \<Rightarrow> bool" where
  "same_identity bg r \<longleftrightarrow> bg_grant_key r = bg_grant_key bg
     \<or> (bg_user_benefit_key bg \<noteq> None \<and> bg_user_benefit_key r = bg_user_benefit_key bg)"

definition settled :: "benefit_grant_row \<Rightarrow> benefit_grant_row settled service" where
  "settled bg =
     andThen (settle grants grants_update accepts_grant (same_identity bg) bg) (\<lambda>written.
     andThen commit (\<lambda>_. ret written))"

definition settled_key :: "benefit_grant_row settled \<Rightarrow> nat option" where
  "settled_key w = (case w of Wrote r \<Rightarrow> Some (rid r) | Found r \<Rightarrow> Some (rid r) | Missed \<Rightarrow> None)"

definition skip :: "nat \<Rightarrow> benefit_grant_row \<Rightarrow> string \<Rightarrow> nat option service" where
  "skip benefit bg reason =
     andThen now (\<lambda>moment.
     let closed = bg\<lparr>bg_status := benefit_grant_status.SKIPPED, bg_error_code := Some reason, bg_completed_at := Some moment\<rparr> in
     andThen (advance benefit closed) (\<lambda>_.
     andThen (settled closed) (\<lambda>written. ret (settled_key written))))"

text \<open>
  A benefit granted once per person: a completed grant under the key of the person and the benefit, or a
  line of the ledger or a product of the person that a grant of the same benefit of the catalogue put there.
\<close>

definition catalog_grant :: "db \<Rightarrow> nat \<Rightarrow> nat \<Rightarrow> bool" where
  "catalog_grant d catalog_benefit bg \<longleftrightarrow>
     (case fetch bg (grants d) of None \<Rightarrow> False | Some g \<Rightarrow>
       (case fetch (bg_subscription_benefit g) (subscription_benefits d) of None \<Rightarrow> False
        | Some b \<Rightarrow> sb_benefit b = catalog_benefit))"

definition put_by :: "db \<Rightarrow> nat \<Rightarrow> nat option \<Rightarrow> bool" where
  "put_by d catalog_benefit bg \<longleftrightarrow> (case bg of None \<Rightarrow> False | Some g \<Rightarrow> catalog_grant d catalog_benefit g)"

definition already_held_by_user :: "nat \<Rightarrow> string \<Rightarrow> bool service" where
  "already_held_by_user benefit user_benefit_key =
     andThen (load subscription_benefits benefit) (\<lambda>b.
     andThen (load subscriptions (sb_subscription b)) (\<lambda>s.
     query (\<lambda>d.
       list_ex (\<lambda>g. bg_user_benefit_key g = Some user_benefit_key \<and> bg_status g = benefit_grant_status.COMPLETED) (grants d)
       \<or> list_ex (\<lambda>t. ct_user t = su_user s \<and> put_by d (sb_benefit b) (ct_benefit_grant t)) (ledger d)
       \<or> list_ex (\<lambda>p. up_user p = su_user s \<and> put_by d (sb_benefit b) (up_benefit_grant p)) (user_products d))))"

text \<open>A cycle nobody owes any more is closed where it stands.\<close>

definition drop :: "nat \<Rightarrow> string \<Rightarrow> unit service" where
  "drop bg reason =
     andThen now (\<lambda>moment.
     andThen (write_grants (named bg) (\<lambda>r. r\<lparr>bg_status := benefit_grant_status.SKIPPED, bg_user_benefit_key := None,
       bg_error_code := Some reason, bg_completed_at := Some moment\<rparr>)) (\<lambda>_. ret ()))"

section \<open>Handing it over\<close>

definition deliver_access :: "subscription_benefit_row \<Rightarrow> benefit_grant_row \<Rightarrow> unit service" where
  "deliver_access benefit bg =
     andThen (load user_entitlements (sb_user_entitlement benefit)) (\<lambda>entitlement.
     andThen (write_entitlements (named (rid entitlement))
       (\<lambda>r. r\<lparr>ue_status := user_entitlement_status.ACTIVE, ue_revoked_at := None\<rparr>)) (\<lambda>_.
     andThen (write_grants (named (rid bg)) (\<lambda>r. r\<lparr>bg_status := benefit_grant_status.COMPLETED, bg_granted_quantity := 1,
       bg_result := AccessResult (ue_entitlement entitlement)\<rparr>)) (\<lambda>_. ret ())))"

text \<open>A currency that is null is nobody's: reading its tenant raises.\<close>

definition deliver_credit :: "subscription_benefit_row \<Rightarrow> benefit_grant_row \<Rightarrow> unit service" where
  "deliver_credit benefit bg =
     andThen (load subscriptions (sb_subscription benefit)) (\<lambda>subscription.
     andThen (load plans (su_plan subscription)) (\<lambda>plan.
     andThen (need (sb_currency benefit)) (\<lambda>currency.
     andThen (move (su_user subscription) currency credit_transaction_type.CREDIT (sb_quantity benefit) (Some (pl_name plan))
       (bg_grant_key bg) (Some (rid bg))) (\<lambda>transaction.
     andThen (write_grants (named (rid bg)) (\<lambda>r. r\<lparr>bg_status := benefit_grant_status.COMPLETED,
       bg_granted_quantity := sb_quantity benefit,
       bg_result := CreditResult (rid transaction) (ct_balance_after transaction)\<rparr>)) (\<lambda>_. ret ())))))"

text \<open>
  What a plan hands over is the account's from then on, and a later cycle meets it already held. A
  product that is null is refused by the table, which \<open>insert_or_read\<close> answers with no row, and reading
  its key raises.
\<close>

definition deliver_product :: "subscription_benefit_row \<Rightarrow> benefit_grant_row \<Rightarrow> unit service" where
  "deliver_product benefit bg =
     andThen (load subscriptions (sb_subscription benefit)) (\<lambda>subscription.
     andThen (need (sb_product benefit)) (\<lambda>product.
     andThen (Commerce.grant (su_user subscription) product (bg_grant_key bg) (Some (rid subscription)) None (Some (rid bg))) (\<lambda>(owned, granted).
     andThen (write_grants (named (rid bg)) (\<lambda>r. r\<lparr>bg_result := ProductResult (sb_product benefit) (rid owned)\<rparr>)) (\<lambda>_.
     if \<not> granted then
       andThen (write_grants (named (rid bg)) (\<lambda>r. r\<lparr>bg_status := benefit_grant_status.SKIPPED,
         bg_error_code := Some ''already_held_by_user''\<rparr>)) (\<lambda>_. ret ())
     else
       andThen (write_grants (named (rid bg)) (\<lambda>r. r\<lparr>bg_status := benefit_grant_status.COMPLETED,
         bg_granted_quantity := 1\<rparr>)) (\<lambda>_. ret ())))))"

fun handlers :: "benefit_type \<Rightarrow> subscription_benefit_row \<Rightarrow> benefit_grant_row \<Rightarrow> unit service" where
  "handlers ACCESS = deliver_access"
| "handlers benefit_type.CREDIT = deliver_credit"
| "handlers PRODUCT = deliver_product"

fun error_name :: "exc \<Rightarrow> string" where
  "error_name (ValidationError _ _) = ''ValidationError''"
| "error_name (ConflictError _) = ''ConflictError''"
| "error_name (AuthenticationError _) = ''AuthenticationError''"
| "error_name (AppError _) = ''AppError''"
| "error_name NotFoundError = ''NotFoundError''"
| "error_name IntegrityError = ''IntegrityError''"
| "error_name AttributeError = ''AttributeError''"
| "error_name KeyError = ''KeyError''"
| "error_name IndexError = ''IndexError''"
| "error_name TypeError = ''TypeError''"
| "error_name ValueError = ''ValueError''"
| "error_name OverflowError = ''OverflowError''"
| "error_name Unreadable = ''Unreadable''"
| "error_name Silent = ''Silent''"
| "error_name (RateLimited _) = ''RateLimited''"
| "error_name HTTPError = ''HTTPError''"
| "error_name (HTTPStatusError _) = ''HTTPStatusError''"
| "error_name NotImplementedError = ''NotImplementedError''"
| "error_name (PermissionError _) = ''PermissionError''"
| "error_name (AddressRefused _) = ''AddressRefused''"
| "error_name (Raised name) = name"

text \<open>What \<open>deliver\<close> decides under the hold, and whether it ran to its end or returned early.\<close>

definition attempt :: "nat \<Rightarrow> nat \<Rightarrow> bool service" where
  "attempt benefit bg =
     andThen (load subscription_benefits benefit) (\<lambda>b.
     andThen (hold_subscription (sb_subscription b)) (\<lambda>_.
     andThen (write_benefits (named benefit) (\<lambda>r. r)) (\<lambda>_.
     andThen (still_owed benefit) (\<lambda>owed.
     if \<not> owed then andThen (drop bg ''subscription_no_longer_eligible'') (\<lambda>_. ret False) else
     andThen (load subscription_benefits benefit) (\<lambda>b.
     andThen (load grants bg) (\<lambda>g.
     if bg_cycle g \<noteq> sb_cycle b then andThen (drop bg ''cycle_replaced'') (\<lambda>_. ret False) else
     andThen (policy_allows benefit) (\<lambda>allowed.
     if \<not> allowed then andThen (drop bg ''withheld_by_plan_policy'') (\<lambda>_. ret False) else
     andThen (handlers (sb_benefit_type b) b g) (\<lambda>_. ret True))))))))"

definition deliver :: "nat \<Rightarrow> nat \<Rightarrow> unit service" where
  "deliver benefit bg =
     andThen (handle (attempt benefit bg) (\<lambda>error.
       andThen rollback (\<lambda>_.
       andThen (load grants bg) (\<lambda>_.
       andThen (write_grants (named bg) (\<lambda>r. r\<lparr>bg_status := benefit_grant_status.FAILED,
         bg_error_code := Some (error_name error)\<rparr>)) (\<lambda>_. ret True))))) (\<lambda>through.
     if \<not> through then ret () else
     andThen now (\<lambda>moment.
     andThen (write_grants (named bg) (\<lambda>r. r\<lparr>bg_completed_at := Some moment\<rparr>)) (\<lambda>_. ret ())))"

definition user_benefit_name :: "nat \<Rightarrow> nat \<Rightarrow> string" where
  "user_benefit_name user catalog_benefit = decimal user @ '':'' @ decimal catalog_benefit"

definition run_cycle :: "nat \<Rightarrow> string \<Rightarrow> datetime \<Rightarrow> nat option service" where
  "run_cycle benefit key scheduled_at =
     andThen (load subscription_benefits benefit) (\<lambda>b.
     andThen (query (\<lambda>d. List.find (\<lambda>g. bg_grant_key g = cycle_grant_key benefit key) (grants d))) (\<lambda>existing.
     case existing of
       Some g \<Rightarrow>
         andThen (advance benefit g) (\<lambda>_.
         andThen commit (\<lambda>_. ret (Some (rid g))))
     | None \<Rightarrow>
         andThen now (\<lambda>moment.
         let bg = new_grant b key scheduled_at moment in
         andThen
           (if sb_cadence b = ONCE_PER_USER then
              andThen (load subscriptions (sb_subscription b)) (\<lambda>s.
              let user_benefit_key = user_benefit_name (su_user s) (sb_benefit b) in
              andThen (already_held_by_user benefit user_benefit_key) (\<lambda>already. ret (Some user_benefit_key, already)))
            else ret (None, False)) (\<lambda>(user_benefit_key, already).
         if already then skip benefit bg ''already_held_by_user'' else
         andThen (policy_allows benefit) (\<lambda>allowed.
         if \<not> allowed then skip benefit bg ''withheld_by_plan_policy'' else
         andThen (settled (bg\<lparr>bg_user_benefit_key := user_benefit_key\<rparr>)) (\<lambda>written.
         case written of
           Found r \<Rightarrow> ret (Some (rid r))
         | Missed \<Rightarrow> ret None
         | Wrote r \<Rightarrow>
             andThen (deliver benefit (rid r)) (\<lambda>_.
             andThen (load grants (rid r)) (\<lambda>g.
             andThen (advance benefit g) (\<lambda>_.
             andThen commit (\<lambda>_. ret (Some (rid r))))))))))))"

section \<open>Activation and the due pass\<close>

text \<open>\<open>DatabaseSessionHelper.read\<close>: the rows under the keys, in the order of the keys.\<close>

definition read_grants :: "nat list \<Rightarrow> benefit_grant_row list service" where
  "read_grants keys = query (\<lambda>d. concat (map (\<lambda>i. case fetch i (grants d) of None \<Rightarrow> [] | Some g \<Rightarrow> [g]) keys))"

definition activate_benefit :: "nat \<Rightarrow> nat list service" where
  "activate_benefit benefit =
     andThen (load subscription_benefits benefit) (\<lambda>b.
     if sb_grant_on_activation b \<and> sb_last_grant_at b = None then
       andThen now (\<lambda>moment.
       andThen (lift (first_due b moment)) (\<lambda>due.
       case due of None \<Rightarrow> throw TypeError | Some slot \<Rightarrow>
       andThen (run_cycle benefit (activation_key b slot) slot) (\<lambda>written.
       andThen (need written) (\<lambda>key. ret [key]))))
     else ret [])"

definition activate :: "nat \<Rightarrow> benefit_grant_row list service" where
  "activate subscription =
     andThen (hold_subscription subscription) (\<lambda>held.
     andThen (need held) (\<lambda>s.
     if \<not> is_eligible_for_benefits s then
       andThen (expire_entitlements subscription) (\<lambda>_.
       andThen (write_benefits (\<lambda>r. of_subscription subscription r \<and> sb_status r = benefit_status.ACTIVE)
         (\<lambda>r. r\<lparr>sb_status := PAUSED, sb_next_grant_at := None\<rparr>)) (\<lambda>_.
       andThen commit (\<lambda>_. ret [])))
     else
       andThen (reconcile_entitlements s) (\<lambda>entitlements.
       andThen (snapshot_benefits s entitlements) (\<lambda>promised.
       andThen commit (\<lambda>_.
       andThen (each activate_benefit promised) (\<lambda>keys. read_grants (concat keys)))))))"

text \<open>What the due pass reads: running benefits past their date whose subscription delivers and no grant waits.\<close>

definition waiting :: "db \<Rightarrow> subscription_benefit_row \<Rightarrow> bool" where
  "waiting d b \<longleftrightarrow> list_ex (\<lambda>g. bg_subscription_benefit g = rid b
     \<and> bg_status g \<in> {benefit_grant_status.FAILED, benefit_grant_status.PROCESSING}) (grants d)"

definition live_subscription :: "db \<Rightarrow> nat \<Rightarrow> bool" where
  "live_subscription d subscription \<longleftrightarrow>
     (case fetch subscription (subscriptions d) of None \<Rightarrow> False | Some s \<Rightarrow> is_eligible_for_benefits s)"

definition is_due :: "datetime \<Rightarrow> db \<Rightarrow> subscription_benefit_row \<Rightarrow> bool" where
  "is_due moment d b \<longleftrightarrow> sb_status b = benefit_status.ACTIVE \<and> sb_cadence b = RECURRING
     \<and> (case sb_next_grant_at b of None \<Rightarrow> False | Some t \<Rightarrow> t \<le> moment)
     \<and> live_subscription d (sb_subscription b) \<and> \<not> waiting d b"

definition due_benefits :: "datetime \<Rightarrow> db \<Rightarrow> nat list" where
  "due_benefits moment d =
     map rid (take DUE_BATCH (sort_key (\<lambda>b. the (sb_next_grant_at b)) (filter (is_due moment d) (subscription_benefits d))))"

definition process_one_due :: "datetime \<Rightarrow> nat \<Rightarrow> nat list service" where
  "process_one_due moment benefit =
     andThen (load subscription_benefits benefit) (\<lambda>b.
     andThen (need (sb_next_grant_at b)) (\<lambda>next.
     andThen (lift (resolve_due_slot b next moment)) (\<lambda>due.
     case due of
       Resume following \<Rightarrow>
         andThen (write_benefits (named benefit) (\<lambda>r. r\<lparr>sb_next_grant_at := Some following\<rparr>)) (\<lambda>_.
         andThen commit (\<lambda>_. ret []))
     | Deliver scheduled_at \<Rightarrow>
         andThen (run_cycle benefit (cycle_key scheduled_at) scheduled_at) (\<lambda>written.
         andThen (need written) (\<lambda>key. ret [key])))))"

definition process_due :: "benefit_grant_row list service" where
  "process_due =
     andThen now (\<lambda>moment.
     andThen (query (due_benefits moment)) (\<lambda>due.
     andThen (each (process_one_due moment) due) (\<lambda>keys. read_grants (concat keys))))"

section \<open>Starting over\<close>

definition release_cycle :: "nat \<Rightarrow> nat service" where
  "release_cycle subscription =
     andThen (write_benefits (of_subscription subscription)
       (\<lambda>r. r\<lparr>sb_cycle := sb_cycle r + 1, sb_last_grant_at := None\<rparr>)) (\<lambda>released.
     andThen commit (\<lambda>_. ret released))"

definition open_new_cycle :: "nat \<Rightarrow> benefit_grant_row list service" where
  "open_new_cycle subscription =
     andThen (release_cycle subscription) (\<lambda>_.
     andThen (load subscriptions subscription) (\<lambda>s.
     andThen (record_log (su_tenant s) (Some (su_user s)) INFO (Some PURCHASE) ''new cycle opened by an operator'') (\<lambda>_.
     activate subscription)))"

section \<open>The retry pass\<close>

definition abandoned :: "datetime \<Rightarrow> benefit_grant_row \<Rightarrow> bool" where
  "abandoned moment r \<longleftrightarrow> bg_status r = benefit_grant_status.PROCESSING
     \<and> (case bg_started_at r of None \<Rightarrow> False | Some t \<Rightarrow> before_by moment ABANDONED_AFTER t)"

definition takeable :: "datetime \<Rightarrow> benefit_grant_row \<Rightarrow> bool" where
  "takeable moment r \<longleftrightarrow> (bg_status r = benefit_grant_status.FAILED \<or> abandoned moment r) \<and> bg_attempts r < MAX_ATTEMPTS"

definition exhausted :: "datetime \<Rightarrow> benefit_grant_row \<Rightarrow> bool" where
  "exhausted moment r \<longleftrightarrow> abandoned moment r \<and> MAX_ATTEMPTS \<le> bg_attempts r"

definition taken :: "datetime \<Rightarrow> benefit_grant_row \<Rightarrow> benefit_grant_row" where
  "taken moment r = r\<lparr>bg_status := benefit_grant_status.PROCESSING, bg_attempts := bg_attempts r + 1, bg_error_code := None,
     bg_started_at := Some moment\<rparr>"

definition claim :: "nat \<Rightarrow> bool service" where
  "claim bg =
     andThen now (\<lambda>moment.
     andThen (write_grants (\<lambda>r. named bg r \<and> takeable moment r) (taken moment)) (\<lambda>rowcount.
     andThen commit (\<lambda>_. ret (rowcount = 1))))"

definition give_up :: "nat \<Rightarrow> unit service" where
  "give_up bg =
     andThen (load grants bg) (\<lambda>g.
     andThen (load subscription_benefits (bg_subscription_benefit g)) (\<lambda>b.
     andThen (query (\<lambda>d. fetch (sb_subscription b) (subscriptions d))) (\<lambda>subscription.
     andThen now (\<lambda>moment.
     andThen (write_grants (named bg) (\<lambda>r. r\<lparr>bg_status := benefit_grant_status.SKIPPED, bg_user_benefit_key := None,
       bg_error_code := Some ''given_up_after_max_attempts'', bg_completed_at := Some moment\<rparr>)) (\<lambda>_.
     andThen (need subscription) (\<lambda>s.
     record_log (su_tenant s) (Some (su_user s)) ERROR (Some PURCHASE)
       (''the delivery of '' @ bg_grant_key g @ '' was given up on after '' @ decimal (bg_attempts g) @ '' attempts'')))))))"

definition close_exhausted :: "nat \<Rightarrow> bool service" where
  "close_exhausted bg =
     andThen now (\<lambda>moment.
     andThen (write_grants (\<lambda>r. named bg r \<and> exhausted moment r)
       (\<lambda>r. r\<lparr>bg_status := benefit_grant_status.FAILED, bg_error_code := Some ''abandoned''\<rparr>)) (\<lambda>rowcount.
     if rowcount \<noteq> 1 then andThen commit (\<lambda>_. ret False) else
     andThen (give_up bg) (\<lambda>_.
     andThen (load grants bg) (\<lambda>g.
     andThen (advance (bg_subscription_benefit g) g) (\<lambda>_.
     andThen commit (\<lambda>_. ret True))))))"

definition retry_one :: "nat \<Rightarrow> nat list service" where
  "retry_one bg =
     andThen (load grants bg) (\<lambda>g.
     let benefit = bg_subscription_benefit g in
     andThen (still_owed benefit) (\<lambda>owed.
     if \<not> owed then andThen (drop bg ''subscription_no_longer_eligible'') (\<lambda>_. ret [bg]) else
     if MAX_ATTEMPTS \<le> bg_attempts g then
       andThen (close_exhausted bg) (\<lambda>closed. ret (if closed then [bg] else []))
     else
     andThen (claim bg) (\<lambda>claimed.
     if \<not> claimed then ret [] else
     andThen (deliver benefit bg) (\<lambda>_.
     andThen (load grants bg) (\<lambda>h.
     andThen (if bg_status h = benefit_grant_status.FAILED \<and> MAX_ATTEMPTS \<le> bg_attempts h then give_up bg else ret ()) (\<lambda>_.
     andThen (load grants bg) (\<lambda>h.
     andThen (advance benefit h) (\<lambda>_. ret [bg]))))))))"

definition retry_failed_grants :: "benefit_grant_row list service" where
  "retry_failed_grants =
     andThen now (\<lambda>moment.
     andThen (query (\<lambda>d. map rid (take RETRY_BATCH (filter (\<lambda>r. takeable moment r \<or> exhausted moment r) (grants d))))) (\<lambda>stuck.
     andThen (each retry_one stuck) (\<lambda>worked.
     andThen commit (\<lambda>_. read_grants (concat worked)))))"

end
