(* ===== verification/Gateway.thy ===== *)
theory Gateway
  imports Effects
begin

text \<open>
  What a gateway says, whichever gateway it is: the lines of an account (\<^verbatim>\<open>services/provider_purchase.py\<close>),
  a notice (\<^verbatim>\<open>services/provider_event.py\<close>) and the capabilities the classes of
  \<^verbatim>\<open>services/gateway.py\<close> declare. The call over the network that answers a query is a parameter of the
  services that make it.
\<close>

record provider_purchase =
  pp_external_id :: string
  pp_product_reference :: string
  pp_store :: "string option"
  pp_ownership :: "string option"
  pp_period_type :: "string option"
  pp_trial :: bool
  pp_purchased_at :: "datetime option"
  pp_first_purchased_at :: "datetime option"
  pp_period_ends_at :: "datetime option"
  pp_grace_ends_at :: "datetime option"
  pp_auto_resume_at :: "datetime option"
  pp_unsubscribed_at :: "datetime option"
  pp_refunded_at :: "datetime option"
  pp_environment :: environment
  pp_recurring :: bool
  pp_status :: "subscription_status option"

text \<open>What an amount of money is read as: a decimal, \<open>m / 10 ^ e\<close>, or a number that is not finite.\<close>

datatype amount = Amount int nat | NotFinite

record provider_event =
  ev_external_event_id :: string
  ev_event_type :: string
  ev_account_token :: "string option"
  ev_product_reference :: "string option"
  ev_action :: "normalized_action option"
  ev_also_about :: "string list"
  ev_state :: "provider_purchase list option"
  ev_reference :: "string option"
  ev_purchase_status :: "purchase_status option"
  ev_payment_id :: "string option"
  ev_amount :: "amount option"
  ev_currency :: "string option"
  ev_occurred_at :: "datetime option"

text \<open>RevenueCat answers a question and Stripe tells in its own notice.\<close>

fun queryable :: "provider \<Rightarrow> bool" where
  "queryable REVENUECAT = True"
| "queryable STRIPE = False"

fun event_stated :: "provider \<Rightarrow> bool" where
  "event_stated REVENUECAT = False"
| "event_stated STRIPE = True"

fun provider_name :: "provider \<Rightarrow> string" where
  "provider_name REVENUECAT = ''revenuecat''"
| "provider_name STRIPE = ''stripe''"

end
