(* ===== verification/Reconciliation.thy ===== *)
theory Reconciliation
  imports Delivery Gateway "HOL-Library.Product_Lexorder" "HOL-Library.Option_ord"
begin

text \<open>
  \<^verbatim>\<open>services/reconciliation_service.py\<close>: what a gateway says an account holds is written onto the
  subscriptions of that account, and nothing else writes it. The call to the gateway is the parameter
  \<open>ask\<close>, which answers the lines of an account or raises; a subscription object is named by its key.
\<close>

definition COOLDOWN :: int where
  "COOLDOWN = seconds 10"

definition RECENTLY_CLOSED :: int where
  "RECENTLY_CLOSED = minutes 2880"

definition SWEEP_WINDOW :: int where
  "SWEEP_WINDOW = minutes 3"

text \<open>\<open>PACE\<close> is four seconds, and the limit of the sweep what fits its window at that pace.\<close>

definition PACE :: int where
  "PACE = seconds 4"

definition SWEEP_LIMIT :: nat where
  "SWEEP_LIMIT = nat (SWEEP_WINDOW div PACE)"

definition REFUSED :: "nat list" where
  "REFUSED = [401, 403]"

type_synonym asking = "integration_row \<Rightarrow> string \<Rightarrow> string \<Rightarrow> provider_purchase list outcome"

abbreviation "move_subscriptions \<equiv> alter subscriptions subscriptions_update subscription_keys"

section \<open>What a line of the gateway means\<close>

definition status_of :: "provider_purchase \<Rightarrow> subscription_status" where
  "status_of purchase =
     (case pp_status purchase of Some status \<Rightarrow> status
      | None \<Rightarrow>
          if pp_auto_resume_at purchase \<noteq> None then SUSPENDED
          else if pp_grace_ends_at purchase \<noteq> None then subscription_status.GRACE_PERIOD
          else if pp_trial purchase then subscription_status.TRIALING
          else subscription_status.ACTIVE)"

text \<open>\<open>a or b\<close> over values that may be missing.\<close>

definition first_of :: "'a option \<Rightarrow> 'a option \<Rightarrow> 'a option" where
  "first_of a b = (case a of None \<Rightarrow> b | Some x \<Rightarrow> Some x)"

definition deadline_of :: "provider_purchase \<Rightarrow> datetime option" where
  "deadline_of purchase = first_of (pp_grace_ends_at purchase) (pp_period_ends_at purchase)"

definition over :: "provider_purchase \<Rightarrow> datetime \<Rightarrow> bool" where
  "over purchase moment =
     (case pp_status purchase of Some status \<Rightarrow> status \<in> set CLOSED_SUBSCRIPTION_STATUSES
      | None \<Rightarrow> (case deadline_of purchase of None \<Rightarrow> False | Some deadline \<Rightarrow> deadline \<le> moment))"

definition snapshot :: "subscription_row \<Rightarrow> subscription_status \<times> benefit_status \<times> datetime option \<times> datetime option \<times> bool" where
  "snapshot r = (su_status r, su_benefit_status r, su_access_until r, su_grace_until r, su_cancel_at_period_end r)"

text \<open>Every state a gateway can report, written on the row.\<close>

definition carried :: "provider_purchase \<Rightarrow> datetime \<Rightarrow> subscription_row \<Rightarrow> subscription_row" where
  "carried purchase moment r =
     r\<lparr>su_status := status_of purchase,
       su_benefit_status := (if pp_auto_resume_at purchase \<noteq> None then PAUSED else benefit_status.ACTIVE),
       su_environment := Some (pp_environment purchase),
       su_started_at := first_of (pp_first_purchased_at purchase) (first_of (su_started_at r)
         (first_of (pp_purchased_at purchase) (Some moment))),
       su_current_period_started_at := pp_purchased_at purchase,
       su_current_period_ends_at := pp_period_ends_at purchase,
       su_access_until := deadline_of purchase,
       su_grace_until := pp_grace_ends_at purchase,
       su_trial_ends_at := (if pp_trial purchase then pp_period_ends_at purchase else None),
       su_cancel_at_period_end := (pp_unsubscribed_at purchase \<noteq> None),
       su_canceled_at := pp_unsubscribed_at purchase,
       su_expired_at := None,
       su_provider_meta := Some \<lparr>pm_store = pp_store purchase, pm_ownership = pp_ownership purchase,
         pm_period_type = pp_period_type purchase, pm_recurring = pp_recurring purchase\<rparr>\<rparr>"

definition carry :: "nat \<Rightarrow> provider_purchase \<Rightarrow> unit service" where
  "carry subscription purchase =
     andThen now (\<lambda>moment.
     andThen (write_subscriptions (named subscription) (carried purchase moment)) (\<lambda>_. ret ()))"

section \<open>Closing\<close>

definition closed_row :: "subscription_status \<Rightarrow> datetime \<Rightarrow> subscription_row \<Rightarrow> subscription_row" where
  "closed_row status moment r = r\<lparr>su_status := status, su_expired_at := Some moment, su_access_until := Some moment,
     su_benefit_status := benefit_status.ENDED\<rparr>"

definition close :: "nat \<Rightarrow> subscription_status \<Rightarrow> string \<Rightarrow> nat service" where
  "close subscription status reason =
     andThen (load subscriptions subscription) (\<lambda>s.
     if su_status s = status then ret 0 else
     andThen now (\<lambda>moment.
     andThen (write_subscriptions (named subscription) (closed_row status moment)) (\<lambda>_.
     andThen (end_benefits subscription) (\<lambda>_.
     andThen (record_log (su_tenant s) (Some (su_user s)) WARNING (Some PURCHASE)
       (''subscription '' @ decimal subscription @ '' was closed by a reconciliation: '' @ reason)) (\<lambda>_. ret 1)))))"

section \<open>Finding the row of a line\<close>

text \<open>\<open>{product: subscription for ...}\<close>: one key keeps its first place and its last value.\<close>

fun dict_set :: "'k \<Rightarrow> 'v \<Rightarrow> ('k \<times> 'v) list \<Rightarrow> ('k \<times> 'v) list" where
  "dict_set k v [] = [(k, v)]"
| "dict_set k v ((i, w) # d) = (if i = k then (k, v) # d else (i, w) # dict_set k v d)"

fun dict_of :: "('k \<times> 'v) list \<Rightarrow> ('k \<times> 'v) list \<Rightarrow> ('k \<times> 'v) list" where
  "dict_of d [] = d"
| "dict_of d ((k, v) # kvs) = dict_of (dict_set k v d) kvs"

definition without :: "'k \<Rightarrow> ('k \<times> 'v) list \<Rightarrow> ('k \<times> 'v) list" where
  "without k d = filter (\<lambda>(i, _). i \<noteq> k) d"

definition held_here :: "nat \<Rightarrow> nat \<Rightarrow> subscription_row \<Rightarrow> bool" where
  "held_here integration user r \<longleftrightarrow> su_integration r = Some integration \<and> su_user r = user"

definition ours :: "nat \<Rightarrow> nat \<Rightarrow> (string \<times> nat) list service" where
  "ours integration user = query (\<lambda>d. dict_of [] (List.map_filter (\<lambda>s.
     if held_here integration user s then
       (case su_external_product s of None \<Rightarrow> None
        | Some p \<Rightarrow> map_option (\<lambda>e. (ep_external_id e, rid s)) (fetch p (external_products d)))
     else None) (subscriptions d)))"

definition same_purchase :: "nat \<Rightarrow> nat \<Rightarrow> provider_purchase \<Rightarrow> nat option service" where
  "same_purchase integration user purchase =
     (if pp_external_id purchase = '''' then ret None else
      query (\<lambda>d. map_option rid (List.find (\<lambda>s. held_here integration user s \<and> su_external_id s = Some (pp_external_id purchase))
        (subscriptions d))))"

definition holder_statement :: "nat option \<Rightarrow> provider_purchase \<Rightarrow> subscription_row \<Rightarrow> bool" where
  "holder_statement integration purchase s \<longleftrightarrow>
     su_integration s = integration \<and> su_external_id s = Some (pp_external_id purchase)"

definition holder_of :: "nat option \<Rightarrow> provider_purchase \<Rightarrow> subscription_row option service" where
  "holder_of integration purchase = query (\<lambda>d. List.find (holder_statement integration purchase) (subscriptions d))"

definition product_named :: "nat \<Rightarrow> string \<Rightarrow> external_product_row option service" where
  "product_named integration reference = query (\<lambda>d. List.find (\<lambda>e. ep_integration e = integration
     \<and> ep_external_id e = reference \<and> ep_active e) (external_products d))"

section \<open>The hold\<close>

text \<open>The stamp of a notice, which an older one never takes back; one that carries none cannot be ordered.\<close>

definition stampable :: "datetime option \<Rightarrow> subscription_row \<Rightarrow> bool" where
  "stampable stated_at r \<longleftrightarrow> (case stated_at of None \<Rightarrow> True
     | Some t \<Rightarrow> (case su_stated_at r of None \<Rightarrow> True | Some u \<Rightarrow> u \<le> t))"

definition stamped_row :: "datetime option \<Rightarrow> subscription_row \<Rightarrow> subscription_row" where
  "stamped_row stated_at r = (case stated_at of None \<Rightarrow> r | Some t \<Rightarrow> r\<lparr>su_stated_at := Some t\<rparr>)"

definition hold :: "nat \<Rightarrow> datetime option \<Rightarrow> bool service" where
  "hold subscription stated_at =
     andThen (write_subscriptions (\<lambda>r. named subscription r \<and> stampable stated_at r) (stamped_row stated_at)) (\<lambda>rowcount.
     ret (rowcount = 1))"

section \<open>Following what was bought\<close>

definition repoint :: "nat \<Rightarrow> nat \<Rightarrow> provider_purchase \<Rightarrow> bool service" where
  "repoint integration subscription purchase =
     andThen (product_named integration (pp_product_reference purchase)) (\<lambda>product.
     andThen (load subscriptions subscription) (\<lambda>s.
     case product of None \<Rightarrow> ret False | Some p \<Rightarrow>
     if Some (rid p) = su_external_product s then ret False else
     andThen (query (\<lambda>d. fetch (ep_plan p) (plans d))) (\<lambda>plan.
     andThen (move_subscriptions (\<lambda>r. named subscription r \<and> su_external_product r = su_external_product s)
       (\<lambda>r. r\<lparr>su_external_product := Some (rid p), su_plan := ep_plan p\<rparr>)) (\<lambda>rowcount.
     if rowcount \<noteq> 1 then ret False else
     andThen (need plan) (\<lambda>plan.
     andThen (if pl_resume_delivery_policy plan = NEW_CYCLE then andThen (release_cycle subscription) (\<lambda>_. ret ()) else ret ()) (\<lambda>_.
     ret True))))))"

definition adopt :: "nat \<Rightarrow> provider_purchase \<Rightarrow> bool service" where
  "adopt subscription purchase =
     andThen (load subscriptions subscription) (\<lambda>s.
     if pp_external_id purchase = '''' \<or> Some (pp_external_id purchase) = su_external_id s then ret False else
     andThen (holder_of (su_integration s) purchase) (\<lambda>holder.
     let take = move_subscriptions (named subscription) (\<lambda>r. r\<lparr>su_external_id := Some (pp_external_id purchase)\<rparr>) in
     case holder of
       None \<Rightarrow> andThen take (\<lambda>_. ret False)
     | Some h \<Rightarrow>
         if su_user h \<noteq> su_user s then ret False else
         andThen (move_subscriptions (named (rid h)) (\<lambda>r. r\<lparr>su_external_id := None\<rparr>)) (\<lambda>_.
         andThen take (\<lambda>_.
         andThen (close (rid h) subscription_status.EXPIRED ''the purchase moved to another product'') (\<lambda>_. ret True)))))"

definition align :: "nat \<Rightarrow> provider_purchase \<Rightarrow> datetime option \<Rightarrow> nat service" where
  "align subscription purchase stated_at =
     (if pp_refunded_at purchase \<noteq> None then close subscription REVOKED ''the provider refunded it'' else
      andThen now (\<lambda>moment.
      if over purchase moment then close subscription subscription_status.EXPIRED ''the period the provider reports has ended'' else
      andThen (adopt subscription purchase) (\<lambda>adopted.
      andThen (if adopted then hold subscription stated_at else ret True) (\<lambda>mine.
      if adopted \<and> \<not> mine then ret 1 else
      andThen (load subscriptions subscription) (\<lambda>before.
      andThen (carry subscription purchase) (\<lambda>_.
      andThen (load subscriptions subscription) (\<lambda>after.
      if snapshot before = snapshot after then ret 0 else
      andThen (activate subscription) (\<lambda>_. ret 1))))))))"

section \<open>A receipt of somebody else\<close>

definition hand_over :: "nat \<Rightarrow> nat \<Rightarrow> provider_purchase \<Rightarrow> nat service" where
  "hand_over subscription user purchase =
     andThen (load subscriptions subscription) (\<lambda>s.
     let previous = su_user s in
     andThen (move_subscriptions (\<lambda>r. named subscription r \<and> su_user r = previous) (\<lambda>r. r\<lparr>su_user := user\<rparr>)) (\<lambda>rowcount.
     if rowcount \<noteq> 1 then ret 0 else
     andThen (end_benefits subscription) (\<lambda>_.
     andThen (carry subscription purchase) (\<lambda>_.
     andThen commit (\<lambda>_.
     andThen (record_log (su_tenant s) (Some user) INFO (Some PURCHASE) ''the store passed this receipt to another account'') (\<lambda>_.
     andThen (release_cycle subscription) (\<lambda>_.
     andThen (activate subscription) (\<lambda>_. ret 1))))))))"

definition new_subscription :: "integration_row \<Rightarrow> nat \<Rightarrow> external_product_row \<Rightarrow> provider_purchase \<Rightarrow> datetime option \<Rightarrow> subscription_row" where
  "new_subscription integration user product purchase stated_at =
     \<lparr>rid = 0, su_tenant = in_tenant integration, su_user = user, su_plan = ep_plan product, su_integration = Some (rid integration),
      su_external_product = Some (rid product), su_external_id = Some (pp_external_id purchase), su_status = subscription_status.PENDING,
      su_benefit_status = benefit_status.ACTIVE, su_environment = None, su_started_at = None, su_current_period_started_at = None,
      su_current_period_ends_at = None, su_access_until = None, su_trial_ends_at = None, su_grace_until = None,
      su_cancel_at_period_end = False, su_canceled_at = None, su_expired_at = None, su_stated_at = stated_at, su_provider_meta = None\<rparr>"

text \<open>
  Opening the row of a purchase nobody here had. \<open>again\<close> is the settling a caller that lost the race goes
  back to.
\<close>

definition open_subscription :: "nat service \<Rightarrow> integration_row \<Rightarrow> nat \<Rightarrow> provider_purchase \<Rightarrow> datetime option \<Rightarrow> nat service" where
  "open_subscription again integration user purchase stated_at =
     andThen now (\<lambda>moment.
     if over purchase moment then ret 0 else
     andThen (product_named (rid integration) (pp_product_reference purchase)) (\<lambda>product.
     case (product, pp_external_id purchase) of
       (Some p, _ # _) \<Rightarrow>
         andThen (settle subscriptions subscriptions_update accepts_subscription (holder_statement (Some (rid integration)) purchase)
           (new_subscription integration user p purchase stated_at)) (\<lambda>settled.
         case settled of
           Wrote r \<Rightarrow>
             andThen (carry (rid r) purchase) (\<lambda>_.
             andThen (activate (rid r)) (\<lambda>_. ret 1))
         | Found r \<Rightarrow> if su_user r = user then again else hand_over (rid r) user purchase
         | Missed \<Rightarrow> throw AttributeError)
     | _ \<Rightarrow>
         andThen (record_log (in_tenant integration) (Some user) WARNING (Some PURCHASE)
           (provider_name (in_provider integration) @ '' holds '' @ pp_product_reference purchase
             @ '' for an account here and nothing maps it'')) (\<lambda>_. ret 0)))"

section \<open>One line\<close>

text \<open>
  Settling one line, which answers the changes it made and what is left of the dictionary it was handed.
  The row is looked for under the product, then under the transaction; a row that is nobody's is opened,
  and the fuel counts how many times the opening may be lost to somebody else.
\<close>

definition settle_row :: "integration_row \<Rightarrow> nat \<Rightarrow> provider_purchase \<Rightarrow> datetime option \<Rightarrow> nat service" where
  "settle_row integration subscription purchase stated_at =
     andThen (hold subscription stated_at) (\<lambda>mine.
     if \<not> mine then ret 0 else
     andThen (load subscriptions subscription) (\<lambda>s.
     if status_of purchase = subscription_status.PENDING \<and> su_status s \<noteq> subscription_status.PENDING then ret 0 else
     andThen (repoint (rid integration) subscription purchase) (\<lambda>changed.
     andThen (if changed then hold subscription stated_at else ret True) (\<lambda>mine.
     if changed \<and> \<not> mine then ret 1 else
     andThen (align subscription purchase stated_at) (\<lambda>changes.
     if \<not> changed then ret changes else
     andThen (activate subscription) (\<lambda>_. ret 1))))))"

fun settle_line :: "nat \<Rightarrow> integration_row \<Rightarrow> nat \<Rightarrow> provider_purchase \<Rightarrow> (string \<times> nat) list \<Rightarrow> datetime option
    \<Rightarrow> (nat \<times> (string \<times> nat) list) service" where
  "settle_line 0 integration user purchase known stated_at = hang"
| "settle_line (Suc fuel) integration user purchase known stated_at =
     (case map_of known (pp_product_reference purchase) of
        Some subscription \<Rightarrow>
          andThen (settle_row integration subscription purchase stated_at) (\<lambda>changes.
          ret (changes, without (pp_product_reference purchase) known))
      | None \<Rightarrow>
          andThen (same_purchase (rid integration) user purchase) (\<lambda>same.
          case same of
            Some subscription \<Rightarrow>
              andThen (settle_row integration subscription purchase stated_at) (\<lambda>changes.
              ret (changes, filter (\<lambda>(_, row). row \<noteq> subscription) known))
          | None \<Rightarrow>
              andThen (open_subscription
                (andThen (settle_line fuel integration user purchase [] stated_at) (\<lambda>(changes, _). ret changes))
                integration user purchase stated_at) (\<lambda>changes. ret (changes, known))))"

section \<open>An account\<close>

definition RACES :: nat where
  "RACES = 2"

fun settle_all :: "integration_row \<Rightarrow> nat \<Rightarrow> provider_purchase list \<Rightarrow> (string \<times> nat) list \<Rightarrow> datetime option
    \<Rightarrow> (nat \<times> (string \<times> nat) list) service" where
  "settle_all integration user [] known stated_at = ret (0, known)"
| "settle_all integration user (purchase # lines) known stated_at =
     andThen (settle_line RACES integration user purchase known stated_at) (\<lambda>(changes, left).
     andThen (settle_all integration user lines left stated_at) (\<lambda>(more, rest). ret (changes + more, rest)))"

definition close_missing :: "datetime option \<Rightarrow> nat \<Rightarrow> nat service" where
  "close_missing stated_at subscription =
     andThen (hold subscription stated_at) (\<lambda>mine.
     if \<not> mine then ret 0 else
     andThen (load subscriptions subscription) (\<lambda>s.
     if su_status s \<in> set ELIGIBLE_SUBSCRIPTION_STATUSES
     then close subscription subscription_status.EXPIRED ''the provider no longer holds it for this account''
     else ret 0))"

definition apply_state :: "integration_row \<Rightarrow> nat \<Rightarrow> provider_purchase list \<Rightarrow> bool \<Rightarrow> datetime option \<Rightarrow> nat service" where
  "apply_state integration user lines complete stated_at =
     andThen (ours (rid integration) user) (\<lambda>known.
     andThen (settle_all integration user lines known stated_at) (\<lambda>(changes, left).
     andThen (if complete then each (close_missing stated_at) (map snd left) else ret []) (\<lambda>closed.
     andThen commit (\<lambda>_. ret (changes + sum_list closed)))))"

section \<open>Asking the gateway\<close>

text \<open>Every answer but a reading of the account is \<open>Silent\<close>, and a refused key is \<open>Unreadable\<close> and written down.\<close>

definition against :: "asking \<Rightarrow> integration_row \<Rightarrow> user_row \<Rightarrow> string \<Rightarrow> nat service" where
  "against ask integration user secret =
     andThen now (\<lambda>queried_at.
     andThen (handle (lift (ask integration secret (us_token user))) (\<lambda>error. case error of
         RateLimited wait \<Rightarrow> throw Silent
       | HTTPStatusError code \<Rightarrow>
           if code \<in> set REFUSED then
             andThen (record_log (in_tenant integration) (Some (rid user)) ERROR (Some PURCHASE)
               (provider_name (in_provider integration) @ '' refused the api key of integration '' @ decimal (rid integration))) (\<lambda>_.
             andThen commit (\<lambda>_. throw Unreadable))
           else throw Silent
       | HTTPError \<Rightarrow> throw Silent
       | e \<Rightarrow> throw e)) (\<lambda>lines.
     andThen now (\<lambda>moment.
     andThen (alter users users_update free_keys (named (rid user)) (\<lambda>r. r\<lparr>us_reconciled_at := Some moment\<rparr>)) (\<lambda>_.
     apply_state integration (rid user) lines True (Some queried_at)))))"

definition reconcile_account :: "asking \<Rightarrow> integration_row \<Rightarrow> user_row \<Rightarrow> nat service" where
  "reconcile_account ask integration user =
     (case in_api_key integration of
        None \<Rightarrow> throw Unreadable
      | Some secret \<Rightarrow> if secret = '''' then throw Unreadable else against ask integration user secret)"

definition claim_window :: "nat \<Rightarrow> bool service" where
  "claim_window user =
     andThen now (\<lambda>moment.
     andThen (alter users users_update free_keys
       (\<lambda>r. named user r \<and> (case us_reconciled_at r of None \<Rightarrow> True | Some t \<Rightarrow> before_by moment COOLDOWN t))
       (\<lambda>r. r\<lparr>us_reconciled_at := Some moment\<rparr>)) (\<lambda>rowcount.
     andThen commit (\<lambda>_. ret (rowcount = 1))))"

text \<open>\<open>except (Unreadable, Silent)\<close>: what could not be read is logged and the next integration is asked.\<close>

definition tolerating :: "nat service \<Rightarrow> nat service" where
  "tolerating m = handle m (\<lambda>e. if e = Unreadable \<or> e = Silent then ret 0 else throw e)"

definition refresh :: "asking \<Rightarrow> nat \<Rightarrow> nat service" where
  "refresh ask user =
     andThen (claim_window user) (\<lambda>claimed.
     if \<not> claimed then ret 0 else
     andThen (load users user) (\<lambda>u.
     andThen (query (\<lambda>d. map rid (filter (\<lambda>i. in_tenant i = us_tenant u \<and> in_active i
       \<and> queryable (in_provider i)) (integrations d)))) (\<lambda>asked.
     andThen (each (\<lambda>i. andThen (load integrations i) (\<lambda>integration. andThen (load users user) (\<lambda>u.
       tolerating (reconcile_account ask integration u)))) asked) (\<lambda>touched. ret (sum_list touched)))))"

section \<open>The sweep of what ran out in silence\<close>

text \<open>
  The accounts of a sweep: whoever holds a subscription whose period ran out or that just closed, through a
  gateway that answers, those never asked first, then the longest ago, then the earliest period.
\<close>

definition stale :: "datetime \<Rightarrow> db \<Rightarrow> subscription_row \<Rightarrow> bool" where
  "stale moment d s \<longleftrightarrow>
     (case su_integration s of None \<Rightarrow> False | Some i \<Rightarrow>
       (case fetch i (integrations d) of None \<Rightarrow> False | Some g \<Rightarrow> in_active g \<and> queryable (in_provider g)))
     \<and> fetch (su_user s) (users d) \<noteq> None
     \<and> (su_status s \<in> set ELIGIBLE_SUBSCRIPTION_STATUSES \<and> (case su_access_until s of None \<Rightarrow> False | Some t \<Rightarrow> t \<le> moment)
        \<or> su_status s = subscription_status.EXPIRED
          \<and> (case su_expired_at s of None \<Rightarrow> False | Some t \<Rightarrow> instant moment - RECENTLY_CLOSED < instant t))"

definition earliest :: "datetime option list \<Rightarrow> datetime option" where
  "earliest ts = foldr (\<lambda>t m. case t of None \<Rightarrow> m | Some x \<Rightarrow> (case m of None \<Rightarrow> Some x | Some y \<Rightarrow> Some (min x y))) ts None"

definition account_of :: "subscription_row \<Rightarrow> nat \<times> nat" where
  "account_of s = (case su_integration s of None \<Rightarrow> 0 | Some i \<Rightarrow> i, su_user s)"

definition asked_at :: "db \<Rightarrow> nat \<Rightarrow> datetime option" where
  "asked_at d user = (case fetch user (users d) of None \<Rightarrow> None | Some u \<Rightarrow> us_reconciled_at u)"

definition stale_accounts :: "datetime \<Rightarrow> db \<Rightarrow> (nat \<times> nat) list" where
  "stale_accounts moment d =
     (let rows = filter (stale moment d) (subscriptions d) in
      take SWEEP_LIMIT (sort_key (\<lambda>a. (asked_at d (snd a) \<noteq> None, asked_at d (snd a),
          earliest (map su_access_until (filter (\<lambda>s. account_of s = a) rows))))
        (remdups (map account_of rows))))"

text \<open>A stretch of the pass at a later reading of the clock, which the pass itself goes on from.\<close>

definition during :: "datetime \<Rightarrow> 'a service \<Rightarrow> 'a service" where
  "during moment m = (\<lambda>s. case m (s\<lparr>clock := moment\<rparr>) of (r, t) \<Rightarrow> (r, t\<lparr>clock := clock s\<rparr>))"

text \<open>
  \<open>clock_at\<close> is what the clock reads as the loop reaches each account, which the gateway and the pace between
  two calls decide.
\<close>

fun sweep_accounts :: "asking \<Rightarrow> (nat \<Rightarrow> datetime) \<Rightarrow> int \<Rightarrow> nat \<Rightarrow> (nat \<times> nat) list \<Rightarrow> nat list \<Rightarrow> nat service" where
  "sweep_accounts ask clock_at deadline position [] unreadable = ret 0"
| "sweep_accounts ask clock_at deadline position ((integration_id, user_id) # accounts) unreadable =
     (if deadline \<le> instant (clock_at position) then ret 0 else
      if integration_id \<in> set unreadable then sweep_accounts ask clock_at deadline (Suc position) accounts unreadable else
      andThen (load integrations integration_id) (\<lambda>integration.
      andThen (load users user_id) (\<lambda>user.
      andThen (handle (andThen (during (clock_at position) (reconcile_account ask integration user)) (\<lambda>n. ret (n, unreadable)))
        (\<lambda>e. if e = Silent then ret (0, unreadable)
              else if e = Unreadable then ret (0, integration_id # unreadable) else throw e)) (\<lambda>(touched, refused).
      andThen (sweep_accounts ask clock_at deadline (Suc position) accounts refused) (\<lambda>more. ret (touched + more))))))"

definition reconcile_stale :: "asking \<Rightarrow> (nat \<Rightarrow> datetime) \<Rightarrow> nat service" where
  "reconcile_stale ask clock_at =
     andThen now (\<lambda>moment.
     andThen (query (stale_accounts moment)) (\<lambda>accounts.
     sweep_accounts ask clock_at (instant moment + SWEEP_WINDOW) 0 accounts []))"

end
