(* ===== verification/Json.thy ===== *)
theory Json
  imports Gateway
begin

text \<open>
  The documents the gateways send and answer: a JSON value as \<^verbatim>\<open>json.loads\<close> builds it (an object keeps one value
  per name, in the order of the names), the questions Python asks of one (its truth, its text, an attribute it
  may not have), \<open>nesting\<close> of \<^verbatim>\<open>schemas/common.py\<close> and the call of \<^verbatim>\<open>services/inbound_call.py\<close>.
  Text is a list of characters, and upper and lower case are those of ASCII. A number with a fraction is the
  decimal its shortest text spells, \<open>m / 10 ^ e\<close>.
\<close>

section \<open>Values\<close>

datatype json =
    JNull
  | JBool bool
  | JInt int
  | JFloat int nat
  | JText string
  | JList "json list"
  | JMap "(string \<times> json) list"

text \<open>
  What the interpreter and its libraries are asked for and this development does not define: the parser and the
  printer of a document, the parser of a form, the decoding of bytes, the \<open>repr\<close> of what is not a text, the parser of an ISO stamp
  (nothing for what it refuses, \<open>Some None\<close> for a stamp with no offset), the decimal of what is not a whole number,
  the HMAC of a body and the digest of a
  call.
\<close>

record inbound_call =
  ic_method :: string
  ic_headers :: "(string \<times> string) list"
  ic_query :: "(string \<times> string) list"
  ic_body :: string

record outside =
  o_loads :: "string \<Rightarrow> json option"
  o_dumps :: "json \<Rightarrow> string"
  o_form :: "string \<Rightarrow> (string \<times> string) list"
  o_decode :: "string \<Rightarrow> string"
  o_repr :: "json \<Rightarrow> string"
  o_iso :: "string \<Rightarrow> datetime option option"
  o_decimal :: "json \<Rightarrow> amount outcome"
  o_hmac :: "string \<Rightarrow> string \<Rightarrow> string"
  o_digest :: "inbound_call \<Rightarrow> string"

fun truthy :: "json \<Rightarrow> bool" where
  "truthy JNull = False"
| "truthy (JBool b) = b"
| "truthy (JInt i) = (i \<noteq> 0)"
| "truthy (JFloat m e) = (m \<noteq> 0)"
| "truthy (JText t) = (t \<noteq> '''')"
| "truthy (JList l) = (l \<noteq> [])"
| "truthy (JMap d) = (d \<noteq> [])"

definition either :: "json \<Rightarrow> json \<Rightarrow> json" where
  "either a b = (if truthy a then a else b)"

text \<open>\<open>d.get(name)\<close>: what is not an object has no such method.\<close>

definition entry :: "(string \<times> json) list \<Rightarrow> string \<Rightarrow> json" where
  "entry d name = (case map_of d name of None \<Rightarrow> JNull | Some v \<Rightarrow> v)"

fun get :: "json \<Rightarrow> string \<Rightarrow> json outcome" where
  "get (JMap d) name = Ok (entry d name)"
| "get _ name = Err AttributeError"

definition bind :: "'a outcome \<Rightarrow> ('a \<Rightarrow> 'b outcome) \<Rightarrow> 'b outcome" where
  "bind r k = (case r of Ok x \<Rightarrow> k x | Err e \<Rightarrow> Err e | Hangs \<Rightarrow> Hangs)"

lemma bind_simps [simp]: "bind (Ok x) k = k x" "bind (Err e) k = Err e" "bind Hangs k = Hangs"
  by (simp_all add: bind_def)

text \<open>\<open>(d.get(name) or {})\<close>.\<close>

definition get_map :: "json \<Rightarrow> string \<Rightarrow> json outcome" where
  "get_map v name = bind (get v name) (\<lambda>w. Ok (either w (JMap [])))"

fun is_map :: "json \<Rightarrow> bool" where
  "is_map (JMap d) = True"
| "is_map _ = False"

section \<open>Text\<close>

definition signed_decimal :: "int \<Rightarrow> string" where
  "signed_decimal i = (if i < 0 then CHR ''-'' # decimal (nat (- i)) else decimal (nat i))"

fun str_of :: "outside \<Rightarrow> json \<Rightarrow> string" where
  "str_of w JNull = ''None''"
| "str_of w (JBool b) = (if b then ''True'' else ''False'')"
| "str_of w (JInt i) = signed_decimal i"
| "str_of w (JText t) = t"
| "str_of w v = o_repr w v"

text \<open>\<open>str(value) if value not in (None, "") else None\<close>, and \<open>str(value or "")\<close>.\<close>

definition text_of :: "outside \<Rightarrow> json \<Rightarrow> string option" where
  "text_of w v = (if v = JNull \<or> v = JText '''' then None else Some (str_of w v))"

definition text_or_empty :: "outside \<Rightarrow> json \<Rightarrow> string" where
  "text_or_empty w v = str_of w (either v (JText ''''))"

definition code_of :: "char \<Rightarrow> nat" where
  "code_of c = of_char c"

definition upper_char :: "char \<Rightarrow> char" where
  "upper_char c = (if 97 \<le> code_of c \<and> code_of c \<le> 122 then char_of (code_of c - 32) else c)"

definition lower_char :: "char \<Rightarrow> char" where
  "lower_char c = (if 65 \<le> code_of c \<and> code_of c \<le> 90 then char_of (code_of c + 32) else c)"

definition is_alpha :: "char \<Rightarrow> bool" where
  "is_alpha c \<longleftrightarrow> 65 \<le> code_of c \<and> code_of c \<le> 90 \<or> 97 \<le> code_of c \<and> code_of c \<le> 122"

definition upper :: "string \<Rightarrow> string" where
  "upper t = map upper_char t"

definition lower :: "string \<Rightarrow> string" where
  "lower t = map lower_char t"

definition is_space :: "char \<Rightarrow> bool" where
  "is_space c \<longleftrightarrow> code_of c \<in> {9, 10, 11, 12, 13, 28, 29, 30, 31, 32, 133, 160}"

definition strip :: "string \<Rightarrow> string" where
  "strip t = rev (dropWhile is_space (rev (dropWhile is_space t)))"

text \<open>\<open>t.split(c)\<close>, and \<open>t.split(c, 1)\<close> of a text that holds the separator.\<close>

fun split_on :: "char \<Rightarrow> string \<Rightarrow> string list" where
  "split_on c [] = [[]]"
| "split_on c (x # t) = (if x = c then [] # split_on c t
     else (case split_on c t of [] \<Rightarrow> [[x]] | p # ps \<Rightarrow> (x # p) # ps))"

definition split_once :: "char \<Rightarrow> string \<Rightarrow> string \<times> string" where
  "split_once c t = (takeWhile (\<lambda>x. x \<noteq> c) t, drop 1 (dropWhile (\<lambda>x. x \<noteq> c) t))"

text \<open>\<open>int(text)\<close>: digits with single underscores between them, a sign and blanks around.\<close>

fun digits_of :: "string \<Rightarrow> string option" where
  "digits_of [] = None"
| "digits_of [c] = (if is_digit c then Some [c] else None)"
| "digits_of (c # d # t) = (if \<not> is_digit c then None
     else if d = CHR ''_'' then map_option (\<lambda>r. c # r) (digits_of t)
     else map_option (\<lambda>r. c # r) (digits_of (d # t)))"

definition int_of_text :: "string \<Rightarrow> int option" where
  "int_of_text t = (case strip t of
       [] \<Rightarrow> None
     | c # r \<Rightarrow>
         if c = CHR ''-'' then map_option (\<lambda>d. - int (read_digits 0 d)) (digits_of r)
         else if c = CHR ''+'' then map_option (\<lambda>d. int (read_digits 0 d)) (digits_of r)
         else map_option (\<lambda>d. int (read_digits 0 d)) (digits_of (c # r)))"

text \<open>\<open>int(value)\<close>: a fraction is cut towards zero, and what is neither a number nor the text of one is refused.\<close>

fun int_of :: "json \<Rightarrow> int option" where
  "int_of (JBool b) = Some (if b then 1 else 0)"
| "int_of (JInt i) = Some i"
| "int_of (JFloat m e) = Some (if m < 0 then - (- m div 10 ^ e) else m div 10 ^ e)"
| "int_of (JText t) = int_of_text t"
| "int_of _ = None"

section \<open>A call\<close>

definition JSON_DEPTH_MAX :: nat where
  "JSON_DEPTH_MAX = 32"

fun children :: "json \<Rightarrow> json list" where
  "children (JList l) = l"
| "children (JMap d) = map snd d"
| "children _ = []"

fun is_document :: "json \<Rightarrow> bool" where
  "is_document (JList l) = True"
| "is_document (JMap d) = True"
| "is_document _ = False"

lemma children_size: "sum_list (map (\<lambda>c. Suc (size c)) (children v)) < Suc (size v)"
proof (cases v)
  case (JList l)
  have "sum_list (map (\<lambda>c. Suc (size c)) l) = size_list size l" by (induction l) auto
  with JList show ?thesis by simp
next
  case (JMap d)
  have "sum_list (map (\<lambda>c. Suc (size c)) (map snd d)) \<le> size_list (size_prod (\<lambda>_. 0) size) d"
    by (induction d) auto
  with JMap show ?thesis by simp
qed simp_all

text \<open>The stack of \<open>nesting\<close>, its end at the head: what is popped is the last value pushed.\<close>

function nesting_loop :: "nat \<Rightarrow> (json \<times> nat) list \<Rightarrow> nat" where
  "nesting_loop deepest [] = deepest"
| "nesting_loop deepest ((current, level) # pending) =
     (if is_document current
      then nesting_loop (max deepest level) (rev (map (\<lambda>child. (child, level + 1)) (children current)) @ pending)
      else nesting_loop deepest pending)"
  by pat_completeness auto
termination
proof (relation "measure (\<lambda>(_, pending). sum_list (map (\<lambda>(v, _). Suc (size v)) pending))")
  fix deepest :: nat and current level and pending :: "(json \<times> nat) list"
  have "sum_list (map (\<lambda>(v, _). Suc (size v)) (rev (map (\<lambda>child. (child, level + 1)) (children current)) @ pending))
    = sum_list (map (\<lambda>c. Suc (size c)) (children current)) + sum_list (map (\<lambda>(v, _). Suc (size v)) pending)"
    by (simp add: sum_list_rev rev_map [symmetric] comp_def)
  then show "((max deepest level, rev (map (\<lambda>child. (child, level + 1)) (children current)) @ pending),
      deepest, (current, level) # pending) \<in> measure (\<lambda>(_, pending). sum_list (map (\<lambda>(v, _). Suc (size v)) pending))"
    using children_size [of current] by simp
qed simp_all

definition nesting :: "json \<Rightarrow> nat" where
  "nesting v = nesting_loop 0 [(v, 1)]"

definition header :: "inbound_call \<Rightarrow> string \<Rightarrow> string option" where
  "header call name = map_of (ic_headers call) (lower name)"

definition body_text :: "outside \<Rightarrow> inbound_call \<Rightarrow> string" where
  "body_text w call = o_decode w (ic_body call)"

definition content_type :: "inbound_call \<Rightarrow> string" where
  "content_type call = strip (hd (split_on (CHR '';'') (case header call ''content-type'' of None \<Rightarrow> '''' | Some t \<Rightarrow> t)))"

definition data :: "outside \<Rightarrow> inbound_call \<Rightarrow> (string \<times> json) list" where
  "data w call =
     (if content_type call = ''application/x-www-form-urlencoded''
      then map (\<lambda>(k, v). (k, JText v)) (o_form w (body_text w call))
      else (case o_loads w (body_text w call) of
              Some (JMap d) \<Rightarrow> if nesting (JMap d) \<le> JSON_DEPTH_MAX then d else []
            | _ \<Rightarrow> []))"

section \<open>The depth of a document\<close>

fun depth :: "json \<Rightarrow> nat" where
  "depth (JList l) = Suc (foldr max (map depth l) 0)"
| "depth (JMap d) = Suc (foldr max (map (\<lambda>(_, v). depth v) d) 0)"
| "depth _ = 0"

lemma depth_children: "is_document v \<Longrightarrow> depth v = Suc (foldr max (map depth (children v)) 0)"
  by (cases v) (simp_all add: comp_def case_prod_unfold)

lemma depth_leaf: "\<not> is_document v \<Longrightarrow> depth v = 0"
  by (cases v) simp_all

text \<open>How deep what is pending reaches.\<close>

definition reach :: "json \<times> nat \<Rightarrow> nat" where
  "reach p = (if is_document (fst p) then snd p + depth (fst p) - 1 else 0)"

lemma foldr_max_append: "foldr max (xs @ ys) (0::nat) = max (foldr max xs 0) (foldr max ys 0)"
  by (induction xs) (simp_all add: max.assoc)

lemma foldr_max_rev: "foldr max (rev xs) (0::nat) = foldr max xs 0"
  by (induction xs) (simp_all add: foldr_max_append max.commute del: foldr_append)

lemma reach_children:
  "max level (foldr max (map (\<lambda>c. reach (c, level + 1)) cs) 0) = level + foldr max (map depth cs) 0"
  by (induction cs) (auto simp: reach_def depth_leaf)

lemma nesting_loop_reach: "nesting_loop deepest pending = max deepest (foldr max (map reach pending) 0)"
proof (induction deepest pending rule: nesting_loop.induct)
  case (1 deepest)
  then show ?case by simp
next
  case (2 deepest current level pending)
  show ?case
  proof (cases "is_document current")
    case True
    let ?cs = "foldr max (map (\<lambda>c. reach (c, level + 1)) (children current)) 0"
    have "reach (current, level) = max level ?cs"
      using reach_children [of level "children current"] by (simp add: reach_def True depth_children)
    moreover have "foldr max (map reach (rev (map (\<lambda>child. (child, level + 1)) (children current)))) 0 = ?cs"
      by (simp add: rev_map [symmetric] foldr_max_rev comp_def del: foldr_append)
    ultimately show ?thesis using 2(1) [OF True] True
      by (simp add: foldr_max_append max.assoc del: foldr_append)
  next
    case False
    then show ?thesis using 2(2) by (simp add: reach_def)
  qed
qed

text \<open>
  The loop that counts how deep a document nests, which keeps a stack of its own so that a hostile
  document cannot exhaust the interpreter's, ends and answers the depth of the document: nothing for a value
  that holds none, and one more than its deepest child for a list or an object.
\<close>
theorem nesting_is_depth:
  "nesting v = depth v"
  by (cases "is_document v") (simp_all add: nesting_def nesting_loop_reach reach_def depth_leaf depth_children)

end
