(* ===== verification/Money.thy ===== *)
theory Money
  imports Json
begin

text \<open>
  \<^verbatim>\<open>helpers/money.py\<close>: the smallest unit of each currency, what a gateway is told to charge, and an amount as
  somebody reading a language writes it. A decimal is a whole number of units of \<open>10 ^ - e\<close>, kept exactly; the
  prices and amounts here have far fewer digits than the context of \<^verbatim>\<open>decimal\<close> would round at.
\<close>

section \<open>The smallest unit\<close>

definition ZERO_DECIMAL :: "string list" where
  "ZERO_DECIMAL = [''bif'', ''clp'', ''djf'', ''gnf'', ''jpy'', ''kmf'', ''krw'', ''mga'', ''pyg'', ''rwf'', ''ugx'',
     ''vnd'', ''vuv'', ''xaf'', ''xof'', ''xpf'']"

definition THREE_DECIMAL :: "string list" where
  "THREE_DECIMAL = [''bhd'', ''jod'', ''kwd'', ''omr'', ''tnd'']"

definition factor :: "string \<Rightarrow> nat" where
  "factor currency = (let lowered = lower currency in
     if lowered \<in> set ZERO_DECIMAL then 1 else if lowered \<in> set THREE_DECIMAL then 1000 else 100)"

text \<open>\<open>quantize(Decimal(1), rounding=ROUND_HALF_UP)\<close> of \<open>n / d\<close>: to the nearest, a half away from zero.\<close>

definition half_up :: "int \<Rightarrow> int \<Rightarrow> int" where
  "half_up n d = (if n < 0 then - ((2 * (- n) + d) div (2 * d)) else (2 * n + d) div (2 * d))"

definition minor_units :: "int \<Rightarrow> nat \<Rightarrow> string \<Rightarrow> int" where
  "minor_units m e currency = half_up (m * int (factor currency)) (10 ^ e)"

definition places :: "string \<Rightarrow> nat" where
  "places currency = length (decimal (factor currency)) - 1"

fun from_minor_units :: "amount \<Rightarrow> string \<Rightarrow> amount" where
  "from_minor_units (Amount m e) currency = Amount m (e + places currency)"
| "from_minor_units NotFinite currency = NotFinite"

section \<open>A number as a language writes it\<close>

text \<open>The languages that declare a format: anything else is indexed and not found.\<close>

definition GROUPING :: "(string \<times> char \<times> char) list" where
  "GROUPING = [(''en'', CHR '','', CHR ''.''), (''pt'', CHR ''.'', CHR '',''), (''es'', CHR ''.'', CHR '','')]"

text \<open>\<open>f"{n:,}"\<close>, with the mark of the language between the groups.\<close>

fun grouped :: "char \<Rightarrow> nat \<Rightarrow> string" where
  "grouped mark n = (if n < 1000 then decimal n else grouped mark (n div 1000) @ mark # padded 3 (n mod 1000))"

declare grouped.simps [simp del]

definition number :: "int \<Rightarrow> nat \<Rightarrow> string \<Rightarrow> nat \<Rightarrow> string outcome" where
  "number m e locale decimals =
     (case map_of GROUPING locale of
        None \<Rightarrow> Err KeyError
      | Some (thousands, point) \<Rightarrow>
          let quantized = half_up (m * 10 ^ decimals) (10 ^ e);
              whole = nat \<bar>quantized\<bar> div 10 ^ decimals;
              fraction = (if decimals = 0 then '''' else padded decimals (nat \<bar>quantized\<bar> mod 10 ^ decimals));
              sign = (if quantized < 0 then ''-'' else '''')
          in Ok (if fraction \<noteq> '''' then sign @ grouped thousands whole @ point # fraction else sign @ grouped thousands whole))"

definition PLACEMENT :: "(string \<times> (string \<Rightarrow> string \<Rightarrow> string)) list" where
  "PLACEMENT = [(''en'', \<lambda>code value. code @ '' '' @ value), (''pt'', \<lambda>code value. code @ '' '' @ value),
     (''es'', \<lambda>code value. value @ '' '' @ code)]"

definition money :: "int \<Rightarrow> nat \<Rightarrow> string \<Rightarrow> string \<Rightarrow> string outcome" where
  "money m e currency locale =
     (case map_of PLACEMENT locale of
        None \<Rightarrow> Err KeyError
      | Some place \<Rightarrow> bind (number m e locale (places currency)) (\<lambda>value. Ok (place (upper currency) value)))"

section \<open>Facts\<close>

lemma factor_places: "int (factor currency) = 10 ^ places currency"
  by (simp add: factor_def places_def Let_def decimal.simps)

lemma factor_cases: "factor currency \<in> {1, 100, 1000}"
  by (simp add: factor_def Let_def)

text \<open>To the nearest: no other whole number is closer, and a half goes away from zero.\<close>

lemma half_up_near:
  assumes "0 < d"
  shows "\<bar>2 * (half_up n d * d - n)\<bar> \<le> d"
proof -
  have pos: "\<bar>2 * ((2 * k + d) div (2 * d) * d - k)\<bar> \<le> d" for k :: int
  proof -
    let ?q = "(2 * k + d) div (2 * d)"
    have "2 * d * ?q + (2 * k + d) mod (2 * d) = 2 * k + d" by (rule mult_div_mod_eq)
    moreover have "0 \<le> (2 * k + d) mod (2 * d)" "(2 * k + d) mod (2 * d) < 2 * d"
      using assms by (simp_all add: pos_mod_bound)
    ultimately show ?thesis by (simp add: algebra_simps)
  qed
  show ?thesis using pos [of n] pos [of "- n"] by (auto simp: half_up_def abs_le_iff algebra_simps)
qed

lemma half_up_exact:
  assumes "0 < d"
  shows "half_up (n * d) d = n"
proof -
  have pos: "(2 * (k * d) + d) div (2 * d) = k" for k :: int
  proof -
    have "2 * (k * d) + d = (2 * k + 1) * d" by (simp add: algebra_simps)
    with assms show ?thesis by simp
  qed
  show ?thesis using pos [of n] pos [of "- n"] assms by (auto simp: half_up_def mult_less_0_iff)
qed

lemma read_digits_shift: "read_digits a t = a * 10 ^ length t + read_digits 0 t"
proof (induction t arbitrary: a)
  case Nil
  then show ?case by simp
next
  case (Cons c t)
  show ?case using Cons [of "10 * a + (of_char c - 48)"] Cons [of "of_char c - 48"] by (simp add: algebra_simps)
qed

lemma digits_all: "filter is_digit (decimal n) = decimal n" "filter is_digit (padded w n) = padded w n"
  using decimal_digits [of n] padded_digits [of w n] by (simp_all add: filter_id_conv)

lemma read_padded_after: "n < 10 ^ w \<Longrightarrow> 0 < w \<Longrightarrow> read_digits a (padded w n) = a * 10 ^ w + n"
  by (simp add: read_digits_shift [of a] length_padded read_padded)

lemma read_grouped: "\<not> is_digit mark \<Longrightarrow> read_digits 0 (filter is_digit (grouped mark n)) = n"
proof (induction mark n rule: grouped.induct)
  case (1 mark n)
  show ?case
  proof (cases "n < 1000")
    case True
    then show ?thesis by (simp add: grouped.simps [of mark n] digits_all read_decimal)
  next
    case False
    with 1 have "read_digits 0 (filter is_digit (grouped mark (n div 1000))) = n div 1000" by simp
    with False 1(2) show ?thesis
      by (simp add: grouped.simps [of mark n] digits_all read_digits_append read_padded_after)
  qed
qed

lemma head_grouped: "hd (grouped mark n) \<noteq> CHR ''-'' \<and> grouped mark n \<noteq> ''''"
proof (induction mark n rule: grouped.induct)
  case (1 mark n)
  have "hd (decimal n) \<in> set (decimal n)" by simp
  then have "is_digit (hd (decimal n))" using decimal_digits by blast
  then have "hd (decimal n) \<noteq> CHR ''-''" by (auto simp: is_digit_def)
  with 1 show ?case by (simp add: grouped.simps [of mark n])
qed

lemma grouping_marks: "map_of GROUPING locale = Some (thousands, point) \<Longrightarrow> \<not> is_digit thousands \<and> \<not> is_digit point"
  by (auto simp: GROUPING_def is_digit_def split: if_splits)

text \<open>
  Converting what a gateway charged from the smallest unit of its currency and back is the identity, and
  what a gateway is told to charge for a price is the whole number of units nearest to it: never more than
  half a unit away, whatever the decimals of the currency.
\<close>
theorem minor_units_nearest:
  "(\<exists>m e. from_minor_units (Amount a 0) currency = Amount m e \<and> minor_units m e currency = a)
   \<and> \<bar>2 * (minor_units p k currency * 10 ^ k - p * int (factor currency))\<bar> \<le> 10 ^ k"
proof
  show "\<exists>m e. from_minor_units (Amount a 0) currency = Amount m e \<and> minor_units m e currency = a"
    by (simp add: minor_units_def factor_places half_up_exact)
  show "\<bar>2 * (minor_units p k currency * 10 ^ k - p * int (factor currency))\<bar> \<le> 10 ^ k"
    unfolding minor_units_def by (rule half_up_near) simp
qed



end
