(* ===== verification/Signature.thy ===== *)
theory Signature
  imports Money
begin

text \<open>
  What both gateways share, at the head of \<^verbatim>\<open>services/revenue_cat_provider.py\<close>: the stamps of their notices and the
  header they sign each call with. An instant counts microseconds, as \<open>instant\<close> does; a stamp is cut out of the
  whole seconds or milliseconds a gateway counts, which a double holds exactly for any year a notice is of.
\<close>

definition TOLERANCE :: int where
  "TOLERANCE = minutes 5"

text \<open>The key that reads the gateway, and the value that proves a call came from it.\<close>

definition API_KEY :: string where
  "API_KEY = ''api_key''"

definition WEBHOOK_SECRET :: string where
  "WEBHOOK_SECRET = ''webhook_secret''"

text \<open>The bytes of two texts are the same exactly where the texts are.\<close>

definition matches :: "string \<Rightarrow> string \<Rightarrow> bool" where
  "matches given expected \<longleftrightarrow> given = expected"

section \<open>Stamps\<close>

text \<open>The ordinal of the first day of 1970, and \<open>datetime.fromtimestamp(t, tz=utc)\<close> of a time in microseconds.\<close>

definition EPOCH :: int where
  "EPOCH = 719163"

definition from_micros :: "int \<Rightarrow> datetime option" where
  "from_micros t = (let day = EPOCH + t div day_micros in
     if 1 \<le> day \<and> day \<le> max_ordinal
     then (case fromordinal day of (y, m, d) \<Rightarrow> Some (DateTime y m d (t mod day_micros)))
     else None)"

definition micros_of :: "datetime \<Rightarrow> int" where
  "micros_of t = instant t - EPOCH * day_micros"

text \<open>A stamp nothing can read is one the notice did not carry.\<close>

definition epoch_of :: "json \<Rightarrow> int \<Rightarrow> datetime option" where
  "epoch_of value per_second =
     (if \<not> truthy value then None
      else (case int_of value of None \<Rightarrow> None | Some n \<Rightarrow> from_micros (n * 1000000 div per_second)))"

definition fresh :: "datetime \<Rightarrow> string \<Rightarrow> bool" where
  "fresh at text =
     (case int_of_text text of None \<Rightarrow> False
      | Some n \<Rightarrow> (case from_micros (n * 1000000) of None \<Rightarrow> False
          | Some stamped \<Rightarrow> \<bar>instant at - instant stamped\<bar> \<le> TOLERANCE))"

section \<open>The signature header\<close>

definition piece_of :: "string \<Rightarrow> (string \<times> string) option" where
  "piece_of piece = (if CHR ''='' \<notin> set piece then None
     else (case split_once (CHR ''='') piece of (scheme, value) \<Rightarrow> Some (strip scheme, strip value)))"

fun read_pieces :: "string option \<times> string list \<Rightarrow> string list \<Rightarrow> string option \<times> string list" where
  "read_pieces found [] = found"
| "read_pieces (moment, signatures) (piece # pieces) = read_pieces
     (case piece_of piece of None \<Rightarrow> (moment, signatures)
      | Some (scheme, value) \<Rightarrow>
          if scheme = ''t'' then (Some value, signatures)
          else if scheme = ''v1'' then (moment, signatures @ [value]) else (moment, signatures)) pieces"

definition signature_parts :: "string \<Rightarrow> string option \<times> string list" where
  "signature_parts text = read_pieces (None, []) (split_on (CHR '','') text)"

text \<open>What a verified call proves: a stamp of now and the HMAC of the stamp and the raw body among its signatures.\<close>

definition signed_by :: "outside \<Rightarrow> datetime \<Rightarrow> string \<Rightarrow> string \<Rightarrow> inbound_call \<Rightarrow> bool" where
  "signed_by w at secret signature call \<longleftrightarrow>
     (case signature_parts signature of
        (None, _) \<Rightarrow> False
      | (Some moment, signatures) \<Rightarrow>
          moment \<noteq> '''' \<and> signatures \<noteq> [] \<and> fresh at moment
          \<and> list_ex (\<lambda>given. matches given (o_hmac w secret (moment @ ''.'' @ ic_body call))) signatures)"

section \<open>Stamps and instants\<close>

lemma valid_ordinal: "valid d \<Longrightarrow> 1 \<le> toordinal (year d) (month d) (day d) \<and> toordinal (year d) (month d) (day d) \<le> max_ordinal"
  using add_days_0 [of d] by (auto simp: add_days_def Let_def split: if_splits)

lemma from_micros_ok:
  assumes "from_micros t = Some d"
  shows "valid d" and "micros_of d = t"
proof -
  let ?n = "EPOCH + t div day_micros"
  obtain y m e where f: "fromordinal ?n = (y, m, e)" by (metis prod_cases3)
  from assms f have n: "1 \<le> ?n" "?n \<le> max_ordinal" and d: "d = DateTime y m e (t mod day_micros)"
    by (auto simp: from_micros_def Let_def split: if_splits)
  from fromordinal_ok [OF f] have v: "valid_date y m e" and o': "toordinal y m e = ?n" by simp_all
  show "valid d" using max_ordinal_year [OF v] v o' n by (simp add: d valid_def day_micros_def)
  show "micros_of d = t" by (simp add: d micros_of_def instant_def o' algebra_simps)
qed

lemma from_micros_of: "valid d \<Longrightarrow> from_micros (micros_of d) = Some d"
proof -
  assume v: "valid d"
  let ?k = "toordinal (year d) (month d) (day d)"
  have m: "0 \<le> micros d" "micros d < day_micros" and vd: "valid_date (year d) (month d) (day d)"
    using v by (simp_all add: valid_def)
  have "micros_of d = (?k - EPOCH) * day_micros + micros d"
    by (simp add: micros_of_def instant_def algebra_simps)
  then have "micros_of d div day_micros = ?k - EPOCH" "micros_of d mod day_micros = micros d"
    using m by simp_all
  with valid_ordinal [OF v] fromordinal_toordinal [OF vd] show ?thesis
    by (simp add: from_micros_def Let_def)
qed

lemma instant_micros_of: "instant d = micros_of d + EPOCH * day_micros"
  by (simp add: micros_of_def)

text \<open>
  A stamp read from a notice is the instant it counts: where a gateway counts seconds or milliseconds, the
  instant read lies exactly that many after 1970 and on the calendar, and every whole second or millisecond of
  the calendar but the first, whose count is falsy, is read back as itself.
\<close>
theorem stamps_read_exactly:
  assumes "per_second = 1 \<or> per_second = 1000" and "n \<noteq> 0"
  shows "epoch_of (JInt n) per_second = Some d \<longleftrightarrow> valid d \<and> micros_of d * per_second = n * 1000000"
proof
  have exact: "n * 1000000 div per_second * per_second = n * 1000000"
    using assms(1) by auto
  show "epoch_of (JInt n) per_second = Some d \<Longrightarrow> valid d \<and> micros_of d * per_second = n * 1000000"
    using from_micros_ok exact by (auto simp: epoch_of_def split: if_splits)
  assume e: "valid d \<and> micros_of d * per_second = n * 1000000"
  then have "n * 1000000 div per_second = micros_of d" using assms(1) by auto
  with e assms(2) show "epoch_of (JInt n) per_second = Some d" by (simp add: epoch_of_def from_micros_of)
qed

lemma stamps_read_exactly_witness:
  "epoch_of (JInt 1700000000123) 1000 = Some (DateTime 2023 11 14 80000123000)"
proof -
  have "valid (DateTime 2023 11 14 80000123000) \<and> micros_of (DateTime 2023 11 14 80000123000) * 1000 = 1700000000123 * 1000000"
    by (simp add: valid_def valid_date_def days_in_month_def day_micros_def micros_of_def instant_def toordinal_def
        days_before_year_def days_before_month_def is_leap_def EPOCH_def)
  then show ?thesis using stamps_read_exactly [of 1000 1700000000123] by simp
qed

section \<open>The header read back\<close>

lemma split_on_append: "c \<notin> set p \<Longrightarrow> split_on c (p @ c # q) = p # split_on c q"
  by (induction p) (auto split: list.splits)

lemma split_on_plain: "c \<notin> set p \<Longrightarrow> split_on c p = [p]"
  by (induction p) auto

lemma split_once_at: "c \<notin> set p \<Longrightarrow> split_once c (p @ c # q) = (p, q)"
  by (induction p) (auto simp: split_once_def)

definition signed_header :: "string \<Rightarrow> string list \<Rightarrow> string" where
  "signed_header moment signatures = ''t='' @ moment @ concat (map (\<lambda>s. '',v1='' @ s) signatures)"

lemma piece_named:
  assumes "CHR ''='' \<notin> set scheme" and "strip scheme = scheme" and "strip value = value"
  shows "piece_of (scheme @ CHR ''='' # value) = Some (scheme, value)"
  using assms split_once_at [of "CHR ''=''" scheme "value"] by (simp add: piece_of_def)

lemma strip_schemes: "strip ''t'' = ''t''" "strip ''v1'' = ''v1''"
  by code_simp+

lemma split_signatures:
  "\<forall>s\<in>set signatures. CHR '','' \<notin> set s \<Longrightarrow> CHR '','' \<notin> set p \<Longrightarrow>
    split_on (CHR '','') (p @ concat (map (\<lambda>s. '',v1='' @ s) signatures)) = p # map (\<lambda>s. ''v1='' @ s) signatures"
proof (induction signatures arbitrary: p)
  case Nil
  then show ?case by (simp add: split_on_plain)
next
  case (Cons s signatures)
  have "CHR '','' \<notin> set (''v1='' @ s)" using Cons.prems(1) by simp
  from Cons.IH [OF _ this] Cons.prems show ?case
    using split_on_append [of "CHR '',''" p "''v1='' @ s @ concat (map (\<lambda>s. '',v1='' @ s) signatures)"] by simp
qed

lemma read_signatures:
  "\<forall>s\<in>set signatures. strip s = s \<Longrightarrow>
    read_pieces (Some moment, found) (map (\<lambda>s. ''v1='' @ s) signatures) = (Some moment, found @ signatures)"
proof (induction signatures arbitrary: found)
  case Nil
  then show ?case by simp
next
  case (Cons s signatures)
  then show ?case using piece_named [of "''v1''" s] strip_schemes by simp
qed

text \<open>
  The header both gateways sign with is read back as it was written: the stamp, and every signature in its
  order, as many as a rolled secret leaves, for any stamp and signatures that hold no comma and no blanks around.
\<close>
theorem signature_parts_reads_back:
  assumes "\<forall>s\<in>set (moment # signatures). CHR '','' \<notin> set s \<and> strip s = s"
  shows "signature_parts (signed_header moment signatures) = (Some moment, signatures)"
proof -
  have "split_on (CHR '','') (signed_header moment signatures) = (''t='' @ moment) # map (\<lambda>s. ''v1='' @ s) signatures"
    using split_signatures [of signatures "''t='' @ moment"] assms by (simp add: signed_header_def)
  then show ?thesis
    using piece_named [of "''t''" moment] strip_schemes read_signatures [of signatures moment "[]"] assms
    by (simp add: signature_parts_def)
qed

lemma signature_parts_reads_back_witness:
  "signature_parts (signed_header ''1700000000'' [''ab=='', ''cd'']) = (Some ''1700000000'', [''ab=='', ''cd''])"
  by (rule signature_parts_reads_back) code_simp

end
