(* ===== verification/Stripe.thy ===== *)
theory Stripe
  imports Signature
begin

text \<open>
  \<^verbatim>\<open>services/stripe_provider.py\<close>: a notice of Stripe is signed and carries the object it is about, so what an
  account holds and what became of a payment are read from it and never asked for. The reading is a pure
  function of the call; a document shaped in a way no notice is raises what Python raises there.
\<close>

section \<open>Authentication\<close>

definition SIGNATURE_HEADER :: string where
  "SIGNATURE_HEADER = ''stripe-signature''"

definition refused_signature :: exc where
  "refused_signature = AuthenticationError ''error.webhook-signature-invalid''"

definition verify :: "outside \<Rightarrow> datetime \<Rightarrow> string \<Rightarrow> string \<Rightarrow> inbound_call \<Rightarrow> unit outcome" where
  "verify w moment secret text call = (if signed_by w moment secret text call then Ok () else Err refused_signature)"

definition authenticate :: "outside \<Rightarrow> datetime \<Rightarrow> inbound_call \<Rightarrow> string \<Rightarrow> unit outcome" where
  "authenticate w moment call secret =
     (if secret = '''' then Err refused_signature else
      case header call SIGNATURE_HEADER of
        None \<Rightarrow> Err refused_signature
      | Some text \<Rightarrow> if text = '''' then Err refused_signature else verify w moment secret text call)"

section \<open>What a notice was about\<close>

definition ACTIONS :: "(string \<times> normalized_action) list" where
  "ACTIONS = [
     (''customer.subscription.created'', ACTIVATE), (''customer.subscription.deleted'', EXPIRE),
     (''customer.subscription.paused'', SUSPEND), (''customer.subscription.resumed'', RESUME),
     (''invoice.paid'', RENEW), (''invoice.payment_failed'', ENTER_GRACE),
     (''charge.refunded'', REFUND), (''checkout.session.completed'', ACTIVATE)]"

definition STATUSES :: "(string \<times> subscription_status) list" where
  "STATUSES = [
     (''trialing'', TRIALING), (''active'', subscription_status.ACTIVE),
     (''past_due'', subscription_status.GRACE_PERIOD), (''unpaid'', subscription_status.GRACE_PERIOD),
     (''paused'', SUSPENDED), (''incomplete'', subscription_status.PENDING),
     (''incomplete_expired'', subscription_status.EXPIRED), (''canceled'', subscription_status.EXPIRED)]"

definition AMOUNTS :: "(string \<times> string) list" where
  "AMOUNTS = [(''invoice.paid'', ''amount_paid''), (''invoice.payment_failed'', ''amount_due'')]"

definition PAYMENTS :: "(string \<times> purchase_status) list" where
  "PAYMENTS = [(''paid'', purchase_status.PAID), (''unpaid'', purchase_status.PENDING),
     (''no_payment_required'', purchase_status.PAID)]"

definition SESSION_OUTCOMES :: "(string \<times> purchase_status) list" where
  "SESSION_OUTCOMES = [(''checkout.session.async_payment_succeeded'', purchase_status.PAID),
     (''checkout.session.async_payment_failed'', purchase_status.FAILED),
     (''checkout.session.expired'', purchase_status.CANCELED)]"

definition DISPUTES :: "(string \<times> purchase_status) list" where
  "DISPUTES = [(''lost'', purchase_status.CHARGED_BACK), (''won'', purchase_status.PAID)]"

definition action :: "string \<Rightarrow> (string \<times> json) list \<Rightarrow> normalized_action option" where
  "action event_type obj =
     (if event_type \<noteq> ''customer.subscription.updated'' then map_of ACTIONS event_type
      else if truthy (entry obj ''pause_collection'') then Some SUSPEND
      else if truthy (entry obj ''cancel_at_period_end'') then Some CANCEL_AT_PERIOD_END
      else None)"

definition payment_of :: "outside \<Rightarrow> string \<Rightarrow> (string \<times> json) list \<Rightarrow> purchase_status option" where
  "payment_of w event_type obj =
     (if entry obj ''object'' = JText ''dispute'' then map_of DISPUTES (text_or_empty w (entry obj ''status''))
      else if entry obj ''object'' = JText ''charge'' then
        (if truthy (entry obj ''refunded'') then Some purchase_status.REFUNDED else None)
      else if entry obj ''object'' \<noteq> JText ''checkout.session'' \<or> entry obj ''mode'' \<noteq> JText ''payment'' then None
      else (case map_of SESSION_OUTCOMES event_type of
              Some status \<Rightarrow> Some status
            | None \<Rightarrow> map_of PAYMENTS (text_or_empty w (entry obj ''payment_status''))))"

section \<open>The parts of an object\<close>

text \<open>\<open>items[0] if items else {}\<close> of a value that should be a list.\<close>

fun first_of_list :: "json \<Rightarrow> json outcome" where
  "first_of_list (JList (x # l)) = Ok x"
| "first_of_list (JText (c # t)) = Ok (JText [c])"
| "first_of_list (JMap (x # d)) = Err KeyError"
| "first_of_list v = (if truthy v then Err TypeError else Ok (JMap []))"

definition first_item :: "(string \<times> json) list \<Rightarrow> json outcome" where
  "first_item obj = bind (get_map (JMap obj) ''items'') (\<lambda>items.
     bind (get items ''data'') first_of_list)"

definition price_of :: "outside \<Rightarrow> (string \<times> json) list \<Rightarrow> string option outcome" where
  "price_of w obj = bind (first_item obj) (\<lambda>item. bind (get_map item ''price'') (\<lambda>price.
     bind (get price ''id'') (\<lambda>v. Ok (text_of w v))))"

definition metadata_of :: "(string \<times> json) list \<Rightarrow> json outcome" where
  "metadata_of obj =
     (if entry obj ''object'' = JText ''invoice'' then
        bind (get_map (JMap obj) ''parent'') (\<lambda>parent.
        bind (get_map parent ''subscription_details'') (\<lambda>details. get_map details ''metadata''))
      else get_map (JMap obj) ''metadata'')"

text \<open>The values a loop over a document runs through: an object gives its names and a text its characters.\<close>

fun iterated :: "json \<Rightarrow> json list outcome" where
  "iterated (JList l) = Ok l"
| "iterated (JMap d) = Ok (map (\<lambda>(k, _). JText k) d)"
| "iterated (JText t) = Ok (map (\<lambda>c. JText [c]) t)"
| "iterated _ = Err TypeError"

fun priced_line :: "outside \<Rightarrow> json list \<Rightarrow> string option outcome" where
  "priced_line w [] = Ok None"
| "priced_line w (line # rest) =
     bind (get_map line ''parent'') (\<lambda>parent.
     bind (get_map parent ''subscription_item_details'') (\<lambda>details.
     bind (if truthy details then get details ''proration'' else Ok JNull) (\<lambda>proration.
     if truthy details \<and> \<not> truthy proration then
       bind (get_map line ''pricing'') (\<lambda>pricing.
       bind (get_map pricing ''price_details'') (\<lambda>price_details.
       bind (get price_details ''price'') (\<lambda>v. Ok (text_of w v))))
     else priced_line w rest)))"

definition invoiced_price :: "outside \<Rightarrow> (string \<times> json) list \<Rightarrow> string option outcome" where
  "invoiced_price w obj =
     bind (get_map (JMap obj) ''lines'') (\<lambda>lines.
     bind (get lines ''data'') (\<lambda>rows.
     bind (iterated (either rows (JList []))) (priced_line w)))"

definition reference_of :: "outside \<Rightarrow> (string \<times> json) list \<Rightarrow> string option outcome" where
  "reference_of w obj =
     (if entry obj ''object'' = JText ''subscription'' then price_of w obj
      else if entry obj ''object'' = JText ''invoice'' then invoiced_price w obj
      else Ok None)"

text \<open>A moment Stripe counted in whole seconds.\<close>

definition moment_of :: "json \<Rightarrow> datetime option" where
  "moment_of v = epoch_of v 1"

definition purchase_of :: "outside \<Rightarrow> (string \<times> json) list \<Rightarrow> provider_purchase outcome" where
  "purchase_of w obj =
     bind (first_item obj) (\<lambda>item.
     let status = text_or_empty w (entry obj ''status'') in
     bind (price_of w obj) (\<lambda>price.
     bind (get item ''current_period_start'') (\<lambda>starts.
     bind (get item ''current_period_end'') (\<lambda>ends.
     bind (get_map (JMap obj) ''pause_collection'') (\<lambda>pause.
     bind (get pause ''resumes_at'') (\<lambda>resumes.
     Ok \<lparr>pp_external_id = text_or_empty w (entry obj ''id''),
         pp_product_reference = (case price of None \<Rightarrow> '''' | Some p \<Rightarrow> p),
         pp_store = Some ''stripe'', pp_ownership = None,
         pp_period_type = (if status = '''' then None else Some status), pp_trial = (status = ''trialing''),
         pp_purchased_at = moment_of starts, pp_first_purchased_at = moment_of (entry obj ''start_date''),
         pp_period_ends_at = moment_of ends, pp_grace_ends_at = None, pp_auto_resume_at = moment_of resumes,
         pp_unsubscribed_at = (if truthy (entry obj ''cancel_at_period_end'') then moment_of (entry obj ''canceled_at'') else None),
         pp_refunded_at = None,
         pp_environment = (if truthy (entry obj ''livemode'') then PRODUCTION else SANDBOX),
         pp_recurring = True, pp_status = map_of STATUSES status\<rparr>))))))"

text \<open>\<open>Decimal(amount) / factor(currency)\<close>.\<close>

definition charged :: "outside \<Rightarrow> json \<Rightarrow> string option \<Rightarrow> amount option outcome" where
  "charged w v currency =
     (if v = JNull then Ok None else case currency of None \<Rightarrow> Ok None | Some c \<Rightarrow>
      bind (case v of JInt i \<Rightarrow> Ok (Amount i 0) | JBool b \<Rightarrow> Ok (Amount (if b then 1 else 0) 0) | _ \<Rightarrow> o_decimal w v)
        (\<lambda>amount. Ok (Some (from_minor_units amount c))))"

section \<open>Reading a call\<close>

definition event_of :: "outside \<Rightarrow> (string \<times> json) list \<Rightarrow> (string \<times> json) list \<Rightarrow> provider_event outcome" where
  "event_of w envelope obj =
     (let event_type = text_or_empty w (entry envelope ''type'');
          currency = text_of w (entry obj ''currency'') in
     bind (metadata_of obj) (\<lambda>metadata.
     bind (get metadata ''account_token'') (\<lambda>token.
     bind (reference_of w obj) (\<lambda>product.
     bind (if entry obj ''object'' = JText ''subscription''
           then bind (purchase_of w obj) (\<lambda>p. Ok (Some [p])) else Ok None) (\<lambda>state.
     bind (charged w (entry obj (case map_of AMOUNTS event_type of None \<Rightarrow> ''amount_total'' | Some name \<Rightarrow> name)) currency) (\<lambda>amount.
     Ok \<lparr>ev_external_event_id = text_or_empty w (entry envelope ''id''), ev_event_type = event_type,
         ev_account_token = text_of w token, ev_product_reference = product, ev_action = action event_type obj,
         ev_also_about = [], ev_state = state,
         ev_reference = text_of w (entry obj ''client_reference_id''),
         ev_purchase_status = payment_of w event_type obj,
         ev_payment_id = text_of w (entry obj ''payment_intent''), ev_amount = amount,
         ev_currency = (case currency of None \<Rightarrow> None | Some c \<Rightarrow> if c = '''' then None else Some (upper c)),
         ev_occurred_at = moment_of (entry envelope ''created'')\<rparr>))))))"

definition read :: "outside \<Rightarrow> inbound_call \<Rightarrow> provider_event option outcome" where
  "read w call =
     (let envelope = data w call in
      case (entry envelope ''object'', entry envelope ''data'') of
        (JText kind, JMap inner) \<Rightarrow>
          if kind \<noteq> ''event'' then Ok None
          else (case either (entry inner ''object'') (JMap []) of
                  JMap obj \<Rightarrow> bind (event_of w envelope obj) (\<lambda>event. Ok (Some event))
                | _ \<Rightarrow> Err AttributeError)
      | _ \<Rightarrow> Ok None)"

section \<open>What a notice can do\<close>


end
