(* ===== verification/RevenueCat.thy ===== *)
theory RevenueCat
  imports Signature
begin

text \<open>
  \<^verbatim>\<open>services/revenue_cat_provider.py\<close>: a notice of RevenueCat only says which account to ask about, and what the
  account holds is asked over its API. The call over the network is the \<open>answer\<close> a query gets; everything
  read out of a notice or an answer is here.
\<close>

definition TRIAL_PERIODS :: "string list" where
  "TRIAL_PERIODS = [''TRIAL'', ''INTRO'']"

text \<open>The bounds of a pause, in seconds.\<close>

definition DEFAULT_BACKOFF :: nat where
  "DEFAULT_BACKOFF = 1"

definition MAX_BACKOFF :: nat where
  "MAX_BACKOFF = 60"

definition SIGNATURE_HEADER :: string where
  "SIGNATURE_HEADER = ''x-revenuecat-webhook-signature''"

definition REFUNDED :: string where
  "REFUNDED = ''CUSTOMER_SUPPORT''"

definition ACTIONS :: "(string \<times> normalized_action) list" where
  "ACTIONS = [
     (''INITIAL_PURCHASE'', ACTIVATE), (''NON_RENEWING_PURCHASE'', ACTIVATE), (''RENEWAL'', RENEW),
     (''UNCANCELLATION'', RESUME), (''REFUND_REVERSED'', RESUME), (''CANCELLATION'', CANCEL_AT_PERIOD_END),
     (''EXPIRATION'', EXPIRE), (''BILLING_ISSUE'', ENTER_GRACE), (''SUBSCRIPTION_PAUSED'', SUSPEND),
     (''PRODUCT_CHANGE'', CHANGE_PLAN), (''SUBSCRIPTION_EXTENDED'', EXTEND)]"

section \<open>Authentication\<close>

definition refused_signature :: exc where
  "refused_signature = AuthenticationError ''error.webhook-signature-invalid''"

definition verify :: "outside \<Rightarrow> datetime \<Rightarrow> string \<Rightarrow> string \<Rightarrow> inbound_call \<Rightarrow> unit outcome" where
  "verify w at secret signature call = (if signed_by w at secret signature call then Ok () else Err refused_signature)"

definition authenticate :: "outside \<Rightarrow> datetime \<Rightarrow> inbound_call \<Rightarrow> string \<Rightarrow> unit outcome" where
  "authenticate w at call secret =
     (if secret = '''' then Ok () else
      case header call SIGNATURE_HEADER of
        Some (c # signature) \<Rightarrow> verify w at secret (c # signature) call
      | _ \<Rightarrow>
          (case header call ''authorization'' of
             None \<Rightarrow> Err refused_signature
           | Some given \<Rightarrow> if given = '''' \<or> \<not> matches given secret then Err refused_signature else Ok ()))"

section \<open>Values\<close>

definition accounts_of :: "outside \<Rightarrow> json \<Rightarrow> string list" where
  "accounts_of w v = (case v of JList l \<Rightarrow> map (str_of w) (filter (\<lambda>token. token \<noteq> JNull \<and> token \<noteq> JText '''') l) | _ \<Rightarrow> [])"

definition action :: "outside \<Rightarrow> (string \<times> json) list \<Rightarrow> normalized_action option" where
  "action w event =
     (if entry event ''cancel_reason'' = JText REFUNDED \<or> entry event ''expiration_reason'' = JText REFUNDED then Some REFUND
      else map_of ACTIONS (text_or_empty w (entry event ''type'')))"

definition backoff :: "nat option \<Rightarrow> nat" where
  "backoff asked = (case asked of None \<Rightarrow> DEFAULT_BACKOFF | Some n \<Rightarrow> min (max n DEFAULT_BACKOFF) MAX_BACKOFF)"

text \<open>\<open>str(value).replace("Z", "+00:00")\<close>, and the stamp it is; a text that spells none is nothing.\<close>

definition offset_named :: "string \<Rightarrow> string" where
  "offset_named t = concat (map (\<lambda>c. if c = CHR ''Z'' then ''+00:00'' else [c]) t)"

definition instant_of :: "outside \<Rightarrow> json \<Rightarrow> datetime option option" where
  "instant_of w v = (if \<not> truthy v then None else o_iso w (offset_named (str_of w v)))"

definition moment_of :: "json \<Rightarrow> datetime option" where
  "moment_of v = epoch_of v 1000"

definition currency_code :: "outside \<Rightarrow> json \<Rightarrow> string option" where
  "currency_code w v = (case text_of w v of None \<Rightarrow> None
     | Some code \<Rightarrow> if length code = 3 \<and> list_all is_alpha code then Some (upper code) else None)"

text \<open>An amount of a notice: a finite number within the nine whole digits its column holds, next to a currency.\<close>

definition held_amount :: "amount \<Rightarrow> amount option" where
  "held_amount a = (case a of NotFinite \<Rightarrow> None
     | Amount m e \<Rightarrow> if \<bar>m\<bar> < 10 ^ 9 * 10 ^ e then Some (Amount m e) else None)"

definition amount_of :: "outside \<Rightarrow> json \<Rightarrow> string option \<Rightarrow> amount option" where
  "amount_of w v code =
     (case code of None \<Rightarrow> None | Some _ \<Rightarrow>
       (case v of
          JInt i \<Rightarrow> held_amount (Amount i 0)
        | JFloat m e \<Rightarrow> held_amount (Amount m e)
        | JText t \<Rightarrow> (case o_decimal w v of Ok a \<Rightarrow> held_amount a | _ \<Rightarrow> None)
        | _ \<Rightarrow> None))"

section \<open>Reading a call\<close>

definition transfer :: "outside \<Rightarrow> (string \<times> json) list \<Rightarrow> provider_event" where
  "transfer w event =
     (let receiving = accounts_of w (entry event ''transferred_to'');
          leaving = accounts_of w (entry event ''transferred_from'') in
      \<lparr>ev_external_event_id = text_or_empty w (entry event ''id''), ev_event_type = ''TRANSFER'',
       ev_account_token = (case receiving of [] \<Rightarrow> None | token # _ \<Rightarrow> Some token), ev_product_reference = None, ev_action = None,
       ev_also_about = drop 1 receiving @ leaving, ev_state = None, ev_reference = None, ev_purchase_status = None,
       ev_payment_id = None, ev_amount = None, ev_currency = None,
       ev_occurred_at = moment_of (entry event ''event_timestamp_ms'')\<rparr>)"

definition notice :: "outside \<Rightarrow> (string \<times> json) list \<Rightarrow> provider_event" where
  "notice w event =
     (let code = currency_code w (entry event ''currency'') in
      \<lparr>ev_external_event_id = text_or_empty w (entry event ''id''), ev_event_type = text_or_empty w (entry event ''type''),
       ev_account_token = text_of w (entry event ''app_user_id''),
       ev_product_reference = text_of w (either (entry event ''new_product_id'') (entry event ''product_id'')),
       ev_action = action w event, ev_also_about = [], ev_state = None, ev_reference = None, ev_purchase_status = None,
       ev_payment_id = None, ev_amount = amount_of w (entry event ''price_in_purchased_currency'') code, ev_currency = code,
       ev_occurred_at = moment_of (entry event ''event_timestamp_ms'')\<rparr>)"

definition read :: "outside \<Rightarrow> inbound_call \<Rightarrow> provider_event option outcome" where
  "read w call =
     (case entry (data w call) ''event'' of
        JMap event \<Rightarrow> Ok (Some (if entry event ''type'' = JText ''TRANSFER'' then transfer w event else notice w event))
      | _ \<Rightarrow> Ok None)"

section \<open>What an account holds\<close>

definition DATES :: "string list" where
  "DATES = [''purchase_date'', ''original_purchase_date'', ''expires_date'', ''grace_period_expires_date'', ''auto_resume_date'',
     ''unsubscribe_detected_at'', ''refunded_at'']"

fun is_text :: "json \<Rightarrow> bool" where
  "is_text (JText t) = True"
| "is_text _ = False"

definition dated :: "outside \<Rightarrow> (string \<times> json) list \<Rightarrow> string \<Rightarrow> bool" where
  "dated w purchase field \<longleftrightarrow> entry purchase field = JNull
     \<or> is_text (entry purchase field) \<and> (\<exists>t\<in>set_option (instant_of w (entry purchase field)). t \<noteq> None)"

fun validate_purchase :: "outside \<Rightarrow> bool \<Rightarrow> json \<Rightarrow> (string \<times> json) list outcome" where
  "validate_purchase w recurring (JMap purchase) =
     (if \<not> is_text (entry purchase ''purchase_date'') then Err Silent
      else if recurring \<and> ''expires_date'' \<notin> set (map fst purchase) then Err Silent
      else if list_all (dated w purchase) DATES then Ok purchase else Err Silent)"
| "validate_purchase w recurring v = Err Silent"

fun every :: "('a \<Rightarrow> 'b outcome) \<Rightarrow> 'a list \<Rightarrow> 'b list outcome" where
  "every f [] = Ok []"
| "every f (x # xs) = bind (f x) (\<lambda>y. bind (every f xs) (\<lambda>ys. Ok (y # ys)))"

fun validate_all :: "outside \<Rightarrow> json \<Rightarrow> (string \<times> json) list list outcome" where
  "validate_all w (JList entries) = every (validate_purchase w False) entries"
| "validate_all w v = Err Silent"

text \<open>
  The two collections of an answer, each purchase an object whose stamps can be read: \<open>None\<close> is an answer that
  is no JSON document.
\<close>

definition customer_snapshot :: "outside \<Rightarrow> json option
    \<Rightarrow> ((string \<times> (string \<times> json) list) list \<times> (string \<times> (string \<times> json) list list) list) outcome" where
  "customer_snapshot w document =
     (case document of
        Some (JMap envelope) \<Rightarrow>
          (case entry envelope ''subscriber'' of
             JMap subscriber \<Rightarrow>
               (case (entry subscriber ''subscriptions'', entry subscriber ''non_subscriptions'') of
                  (JMap renewing, JMap single) \<Rightarrow>
                    bind (every (\<lambda>(product, v). bind (validate_purchase w True v) (\<lambda>p. Ok (product, p))) renewing) (\<lambda>those.
                    bind (every (\<lambda>(product, v). bind (validate_all w v) (\<lambda>ps. Ok (product, ps))) single) (\<lambda>others.
                    Ok (those, others)))
                | _ \<Rightarrow> Err Silent)
           | _ \<Rightarrow> Err Silent)
      | _ \<Rightarrow> Err Silent)"

definition stamp_of :: "outside \<Rightarrow> (string \<times> json) list \<Rightarrow> string \<Rightarrow> datetime option" where
  "stamp_of w purchase field = (case instant_of w (entry purchase field) of Some (Some t) \<Rightarrow> Some t | _ \<Rightarrow> None)"

definition environment_of :: "(string \<times> json) list \<Rightarrow> environment" where
  "environment_of purchase = (if truthy (entry purchase ''is_sandbox'') then SANDBOX else PRODUCTION)"

definition reference_named :: "outside \<Rightarrow> string \<Rightarrow> (string \<times> json) list \<Rightarrow> string" where
  "reference_named w product purchase = (case text_of w (entry purchase ''product_plan_identifier'') of
     None \<Rightarrow> product | Some plan \<Rightarrow> if plan = '''' then product else product @ '':'' @ plan)"

definition recurring :: "outside \<Rightarrow> string \<Rightarrow> (string \<times> json) list \<Rightarrow> provider_purchase" where
  "recurring w product purchase =
     (let period = upper (text_or_empty w (entry purchase ''period_type'')) in
      \<lparr>pp_external_id = text_or_empty w (entry purchase ''store_transaction_id''),
       pp_product_reference = reference_named w product purchase,
       pp_store = text_of w (entry purchase ''store''), pp_ownership = text_of w (entry purchase ''ownership_type''),
       pp_period_type = (if period = '''' then None else Some period), pp_trial = (period \<in> set TRIAL_PERIODS),
       pp_purchased_at = stamp_of w purchase ''purchase_date'',
       pp_first_purchased_at = stamp_of w purchase ''original_purchase_date'',
       pp_period_ends_at = stamp_of w purchase ''expires_date'',
       pp_grace_ends_at = stamp_of w purchase ''grace_period_expires_date'',
       pp_auto_resume_at = stamp_of w purchase ''auto_resume_date'',
       pp_unsubscribed_at = stamp_of w purchase ''unsubscribe_detected_at'',
       pp_refunded_at = stamp_of w purchase ''refunded_at'',
       pp_environment = environment_of purchase, pp_recurring = True, pp_status = None\<rparr>)"

definition once :: "outside \<Rightarrow> string \<Rightarrow> (string \<times> json) list \<Rightarrow> provider_purchase" where
  "once w product purchase =
     \<lparr>pp_external_id = text_or_empty w (entry purchase ''id''), pp_product_reference = product,
      pp_store = text_of w (entry purchase ''store''), pp_ownership = None, pp_period_type = None, pp_trial = False,
      pp_purchased_at = stamp_of w purchase ''purchase_date'', pp_first_purchased_at = None, pp_period_ends_at = None,
      pp_grace_ends_at = None, pp_auto_resume_at = None, pp_unsubscribed_at = None, pp_refunded_at = None,
      pp_environment = environment_of purchase, pp_recurring = False, pp_status = None\<rparr>"

text \<open>\<open>max(entries, key=...)\<close>, the first of the greatest, where texts compare letter by letter.\<close>

fun text_less :: "string \<Rightarrow> string \<Rightarrow> bool" where
  "text_less _ [] = False"
| "text_less [] (d # u) = True"
| "text_less (c # t) (d # u) = (code_of c < code_of d \<or> c = d \<and> text_less t u)"

definition bought :: "outside \<Rightarrow> (string \<times> json) list \<Rightarrow> string" where
  "bought w purchase = text_or_empty w (entry purchase ''purchase_date'')"

fun latest :: "outside \<Rightarrow> (string \<times> json) list \<Rightarrow> (string \<times> json) list list \<Rightarrow> (string \<times> json) list" where
  "latest w best [] = best"
| "latest w best (p # ps) = latest w (if text_less (bought w best) (bought w p) then p else best) ps"

text \<open>What the network answered: the status, the pause asked for in whole seconds, and the document.\<close>

record answer =
  an_status :: nat
  an_retry_after :: "nat option"
  an_document :: "json option"

definition state_from_query :: "outside \<Rightarrow> answer \<Rightarrow> provider_purchase list outcome" where
  "state_from_query w answer =
     (if an_status answer = 429 then Err (RateLimited (backoff (an_retry_after answer)))
      else if an_status answer < 200 \<or> 300 \<le> an_status answer then Err (HTTPStatusError (an_status answer))
      else bind (customer_snapshot w (an_document answer)) (\<lambda>(renewing, single).
        Ok (map (\<lambda>(product, p). recurring w product p) renewing
          @ concat (map (\<lambda>(product, entries). case entries of [] \<Rightarrow> [] | p # ps \<Rightarrow> [once w product (latest w p ps)])
              single))))"

section \<open>What an answer can say\<close>

lemma bind_Ok_iff: "bind r k = Ok y \<longleftrightarrow> (\<exists>x. r = Ok x \<and> k x = Ok y)"
  by (cases r) simp_all

lemma every_in: "every f xs = Ok ys \<Longrightarrow> y \<in> set ys \<Longrightarrow> \<exists>x\<in>set xs. f x = Ok y"
  by (induction xs arbitrary: ys) (auto simp: bind_Ok_iff)

lemma backoff_bounds: "DEFAULT_BACKOFF \<le> backoff asked \<and> backoff asked \<le> MAX_BACKOFF"
  by (simp add: backoff_def DEFAULT_BACKOFF_def MAX_BACKOFF_def split: option.splits)

text \<open>Read, or a silence that says so.\<close>

definition read_or_silent :: "'a outcome \<Rightarrow> bool" where
  "read_or_silent r \<longleftrightarrow> (case r of Ok _ \<Rightarrow> True | Err e \<Rightarrow> e = Silent | Hangs \<Rightarrow> False)"

lemma read_or_silent_simps [simp]:
  "read_or_silent (Ok x)" "read_or_silent (Err e) \<longleftrightarrow> e = Silent" "\<not> read_or_silent Hangs"
  by (simp_all add: read_or_silent_def)

lemma silent_bind: "read_or_silent r \<Longrightarrow> (\<And>x. read_or_silent (k x)) \<Longrightarrow> read_or_silent (bind r k)"
  by (cases r) simp_all

lemma silent_every: "(\<And>x. read_or_silent (f x)) \<Longrightarrow> read_or_silent (every f xs)"
  by (induction xs) (simp_all add: silent_bind)

lemma silent_map: "(\<And>d. read_or_silent (f d)) \<Longrightarrow> read_or_silent (case v of JMap d \<Rightarrow> f d | _ \<Rightarrow> Err Silent)"
  by (cases v) simp_all

lemma silent_maps: "(\<And>a b. read_or_silent (f a b)) \<Longrightarrow> read_or_silent (case (u, v) of (JMap a, JMap b) \<Rightarrow> f a b | _ \<Rightarrow> Err Silent)"
  by (cases u; cases v) simp_all

lemma silent_found: "(\<And>v. read_or_silent (case v of JMap d \<Rightarrow> f d | _ \<Rightarrow> Err Silent)) \<Longrightarrow>
    read_or_silent (case o' of Some (JMap d) \<Rightarrow> f d | _ \<Rightarrow> Err Silent)"
  by (cases o') simp_all

lemma silent_purchase: "read_or_silent (validate_purchase w kind v)"
  by (cases v) simp_all

lemma silent_entries: "read_or_silent (validate_all w v)"
  by (cases v) (simp_all add: silent_every silent_purchase)

lemma silent_snapshot: "read_or_silent (customer_snapshot w document)"
proof -
  have one: "read_or_silent ((\<lambda>(product, v). bind (validate_purchase w True v) (\<lambda>p. Ok (product, p))) x)" for x :: "string \<times> json"
    by (cases x) (simp add: silent_bind silent_purchase)
  have many: "read_or_silent ((\<lambda>(product, v). bind (validate_all w v) (\<lambda>ps. Ok (product, ps))) x)" for x :: "string \<times> json"
    by (cases x) (simp add: silent_bind silent_entries)
  show ?thesis unfolding customer_snapshot_def
    by (intro silent_found silent_map silent_maps silent_bind silent_every one many) simp
qed

lemma validate_dated: "validate_purchase w kind v = Ok p \<Longrightarrow> stamp_of w p ''purchase_date'' \<noteq> None"
  by (cases v) (auto split: if_splits simp: DATES_def dated_def stamp_of_def)

lemma latest_in: "latest w best ps \<in> insert best (set ps)"
proof (induction ps arbitrary: best)
  case (Cons p ps)
  show ?case using Cons [of p] Cons [of best] by auto
qed simp

lemma snapshot_dated:
  assumes "customer_snapshot w document = Ok (rows, others)"
  shows "(product, p) \<in> set rows \<Longrightarrow> stamp_of w p ''purchase_date'' \<noteq> None"
    and "(product, ps) \<in> set others \<Longrightarrow> q \<in> set ps \<Longrightarrow> stamp_of w q ''purchase_date'' \<noteq> None"
proof -
  from assms obtain renewing single where
    r: "every (\<lambda>(product, v). bind (validate_purchase w True v) (\<lambda>p. Ok (product, p))) renewing = Ok rows"
    and o': "every (\<lambda>(product, v). bind (validate_all w v) (\<lambda>ps. Ok (product, ps))) single = Ok others"
    unfolding customer_snapshot_def
    by (auto simp: bind_Ok_iff split: option.splits json.splits prod.splits)
  show "(product, p) \<in> set rows \<Longrightarrow> stamp_of w p ''purchase_date'' \<noteq> None"
    using every_in [OF r] by (fastforce simp: bind_Ok_iff dest: validate_dated)
  assume "(product, ps) \<in> set others" "q \<in> set ps"
  then obtain v where "validate_all w v = Ok ps" using every_in [OF o'] by (fastforce simp: bind_Ok_iff)
  then obtain entries where "every (validate_purchase w False) entries = Ok ps" by (cases v) auto
  from every_in [OF this \<open>q \<in> set ps\<close>] show "stamp_of w q ''purchase_date'' \<noteq> None" by (auto dest: validate_dated)
qed


end
