(* ===== verification/Webhook.thy ===== *)
theory Webhook
  imports Reconciliation Stripe RevenueCat
begin

text \<open>
  \<^verbatim>\<open>services/webhook_service.py\<close>: a notice of a gateway is written down once, claimed by one reader, read, and
  what it says is settled through commerce and reconciliation; a notice that fails is left failed and a pass
  comes back to it. The classes of \<^verbatim>\<open>services/gateway.py\<close> are the two theories of the gateways, the call over
  the network is the parameter \<open>network\<close>, and a record is named by its key.
\<close>

section \<open>The gateways\<close>

fun authenticate :: "outside \<Rightarrow> provider \<Rightarrow> datetime \<Rightarrow> inbound_call \<Rightarrow> string \<Rightarrow> unit outcome" where
  "authenticate w REVENUECAT at call secret = RevenueCat.authenticate w at call secret"
| "authenticate w STRIPE at call secret = Stripe.authenticate w at call secret"

fun read :: "outside \<Rightarrow> provider \<Rightarrow> inbound_call \<Rightarrow> provider_event option outcome" where
  "read w REVENUECAT call = RevenueCat.read w call"
| "read w STRIPE call = Stripe.read w call"

text \<open>What the network answers for a key and an account, or the failure of the call.\<close>

type_synonym network = "string \<Rightarrow> string \<Rightarrow> answer outcome"

fun ask_provider :: "outside \<Rightarrow> network \<Rightarrow> provider \<Rightarrow> string \<Rightarrow> string \<Rightarrow> provider_purchase list outcome" where
  "ask_provider w network REVENUECAT secret token = bind (network secret token) (state_from_query w)"
| "ask_provider w network STRIPE secret token = Err NotImplementedError"

definition asking_of :: "outside \<Rightarrow> network \<Rightarrow> asking" where
  "asking_of w network integration secret token = ask_provider w network (in_provider integration) secret token"

section \<open>The queue of notices\<close>

definition MAX_ATTEMPTS :: nat where
  "MAX_ATTEMPTS = 5"

definition RETRY_BATCH :: nat where
  "RETRY_BATCH = 100"

definition left_behind :: "datetime \<Rightarrow> webhook_event_row \<Rightarrow> bool" where
  "left_behind moment r \<longleftrightarrow> before_by moment ABANDONED_AFTER (we_updated_at r)"

definition takeable :: "datetime \<Rightarrow> webhook_event_row \<Rightarrow> bool" where
  "takeable moment r \<longleftrightarrow> we_status r \<in> {RECEIVED, webhook_event_status.FAILED}
     \<or> we_status r = webhook_event_status.PROCESSING \<and> left_behind moment r"

definition taken :: "datetime \<Rightarrow> webhook_event_row \<Rightarrow> webhook_event_row" where
  "taken moment r = r\<lparr>we_status := webhook_event_status.PROCESSING, we_attempts := we_attempts r + 1, we_updated_at := moment\<rparr>"

definition claim :: "nat \<Rightarrow> bool service" where
  "claim record_id =
     andThen now (\<lambda>moment.
     andThen (write_events (\<lambda>r. named record_id r \<and> takeable moment r) (taken moment)) (\<lambda>rowcount.
     andThen commit (\<lambda>_. ret (rowcount = 1))))"

text \<open>A write to the attributes of one record, which moves its \<open>updated_at\<close>.\<close>

definition mark :: "nat \<Rightarrow> (webhook_event_row \<Rightarrow> webhook_event_row) \<Rightarrow> unit service" where
  "mark record_id f =
     andThen now (\<lambda>moment.
     andThen (write_events (named record_id) (\<lambda>r. (f r)\<lparr>rid := rid r, we_updated_at := moment\<rparr>)) (\<lambda>_. ret ()))"

section \<open>Writing a notice down\<close>

definition EXTERNAL_ID_MAX :: nat where
  "EXTERNAL_ID_MAX = 191"

definition new_event :: "integration_row \<Rightarrow> string \<Rightarrow> webhook_event_status \<Rightarrow> string option \<Rightarrow> datetime option \<Rightarrow> string \<Rightarrow> datetime
    \<Rightarrow> webhook_event_row" where
  "new_event integration external_id status error_code occurred_at payload moment =
     \<lparr>rid = 0, we_tenant = in_tenant integration, we_integration = rid integration, we_user = None, we_subscription = None,
      we_external_event_id = external_id, we_payload = payload, we_occurred_at = occurred_at, we_processed_at = None,
      we_status = status, we_error_code = error_code, we_attempts = 0, we_created_at = moment, we_updated_at = moment\<rparr>"

definition same_notice :: "nat \<Rightarrow> string \<Rightarrow> webhook_event_row \<Rightarrow> bool" where
  "same_notice integration external_id r \<longleftrightarrow> we_integration r = integration \<and> we_external_event_id r = external_id"

text \<open>Two deliveries of one event can race past the read, and the event id is what settles it.\<close>

definition store_event :: "webhook_event_row \<Rightarrow> nat service" where
  "store_event record =
     andThen (settle webhook_events webhook_events_update (free_of notice_key)
       (same_notice (we_integration record) (we_external_event_id record)) record) (\<lambda>settled.
     andThen commit (\<lambda>_.
     case settled of Wrote r \<Rightarrow> ret (rid r) | Found r \<Rightarrow> ret (rid r) | Missed \<Rightarrow> throw AttributeError))"

definition unread :: "outside \<Rightarrow> integration_row \<Rightarrow> inbound_call \<Rightarrow> nat service" where
  "unread w integration call =
     andThen now (\<lambda>moment.
     store_event (new_event integration (o_digest w call) IGNORED (Some ''unread'') None
       (o_dumps w (either (JMap (data w call)) (JMap [(''body'', JText (body_text w call))]))) moment))"

definition event_name :: "outside \<Rightarrow> provider_event \<Rightarrow> inbound_call \<Rightarrow> string" where
  "event_name w event call =
     (if 0 < length (ev_external_event_id event) \<and> length (ev_external_event_id event) \<le> EXTERNAL_ID_MAX
      then ev_external_event_id event else o_digest w call)"

definition record_of :: "outside \<Rightarrow> integration_row \<Rightarrow> provider_event \<Rightarrow> inbound_call \<Rightarrow> nat service" where
  "record_of w integration event call =
     (let external_event_id = event_name w event call in
      andThen (query (\<lambda>d. List.find (same_notice (rid integration) external_event_id) (webhook_events d))) (\<lambda>existing.
      case existing of
        Some r \<Rightarrow> ret (rid r)
      | None \<Rightarrow>
          andThen now (\<lambda>moment.
          store_event (new_event integration external_event_id RECEIVED None (ev_occurred_at event)
            (o_dumps w (JMap (data w call))) moment))))"

section \<open>What a notice moves\<close>

definition account_named :: "integration_row \<Rightarrow> string \<Rightarrow> user_row option service" where
  "account_named integration token =
     query (\<lambda>d. List.find (\<lambda>u. us_token u = token \<and> us_tenant u = in_tenant integration) (users d))"

definition user_of :: "integration_row \<Rightarrow> provider_event \<Rightarrow> user_row option service" where
  "user_of integration event =
     (case ev_account_token event of
        None \<Rightarrow> ret None
      | Some token \<Rightarrow> if token = '''' then ret None else account_named integration token)"

definition reconcile_named :: "outside \<Rightarrow> network \<Rightarrow> integration_row \<Rightarrow> string \<Rightarrow> unit service" where
  "reconcile_named w network integration token =
     andThen (account_named integration token) (\<lambda>user.
     case user of
       None \<Rightarrow> ret ()
     | Some u \<Rightarrow> andThen (reconcile_account (asking_of w network) integration u) (\<lambda>_. ret ()))"

definition payment_named :: "provider_event \<Rightarrow> db \<Rightarrow> purchase_row option" where
  "payment_named event d =
     (case ev_reference event of
        Some (c # reference) \<Rightarrow> List.find (\<lambda>p. pu_reference p = c # reference) (purchases d)
      | _ \<Rightarrow>
          (case ev_payment_id event of
             Some (c # payment) \<Rightarrow> List.find (\<lambda>p. pu_external_id p = Some (c # payment)) (purchases d)
           | _ \<Rightarrow> None))"

definition purchase_of :: "integration_row \<Rightarrow> provider_event \<Rightarrow> purchase_row option service" where
  "purchase_of integration event = query (\<lambda>d. case payment_named event d of
       None \<Rightarrow> None
     | Some p \<Rightarrow> if pu_integration p = Some (rid integration) then Some p else None)"

text \<open>The payment a notice moves, and whose it is; the write may be lost to one other notice.\<close>

definition SETTLE_RACES :: nat where
  "SETTLE_RACES = 2"

definition settle_payment :: "integration_row \<Rightarrow> provider_event \<Rightarrow> nat option service" where
  "settle_payment integration event =
     (case ev_purchase_status event of
        None \<Rightarrow> ret None
      | Some status \<Rightarrow>
          andThen (purchase_of integration event) (\<lambda>purchase.
          case purchase of
            None \<Rightarrow> ret None
          | Some p \<Rightarrow>
              andThen (settle_purchase SETTLE_RACES (rid p) (pu_status p) status (ev_payment_id event)) (\<lambda>settled.
              ret (Some (pu_user settled)))))"

definition subscription_of :: "integration_row \<Rightarrow> nat \<Rightarrow> provider_event \<Rightarrow> nat option service" where
  "subscription_of integration user event =
     (case ev_product_reference event of
        None \<Rightarrow> ret None
      | Some reference \<Rightarrow>
          if reference = '''' then ret None else
          query (\<lambda>d. map_option rid (List.find (\<lambda>s. held_here (rid integration) user s
            \<and> (case su_external_product s of None \<Rightarrow> False | Some p \<Rightarrow>
                 (case fetch p (external_products d) of None \<Rightarrow> False | Some e \<Rightarrow> ep_external_id e = reference)))
            (subscriptions d))))"

definition apply_event :: "outside \<Rightarrow> network \<Rightarrow> integration_row \<Rightarrow> provider_event \<Rightarrow> nat \<Rightarrow> unit service" where
  "apply_event w network integration event record_id =
     andThen (settle_payment integration event) (\<lambda>settled.
     andThen (user_of integration event) (\<lambda>user.
     andThen (each (reconcile_named w network integration) (ev_also_about event)) (\<lambda>_.
     if user = None \<and> settled = None then
       mark record_id (\<lambda>r. r\<lparr>we_status := IGNORED, we_error_code := Some ''unresolved''\<rparr>)
     else
       andThen (case user of None \<Rightarrow> ret () | Some u \<Rightarrow>
         andThen (load users (rid u)) (\<lambda>u.
         andThen (if \<not> event_stated (in_provider integration)
             then andThen (reconcile_account (asking_of w network) integration u) (\<lambda>_. ret ())
             else (case ev_state event of None \<Rightarrow> ret () | Some lines \<Rightarrow>
               andThen (apply_state integration (rid u) lines False (ev_occurred_at event)) (\<lambda>_. commit))) (\<lambda>_.
         andThen (subscription_of integration (rid u) event) (\<lambda>subscription.
         mark record_id (\<lambda>r. r\<lparr>we_subscription := subscription\<rparr>))))) (\<lambda>_.
       andThen now (\<lambda>moment.
       mark record_id (\<lambda>r. r\<lparr>we_user := (case user of None \<Rightarrow> settled | Some u \<Rightarrow> Some (rid u)),
         we_status := webhook_event_status.COMPLETED, we_processed_at := Some moment\<rparr>))))))"

section \<open>Running a notice\<close>

definition fail :: "integration_row \<Rightarrow> nat \<Rightarrow> exc \<Rightarrow> unit service" where
  "fail integration record_id error =
     andThen (load webhook_events record_id) (\<lambda>record.
     andThen (mark record_id (\<lambda>r. r\<lparr>we_status := webhook_event_status.FAILED, we_error_code := Some (error_name error)\<rparr>)) (\<lambda>_.
     andThen (record_log (in_tenant integration) (we_user record) ERROR (Some PURCHASE)
       (''webhook event '' @ we_external_event_id record @ '' of '' @ provider_name (in_provider integration) @ '' failed'')) (\<lambda>_.
     commit)))"

definition run :: "outside \<Rightarrow> network \<Rightarrow> integration_row \<Rightarrow> provider_event \<Rightarrow> nat \<Rightarrow> nat service" where
  "run w network integration event record_id =
     andThen (handle (andThen (apply_event w network integration event record_id) (\<lambda>_. commit))
       (\<lambda>error. andThen rollback (\<lambda>_. andThen (fail integration record_id error) (\<lambda>_. throw error)))) (\<lambda>_.
     ret record_id)"

definition find_integration :: "string \<Rightarrow> integration_row option service" where
  "find_integration key = query (\<lambda>d. List.find (\<lambda>i. in_webhook_key i = key \<and> in_active i) (integrations d))"

definition ingest :: "outside \<Rightarrow> network \<Rightarrow> integration_row \<Rightarrow> inbound_call \<Rightarrow> nat service" where
  "ingest w network integration call =
     andThen now (\<lambda>moment.
     andThen (lift (authenticate w (in_provider integration) moment call
       (case in_webhook_secret integration of None \<Rightarrow> '''' | Some secret \<Rightarrow> secret))) (\<lambda>_.
     andThen (lift (read w (in_provider integration) call)) (\<lambda>event.
     case event of
       None \<Rightarrow> unread w integration call
     | Some event \<Rightarrow>
         andThen (record_of w integration event call) (\<lambda>record_id.
         andThen (load webhook_events record_id) (\<lambda>record.
         if we_status record \<in> {webhook_event_status.COMPLETED, IGNORED} then ret record_id else
         andThen (claim record_id) (\<lambda>claimed.
         if \<not> claimed then ret record_id else run w network integration event record_id))))))"

section \<open>The passes\<close>

definition close_exhausted :: "nat service" where
  "close_exhausted =
     andThen now (\<lambda>moment.
     andThen (write_events (\<lambda>r. we_status r = webhook_event_status.PROCESSING \<and> left_behind moment r \<and> MAX_ATTEMPTS \<le> we_attempts r)
       (\<lambda>r. r\<lparr>we_status := webhook_event_status.FAILED, we_error_code := Some ''abandoned'', we_updated_at := moment\<rparr>)) (\<lambda>closed.
     andThen commit (\<lambda>_. ret closed)))"

definition stuck :: "datetime \<Rightarrow> webhook_event_row \<Rightarrow> bool" where
  "stuck moment r \<longleftrightarrow> (we_status r = webhook_event_status.FAILED
     \<or> we_status r \<in> {RECEIVED, webhook_event_status.PROCESSING} \<and> left_behind moment r) \<and> we_attempts r < MAX_ATTEMPTS"

definition stuck_events :: "datetime \<Rightarrow> db \<Rightarrow> nat list" where
  "stuck_events moment d = map rid (take RETRY_BATCH (sort_key we_created_at (filter (stuck moment) (webhook_events d))))"

definition replayed :: "outside \<Rightarrow> webhook_event_row \<Rightarrow> inbound_call" where
  "replayed w record = \<lparr>ic_method = ''POST'', ic_headers = [(''content-type'', ''application/json'')], ic_query = [],
     ic_body = we_payload record\<rparr>"

definition retry_event :: "outside \<Rightarrow> network \<Rightarrow> nat \<Rightarrow> nat list service" where
  "retry_event w network record_id =
     andThen (claim record_id) (\<lambda>claimed.
     if \<not> claimed then ret [] else
     andThen (load webhook_events record_id) (\<lambda>record.
     andThen (load integrations (we_integration record)) (\<lambda>integration.
     andThen (lift (read w (in_provider integration) (replayed w record))) (\<lambda>event.
     case event of
       None \<Rightarrow> andThen (mark record_id (\<lambda>r. r\<lparr>we_status := IGNORED\<rparr>)) (\<lambda>_. andThen commit (\<lambda>_. ret []))
     | Some event \<Rightarrow>
         handle (andThen (run w network integration event record_id) (\<lambda>i. ret [i])) (\<lambda>_. ret [])))))"

definition retry_failed :: "outside \<Rightarrow> network \<Rightarrow> nat list service" where
  "retry_failed w network =
     andThen now (\<lambda>moment.
     andThen (query (stuck_events moment)) (\<lambda>stuck.
     andThen (each (retry_event w network) stuck) (\<lambda>done'. ret (concat done'))))"

end
