(* ===== verification/Laws.thy ===== *)
theory Laws
  imports Delivery
begin

text \<open>
  What every service over the subscription tables owes: the invariant of the database (\<open>law\<close>), and the
  order its history grows along (\<open>grows\<close>). \<open>obeys\<close> is the effect of a service that keeps the one and
  advances along the other, in its transaction and in what it commits. Every operation of the delivery
  engine obeys, whatever it answers and wherever it is cut short by an exception.
\<close>

section \<open>The invariant and the order\<close>

definition grant_keys :: "benefit_grant_row list \<Rightarrow> bool" where
  "grant_keys t \<longleftrightarrow> distinct (map rid t) \<and> unique_on grant_key_of t \<and> unique_on grant_cycle_of t
     \<and> unique_on bg_user_benefit_key t"

definition attempts_bounded :: "benefit_grant_row list \<Rightarrow> bool" where
  "attempts_bounded t \<longleftrightarrow> list_all (\<lambda>g. bg_attempts g \<le> MAX_ATTEMPTS) t"

definition snapshot_keys :: "db \<Rightarrow> bool" where
  "snapshot_keys d \<longleftrightarrow>
     distinct (map rid (subscription_benefits d)) \<and> unique_on subscription_benefit_key (subscription_benefits d)
     \<and> distinct (map rid (user_entitlements d)) \<and> unique_on user_entitlement_key (user_entitlements d)"

definition notice_keys :: "webhook_event_row list \<Rightarrow> bool" where
  "notice_keys t \<longleftrightarrow> distinct (map rid t) \<and> unique_on notice_key t"

definition law :: "db \<Rightarrow> bool" where
  "law d \<longleftrightarrow> books d \<and> owned_once d \<and> grant_keys (grants d) \<and> attempts_bounded (grants d) \<and> snapshot_keys d
     \<and> distinct (map rid (subscriptions d)) \<and> subscription_keys (subscriptions d) \<and> notice_keys (webhook_events d)"

text \<open>What of a grant, and of a notice, is never rewritten.\<close>

definition grant_identity :: "benefit_grant_row \<Rightarrow> nat \<times> nat \<times> string \<times> nat \<times> string \<times> datetime \<times> int" where
  "grant_identity g = (rid g, bg_subscription_benefit g, bg_grant_key g, bg_cycle g, bg_cycle_key g, bg_scheduled_at g,
     bg_requested_quantity g)"

definition notice_identity :: "webhook_event_row \<Rightarrow> nat \<times> nat \<times> string \<times> string" where
  "notice_identity r = (rid r, we_integration r, we_external_event_id r, we_payload r)"

text \<open>The stamp of the last word heard of a subscription, which only a later one replaces.\<close>

definition later_word :: "datetime option \<Rightarrow> datetime option \<Rightarrow> bool" where
  "later_word a b \<longleftrightarrow> (case a of None \<Rightarrow> True | Some u \<Rightarrow> (case b of None \<Rightarrow> False | Some t \<Rightarrow> u \<le> t))"

definition stamps :: "db \<Rightarrow> (nat \<times> datetime option) list" where
  "stamps d = map (\<lambda>r. (rid r, su_stated_at r)) (subscriptions d)"

definition stamps_advance :: "db \<Rightarrow> db \<Rightarrow> bool" where
  "stamps_advance d e \<longleftrightarrow> length (stamps d) \<le> length (stamps e) \<and> (\<forall>k < length (stamps d).
     fst (stamps d ! k) = fst (stamps e ! k) \<and> later_word (snd (stamps d ! k)) (snd (stamps e ! k)))"

lemma later_word_refl [simp]: "later_word a a"
  by (simp add: later_word_def split: option.splits)

lemma later_word_trans: "later_word a b \<Longrightarrow> later_word b c \<Longrightarrow> later_word a c"
  by (auto simp: later_word_def split: option.splits)

lemma stamps_advance_refl [simp]: "stamps_advance d d"
  by (simp add: stamps_advance_def)

lemma stamps_advance_trans: "stamps_advance d e \<Longrightarrow> stamps_advance e f \<Longrightarrow> stamps_advance d f"
  by (auto simp: stamps_advance_def intro: later_word_trans)

lemma stamps_advance_amend:
  "(\<And>r. p r \<Longrightarrow> rid (f r) = rid r \<and> later_word (su_stated_at r) (su_stated_at (f r))) \<Longrightarrow>
    subscriptions e = amend p f (subscriptions d) \<Longrightarrow> stamps_advance d e"
  by (simp add: stamps_advance_def stamps_def amend_def)

lemma stamps_advance_append: "subscriptions e = append_row r (subscriptions d) \<Longrightarrow> stamps_advance d e"
  by (simp add: stamps_advance_def stamps_def append_row_def nth_append)

lemma stamps_frame:
  "subscriptions d = subscriptions d' \<Longrightarrow> subscriptions e = subscriptions e' \<Longrightarrow> stamps_advance d e \<Longrightarrow> stamps_advance d' e'"
proof -
  assume "subscriptions d = subscriptions d'" "subscriptions e = subscriptions e'"
  then have "stamps d = stamps d'" "stamps e = stamps e'" by (simp_all add: stamps_def)
  then show "stamps_advance d e \<Longrightarrow> stamps_advance d' e'" unfolding stamps_advance_def by metis
qed

lemma stamps_same: "subscriptions e = subscriptions d \<Longrightarrow> stamps_advance d e"
  by (simp add: stamps_advance_def stamps_def)

definition grows :: "db \<Rightarrow> db \<Rightarrow> bool" where
  "grows d e \<longleftrightarrow> ledger_grows d e \<and> ownership_grows d e \<and> stamps_advance d e
     \<and> prefix (map grant_identity (grants d)) (map grant_identity (grants e))
     \<and> prefix (map notice_identity (webhook_events d)) (map notice_identity (webhook_events e))"

interpretation growth: db_order grows
  by unfold_locales (auto simp: grows_def intro: ledger_order.rest ledger_order.onward ownership_order.rest
      ownership_order.onward prefix_order.trans stamps_advance_trans)

definition obeys :: "session \<Rightarrow> session \<Rightarrow> bool" where
  "obeys s t \<longleftrightarrow> keeps (steady law) s t \<and> advances grows s t \<and> clock t = clock s"

interpretation obeying: effect_order obeys
  by unfold_locales (auto simp: obeys_def intro: keeps_order.stay keeps_order.go growth.path.stay growth.path.go)

lemma obeys_split: "effect obeys m \<longleftrightarrow> effect (keeps (steady law)) m \<and> effect (advances grows) m \<and> effect (same clock) m"
  by (auto simp: effect_def obeys_def same_def)

lemma obeysI:
  "effect (keeps (steady law)) m \<Longrightarrow> effect (advances grows) m \<Longrightarrow> effect (same clock) m \<Longrightarrow> effect obeys m"
  by (simp add: obeys_split)

section \<open>The statements\<close>

lemma clock_refusing: "effect (same clock) m \<Longrightarrow> effect (same clock) (refusing code m)"
  unfolding refusing_def by (intro same_order.handle_ok) (auto split: exc.splits intro!: clock_steps)

lemma obeys_statements:
  "effect obeys commit" "effect obeys rollback" "effect obeys (query f)" "effect obeys now" "effect obeys (load get i)"
  unfolding obeys_split
  by (auto intro: steady_statements growth.statements_ok clock_statements)

lemma obeys_refusing: "effect obeys m \<Longrightarrow> effect obeys (refusing code m)"
  unfolding obeys_split by (auto intro: steady_refusing growth.refusing_ok clock_refusing)

lemmas obeys_steps = obeying.steps obeys_statements obeys_refusing

text \<open>A write that leaves every table of the law alone.\<close>

definition lawful_part :: "db \<Rightarrow> user_balance_row list \<times> credit_transaction_row list \<times> user_product_row list
    \<times> benefit_grant_row list \<times> subscription_benefit_row list \<times> user_entitlement_row list \<times> subscription_row list
    \<times> webhook_event_row list" where
  "lawful_part d = (balances d, ledger d, user_products d, grants d, subscription_benefits d, user_entitlements d, subscriptions d, webhook_events d)"

lemma law_frame: "lawful_part d = lawful_part e \<Longrightarrow> law d \<Longrightarrow> law e"
  using books_frame [of d e]
  by (simp add: lawful_part_def law_def owned_once_def ownership_def snapshot_keys_def)

lemma grows_frame: "lawful_part d = lawful_part d' \<Longrightarrow> lawful_part e = lawful_part e' \<Longrightarrow> grows d e \<Longrightarrow> grows d' e'"
  using stamps_frame [of d d' e e']
  by (simp add: lawful_part_def grows_def ledger_grows_def ownership_grows_def ownership_def)

lemma obeys_leaves:
  assumes "effect (leaves lawful_part) m" and "effect (same clock) m"
  shows "effect obeys m"
proof (rule obeysI [OF _ _ assms(2)])
  show "effect (keeps (steady law)) m" using assms(1) by (rule leaves_keeps) (rule law_frame)
  show "effect (advances grows) m" using assms(1) by (rule leaves_advances) (erule (2) grows_frame, rule growth.rest)
qed

lemma obeys_stage: "effect obeys (stage tenant user level category description)"
  unfolding stage_def
  by (intro obeys_leaves leaves_order.andThen_ok leaves_store leaves_order.ret_ok same_order.andThen_ok clock_statements
      same_order.ret_ok) (simp add: lawful_part_def)

lemma obeys_record_log: "effect obeys (record_log tenant user level category description)"
  unfolding record_log_def by (intro obeying.andThen_ok obeys_stage obeys_statements)

lemma grows_refl_on:
  "ledger e = ledger d \<Longrightarrow> user_products e = user_products d \<Longrightarrow> stamps_advance d e \<Longrightarrow>
    prefix (map grant_identity (grants d)) (map grant_identity (grants e)) \<Longrightarrow> webhook_events e = webhook_events d \<Longrightarrow> grows d e"
  by (simp add: grows_def ledger_grows_def ownership_grows_def ownership_def)

text \<open>An update of a grant that keeps its identity and its keys, and stays under the ceiling of attempts.\<close>

lemma keys_clear:
  assumes "\<And>r. p r \<Longrightarrow> key (f r) = key r \<or> key (f r) = None" and "unique_on key t"
  shows "unique_on key (amend p f t)"
  using assms(2)
proof (induction t)
  case Nil
  then show ?case by (simp add: amend_def)
next
  case (Cons r t)
  have "key ` set (amend p f t) \<subseteq> insert None (key ` set t)"
    using assms(1) by (auto simp: amend_def)
  moreover have "key (if p r then f r else r) = key r \<or> key (if p r then f r else r) = None" using assms(1) by simp
  moreover have "free_of key t r" using Cons by simp
  ultimately have "free_of key (amend p f t) (if p r then f r else r)" unfolding free_of_keys by (metis insertE subsetD)
  with Cons show ?case by (simp add: amend_def)
qed

lemma obeys_write_grants:
  assumes "\<And>r. p r \<Longrightarrow> grant_identity (f r) = grant_identity r"
    and "\<And>r. p r \<Longrightarrow> bg_user_benefit_key (f r) = bg_user_benefit_key r \<or> bg_user_benefit_key (f r) = None"
    and "\<And>r. p r \<Longrightarrow> bg_attempts r \<le> MAX_ATTEMPTS \<Longrightarrow> bg_attempts (f r) \<le> MAX_ATTEMPTS"
  shows "effect obeys (write_grants p f)"
proof (rule obeysI)
  have same: "rid (f r) = rid r" "grant_key_of (f r) = grant_key_of r" "grant_cycle_of (f r) = grant_cycle_of r" if "p r" for r
    using assms(1) [OF that] by (simp_all add: grant_identity_def grant_key_of_def grant_cycle_of_def)
  have g: "grant_keys (amend p f t)" if "grant_keys t" for t
    using that same keys_clear [of p bg_user_benefit_key f t] assms(2) by (simp add: grant_keys_def amend_rid unique_on_amend)
  have a: "attempts_bounded (amend p f t)" if "attempts_bounded t" for t
    using that assms(3) by (auto simp: attempts_bounded_def list_all_iff set_amend)
  show "effect (keeps (steady law)) (write_grants p f)"
    by (rule steady_alter)
      (auto simp: law_def owned_once_def ownership_def snapshot_keys_def g a elim!: books_frame [rotated 2])
  show "effect (advances grows) (write_grants p f)"
    by (rule growth.alter_ok, rule grows_refl_on) (simp_all add: map_amend assms(1) stamps_same)
qed (rule clock_statements)

lemma obeys_write_benefits:
  assumes "\<And>r. p r \<Longrightarrow> rid (f r) = rid r" and "\<And>r. p r \<Longrightarrow> subscription_benefit_key (f r) = subscription_benefit_key r"
  shows "effect obeys (write_benefits p f)"
proof (rule obeysI)
  show "effect (keeps (steady law)) (write_benefits p f)"
    by (rule steady_alter)
      (auto simp: law_def owned_once_def ownership_def snapshot_keys_def amend_rid unique_on_amend assms elim!: books_frame [rotated 2])
  show "effect (advances grows) (write_benefits p f)"
    by (rule growth.alter_ok, rule grows_refl_on) (simp_all add: stamps_same)
qed (rule clock_statements)

lemma obeys_write_entitlements:
  assumes "\<And>r. p r \<Longrightarrow> rid (f r) = rid r" and "\<And>r. p r \<Longrightarrow> user_entitlement_key (f r) = user_entitlement_key r"
  shows "effect obeys (write_entitlements p f)"
proof (rule obeysI)
  show "effect (keeps (steady law)) (write_entitlements p f)"
    by (rule steady_alter)
      (auto simp: law_def owned_once_def ownership_def snapshot_keys_def amend_rid unique_on_amend assms elim!: books_frame [rotated 2])
  show "effect (advances grows) (write_entitlements p f)"
    by (rule growth.alter_ok, rule grows_refl_on) (simp_all add: stamps_same)
qed (rule clock_statements)

text \<open>An update of subscriptions, under the constraints it is checked against.\<close>

lemma obeys_alter_subscriptions:
  assumes "\<And>r. p r \<Longrightarrow> rid (f r) = rid r"
    and "\<And>t. subscription_keys t \<Longrightarrow> hits p t = 0 \<or> holds (amend p f t) \<Longrightarrow> subscription_keys (amend p f t)"
    and "\<And>r. p r \<Longrightarrow> later_word (su_stated_at r) (su_stated_at (f r))"
  shows "effect obeys (alter subscriptions subscriptions_update holds p f)"
proof (rule obeysI)
  show "effect (keeps (steady law)) (alter subscriptions subscriptions_update holds p f)"
    by (rule steady_alter)
      (auto simp: law_def owned_once_def ownership_def snapshot_keys_def amend_rid assms elim!: books_frame [rotated 2])
  show "effect (advances grows) (alter subscriptions subscriptions_update holds p f)"
    by (rule growth.alter_ok, rule grows_refl_on) (simp_all add: stamps_advance_amend [of p f] assms(1,3))
qed (rule clock_statements)

lemma obeys_write_subscriptions:
  assumes "\<And>r. p r \<Longrightarrow> rid (f r) = rid r" and "\<And>r. p r \<Longrightarrow> receipt_key (f r) = receipt_key r"
    and "\<And>r. p r \<Longrightarrow> holding_key (f r) = holding_key r" and "\<And>r. p r \<Longrightarrow> later_word (su_stated_at r) (su_stated_at (f r))"
  shows "effect obeys (write_subscriptions p f)"
  by (rule obeys_alter_subscriptions) (simp_all add: assms subscription_keys_def unique_on_amend)

section \<open>The inserts\<close>

lemma unique_append_row:
  "unique_on key t \<Longrightarrow> free_of key t r \<Longrightarrow> key (r\<lparr>rid := next_id t\<rparr>) = key r \<Longrightarrow> unique_on key (append_row r t)"
  by (simp add: append_row_def unique_on_append free_of_def)

lemma obeys_settle_entitlement:
  "effect obeys (settle user_entitlements user_entitlements_update (free_of user_entitlement_key) read r)"
proof (rule obeysI)
  show "effect (keeps (steady law)) (settle user_entitlements user_entitlements_update (free_of user_entitlement_key) read r)"
    by (rule steady_settle)
      (auto simp: law_def owned_once_def ownership_def snapshot_keys_def distinct_append_row unique_append_row user_entitlement_key_def
        elim!: books_frame [rotated 2])
  show "effect (advances grows) (settle user_entitlements user_entitlements_update (free_of user_entitlement_key) read r)"
    by (rule growth.settle_ok; rule grows_refl_on) (simp_all add: stamps_same)
qed (rule clock_statements)

lemma obeys_settle_benefit:
  "effect obeys (settle subscription_benefits subscription_benefits_update (free_of subscription_benefit_key) read r)"
proof (rule obeysI)
  show "effect (keeps (steady law)) (settle subscription_benefits subscription_benefits_update (free_of subscription_benefit_key) read r)"
    by (rule steady_settle)
      (auto simp: law_def owned_once_def ownership_def snapshot_keys_def distinct_append_row unique_append_row subscription_benefit_key_def
        elim!: books_frame [rotated 2])
  show "effect (advances grows) (settle subscription_benefits subscription_benefits_update (free_of subscription_benefit_key) read r)"
    by (rule growth.settle_ok; rule grows_refl_on) (simp_all add: stamps_same)
qed (rule clock_statements)

lemma grant_keys_append: "grant_keys t \<Longrightarrow> accepts_grant t r \<Longrightarrow> grant_keys (append_row r t)"
  by (auto simp: grant_keys_def accepts_grant_def distinct_append_row unique_append_row grant_key_of_def grant_cycle_of_def)

lemma obeys_settle_grant:
  assumes "bg_attempts r \<le> MAX_ATTEMPTS"
  shows "effect obeys (settle grants grants_update accepts_grant read r)"
proof (rule obeysI)
  have a: "attempts_bounded (append_row r t)" if "attempts_bounded t" for t
    using that assms by (simp add: attempts_bounded_def append_row_def)
  show "effect (keeps (steady law)) (settle grants grants_update accepts_grant read r)"
    by (rule steady_settle)
      (auto simp: law_def owned_once_def ownership_def snapshot_keys_def a grant_keys_append elim!: books_frame [rotated 2])
  show "effect (advances grows) (settle grants grants_update accepts_grant read r)"
    by (rule growth.settle_ok; rule grows_refl_on) (simp_all add: append_row_def stamps_same)
qed (rule clock_statements)

section \<open>The wallet and the products\<close>

lemma obeys_move: "effect obeys (move u c ty amount description key g)"
proof (rule obeysI)
  have part: "effect (leaves (\<lambda>d. (user_products d, grants d, subscription_benefits d, user_entitlements d, subscriptions d, webhook_events d)))
      (move u c ty amount description key g)"
    by (rule move_leaves) simp_all
  have "effect (keeps (steady (\<lambda>d. owned_once d \<and> grant_keys (grants d) \<and> attempts_bounded (grants d) \<and> snapshot_keys d
      \<and> distinct (map rid (subscriptions d)) \<and> subscription_keys (subscriptions d) \<and> notice_keys (webhook_events d)))) (move u c ty amount description key g)"
    by (rule leaves_keeps [OF part]) (simp add: owned_once_def ownership_def snapshot_keys_def)
  with move_books [of u c ty amount description key g]
  show "effect (keeps (steady law)) (move u c ty amount description key g)"
    by (simp add: effect_def keeps_def steady_def law_def)
  have "effect (advances (\<lambda>d e. stamps_advance d e \<and> ownership_grows d e \<and> prefix (map grant_identity (grants d)) (map grant_identity (grants e))
      \<and> prefix (map notice_identity (webhook_events d)) (map notice_identity (webhook_events e))))
      (move u c ty amount description key g)"
    by (rule leaves_advances [OF part])
      (auto simp: ownership_grows_def ownership_def elim: stamps_frame [rotated 2])
  with move_ledger_grows [of u c ty amount description key g]
  show "effect (advances grows) (move u c ty amount description key g)"
    by (auto simp: effect_def advances_def grows_def)
  show "effect (same clock) (move u c ty amount description key g)"
    unfolding move_def settled_by_key_def held_def write_line_def Let_def
    by (intro clock_steps clock_refusing)
qed

lemma obeys_grant: "effect obeys (Commerce.grant u p key sub pur g)"
proof (rule obeysI)
  have part: "effect (leaves (\<lambda>d. (grants d, subscription_benefits d, user_entitlements d, subscriptions d, webhook_events d)))
      (Commerce.grant u p key sub pur g)"
    by (rule grant_leaves) simp_all
  have "effect (keeps (steady (\<lambda>d. grant_keys (grants d) \<and> attempts_bounded (grants d) \<and> snapshot_keys d
      \<and> distinct (map rid (subscriptions d)) \<and> subscription_keys (subscriptions d) \<and> notice_keys (webhook_events d)))) (Commerce.grant u p key sub pur g)"
    by (rule leaves_keeps [OF part]) (simp add: snapshot_keys_def)
  with grant_books [of u p key sub pur g] grant_owned_once [of u p key sub pur g]
  show "effect (keeps (steady law)) (Commerce.grant u p key sub pur g)"
    by (simp add: effect_def keeps_def steady_def law_def)
  have "effect (advances (\<lambda>d e. stamps_advance d e \<and> prefix (map grant_identity (grants d)) (map grant_identity (grants e))
      \<and> prefix (map notice_identity (webhook_events d)) (map notice_identity (webhook_events e))))
      (Commerce.grant u p key sub pur g)"
    by (rule leaves_advances [OF part]) (auto elim: stamps_frame [rotated 2])
  with grant_ledger_grows [of u p key sub pur g] grant_ownership_grows [of u p key sub pur g]
  show "effect (advances grows) (Commerce.grant u p key sub pur g)"
    by (auto simp: effect_def advances_def grows_def)
  show "effect (same clock) (Commerce.grant u p key sub pur g)"
    unfolding grant_def product_credits_def using obeys_move
    by (intro clock_steps settled_ok) (auto simp: obeys_split)
qed

section \<open>The engine\<close>

lemma obeys_advance: "effect obeys (advance benefit g)"
  unfolding advance_def by (intro obeys_steps obeys_write_benefits) (simp_all add: subscription_benefit_key_def)

lemma obeys_settled: "bg_attempts g \<le> MAX_ATTEMPTS \<Longrightarrow> effect obeys (settled g)"
  unfolding settled_def by (intro obeys_steps obeys_settle_grant)

lemma new_grant_attempts [simp]: "bg_attempts (new_grant b key t moment) = 1"
  by (simp add: new_grant_def)

lemma obeys_skip: "bg_attempts g \<le> MAX_ATTEMPTS \<Longrightarrow> effect obeys (skip benefit g reason)"
  unfolding skip_def Let_def by (intro obeys_steps obeys_advance obeys_settled) simp

lemma obeys_drop: "effect obeys (drop g reason)"
  unfolding drop_def by (intro obeys_steps obeys_write_grants) (simp_all add: grant_identity_def)

lemma obeys_hold_subscription: "effect obeys (hold_subscription i)"
  unfolding hold_subscription_def by (intro obeys_steps obeys_write_subscriptions) simp_all

lemma obeys_still_owed: "effect obeys (still_owed b)"
  unfolding still_owed_def by (intro obeys_steps)

lemma obeys_policy_allows: "effect obeys (policy_allows b)"
  unfolding policy_allows_def Let_def by (intro obeys_steps)

lemma obeys_handlers: "effect obeys (handlers ty b g)"
proof (cases ty)
  case ACCESS
  show ?thesis unfolding ACCESS handlers.simps deliver_access_def
    by (intro obeys_steps obeys_write_entitlements obeys_write_grants) (simp_all add: grant_identity_def user_entitlement_key_def)
next
  case CREDIT
  show ?thesis unfolding CREDIT handlers.simps deliver_credit_def
    by (intro obeys_steps obeys_move obeys_write_grants) (simp_all add: grant_identity_def)
next
  case PRODUCT
  show ?thesis unfolding PRODUCT handlers.simps deliver_product_def
    by (intro obeys_steps obeys_grant obeys_write_grants) (simp_all add: grant_identity_def)
qed

lemma obeys_attempt: "effect obeys (attempt benefit g)"
  unfolding attempt_def
  by (intro obeys_steps obeys_hold_subscription obeys_write_benefits obeys_still_owed obeys_drop obeys_policy_allows obeys_handlers)
    simp_all

lemma obeys_deliver: "effect obeys (deliver benefit g)"
  unfolding deliver_def
  by (intro obeys_steps obeys_attempt obeys_write_grants) (simp_all add: grant_identity_def)

lemma obeys_already_held: "effect obeys (already_held_by_user benefit key)"
  unfolding already_held_by_user_def by (intro obeys_steps)

lemma obeys_settled_case:
  assumes "\<And>r. effect obeys (f r)" and "\<And>r. effect obeys (g r)" and "effect obeys h"
  shows "effect obeys (case w of Wrote r \<Rightarrow> f r | Found r \<Rightarrow> g r | Missed \<Rightarrow> h)"
  using assms by (rule settled_ok)

lemma obeys_run_cycle: "effect obeys (run_cycle benefit key scheduled_at)"
  unfolding run_cycle_def Let_def
  by (intro obeys_steps obeys_settled_case obeys_advance obeys_skip obeys_already_held obeys_policy_allows obeys_settled obeys_deliver)
    (simp_all add: MAX_ATTEMPTS_def)

lemma obeys_expire_entitlements: "effect obeys (expire_entitlements sub)"
  unfolding expire_entitlements_def by (intro obeys_steps obeys_write_entitlements) (simp_all add: user_entitlement_key_def)

lemma obeys_end_benefits: "effect obeys (end_benefits sub)"
  unfolding end_benefits_def
  by (intro obeys_steps obeys_write_benefits obeys_expire_entitlements) (simp_all add: subscription_benefit_key_def)

lemma obeys_expire_subscriptions: "effect obeys expire_subscriptions"
  unfolding expire_subscriptions_def
  by (intro obeys_steps obeys_write_subscriptions obeys_end_benefits)
    (simp_all add: receipt_key_def holding_key_def cong: option.case_cong)

lemma obeys_reconcile_entitlements: "effect obeys (reconcile_entitlements s)"
  unfolding reconcile_entitlements_def promise_entitlement_def entitlements_of_def Let_def
  by (intro obeys_steps obeys_settled_case obeys_settle_entitlement obeys_write_entitlements) (simp_all add: user_entitlement_key_def)

lemma obeys_resume: "effect obeys (resume b anchor)"
  unfolding resume_def by (intro obeys_steps obeys_write_benefits) (simp_all add: subscription_benefit_key_def)

lemma obeys_snapshot_benefits: "effect obeys (snapshot_benefits s entitlements)"
  unfolding snapshot_benefits_def promise_benefit_def benefits_of_def Let_def
  by (intro obeys_steps obeys_settled_case obeys_settle_benefit obeys_resume obeys_write_benefits)
    (simp_all add: subscription_benefit_key_def)

lemma obeys_read_grants: "effect obeys (read_grants keys)"
  unfolding read_grants_def by (rule obeys_statements)

lemma obeys_activate: "effect obeys (activate sub)"
  unfolding activate_def activate_benefit_def
  by (intro obeys_steps obeys_hold_subscription obeys_expire_entitlements obeys_write_benefits obeys_reconcile_entitlements
      obeys_snapshot_benefits obeys_run_cycle obeys_read_grants) (simp_all add: subscription_benefit_key_def)

lemma due_ok:
  assumes "\<And>t. effect R (f t)" and "\<And>t. effect R (g t)"
  shows "effect R (case x of Deliver t \<Rightarrow> f t | Resume t \<Rightarrow> g t)"
  using assms by (cases x) simp_all

lemma obeys_process_due: "effect obeys process_due"
  unfolding process_due_def process_one_due_def
  by (intro obeys_steps due_ok obeys_run_cycle obeys_write_benefits obeys_read_grants) (simp_all add: subscription_benefit_key_def)

lemma obeys_release_cycle: "effect obeys (release_cycle sub)"
  unfolding release_cycle_def by (intro obeys_steps obeys_write_benefits) (simp_all add: subscription_benefit_key_def)

lemma obeys_open_new_cycle: "effect obeys (open_new_cycle sub)"
  unfolding open_new_cycle_def by (intro obeys_steps obeys_release_cycle obeys_record_log obeys_activate)

lemma obeys_claim: "effect obeys (claim g)"
  unfolding claim_def
  by (intro obeys_steps obeys_write_grants) (auto simp: grant_identity_def taken_def takeable_def)

lemma obeys_give_up: "effect obeys (give_up g)"
  unfolding give_up_def by (intro obeys_steps obeys_write_grants obeys_record_log) (simp_all add: grant_identity_def)

lemma obeys_close_exhausted: "effect obeys (close_exhausted g)"
  unfolding close_exhausted_def
  by (intro obeys_steps obeys_write_grants obeys_give_up obeys_advance) (simp_all add: grant_identity_def)

lemma obeys_retry_failed_grants: "effect obeys retry_failed_grants"
  unfolding retry_failed_grants_def retry_one_def Let_def
  by (intro obeys_steps obeys_still_owed obeys_drop obeys_close_exhausted obeys_claim obeys_deliver obeys_give_up obeys_advance
      obeys_read_grants)

end
