(* ===== verification/Reconciliation_Laws.thy ===== *)
theory Reconciliation_Laws
  imports Reconciliation Laws
begin

text \<open>
  Every operation of the reconciliation obeys the law of the database: it keeps the keys of the
  subscriptions, one row for a receipt inside an integration and one for a product an account holds, and
  through the delivery engine the books, the products and the grants.
\<close>

lemma obeys_move_subscriptions:
  assumes "\<And>r. p r \<Longrightarrow> rid (f r) = rid r" and "\<And>r. p r \<Longrightarrow> su_stated_at (f r) = su_stated_at r"
  shows "effect obeys (move_subscriptions p f)"
  by (rule obeys_alter_subscriptions) (use assms in \<open>auto simp: hits_0_amend\<close>)

lemma subscription_keys_append:
  "subscription_keys t \<Longrightarrow> accepts_subscription t r \<Longrightarrow> subscription_keys (append_row r t)"
  by (simp add: subscription_keys_def accepts_subscription_def unique_append_row receipt_key_def holding_key_def cong: option.case_cong)

lemma obeys_settle_subscription:
  "effect obeys (settle subscriptions subscriptions_update accepts_subscription read r)"
proof (rule obeysI)
  show "effect (keeps (steady law)) (settle subscriptions subscriptions_update accepts_subscription read r)"
    by (rule steady_settle)
      (auto simp: law_def owned_once_def ownership_def snapshot_keys_def distinct_append_row subscription_keys_append
        elim!: books_frame [rotated 2])
  show "effect (advances grows) (settle subscriptions subscriptions_update accepts_subscription read r)"
    by (rule growth.settle_ok; rule grows_refl_on) (simp_all add: stamps_advance_append stamps_same)
qed (rule clock_statements)

lemma obeys_carry: "effect obeys (carry subscription purchase)"
  unfolding carry_def
  by (intro obeys_steps obeys_write_subscriptions) (simp_all add: carried_def receipt_key_def holding_key_def cong: option.case_cong)

lemma obeys_close: "effect obeys (close subscription status reason)"
  unfolding close_def
  by (intro obeys_steps obeys_write_subscriptions obeys_end_benefits obeys_record_log)
    (simp_all add: closed_row_def receipt_key_def holding_key_def cong: option.case_cong)

lemma obeys_hold: "effect obeys (hold subscription stated_at)"
  unfolding hold_def
  by (intro obeys_steps obeys_write_subscriptions)
    (simp_all add: stamped_row_def stampable_def later_word_def receipt_key_def holding_key_def cong: option.case_cong split: option.splits)

lemma obeys_repoint: "effect obeys (repoint integration subscription purchase)"
  unfolding repoint_def product_named_def
  by (intro obeys_steps obeys_move_subscriptions obeys_release_cycle) simp_all

lemma obeys_adopt: "effect obeys (adopt subscription purchase)"
  unfolding adopt_def holder_of_def Let_def
  by (intro obeys_steps obeys_move_subscriptions obeys_close) simp_all

lemma obeys_align: "effect obeys (align subscription purchase stated_at)"
  unfolding align_def
  by (intro obeys_steps obeys_close obeys_adopt obeys_hold obeys_carry obeys_activate)

lemma obeys_hand_over: "effect obeys (hand_over subscription user purchase)"
  unfolding hand_over_def Let_def
  by (intro obeys_steps obeys_move_subscriptions obeys_end_benefits obeys_carry obeys_record_log obeys_release_cycle obeys_activate) simp_all

lemma obeys_open_subscription:
  assumes "effect obeys again"
  shows "effect obeys (open_subscription again integration user purchase stated_at)"
  unfolding open_subscription_def product_named_def
  by (intro obeys_steps obeys_settled_case obeys_settle_subscription obeys_carry obeys_activate obeys_hand_over obeys_record_log
      obeying.list_ok assms)

lemma obeys_settle_row: "effect obeys (settle_row integration subscription purchase stated_at)"
  unfolding settle_row_def
  by (intro obeys_steps obeys_hold obeys_repoint obeys_align obeys_activate)

lemma obeys_settle_line: "effect obeys (settle_line fuel integration user purchase known stated_at)"
proof (induction fuel arbitrary: known)
  case 0
  show ?case unfolding settle_line.simps by (rule obeying.hang_ok)
next
  case (Suc fuel)
  show ?case unfolding settle_line.simps same_purchase_def
    by (intro obeys_steps obeys_settle_row obeys_open_subscription Suc.IH)
qed

lemma obeys_settle_all: "effect obeys (settle_all integration user lines known stated_at)"
proof (induction lines arbitrary: known)
  case Nil
  show ?case unfolding settle_all.simps by (rule obeying.ret_ok)
next
  case (Cons purchase lines)
  show ?case unfolding settle_all.simps by (intro obeys_steps obeys_settle_line Cons.IH)
qed

lemma obeys_close_missing: "effect obeys (close_missing stated_at subscription)"
  unfolding close_missing_def by (intro obeys_steps obeys_hold obeys_close)

lemma obeys_apply_state: "effect obeys (apply_state integration user lines complete stated_at)"
  unfolding apply_state_def ours_def
  by (intro obeys_steps obeys_settle_all obeys_close_missing)

lemma obeys_write_users: "effect obeys (alter users users_update holds p f)"
  by (rule obeys_leaves) (rule leaves_alter, simp add: lawful_part_def, rule clock_statements)

lemma exc_ok:
  assumes "\<And>n. effect R (a n)" "\<And>n. effect R (b n)" "effect R c" "\<And>e. effect R (d e)"
  shows "effect R (case e of RateLimited n \<Rightarrow> a n | HTTPStatusError n \<Rightarrow> b n | HTTPError \<Rightarrow> c | e \<Rightarrow> d e)"
  using assms by (cases e) simp_all

lemma obeys_against: "effect obeys (against ask integration user secret)"
  unfolding against_def
  by (intro obeys_steps exc_ok obeys_record_log obeys_write_users obeys_apply_state)

lemma obeys_reconcile_account: "effect obeys (reconcile_account ask integration user)"
  unfolding reconcile_account_def by (intro obeys_steps obeys_against)

lemma obeys_claim_window: "effect obeys (claim_window user)"
  unfolding claim_window_def by (intro obeys_steps obeys_write_users)

lemma obeys_refresh: "effect obeys (refresh ask user)"
  unfolding refresh_def tolerating_def by (intro obeys_steps obeys_claim_window obeys_reconcile_account)

lemma obeys_during: "effect obeys m \<Longrightarrow> effect obeys (during moment m)"
proof (rule effectI)
  fix s :: session
  assume m: "effect obeys m"
  obtain r t where t: "m (s\<lparr>clock := moment\<rparr>) = (r, t)" by fastforce
  from effectD [OF m t] show "obeys s (snd (during moment m s))"
    by (simp add: during_def t obeys_def keeps_def steady_def advances_def)
qed

lemma obeys_sweep: "effect obeys (sweep_accounts ask clock_at deadline position accounts unreadable)"
proof (induction accounts arbitrary: position unreadable)
  case Nil
  show ?case unfolding sweep_accounts.simps by (rule obeying.ret_ok)
next
  case (Cons account accounts)
  obtain i u where "account = (i, u)" by fastforce
  then show ?case
    by (simp only: sweep_accounts.simps) (intro obeys_steps obeys_during obeys_reconcile_account Cons.IH)
qed

lemma obeys_reconcile_stale: "effect obeys (reconcile_stale ask clock_at)"
  unfolding reconcile_stale_def by (intro obeys_steps obeys_sweep)

end
