(* ===== verification/Queue.thy ===== *)
theory Queue
  imports Effects
begin

text \<open>
  The interface of every queue a pass takes rows from: a row is taken by one update conditioned on its
  being takeable, the update leaves it in a state nobody may take again before the window of the queue is
  over, and the rowcount answers who got it. Whatever the order a crowd of workers reaches the row in,
  one of them gets it.
\<close>

section \<open>Racing for a row\<close>

definition taking :: "(datetime \<Rightarrow> 'a row_scheme \<Rightarrow> bool) \<Rightarrow> nat \<Rightarrow> datetime \<Rightarrow> 'a row_scheme \<Rightarrow> bool" where
  "taking takeable i moment r \<longleftrightarrow> named i r \<and> takeable moment r"

fun wins :: "(datetime \<Rightarrow> 'a row_scheme \<Rightarrow> bool) \<Rightarrow> (datetime \<Rightarrow> 'a row_scheme \<Rightarrow> 'a row_scheme) \<Rightarrow> nat \<Rightarrow> datetime list
    \<Rightarrow> 'a row_scheme list \<Rightarrow> bool list" where
  "wins takeable taken i [] t = []"
| "wins takeable taken i (m # ms) t = (hits (taking takeable i m) t = 1)
     # wins takeable taken i ms (amend (taking takeable i m) (taken m) t)"

lemma taking_abs: "taking takeable i m = (\<lambda>r. named i r \<and> takeable m r)"
  by (simp add: fun_eq_iff taking_def)

text \<open>One worker reads the clock on its own: the same service at another moment.\<close>

definition at_clock :: "datetime \<Rightarrow> 'a service \<Rightarrow> 'a service" where
  "at_clock moment m = (\<lambda>s. m (s\<lparr>clock := moment\<rparr>))"

locale work_queue =
  fixes takeable :: "datetime \<Rightarrow> 'a row_scheme \<Rightarrow> bool"
    and taken :: "datetime \<Rightarrow> 'a row_scheme \<Rightarrow> 'a row_scheme"
    and window :: int
  assumes same_row: "rid (taken m r) = rid r"
    and busy: "\<not> before_by n window m \<Longrightarrow> \<not> takeable n (taken m r)"
begin

lemma closed_to_all:
  assumes "\<forall>r\<in>set t. rid r = i \<longrightarrow> (\<forall>n\<in>set ms. \<not> takeable n r)"
  shows "True \<notin> set (wins takeable taken i ms t)"
  using assms
proof (induction ms arbitrary: t)
  case Nil
  then show ?case by simp
next
  case (Cons m ms)
  then have none: "\<not> taking takeable i m r" if "r \<in> set t" for r using that by (auto simp: taking_def named_def)
  then have "hits (taking takeable i m) t = 0" by (simp add: hits_def filter_empty_conv)
  moreover have "amend (taking takeable i m) (taken m) t = t" using none by (rule amend_none)
  ultimately show ?case using Cons by simp
qed

lemma one_winner:
  assumes "distinct (map rid t)" and "\<forall>m\<in>set ms. \<forall>n\<in>set ms. \<not> before_by n window m"
  shows "length (filter (\<lambda>b. b) (wins takeable taken i ms t)) \<le> 1"
  using assms
proof (induction ms arbitrary: t)
  case Nil
  then show ?case by simp
next
  case (Cons m ms)
  let ?u = "amend (taking takeable i m) (taken m) t"
  have d: "distinct (map rid ?u)" using Cons.prems(1) by (simp add: amend_rid same_row)
  show ?case
  proof (cases "hits (taking takeable i m) t = 1")
    case False
    then show ?thesis using Cons.IH [OF d] Cons.prems(2) by simp
  next
    case True
    then have "filter (taking takeable i m) t \<noteq> []" by (auto simp: hits_def)
    then obtain r where r: "r \<in> set t" "rid r = i" "takeable m r" by (auto simp: filter_empty_conv taking_def named_def)
    have "\<not> takeable n q" if "q \<in> set ?u" "rid q = i" "n \<in> set ms" for q n
    proof -
      from that(1) obtain p where p: "p \<in> set t" "q = (if taking takeable i m p then taken m p else p)"
        by (auto simp: set_amend)
      with that(2) have "rid p = i" by (auto simp: same_row split: if_splits)
      with Cons.prems(1) r p(1) have "p = r" using fetch_distinct by (metis option.inject)
      with r p(2) have "q = taken m r" by (simp add: taking_def named_def)
      with busy that(3) Cons.prems(2) show ?thesis by simp
    qed
    then have "True \<notin> set (wins takeable taken i ms ?u)" by (intro closed_to_all) blast
    then have "filter (\<lambda>b. b) (wins takeable taken i ms ?u) = []" by (auto simp: filter_empty_conv)
    with True show ?thesis by simp
  qed
qed

text \<open>A takeable row is taken by the first who comes, so work is never lost.\<close>

lemma first_wins:
  assumes "distinct (map rid t)" and "fetch i t = Some r" and "takeable m r"
  shows "hd (wins takeable taken i (m # ms) t)"
proof -
  have "hits (taking takeable i m) t = 1"
    using hits_alone [OF assms(1,2), of "takeable m"] assms(3) by (simp add: taking_abs)
  then show ?thesis by simp
qed

end

section \<open>A claim is the conditioned update of its queue\<close>

text \<open>
  What a claiming service does to the table of its queue, and that a race of such services is the race on
  the table.
\<close>

definition claims_row :: "(db \<Rightarrow> 'a row_scheme list) \<Rightarrow> (datetime \<Rightarrow> 'a row_scheme \<Rightarrow> bool)
    \<Rightarrow> (datetime \<Rightarrow> 'a row_scheme \<Rightarrow> 'a row_scheme) \<Rightarrow> nat \<Rightarrow> bool service \<Rightarrow> bool" where
  "claims_row get takeable taken i m \<longleftrightarrow> (\<forall>s. fst (m s) = Ok (hits (taking takeable i (clock s)) (get (live s)) = 1)
     \<and> get (live (snd (m s))) = amend (taking takeable i (clock s)) (taken (clock s)) (get (live s)))"

lemma race_is_wins:
  assumes "claims_row get takeable taken i m"
  shows "value_of (each (\<lambda>moment. at_clock moment m) moments) s = Ok (wins takeable taken i moments (get (live s)))"
proof (induction moments arbitrary: s)
  case Nil
  then show ?case by (simp add: value_of_def)
next
  case (Cons n ns)
  obtain r t where m: "m (s\<lparr>clock := n\<rparr>) = (r, t)" by fastforce
  from assms [unfolded claims_row_def, THEN spec [of _ "s\<lparr>clock := n\<rparr>"]] m
  have r: "r = Ok (hits (taking takeable i n) (get (live s)) = 1)"
    and t: "get (live t) = amend (taking takeable i n) (taken n) (get (live s))" by simp_all
  from Cons [of t] show ?case
    by (auto simp: value_of_def andThen_def at_clock_def m r t split: prod.splits outcome.splits)
qed

end
