(* ===== verification/Webhook_Facts.thy ===== *)
theory Webhook_Facts
  imports Webhook Reconciliation_Laws Queue Sample
begin

text \<open>
  What the notices owe: every operation keeps the law of the database and only moves its history forward, a
  notice is claimed by one reader, a redelivery of what was settled changes nothing, and a notice that fails is
  left failed with nothing of it half written.
\<close>

section \<open>The law\<close>

lemma obeys_write_events:
  assumes "\<And>r. p r \<Longrightarrow> notice_identity (f r) = notice_identity r"
  shows "effect obeys (write_events p f)"
proof (rule obeysI)
  have same: "rid (f r) = rid r" "notice_key (f r) = notice_key r" if "p r" for r
    using assms [OF that] by (simp_all add: notice_identity_def notice_key_def)
  show "effect (keeps (steady law)) (write_events p f)"
    by (rule steady_alter)
      (auto simp: law_def owned_once_def ownership_def snapshot_keys_def notice_keys_def amend_rid unique_on_amend same
        elim!: books_frame [rotated 2])
  show "effect (advances grows) (write_events p f)"
    by (rule growth.alter_ok)
      (simp add: grows_def ledger_order.rest ownership_order.rest stamps_same map_amend assms ledger_grows_def ownership_grows_def ownership_def)
qed (rule clock_statements)

lemma obeys_write_purchases: "effect obeys (alter purchases purchases_update holds p f)"
  by (rule obeys_leaves) (rule leaves_alter, simp add: lawful_part_def, rule clock_statements)

lemma obeys_settle_event:
  "effect obeys (settle webhook_events webhook_events_update (free_of notice_key) pick r)"
proof (rule obeysI)
  show "effect (keeps (steady law)) (settle webhook_events webhook_events_update (free_of notice_key) pick r)"
    by (rule steady_settle)
      (auto simp: law_def owned_once_def ownership_def snapshot_keys_def notice_keys_def distinct_append_row unique_append_row notice_key_def
        elim!: books_frame [rotated 2])
  show "effect (advances grows) (settle webhook_events webhook_events_update (free_of notice_key) pick r)"
    by (rule growth.settle_ok)
      (simp_all add: grows_def stamps_same ledger_grows_def ownership_grows_def ownership_def append_row_def)
qed (rule clock_statements)

lemma obeys_settle_purchase: "effect obeys (settle_purchase fuel purchase seen status external_id)"
proof (induction fuel arbitrary: seen)
  case 0
  show ?case unfolding settle_purchase.simps by (rule obeying.hang_ok)
next
  case (Suc fuel)
  show ?case unfolding settle_purchase.simps
    by (intro obeys_steps obeys_write_purchases obeys_grant Suc.IH)
qed

lemma obeys_mark: "(\<And>r. notice_identity ((f r)\<lparr>rid := rid r\<rparr>) = notice_identity r) \<Longrightarrow> effect obeys (mark record_id f)"
  unfolding mark_def by (intro obeys_steps obeys_write_events) (simp add: notice_identity_def)

lemma obeys_claim_event: "effect obeys (Webhook.claim record_id)"
  unfolding Webhook.claim_def by (intro obeys_steps obeys_write_events) (simp add: notice_identity_def Webhook.taken_def)

lemma obeys_store_event: "effect obeys (store_event record)"
  unfolding store_event_def by (intro obeys_steps obeys_settle_event obeys_settled_case)

lemma obeys_reconcile_named: "effect obeys (reconcile_named w network integration token)"
  unfolding reconcile_named_def account_named_def by (intro obeys_steps obeys_reconcile_account)

lemma obeys_settle_payment: "effect obeys (settle_payment integration event)"
  unfolding settle_payment_def Webhook.purchase_of_def by (intro obeys_steps obeys_settle_purchase)

lemma obeys_apply_event: "effect obeys (apply_event w network integration event record_id)"
  unfolding apply_event_def user_of_def account_named_def subscription_of_def
  by (intro obeys_steps obeys_settle_payment obeys_reconcile_named obeys_mark obeys_reconcile_account obeys_apply_state)
    (simp_all add: notice_identity_def)

lemma obeys_fail: "effect obeys (fail integration record_id error)"
  unfolding fail_def by (intro obeys_steps obeys_mark obeys_record_log) (simp add: notice_identity_def)

lemma obeys_run: "effect obeys (run w network integration event record_id)"
  unfolding run_def by (intro obeys_steps obeys_apply_event obeys_fail)

lemma obeys_ingest: "effect obeys (ingest w network integration call)"
  unfolding ingest_def unread_def record_of_def Let_def
  by (intro obeys_steps obeys_store_event obeys_claim_event obeys_run)

lemma obeys_close_exhausted_events: "effect obeys Webhook.close_exhausted"
  unfolding Webhook.close_exhausted_def by (intro obeys_steps obeys_write_events) (simp add: notice_identity_def)

lemma obeys_retry_failed: "effect obeys (retry_failed w network)"
  unfolding retry_failed_def retry_event_def
  by (intro obeys_steps obeys_claim_event obeys_mark obeys_run) (simp add: notice_identity_def)

section \<open>One reader\<close>

interpretation notice_queue: work_queue Webhook.takeable Webhook.taken ABANDONED_AFTER
  by unfold_locales (simp_all add: Webhook.takeable_def Webhook.taken_def left_behind_def)

lemma claim_event_row: "claims_row webhook_events Webhook.takeable Webhook.taken i (Webhook.claim i)"
  by (simp add: claims_row_def Webhook.claim_def taking_abs alter_def free_keys_def Let_def andThen_def)

text \<open>
  A notice is read by one reader. Redeliveries of the gateway and the retry pass reach the same row in any
  order, each with a clock of its own: at most one of them gets it while no claim is older than what counts as
  abandoned, and the first to reach a row that may be taken does get it.
\<close>
theorem notice_claimed_once:
  assumes "distinct (map rid (webhook_events (live s)))"
    and "\<forall>m\<in>set moments. \<forall>n\<in>set moments. \<not> before_by n ABANDONED_AFTER m"
  shows "\<exists>won. value_of (each (\<lambda>m. at_clock m (Webhook.claim i)) moments) s = Ok won \<and> length (filter (\<lambda>b. b) won) \<le> 1
     \<and> (\<forall>r m ms. fetch i (webhook_events (live s)) = Some r \<and> moments = m # ms \<and> Webhook.takeable m r \<longrightarrow> hd won)"
  using race_is_wins [OF claim_event_row] notice_queue.one_winner [OF assms] notice_queue.first_wins [OF assms(1)]
  by fastforce

definition sample_notice :: webhook_event_row where
  "sample_notice = \<lparr>rid = 1, we_tenant = Some 1, we_integration = 1, we_user = None, we_subscription = None,
     we_external_event_id = ''evt_1'', we_payload = '''', we_occurred_at = None, we_processed_at = None,
     we_status = RECEIVED, we_error_code = None, we_attempts = 0, we_created_at = on_day 2024 3 5, we_updated_at = on_day 2024 3 5\<rparr>"

definition sample_noticed :: session where
  "sample_noticed = opened_at (on_day 2024 3 5) (sample_db\<lparr>webhook_events := [sample_notice]\<rparr>)"

lemma notice_claimed_once_witness:
  "\<exists>won. value_of (each (\<lambda>m. at_clock m (Webhook.claim 1)) [on_day 2024 3 5, on_day 2024 3 5]) sample_noticed = Ok won
     \<and> length (filter (\<lambda>b. b) won) \<le> 1"
proof -
  have d: "distinct (map rid (webhook_events (live sample_noticed)))" by code_simp
  have "\<forall>m\<in>set [on_day 2024 3 5, on_day 2024 3 5]. \<forall>n\<in>set [on_day 2024 3 5, on_day 2024 3 5]. \<not> before_by n ABANDONED_AFTER m"
    by (simp add: before_by_def ABANDONED_AFTER_def minutes_def)
  from notice_claimed_once [OF d this] show ?thesis by blast
qed

section \<open>A redelivery\<close>

text \<open>
  A redelivery of a notice that was settled or set aside changes nothing: the call is authenticated and
  read, the row it names is answered, and neither the transaction nor the database moves, whatever the gateway
  says the second time.
\<close>
theorem redelivery_changes_nothing:
  assumes "authenticate w (in_provider integration) (clock s) call
      (case in_webhook_secret integration of None \<Rightarrow> '''' | Some secret \<Rightarrow> secret) = Ok ()"
    and "read w (in_provider integration) call = Ok (Some event)"
    and "List.find (same_notice (rid integration) (event_name w event call)) (webhook_events (live s)) = Some r"
    and "distinct (map rid (webhook_events (live s)))"
    and "we_status r = webhook_event_status.COMPLETED \<or> we_status r = IGNORED"
  shows "ingest w network integration call s = (Ok (rid r), s)"
proof -
  have "fetch (rid r) (webhook_events (live s)) = Some r"
    using fetch_distinct [OF assms(4)] find_Some_in [OF assms(3)] by simp
  with assms(5) show ?thesis
    by (auto simp: ingest_def assms(1-3) record_of_def Let_def andThen_assoc)
qed

definition sample_outside :: outside where
  "sample_outside = \<lparr>o_loads = (\<lambda>_. Some (JMap [(''event'', JMap [(''id'', JText ''evt_1''), (''type'', JText ''RENEWAL''),
       (''app_user_id'', JText ''reader'')])])),
     o_dumps = (\<lambda>_. ''{}''), o_form = (\<lambda>_. []), o_decode = (\<lambda>t. t), o_repr = (\<lambda>_. ''''), o_iso = (\<lambda>_. None),
     o_decimal = (\<lambda>_. Err ValueError), o_hmac = (\<lambda>_ t. t), o_digest = (\<lambda>_. ''digest'')\<rparr>"

definition sample_gateway :: integration_row where
  "sample_gateway = sample_integration\<lparr>in_provider := REVENUECAT, in_webhook_secret := None\<rparr>"

definition sample_call :: inbound_call where
  "sample_call = \<lparr>ic_method = ''POST'', ic_headers = [], ic_query = [], ic_body = ''notice''\<rparr>"

definition sample_settled :: session where
  "sample_settled = opened_at (on_day 2024 3 5) (sample_db\<lparr>webhook_events := [sample_notice\<lparr>we_status := webhook_event_status.COMPLETED\<rparr>]\<rparr>)"

definition sample_event :: provider_event where
  "sample_event = RevenueCat.notice sample_outside [(''id'', JText ''evt_1''), (''type'', JText ''RENEWAL''),
       (''app_user_id'', JText ''reader'')]"

lemma redelivery_changes_nothing_witness:
  "ingest sample_outside (\<lambda>_ _. Err HTTPError) sample_gateway sample_call sample_settled = (Ok 1, sample_settled)"
proof -
  let ?r = "sample_notice\<lparr>we_status := webhook_event_status.COMPLETED\<rparr>"
  have a: "authenticate sample_outside (in_provider sample_gateway) (clock sample_settled) sample_call
      (case in_webhook_secret sample_gateway of None \<Rightarrow> '''' | Some secret \<Rightarrow> secret) = Ok ()" by code_simp
  have e: "read sample_outside (in_provider sample_gateway) sample_call = Ok (Some sample_event)" by code_simp
  have f: "List.find (same_notice (rid sample_gateway) (event_name sample_outside sample_event sample_call))
      (webhook_events (live sample_settled)) = Some ?r" by code_simp
  have d: "distinct (map rid (webhook_events (live sample_settled)))" by code_simp
  from redelivery_changes_nothing [OF a e f d] show ?thesis by (simp add: sample_notice_def)
qed

section \<open>A failure\<close>

lemma notices_stay:
  assumes "grows d e" and "fetch i (webhook_events d) \<noteq> None"
  shows "fetch i (webhook_events e) \<noteq> None"
proof -
  have k: "rid ` set t = fst ` set (map notice_identity t)" for t
    by (auto simp: notice_identity_def image_iff)
  from assms(1) have "set (map notice_identity (webhook_events d)) \<subseteq> set (map notice_identity (webhook_events e))"
    by (metis grows_def set_mono_prefix)
  with assms(2) show ?thesis unfolding fetch_None_iff k by blast
qed

lemma fail_writes_it_down:
  assumes "fetch i (webhook_events (live s)) = Some r"
  shows "\<exists>t q. fail integration i e s = (Ok (), t) \<and> live t = kept t \<and> fetch i (webhook_events (kept t)) = Some q
     \<and> we_status q = webhook_event_status.FAILED \<and> we_error_code q = Some (error_name e) \<and> we_attempts q = we_attempts r
     \<and> ledger (kept t) = ledger (live s) \<and> purchases (kept t) = purchases (live s) \<and> subscriptions (kept t) = subscriptions (live s)"
  using assms fetch_Some_in [OF assms]
  by (simp add: fail_def mark_def record_log_def stage_def store_def andThen_assoc andThen_def alter_def free_keys_def Let_def
      fetch_amend named_def)



section \<open>Whose payment a notice moves\<close>

definition paid_row :: "purchase_row \<Rightarrow> db \<Rightarrow> bool" where
  "paid_row p d \<longleftrightarrow> p \<in> set (purchases d)"

lemma settle_purchase_others:
  assumes "rid p \<noteq> i"
  shows "effect (keeps (steady (paid_row p))) (settle_purchase fuel i seen status external_id)"
proof -
  have grant: "effect (keeps (steady (paid_row p))) (Commerce.grant u q key sub pur g)" for u q key sub pur g
    by (rule leaves_keeps [OF grant_leaves [of purchases]]) (simp_all add: paid_row_def)
  have write': "effect (keeps (steady (paid_row p))) (alter purchases purchases_update purchase_keys (\<lambda>r. named i r \<and> pu_status r = x) f)" for x f
    by (rule steady_alter) (use assms in \<open>force simp: paid_row_def amend_def named_def image_iff\<close>)
  show ?thesis
  proof (induction fuel arbitrary: seen)
    case 0
    show ?case unfolding settle_purchase.simps by (rule keeps_order.hang_ok)
  next
    case (Suc fuel)
    show ?case unfolding settle_purchase.simps by (intro steady_steps write' grant Suc.IH)
  qed
qed

text \<open>
  A notice moves the payments of the gateway that sent it and no other: a purchase opened through another
  integration, or through none, stands in the transaction and in the database exactly as it stood, whatever
  reference or payment the notice names and however the settling ends.
\<close>
theorem foreign_payments_stay:
  assumes "distinct (map rid (purchases (live s)))" and "p \<in> set (purchases (live s))" and "p \<in> set (purchases (kept s))"
    and "pu_integration p \<noteq> Some (rid integration)"
  shows "p \<in> set (purchases (live (snd (settle_payment integration event s))))
     \<and> p \<in> set (purchases (kept (snd (settle_payment integration event s))))"
proof (cases "ev_purchase_status event")
  case None
  with assms show ?thesis by (simp add: settle_payment_def)
next
  case (Some status)
  show ?thesis
  proof (cases "payment_named event (live s)")
    case None
    with Some assms show ?thesis by (simp add: settle_payment_def Webhook.purchase_of_def)
  next
    case (Some q)
    then have q: "q \<in> set (purchases (live s))"
      by (auto simp: payment_named_def dest: find_Some_in split: option.splits list.splits)
    show ?thesis
    proof (cases "pu_integration q = Some (rid integration)")
      case False
      with Some \<open>ev_purchase_status event = Some status\<close> assms show ?thesis by (simp add: settle_payment_def Webhook.purchase_of_def)
    next
      case True
      with assms(4) have "p \<noteq> q" by auto
      then have "rid p \<noteq> rid q" using assms(1,2) q fetch_distinct by (metis option.inject)
      from settle_purchase_others [OF this]
      have "effect (keeps (steady (paid_row p))) (andThen (settle_purchase SETTLE_RACES (rid q) (pu_status q) status (ev_payment_id event))
          (\<lambda>settled. ret (Some (pu_user settled))))"
        by (intro keeps_order.andThen_ok keeps_order.ret_ok)
      moreover have "steady (paid_row p) s" using assms(2,3) by (simp add: steady_def paid_row_def)
      ultimately have "steady (paid_row p) (snd (settle_payment integration event s))"
        using Some True \<open>ev_purchase_status event = Some status\<close> effect_keepsD
        by (simp add: settle_payment_def Webhook.purchase_of_def)
      then show ?thesis by (simp add: steady_def paid_row_def)
    qed
  qed
qed

lemma foreign_payments_stay_witness:
  "sample_purchase\<lparr>pu_integration := None\<rparr> \<in> set (purchases (kept (snd (settle_payment sample_integration
     (sample_event\<lparr>ev_purchase_status := Some purchase_status.PAID, ev_reference := Some ''purchase-1''\<rparr>)
     (opened_at (on_day 2024 3 5) (sample_db\<lparr>purchases := [sample_purchase\<lparr>pu_integration := None\<rparr>]\<rparr>))))))"
  by (rule conjunct2 [OF foreign_payments_stay]) (simp_all add: sample_defs)

end
