(* ===== verification/Delivery_Facts.thy ===== *)
theory Delivery_Facts
  imports Laws Queue Sample
begin

text \<open>
  What the delivery engine does, operation by operation: a delivery is contained and always closes the
  grant it was given, a cycle replayed is the cycle already delivered, a claim is won once, what is due is
  what a live subscription owes, and an account holds what the plan of its subscription promises.
\<close>

section \<open>A delivery always closes its grant\<close>

definition there :: "nat \<Rightarrow> db \<Rightarrow> bool" where
  "there g d \<longleftrightarrow> g \<in> rid ` set (grants d)"

definition closed_as :: "benefit_grant_status list \<Rightarrow> nat \<Rightarrow> benefit_grant_row list \<Rightarrow> bool" where
  "closed_as statuses g t \<longleftrightarrow> (case fetch g t of None \<Rightarrow> False | Some r \<Rightarrow> bg_status r \<in> set statuses)"

lemma there_fetch: "there g d \<longleftrightarrow> fetch g (grants d) \<noteq> None"
  by (simp add: there_def fetch_None_iff)

lemma there_write_grants: "(\<And>r. p r \<Longrightarrow> rid (f r) = rid r) \<Longrightarrow> effect (keeps (steady (there g))) (write_grants p f)"
  by (rule steady_alter) (simp add: there_def keys_amend)

lemma there_frame: "effect (leaves grants) m \<Longrightarrow> effect (keeps (steady (there g))) m"
  by (erule leaves_keeps) (simp add: there_def)

lemma there_write_benefits: "effect (keeps (steady (there g))) (write_benefits p f)"
  by (rule there_frame, rule leaves_alter) simp

lemma there_write_entitlements: "effect (keeps (steady (there g))) (write_entitlements p f)"
  by (rule there_frame, rule leaves_alter) simp

lemma there_write_subscriptions: "effect (keeps (steady (there g))) (alter subscriptions subscriptions_update holds p f)"
  by (rule there_frame, rule leaves_alter) simp

lemma there_move: "effect (keeps (steady (there g))) (move u c ty amount description key b)"
  by (rule there_frame, rule move_leaves) simp_all

lemma there_grant: "effect (keeps (steady (there g))) (Commerce.grant u p key sub pur b)"
  by (rule there_frame, rule grant_leaves) simp_all

lemmas there_steps = steady_steps there_write_grants there_write_benefits there_write_entitlements
  there_write_subscriptions there_move there_grant

text \<open>No call of the engine loops in a delivery.\<close>

lemmas wp_move_ends = move_ends [folded wp_any]

lemmas wp_grant_ends = grant_ends [folded wp_any]

lemma wp_ends_andThen:
  "wp m (\<lambda>_ _. True) (\<lambda>_ _. True) s \<Longrightarrow> (\<And>x t. wp (k x) (\<lambda>_ _. True) (\<lambda>_ _. True) t) \<Longrightarrow>
    wp (andThen m k) (\<lambda>_ _. True) (\<lambda>_ _. True) s"
  by (auto simp: wp_andThen intro: wp_conseq)

lemma closed_as_write:
  "g \<in> rid ` set t \<Longrightarrow> (\<And>r. rid (f r) = rid r) \<Longrightarrow> (\<And>r. bg_status (f r) \<in> set statuses) \<Longrightarrow>
    closed_as statuses g (amend (named g) f t)"
  using fetch_None_iff [of g t]
  by (auto simp: closed_as_def fetch_amend named_def split: option.splits dest: fetch_Some_in)

lemma rids_amend: "(\<And>r. p r \<Longrightarrow> rid (f r) = rid r) \<Longrightarrow> rid ` set (amend p f t) = rid ` set t"
  by (rule keys_amend)

lemma handlers_close:
  assumes "steady (there (rid g)) s"
  shows "wp (handlers ty b g)
    (\<lambda>_ t. closed_as [benefit_grant_status.COMPLETED, benefit_grant_status.SKIPPED] (rid g) (grants (live t)))
    (\<lambda>_ t. steady (there (rid g)) t) s"
proof (cases ty)
  case ACCESS
  have "rid g \<in> rid ` set (grants (live s))" using assms by (simp add: steady_def there_def)
  with assms show ?thesis
    by (auto simp: ACCESS deliver_access_def wp_flow wp_statements simp del: image_iff split: option.splits intro!: closed_as_write)
next
  case CREDIT
  have m: "wp (move u c t a n k x) (\<lambda>_. steady (there (rid g))) (\<lambda>_. steady (there (rid g))) s" for u c t a n k x
    using wp_and_effect [OF there_move wp_move_ends] by (rule wp_conseq) (use assms in \<open>auto simp: keeps_def\<close>)
  show ?thesis
    using assms unfolding CREDIT handlers.simps deliver_credit_def wp_flow wp_statements
    by (auto split: option.splits intro!: wp_conseq [OF m] closed_as_write simp: steady_def there_def wp_statements wp_flow)
next
  case PRODUCT
  have m: "wp (Commerce.grant u c a n k x) (\<lambda>_. steady (there (rid g))) (\<lambda>_. steady (there (rid g))) s" for u c a n k x
    using wp_and_effect [OF there_grant wp_grant_ends] by (rule wp_conseq) (use assms in \<open>auto simp: keeps_def\<close>)
  show ?thesis
    using assms unfolding PRODUCT handlers.simps deliver_product_def wp_flow wp_statements
    by (auto split: option.splits intro!: wp_conseq [OF m] closed_as_write
        simp: steady_def there_def wp_flow wp_statements rids_amend)
qed

definition stamped :: "datetime \<Rightarrow> nat \<Rightarrow> benefit_grant_row list \<Rightarrow> bool" where
  "stamped moment g t \<longleftrightarrow> (case fetch g t of None \<Rightarrow> False | Some r \<Rightarrow> bg_completed_at r = Some moment)"

lemma stamped_write:
  "g \<in> rid ` set t \<Longrightarrow> (\<And>r. rid (f r) = rid r) \<Longrightarrow> (\<And>r. bg_completed_at (f r) = Some moment) \<Longrightarrow>
    stamped moment g (amend (named g) f t)"
  using fetch_None_iff [of g t]
  by (auto simp: stamped_def fetch_amend named_def split: option.splits dest: fetch_Some_in)

lemma closed_as_keep:
  "closed_as statuses g t \<Longrightarrow> (\<And>r. rid (f r) = rid r) \<Longrightarrow> (\<And>r. bg_status (f r) = bg_status r) \<Longrightarrow>
    closed_as statuses g (amend p f t)"
  by (auto simp: closed_as_def fetch_amend split: option.splits)

abbreviation "done_statuses \<equiv> [benefit_grant_status.COMPLETED, benefit_grant_status.SKIPPED]"

lemma drop_closes:
  assumes "steady (there g) s"
  shows "wp (drop g reason) (\<lambda>_ t. closed_as done_statuses g (grants (live t)) \<and> stamped (clock s) g (grants (live t))) E s"
  using assms by (auto simp: drop_def wp_flow wp_statements steady_def there_def intro!: closed_as_write stamped_write)

lemma there_still_owed: "wp (still_owed b) (\<lambda>_ t. t = s) (\<lambda>_ t. t = s) s"
  by (auto simp: still_owed_def wp_flow wp_statements split: option.splits)

lemma there_policy_allows: "wp (policy_allows b) (\<lambda>_ t. t = s) (\<lambda>_ t. t = s) s"
  by (auto simp: policy_allows_def wp_flow wp_statements Let_def split: option.splits)

lemma attempt_closes:
  assumes "steady (there g) s"
  shows "wp (attempt b g)
    (\<lambda>through t. closed_as done_statuses g (grants (live t)) \<and> (\<not> through \<longrightarrow> stamped (clock s) g (grants (live t))))
    (\<lambda>_ t. steady (there g) t) s"
proof -
  have d: "wp (drop g reason) (\<lambda>_ t. closed_as done_statuses g (grants (live t)) \<and> stamped (clock s) g (grants (live t))) E t"
    if "steady (there g) t" "clock t = clock s" for reason E t
    using drop_closes [OF that(1), of reason E] that(2) by simp
  have h: "wp (handlers ty bb r) (\<lambda>_ t. closed_as done_statuses g (grants (live t))) (\<lambda>_ t. steady (there g) t) t"
    if "fetch g x = Some r" "steady (there g) t" for ty bb r t x
    using handlers_close [of r t ty bb] that fetch_Some_in [OF that(1)] by simp
  have "steady (there g) (s\<lparr>live := (live s)\<lparr>subscriptions := x, subscription_benefits := y\<rparr>\<rparr>)" for x y
    using assms by (simp add: steady_def there_def)
  then show ?thesis
    unfolding attempt_def hold_subscription_def wp_flow wp_statements
    using assms
    by (auto split: option.splits intro!: wp_conseq [OF there_still_owed] wp_conseq [OF there_policy_allows] wp_conseq [OF d]
        wp_conseq [OF h] simp: wp_flow wp_statements)
qed

lemma closed_as_there: "closed_as statuses g t \<Longrightarrow> g \<in> rid ` set t"
  using fetch_None_iff [of g t] by (auto simp: closed_as_def split: option.splits)

lemma closed_as_wider: "closed_as a g t \<Longrightarrow> set a \<subseteq> set b \<Longrightarrow> closed_as b g t"
  by (auto simp: closed_as_def split: option.splits)

abbreviation "final_statuses \<equiv> [benefit_grant_status.COMPLETED, benefit_grant_status.SKIPPED, benefit_grant_status.FAILED]"

lemma deliver_closes:
  assumes "steady (there g) s"
  shows "wp (deliver b g) (\<lambda>_ t. closed_as final_statuses g (grants (live t)) \<and> stamped (clock s) g (grants (live t)))
    (\<lambda>_ _. False) s"
proof -
  have clock: "effect (same clock) (attempt b g)" using obeys_attempt by (simp add: obeys_split)
  have final: "closed_as final_statuses i (amend (named i) (bg_completed_at_update h) t)"
    if "closed_as final_statuses i t" for i t h
    using that by (rule closed_as_keep) simp_all
  have failed: "closed_as final_statuses i (amend (named i) (\<lambda>r. r\<lparr>bg_status := benefit_grant_status.FAILED, bg_error_code := c\<rparr>) t)"
    if "i \<in> rid ` set t" for i t c
    using that by (rule closed_as_write) simp_all
  have wide: "closed_as final_statuses i t" if "closed_as done_statuses i t" for i t
    using that by (rule closed_as_wider) simp
  have stamp: "stamped (clock s) i (amend (named i) (\<lambda>r. r\<lparr>bg_completed_at := Some (clock s)\<rparr>) t)" if "i \<in> rid ` set t" for i t
    using that by (rule stamped_write) simp_all
  have fetched: "\<exists>r. fetch g t = Some r" if "g \<in> rid ` set t" for t :: "benefit_grant_row list"
    using that fetch_None_iff [of g t] by auto
  show ?thesis
    unfolding deliver_def wp_andThen unfolding wp_handle
  proof (rule wp_conseq [OF wp_and_effect [OF clock attempt_closes [OF assms]]])
    fix t and through :: bool
    assume "(closed_as done_statuses g (grants (live t)) \<and> (\<not> through \<longrightarrow> stamped (clock s) g (grants (live t)))) \<and> same clock s t"
    then show "wp (if \<not> through then ret () else andThen now (\<lambda>moment.
        andThen (write_grants (named g) (\<lambda>r. r\<lparr>bg_completed_at := Some moment\<rparr>)) (\<lambda>_. ret ())))
      (\<lambda>_ t. closed_as final_statuses g (grants (live t)) \<and> stamped (clock s) g (grants (live t))) (\<lambda>_ _. False) t"
      by (auto simp: wp_flow wp_statements same_def intro: wide final stamp closed_as_there)
  next
    fix e t
    assume "steady (there g) t \<and> same clock s t"
    then show "wp (andThen rollback (\<lambda>_. andThen (load grants g) (\<lambda>_. andThen (write_grants (named g)
        (\<lambda>r. r\<lparr>bg_status := benefit_grant_status.FAILED, bg_error_code := Some (error_name e)\<rparr>)) (\<lambda>_. ret True))))
      (\<lambda>x. wp (if \<not> x then ret () else andThen now (\<lambda>moment.
        andThen (write_grants (named g) (\<lambda>r. r\<lparr>bg_completed_at := Some moment\<rparr>)) (\<lambda>_. ret ())))
        (\<lambda>_ t. closed_as final_statuses g (grants (live t)) \<and> stamped (clock s) g (grants (live t))) (\<lambda>_ _. False))
      (\<lambda>_ _. False) t"
      using fetched [of "grants (kept t)"]
      by (auto simp: wp_flow wp_statements same_def steady_def there_def rids_amend split: option.splits
          intro!: final failed stamp)
  qed
qed

section \<open>A cycle is delivered once\<close>

definition keyed :: "string \<Rightarrow> db \<Rightarrow> bool" where
  "keyed key d \<longleftrightarrow> key \<in> bg_grant_key ` set (grants d)"

lemma keyed_grows: "grows d e \<Longrightarrow> keyed key d \<Longrightarrow> keyed key e"
proof -
  assume g: "grows d e" "keyed key d"
  have k: "bg_grant_key ` set t = (\<lambda>(_, _, k, _). k) ` set (map grant_identity t)" for t
    by (auto simp: grant_identity_def image_iff)
  from g have "set (map grant_identity (grants d)) \<subseteq> set (map grant_identity (grants e))"
    by (metis grows_def set_mono_prefix)
  with g(2) show ?thesis unfolding keyed_def k by blast
qed

text \<open>What a service that obeys does from a session with nothing uncommitted.\<close>

lemma obeys_grows:
  assumes "effect obeys m" and "live s = kept s"
  shows "grows (live s) (live (snd (m s)))" and "grows (live s) (kept (snd (m s)))"
proof -
  obtain r t where m: "m s = (r, t)" by fastforce
  from assms(1) have "effect (advances grows) m" by (simp add: obeys_split)
  from growth.advancesD [OF this m assms(2)] show "grows (live s) (live (snd (m s)))" "grows (live s) (kept (snd (m s)))"
    using assms(2) m by simp_all
qed

lemma interval_ends: "interval_of b t \<noteq> Hangs"
  by (simp add: interval_of_def add_interval_ends)

lemma advance_ends: "wp (advance b g) (\<lambda>_ _. True) (\<lambda>_ _. True) s"
  using interval_ends by (auto simp: advance_def wp_flow wp_statements split: option.splits outcome.splits)

text \<open>What an advance of the schedule leaves alone.\<close>

lemma advance_same:
  assumes "\<And>d u. f (d\<lparr>subscription_benefits := u\<rparr>) = f d"
  shows "effect (same (\<lambda>s. f (live s))) (advance b g)"
  unfolding advance_def
  by (intro same_order.steps) (auto simp: effect_def same_def statements flow assms Let_def split: option.splits)

lemmas advance_grants = advance_same [of grants]

lemma settled_keyed:
  assumes "bg_user_benefit_key g = None"
  shows "wp (settled g) (\<lambda>w t. live t = kept t \<and> (w \<noteq> Missed \<longrightarrow> keyed (bg_grant_key g) (live t))
    \<and> (\<forall>r. w = Wrote r \<longrightarrow> steady (there (rid r)) t)) E s"
proof -
  obtain w u where io: "insert_or_read accepts_grant (same_identity g) g (grants (live s)) = (w, u)" by fastforce
  from io have key: "w \<noteq> Missed \<longrightarrow> bg_grant_key g \<in> bg_grant_key ` set u"
    by (cases rule: insert_or_read_cases) (simp_all add: same_identity_def assms set_append_row image_iff, metis)
  from io have id: "w = Wrote r \<longrightarrow> rid r \<in> rid ` set u" for r
    by (cases rule: insert_or_read_cases) (simp_all add: set_append_row)
  show ?thesis
    by (simp add: settled_def wp_flow wp_statements wp_settle keyed_def steady_def there_def io key id del: image_iff)
qed

lemma wp_obeys_keyed:
  assumes "effect obeys m" "wp m (\<lambda>_ _. True) E s" "live s = kept s" "keyed key (live s)"
  shows "wp m (\<lambda>_ t. keyed key (live t)) E s"
proof -
  have "keyed key (live (snd (m s)))" using obeys_grows(1) [OF assms(1,3)] assms(4) by (rule keyed_grows)
  with assms(2) show ?thesis by (auto simp: wp_def split: prod.splits outcome.splits)
qed

lemma wp_weak: "wp m Q E s \<Longrightarrow> wp m (\<lambda>_ _. True) (\<lambda>_ _. True) s"
  by (rule wp_conseq) simp_all

lemma run_cycle_keyed:
  assumes "fetch b (subscription_benefits (live s)) = Some r" and "sb_cadence r \<noteq> ONCE_PER_USER" and "rid r = b"
  shows "wp (run_cycle b key at) (\<lambda>w t. (\<exists>g. w = Some g) \<longrightarrow> keyed (cycle_grant_key b key) (live t)) (\<lambda>_ _. True) s"
proof -
  let ?k = "cycle_grant_key b key"
  have new: "bg_grant_key (new_grant r key at m) = ?k" "bg_user_benefit_key (new_grant r key at m) = None" for m
    by (simp_all add: new_grant_def assms(3))
  have skips: "wp (skip b (new_grant r key at m) reason) (\<lambda>w t. (\<exists>g. w = Some g) \<longrightarrow> keyed ?k (live t)) (\<lambda>_ _. True) t" for m reason t
    using settled_keyed new
    by (auto simp: skip_def wp_flow wp_statements Let_def settled_key_def split: settled.splits
        intro!: wp_conseq [OF advance_ends] wp_conseq [OF settled_keyed])
  have tail: "wp (andThen (deliver b g) (\<lambda>_. andThen (load grants g) (\<lambda>h. andThen (advance b h) (\<lambda>_. andThen commit (\<lambda>_. ret (Some g))))))
      (\<lambda>w t. (\<exists>g. w = Some g) \<longrightarrow> keyed ?k (live t)) (\<lambda>_ _. True) t"
    if "live t = kept t" "keyed ?k (live t)" "steady (there g) t" for g t
  proof -
    let ?m = "andThen (deliver b g) (\<lambda>_. andThen (load grants g) (\<lambda>h. andThen (advance b h) (\<lambda>_. andThen commit (\<lambda>_. ret (Some g)))))"
    have "effect obeys ?m" by (intro obeys_steps obeys_deliver obeys_advance)
    moreover have "wp ?m (\<lambda>_ _. True) (\<lambda>_ _. True) t"
      unfolding wp_andThen
      by (rule wp_conseq [OF deliver_closes [OF that(3)]])
        (auto simp: wp_flow wp_statements split: option.splits intro!: wp_conseq [OF advance_ends])
    ultimately have "wp ?m (\<lambda>_ t. keyed ?k (live t)) (\<lambda>_ _. True) t" using that(1,2) by (rule wp_obeys_keyed)
    then show ?thesis by (rule wp_conseq) simp_all
  qed
  show ?thesis
  proof (cases "List.find (\<lambda>g. bg_grant_key g = ?k) (grants (live s))")
    case (Some g)
    then have here: "keyed ?k (live s)" using find_Some_in [OF Some] by (force simp: keyed_def)
    have "wp (advance b g) (\<lambda>_ t. keyed ?k (live t)) (\<lambda>_ _. True) s"
      by (rule wp_conseq [OF wp_and_effect [OF advance_grants advance_ends]])
        (use here in \<open>auto simp: same_def keyed_def\<close>)
    then show ?thesis using Some assms(1)
      by (auto simp: run_cycle_def wp_flow wp_statements elim!: wp_conseq)
  next
    case None
    then show ?thesis
      using assms(1,2) tail
      by (auto simp: run_cycle_def wp_flow wp_statements Let_def new split: settled.splits
        intro!: wp_conseq [OF there_policy_allows] wp_conseq [OF skips] wp_conseq [OF settled_keyed])
  qed
qed

lemma run_cycle_existing:
  assumes "keyed (cycle_grant_key b key) (live s)"
    and "\<And>d u. f (d\<lparr>subscription_benefits := u\<rparr>) = f d"
  shows "f (live (snd (run_cycle b key at s))) = f (live s)"
proof -
  obtain g where g: "List.find (\<lambda>g. bg_grant_key g = cycle_grant_key b key) (grants (live s)) = Some g"
    using assms(1) find_None_iff_all [of "\<lambda>g. bg_grant_key g = cycle_grant_key b key" "grants (live s)"]
    by (auto simp: keyed_def)
  have "f (live (snd (advance b g s))) = f (live s)"
    using advance_same [OF assms(2), of b g] by (simp add: effect_def same_def)
  then show ?thesis
    by (cases "fetch b (subscription_benefits (live s))")
      (auto simp: run_cycle_def g andThen_def [of "advance _ _"] andThen_def [of "load _ _"] split: prod.splits outcome.splits)
qed

section \<open>A grant is claimed once\<close>

interpretation grant_queue: work_queue takeable taken ABANDONED_AFTER
  by unfold_locales (simp_all add: takeable_def taken_def abandoned_def)

lemma claim_row: "claims_row grants takeable taken g (claim g)"
  by (simp add: claims_row_def claim_def taking_abs alter_def free_keys_def Let_def andThen_def)

section \<open>What the end of its period closes\<close>

definition expired_row :: "datetime \<Rightarrow> subscription_row \<Rightarrow> subscription_row" where
  "expired_row moment r = r\<lparr>su_status := subscription_status.EXPIRED, su_expired_at := Some moment,
     su_benefit_status := benefit_status.ENDED\<rparr>"

text \<open>The database once the subscriptions named are closed, with their benefits and their entitlements.\<close>

definition closed_all :: "datetime \<Rightarrow> nat list \<Rightarrow> db \<Rightarrow> db" where
  "closed_all moment is d = d
     \<lparr>subscriptions := amend (\<lambda>r. rid r \<in> set is) (expired_row moment) (subscriptions d),
      user_entitlements := amend (\<lambda>r. ue_subscription r \<in> set is) (\<lambda>r. r\<lparr>ue_status := user_entitlement_status.EXPIRED\<rparr>)
        (user_entitlements d),
      subscription_benefits := amend (\<lambda>r. sb_subscription r \<in> set is)
        (\<lambda>r. r\<lparr>sb_status := benefit_status.ENDED, sb_next_grant_at := None\<rparr>) (subscription_benefits d)\<rparr>"

lemma amend_amend:
  assumes "\<And>r. p r \<Longrightarrow> q (f r) \<Longrightarrow> f (f r) = f r" and "\<And>r. \<not> p r \<Longrightarrow> q r = c r" and "\<And>r. p r \<Longrightarrow> c r"
  shows "amend q f (amend p f t) = amend c f t"
  using assms by (simp add: amend_def)

lemma concat_singletons: "concat (map (\<lambda>i. [i]) xs) = xs"
  by (induction xs) simp_all

lemma closing_each:
  assumes "distinct is" and "distinct (map rid (subscriptions (live s)))"
    and "\<forall>i\<in>set is. \<exists>r. fetch i (subscriptions (live s)) = Some r \<and> past_access moment r"
  shows "each (\<lambda>subscription.
       andThen (write_subscriptions (\<lambda>r. named subscription r \<and> past_access moment r) (expired_row moment))
       (\<lambda>rowcount. if rowcount \<noteq> 1 then ret [] else
         andThen (end_benefits subscription) (\<lambda>_. ret [subscription]))) is s
    = (Ok (map (\<lambda>i. [i]) is), s\<lparr>live := closed_all moment is (live s)\<rparr>)"
  using assms
proof (induction "is" arbitrary: s)
  case Nil
  then show ?case by (simp add: closed_all_def amend_none)
next
  case (Cons i js)
  let ?d = "live s"
  let ?t = "s\<lparr>live := closed_all moment [i] ?d\<rparr>"
  from Cons.prems(3) obtain r where r: "fetch i (subscriptions ?d) = Some r" "past_access moment r" by auto
  have only: "named i x \<and> past_access moment x \<longleftrightarrow> rid x \<in> {i}" if "x \<in> set (subscriptions ?d)" for x
    using fetch_distinct [OF Cons.prems(2) that] r by (auto simp: named_def)
  have rows: "amend (\<lambda>r. named i r \<and> past_access moment r) (expired_row moment) (subscriptions ?d)
      = amend (\<lambda>r. rid r \<in> {i}) (expired_row moment) (subscriptions ?d)"
    unfolding amend_def by (rule map_cong) (simp_all only: only)
  have step: "andThen (write_subscriptions (\<lambda>r. named i r \<and> past_access moment r) (expired_row moment))
       (\<lambda>rowcount. if rowcount \<noteq> 1 then ret [] else andThen (end_benefits i) (\<lambda>_. ret [i])) s = (Ok [i], ?t)"
    using hits_alone [OF Cons.prems(2) r(1), of "past_access moment"] r(2)
    by (simp add: alter_def andThen_def free_keys_def Let_def end_benefits_def expire_entitlements_def rows closed_all_def
        of_subscription_def [abs_def])
  have others: "fetch j (subscriptions (closed_all moment [i] ?d)) = fetch j (subscriptions ?d)" if "j \<in> set js" for j
  proof -
    have "j \<noteq> i" using that Cons.prems(1) by auto
    then show ?thesis
      by (cases "fetch j (subscriptions ?d)") (auto simp: closed_all_def fetch_amend expired_row_def dest: fetch_Some_in)
  qed
  have both: "amend (\<lambda>r. k r \<in> set js) f (amend (\<lambda>r. k r = i) f t) = amend (\<lambda>r. k r = i \<or> k r \<in> set js) f t"
    if "\<And>r. f (f r) = f r" "\<And>r. k (f r) = k r" for k :: "'a row_scheme \<Rightarrow> nat" and f and t :: "'a row_scheme list"
    by (rule amend_amend) (auto simp: that)
  have "closed_all moment js (closed_all moment [i] ?d) = closed_all moment (i # js) ?d"
    unfolding closed_all_def by (simp add: both expired_row_def)
  moreover have "distinct (map rid (subscriptions (live ?t)))"
    using Cons.prems(2) by (simp add: closed_all_def amend_rid expired_row_def)
  moreover have "\<forall>j\<in>set js. \<exists>r. fetch j (subscriptions (live ?t)) = Some r \<and> past_access moment r"
    using Cons.prems(3) others by simp
  moreover have "distinct js" using Cons.prems(1) by simp
  ultimately show ?case using Cons.IH [of ?t] step by (simp add: andThen_def)
qed

section \<open>What the engine promises\<close>

text \<open>
  C6: A delivery is contained. Whatever is raised under it (a currency that is gone, a balance that is full, a
  constraint the database enforced), \<open>deliver\<close> returns, and the grant it was given is closed by it:
  completed, skipped or failed, and stamped with the moment.
\<close>

theorem delivery_is_contained:
  assumes "steady (there g) s"
  shows "\<exists>t r. deliver b g s = (Ok (), t) \<and> fetch g (grants (live t)) = Some r
    \<and> bg_status r \<in> {benefit_grant_status.COMPLETED, benefit_grant_status.SKIPPED, benefit_grant_status.FAILED}
    \<and> bg_completed_at r = Some (clock s)"
  using deliver_closes [OF assms, of b]
  by (auto simp: wp_def closed_as_def stamped_def split: prod.splits outcome.splits option.splits)

theorem delivery_is_contained_witness:
  "\<exists>t r. deliver 1 1 sample_failed = (Ok (), t) \<and> fetch 1 (grants (live t)) = Some r
    \<and> bg_status r \<in> {benefit_grant_status.COMPLETED, benefit_grant_status.SKIPPED, benefit_grant_status.FAILED}
    \<and> bg_completed_at r = Some (clock sample_failed)"
  by (rule delivery_is_contained) (simp add: steady_def there_def sample_defs)



text \<open>
  C25: A grant is claimed by one pass. Passes that overlap reach a grant in any order, each with a clock of
  its own; as long as no claim is older than what counts as abandoned, at most one of them gets it.
\<close>

theorem grant_claimed_once:
  assumes "distinct (map rid (grants (live s)))"
    and "\<forall>m\<in>set moments. \<forall>n\<in>set moments. \<not> before_by n ABANDONED_AFTER m"
  shows "\<exists>won. value_of (each (\<lambda>m. at_clock m (claim g)) moments) s = Ok won \<and> length (filter (\<lambda>w. w) won) \<le> 1"
  using race_is_wins [OF claim_row] grant_queue.one_winner [OF assms] by auto

theorem grant_claimed_once_witness:
  "\<exists>won. value_of (each (\<lambda>m. at_clock m (claim 1)) [on_day 2024 3 5, on_day 2024 3 5, on_day 2024 3 5]) sample_failed = Ok won
    \<and> length (filter (\<lambda>w. w) won) \<le> 1"
  by (rule grant_claimed_once) (simp_all add: sample_defs before_by_def ABANDONED_AFTER_def minutes_def)

text \<open>
  C22: The end of a period closes what it should and nothing else. One pass of \<open>expire_subscriptions\<close> answers
  the subscriptions still eligible whose access is past, up to its batch, and leaves the database with
  exactly those expired, their benefits ended with no date to run on and their entitlements expired.
\<close>

theorem expiry_closes_the_past:
  assumes "distinct (map rid (subscriptions (live s)))"
  shows "let closed = map rid (take EXPIRY_BATCH (filter (past_access (clock s)) (subscriptions (live s))));
             left = closed_all (clock s) closed (live s) in
    expire_subscriptions s = (Ok closed, s\<lparr>live := left, kept := left\<rparr>)"
proof -
  let ?is = "map rid (take EXPIRY_BATCH (filter (past_access (clock s)) (subscriptions (live s))))"
  have "distinct ?is"
    using assms by (simp add: take_map [symmetric] distinct_map_filter)
  moreover have "\<exists>r. fetch i (subscriptions (live s)) = Some r \<and> past_access (clock s) r" if "i \<in> set ?is" for i
  proof -
    from that obtain r where "r \<in> set (subscriptions (live s))" "past_access (clock s) r" "i = rid r"
      using set_take_subset by fastforce
    with fetch_distinct [OF assms] show ?thesis by blast
  qed
  ultimately have "each (\<lambda>subscription.
       andThen (write_subscriptions (\<lambda>r. named subscription r \<and> past_access (clock s) r) (expired_row (clock s)))
       (\<lambda>rowcount. if rowcount \<noteq> 1 then ret [] else
         andThen (end_benefits subscription) (\<lambda>_. ret [subscription]))) ?is s
    = (Ok (map (\<lambda>i. [i]) ?is), s\<lparr>live := closed_all (clock s) ?is (live s)\<rparr>)"
    using assms by (intro closing_each) blast+
  from this [unfolded expired_row_def [abs_def]] show ?thesis
    by (simp add: expire_subscriptions_def andThen_def [of "each _ _"] Let_def concat_singletons del: map_map)
qed

theorem expiry_closes_the_past_witness:
  "fst (expire_subscriptions (opened_at (on_day 2026 1 1) sample_db)) = Ok [1]"
proof -
  have "distinct (map rid (subscriptions (live (opened_at (on_day 2026 1 1) sample_db))))" by (simp add: sample_defs)
  from expiry_closes_the_past [OF this] show ?thesis
    by (simp add: Let_def) (simp add: sample_defs past_access_def status_groups EXPIRY_BATCH_def less_datetime_def)
qed

text \<open>
  C20: A subscription that is not eligible gives nothing while it stays so. Activating it hands out no grant,
  expires every entitlement it gave, and leaves each of its running benefits paused with no date, so that
  no later pass finds one due; what it had delivered is not taken back.
\<close>

theorem paused_subscription_gives_nothing:
  assumes "fetch sub (subscriptions (live s)) = Some r" and "\<not> is_eligible_for_benefits r"
  shows "let e = amend (\<lambda>q. ue_subscription q = sub) (\<lambda>q. q\<lparr>ue_status := user_entitlement_status.EXPIRED\<rparr>) (user_entitlements (live s));
             b = amend (\<lambda>q. of_subscription sub q \<and> sb_status q = benefit_status.ACTIVE)
               (\<lambda>q. q\<lparr>sb_status := PAUSED, sb_next_grant_at := None\<rparr>) (subscription_benefits (live s));
             left = (live s)\<lparr>user_entitlements := e, subscription_benefits := b\<rparr> in
    activate sub s = (Ok [], s\<lparr>live := left, kept := left\<rparr>)
    \<and> (\<forall>q\<in>set b. of_subscription sub q \<longrightarrow> \<not> is_due moment left q)"
proof -
  have id: "amend p (\<lambda>r. r) t = t" for p and t :: "subscription_row list" by (simp add: amend_def)
  show ?thesis using assms
    by (auto simp: activate_def hold_subscription_def alter_def free_keys_def Let_def andThen_def need_def expire_entitlements_def
        commit_def writes_def id set_amend is_due_def)
qed

theorem paused_subscription_gives_nothing_witness:
  "fst (activate 1 (opened_at (on_day 2024 3 5) (promised_db\<lparr>subscriptions := [sample_subscription\<lparr>su_status := SUSPENDED\<rparr>]\<rparr>))) = Ok []"
proof -
  let ?s = "opened_at (on_day 2024 3 5) (promised_db\<lparr>subscriptions := [sample_subscription\<lparr>su_status := SUSPENDED\<rparr>]\<rparr>)"
  have "fetch 1 (subscriptions (live ?s)) = Some (sample_subscription\<lparr>su_status := SUSPENDED\<rparr>)"
    by (simp add: opened_at_def fetch_def sample_subscription_def)
  moreover have "\<not> is_eligible_for_benefits (sample_subscription\<lparr>su_status := SUSPENDED\<rparr>)"
    by (simp add: is_eligible_for_benefits_def status_groups)
  ultimately show ?thesis using paused_subscription_gives_nothing [of 1 ?s] by (simp add: Let_def)
qed

end
