(* ===== verification/Promises.thy ===== *)
theory Promises
  imports Delivery_Facts
begin

text \<open>
  What an account holds once its entitlements were reconciled with the plan of its subscription: every
  entitlement of the plan is active and lasts as long as the access does, and every other one of that
  subscription is expired, whatever plan it came from.
\<close>

section \<open>The rows of one subscription while the plan is walked\<close>

definition belongs :: "nat \<Rightarrow> nat \<Rightarrow> user_entitlement_row \<Rightarrow> bool" where
  "belongs sub e r \<longleftrightarrow> ue_subscription r = sub \<and> ue_entitlement r = e"

definition running_until :: "datetime option \<Rightarrow> user_entitlement_row \<Rightarrow> bool" where
  "running_until until r \<longleftrightarrow> ue_status r = user_entitlement_status.ACTIVE \<and> ue_expires_at r = until"

text \<open>
  Between two promises: the rows of the promised ones run, each has a row, and a row of the subscription
  is a promised one or one the walk started from, still under its key.
\<close>

definition promising :: "nat \<Rightarrow> datetime option \<Rightarrow> user_entitlement_row list \<Rightarrow> nat set \<Rightarrow> user_entitlement_row list \<Rightarrow> bool" where
  "promising sub until before done t \<longleftrightarrow>
     distinct (map rid t) \<and> unique_on user_entitlement_key t
     \<and> (\<forall>r\<in>set t. \<forall>e\<in>done. belongs sub e r \<longrightarrow> running_until until r)
     \<and> (\<forall>e\<in>done. \<exists>r\<in>set t. belongs sub e r)
     \<and> (\<forall>r\<in>set t. ue_subscription r = sub \<longrightarrow> ue_entitlement r \<in> done \<union> ue_entitlement ` set before)
     \<and> (\<forall>q\<in>set before. \<exists>r\<in>set t. rid r = rid q \<and> belongs sub (ue_entitlement q) r)"

lemma amend_named_twice:
  "(\<And>r. rid (f r) = rid r) \<Longrightarrow> amend (named k) g (amend (named k) f t) = amend (named k) (\<lambda>r. g (f r)) t"
  by (simp add: amend_def named_def)

lemma promising_runs:
  assumes p: "promising sub until before done t" and r: "r \<in> set t" "belongs sub e r" and f: "running_until until (f r)"
    and same: "\<And>x. rid (f x) = rid x \<and> ue_subscription (f x) = ue_subscription x \<and> ue_entitlement (f x) = ue_entitlement x"
  shows "promising sub until before (insert e done) (amend (named (rid r)) f t)"
proof -
  let ?u = "amend (named (rid r)) f t"
  have d: "distinct (map rid t)" and u: "unique_on user_entitlement_key t" using p by (simp_all add: promising_def)
  have origin: "\<exists>x\<in>set t. y = (if x = r then f r else x)" if y: "y \<in> set ?u" for y
  proof -
    from y obtain x where x: "x \<in> set t" "y = (if named (rid r) x then f x else x)" by (auto simp: set_amend)
    have "named (rid r) x \<longleftrightarrow> x = r"
      using d x(1) r(1) fetch_distinct [OF d] by (auto simp: named_def) (metis option.inject)
    with x show ?thesis by auto
  qed
  have keep: "\<exists>y\<in>set ?u. rid y = rid x \<and> ue_subscription y = ue_subscription x \<and> ue_entitlement y = ue_entitlement x"
    if "x \<in> set t" for x
  proof
    show "(if named (rid r) x then f x else x) \<in> set ?u" using that by (simp add: amend_def)
  qed (use same in simp)
  have one: "x = r" if "x \<in> set t" "belongs sub e x" for x
    using unique_onD [OF u that(1) r(1)] that(2) r(2) by (simp add: user_entitlement_key_def belongs_def)
  have "distinct (map rid ?u)" "unique_on user_entitlement_key ?u"
    using d u same by (simp_all add: amend_rid unique_on_amend user_entitlement_key_def)
  moreover have "running_until until y" if "y \<in> set ?u" "i \<in> insert e done" "belongs sub i y" for y i
  proof -
    from origin [OF that(1)] obtain x where x: "x \<in> set t" "y = (if x = r then f r else x)" by blast
    then have "belongs sub i x" using that(3) same [of r] by (auto simp: belongs_def split: if_splits)
    show ?thesis
    proof (cases "x = r")
      case True
      with x f show ?thesis by simp
    next
      case False
      then have "i \<in> done" using one [OF x(1)] \<open>belongs sub i x\<close> that(2) by auto
      with p x False \<open>belongs sub i x\<close> show ?thesis unfolding promising_def by auto
    qed
  qed
  moreover have "\<exists>y\<in>set ?u. belongs sub i y" if "i \<in> insert e done" for i
  proof -
    from that p r have "\<exists>x\<in>set t. belongs sub i x" by (auto simp: promising_def)
    then obtain x where "x \<in> set t" "belongs sub i x" by blast
    with keep [of x] show ?thesis by (auto simp: belongs_def)
  qed
  moreover have "ue_entitlement y \<in> insert e done \<union> ue_entitlement ` set before" if "y \<in> set ?u" "ue_subscription y = sub" for y
  proof -
    from origin [OF that(1)] obtain x where x: "x \<in> set t" "y = (if x = r then f r else x)" by blast
    then have "ue_subscription x = sub" "ue_entitlement x = ue_entitlement y"
      using that(2) same [of r] by (auto split: if_splits)
    with p x(1) show ?thesis unfolding promising_def by (metis UnE UnI2 insertI2 Un_insert_left insertCI)
  qed
  moreover have "\<exists>y\<in>set ?u. rid y = rid q \<and> belongs sub (ue_entitlement q) y" if "q \<in> set before" for q
  proof -
    from p that obtain x where "x \<in> set t" "rid x = rid q" "belongs sub (ue_entitlement q) x" by (auto simp: promising_def)
    with keep [of x] show ?thesis by (auto simp: belongs_def)
  qed
  ultimately show ?thesis unfolding promising_def by simp
qed

lemma promising_new:
  assumes p: "promising sub until before done t" and free: "free_of user_entitlement_key t r"
    and r: "belongs sub e r" and f: "\<And>i. running_until until (f (r\<lparr>rid := i\<rparr>))"
    and same: "\<And>x. rid (f x) = rid x \<and> ue_subscription (f x) = ue_subscription x \<and> ue_entitlement (f x) = ue_entitlement x"
  shows "promising sub until before (insert e done) (amend (named (next_id t)) f (append_row r t))"
proof -
  let ?n = "r\<lparr>rid := next_id t\<rparr>"
  have old: "x \<in> set t \<Longrightarrow> \<not> named (next_id t) x" for x using rid_less_next [of x t] by (auto simp: named_def)
  have u: "amend (named (next_id t)) f (append_row r t) = t @ [f ?n]"
    using amend_none [of t "named (next_id t)" f] old by (simp add: append_row_def amend_def named_def)
  have apart: "\<not> belongs sub e x" if "x \<in> set t" for x
    using free r that by (auto simp: free_of_keys user_entitlement_key_def belongs_def image_iff)
  have n: "rid (f ?n) = next_id t" "ue_subscription (f ?n) = sub" "ue_entitlement (f ?n) = e"
    using same [of ?n] r by (simp_all add: belongs_def)
  have "distinct (map rid (t @ [f ?n]))" using p n rid_less_next [of _ t] by (fastforce simp: promising_def)
  moreover have "unique_on user_entitlement_key (t @ [f ?n])"
    using p free n r by (simp add: promising_def unique_on_append free_of_def user_entitlement_key_def belongs_def)
  moreover have "running_until until y" if "y \<in> set t \<union> {f ?n}" "i \<in> insert e done" "belongs sub i y" for y i
    using that p apart [of y] n f [of "next_id t"] by (auto simp: promising_def belongs_def)
  moreover have "\<exists>y\<in>set t \<union> {f ?n}. belongs sub i y" if "i \<in> insert e done" for i
    using that p n by (auto simp: promising_def belongs_def)
  moreover have "ue_entitlement y \<in> insert e done \<union> ue_entitlement ` set before" if "y \<in> set t \<union> {f ?n}" "ue_subscription y = sub" for y
    using that p n unfolding promising_def by (elim UnE) auto
  moreover have "\<exists>y\<in>set t \<union> {f ?n}. rid y = rid q \<and> belongs sub (ue_entitlement q) y" if "q \<in> set before" for q
    using that p by (auto simp: promising_def)
  ultimately show ?thesis unfolding u promising_def by simp
qed

section \<open>One promise, and the walk\<close>

lemma promise_step:
  assumes p: "promising (rid s) (su_access_until s) before done (user_entitlements (live t))"
  shows "wp (promise_entitlement s before moment pe)
    (\<lambda>x u. fst x = pe_entitlement pe
      \<and> promising (rid s) (su_access_until s) before (insert (pe_entitlement pe) done) (user_entitlements (live u))) E t"
proof -
  let ?e = "pe_entitlement pe" and ?t = "user_entitlements (live t)"
  let ?new = "\<lparr>rid = 0, ue_subscription = rid s, ue_entitlement = ?e, ue_status = user_entitlement_status.ACTIVE,
    ue_started_at = Some moment, ue_expires_at = None, ue_revoked_at = None\<rparr>"
  show ?thesis
  proof (cases "List.find (\<lambda>r. ue_entitlement r = ?e) before")
    case (Some q)
    then have "q \<in> set before" "ue_entitlement q = ?e" using find_Some_in by force+
    with p obtain r where r: "r \<in> set ?t" "rid r = rid q" "belongs (rid s) ?e r" by (auto simp: promising_def)
    show ?thesis
      using promising_runs [OF p r(1,3), of "\<lambda>r. r\<lparr>ue_status := user_entitlement_status.ACTIVE, ue_revoked_at := None,
          ue_expires_at := su_access_until s\<rparr>"] Some r(2)
      by (simp add: promise_entitlement_def wp_flow wp_statements amend_named_twice running_until_def)
  next
    case None
    then have fresh: "?e \<notin> ue_entitlement ` set before" by (auto simp: find_None_iff_all)
    obtain w u where io: "insert_or_read (free_of user_entitlement_key) (\<lambda>r. ue_subscription r = rid s \<and> ue_entitlement r = ?e) ?new ?t = (w, u)"
      by fastforce
    note result = None io wp_settle promise_entitlement_def Let_def wp_flow wp_statements
    from io show ?thesis
    proof (cases rule: insert_or_read_cases)
      case (found q)
      then have "belongs (rid s) ?e q" "q \<in> set ?t" by (simp_all add: belongs_def)
      moreover have "ue_entitlement q \<in> done \<union> ue_entitlement ` set before"
        using p calculation unfolding promising_def belongs_def by blast
      with fresh calculation have "?e \<in> done" by (simp add: belongs_def)
      with p calculation have "running_until (su_access_until s) q" by (auto simp: promising_def)
      ultimately show ?thesis
        using promising_runs [OF p, of q ?e "\<lambda>r. r\<lparr>ue_expires_at := su_access_until s\<rparr>"] found(1,2)
        by (simp add: result running_until_def)
    next
      case wrote
      then show ?thesis
        using promising_new [OF p wrote(3), of ?e "\<lambda>r. r\<lparr>ue_expires_at := su_access_until s\<rparr>"]
        by (simp add: result running_until_def belongs_def)
    next
      case missed
      then show ?thesis
        by (auto simp: free_of_keys user_entitlement_key_def find_None_iff_all)
    qed
  qed
qed

lemma promise_walk:
  assumes "promising (rid s) (su_access_until s) before done (user_entitlements (live t))"
  shows "wp (each (promise_entitlement s before moment) pes)
    (\<lambda>xs u. map fst xs = map pe_entitlement pes
      \<and> promising (rid s) (su_access_until s) before (done \<union> pe_entitlement ` set pes) (user_entitlements (live u))) E t"
  using assms
proof (induction pes arbitrary: "done" t)
  case Nil
  then show ?case by (simp add: wp_ret del: ret_apply)
next
  case (Cons pe pes)
  show ?case
    unfolding each.simps wp_andThen
    by (rule wp_conseq [OF promise_step [OF Cons.prems]])
      (auto simp: wp_flow intro!: wp_conseq [OF Cons.IH])
qed

section \<open>What the plan does not promise\<close>

definition swept :: "nat set \<Rightarrow> user_entitlement_row list \<Rightarrow> user_entitlement_row list \<Rightarrow> bool" where
  "swept promised before t \<longleftrightarrow> (\<forall>q\<in>set before. ue_entitlement q \<notin> promised \<longrightarrow>
     (\<forall>r\<in>set t. rid r = rid q \<longrightarrow> ue_status r = user_entitlement_status.EXPIRED))"

definition expire_row :: "user_entitlement_row \<Rightarrow> user_entitlement_row" where
  "expire_row r = r\<lparr>ue_status := user_entitlement_status.EXPIRED\<rparr>"

lemma expire_row_same [simp]:
  "rid (expire_row r) = rid r" "ue_subscription (expire_row r) = ue_subscription r"
  "ue_entitlement (expire_row r) = ue_entitlement r" "ue_status (expire_row r) = user_entitlement_status.EXPIRED"
  by (simp_all add: expire_row_def)

lemma promising_expires:
  assumes p: "promising sub until before done t" and q: "q \<in> set before" "ue_entitlement q \<notin> done"
  shows "promising sub until before done (amend (named (rid q)) expire_row t)"
proof -
  let ?u = "amend (named (rid q)) expire_row t"
  have d: "distinct (map rid t)" and u: "unique_on user_entitlement_key t" using p by (simp_all add: promising_def)
  from p q(1) obtain r where r: "r \<in> set t" "rid r = rid q" "belongs sub (ue_entitlement q) r" by (auto simp: promising_def)
  have origin: "\<exists>x\<in>set t. ue_subscription y = ue_subscription x \<and> ue_entitlement y = ue_entitlement x \<and> (rid x \<noteq> rid q \<longrightarrow> y = x)"
    if "y \<in> set ?u" for y
    using that by (auto simp: set_amend named_def split: if_splits)
  have keep: "\<exists>y\<in>set ?u. rid y = rid x \<and> ue_subscription y = ue_subscription x \<and> ue_entitlement y = ue_entitlement x"
    if "x \<in> set t" for x
  proof
    show "(if named (rid q) x then expire_row x else x) \<in> set ?u" using that by (simp add: amend_def)
  qed simp
  have "distinct (map rid ?u)" "unique_on user_entitlement_key ?u"
    using d u by (simp_all add: amend_rid unique_on_amend user_entitlement_key_def)
  moreover have "running_until until y" if "y \<in> set ?u" "e \<in> done" "belongs sub e y" for y e
  proof -
    from that(1) obtain x where x: "x \<in> set t" "y = (if named (rid q) x then expire_row x else x)" by (auto simp: set_amend)
    then have b: "belongs sub e x" using that(3) by (auto simp: belongs_def split: if_splits)
    have "rid x \<noteq> rid q"
    proof
      assume "rid x = rid q"
      with r(1,2) x(1) d have "x = r" using fetch_distinct by (metis option.inject)
      with b r(3) q(2) that(2) show False by (simp add: belongs_def)
    qed
    with x b that(2) p show ?thesis unfolding promising_def by (auto simp: named_def)
  qed
  moreover have "\<exists>y\<in>set ?u. belongs sub e y" if "e \<in> done" for e
  proof -
    from that p obtain x where "x \<in> set t" "belongs sub e x" by (auto simp: promising_def)
    with keep [of x] show ?thesis by (auto simp: belongs_def)
  qed
  moreover have "ue_entitlement y \<in> done \<union> ue_entitlement ` set before" if "y \<in> set ?u" "ue_subscription y = sub" for y
    using origin [OF that(1)] that(2) p unfolding promising_def by metis
  moreover have "\<exists>y\<in>set ?u. rid y = rid i \<and> belongs sub (ue_entitlement i) y" if "i \<in> set before" for i
  proof -
    from that p obtain x where "x \<in> set t" "rid x = rid i" "belongs sub (ue_entitlement i) x" by (auto simp: promising_def)
    with keep [of x] show ?thesis by (auto simp: belongs_def)
  qed
  ultimately show ?thesis unfolding promising_def by simp
qed

lemma sweep_walk:
  assumes "promising sub until before done (user_entitlements (live t))" and "swept done seen (user_entitlements (live t))"
    and "set rest \<subseteq> set before"
  shows "wp (each (\<lambda>r. if ue_entitlement r \<in> done then ret () else andThen (write_entitlements (named (rid r)) expire_row) (\<lambda>_. ret ())) rest)
    (\<lambda>_ u. promising sub until before done (user_entitlements (live u)) \<and> swept done (seen @ rest) (user_entitlements (live u))) E t"
  using assms
proof (induction rest arbitrary: seen t)
  case Nil
  then show ?case by (simp add: wp_ret del: ret_apply)
next
  case (Cons q rest)
  show ?case
  proof (cases "ue_entitlement q \<in> done")
    case True
    with Cons.prems have "swept done (seen @ [q]) (user_entitlements (live t))" by (simp add: swept_def)
    with Cons.IH [of t "seen @ [q]"] Cons.prems True show ?thesis by (simp add: wp_flow)
  next
    case False
    let ?u = "amend (named (rid q)) expire_row (user_entitlements (live t))"
    have "promising sub until before done ?u" using promising_expires Cons.prems False by simp
    moreover have "swept done (seen @ [q]) ?u"
      using Cons.prems(2) unfolding swept_def by (auto simp: set_amend named_def split: if_splits) (metis expire_row_same(4))+
    ultimately show ?thesis
      using Cons.IH [of "t\<lparr>live := (live t)\<lparr>user_entitlements := ?u\<rparr>\<rparr>" "seen @ [q]"] Cons.prems(3) False
      by (simp add: wp_flow wp_statements)
  qed
qed

definition promised_by :: "nat \<Rightarrow> db \<Rightarrow> nat set" where
  "promised_by plan d = pe_entitlement ` {r \<in> set (plan_entitlements d). pe_plan r = plan}"

definition keeps_promise :: "subscription_row \<Rightarrow> nat set \<Rightarrow> user_entitlement_row list \<Rightarrow> bool" where
  "keeps_promise s promised t \<longleftrightarrow>
     (\<forall>e\<in>promised. \<exists>r\<in>set t. belongs (rid s) e r)
     \<and> (\<forall>r\<in>set t. ue_subscription r = rid s \<longrightarrow>
          (if ue_entitlement r \<in> promised then running_until (su_access_until s) r
           else ue_status r = user_entitlement_status.EXPIRED))"

lemma reconcile_promise:
  assumes "distinct (map rid (user_entitlements (live t)))" and "unique_on user_entitlement_key (user_entitlements (live t))"
  shows "wp (reconcile_entitlements s) (\<lambda>promised u. keeps_promise s (promised_by (su_plan s) (live t)) (user_entitlements (live u))) E t"
proof -
  let ?before = "filter (\<lambda>r. ue_subscription r = rid s) (user_entitlements (live t))"
  let ?pes = "filter (\<lambda>r. pe_plan r = su_plan s) (plan_entitlements (live t))"
  let ?P = "promised_by (su_plan s) (live t)"
  have P: "pe_entitlement ` set ?pes = ?P" by (auto simp: promised_by_def)
  have start: "promising (rid s) (su_access_until s) ?before {} (user_entitlements (live t))"
    using assms by (auto simp: promising_def belongs_def)
  have final: "keeps_promise s ?P u" if "promising (rid s) (su_access_until s) ?before ?P u" "swept ?P ?before u" for u
  proof -
    have "ue_status r = user_entitlement_status.EXPIRED" if r: "r \<in> set u" "ue_subscription r = rid s" "ue_entitlement r \<notin> ?P" for r
    proof -
      from r \<open>promising _ _ _ _ u\<close> obtain q where q: "q \<in> set ?before" "ue_entitlement r = ue_entitlement q"
        unfolding promising_def by blast
      with \<open>promising _ _ _ _ u\<close> obtain x where x: "x \<in> set u" "rid x = rid q" "belongs (rid s) (ue_entitlement q) x"
        unfolding promising_def by blast
      have "unique_on user_entitlement_key u" using \<open>promising _ _ _ _ u\<close> by (simp add: promising_def)
      then have "x = r"
        by (rule unique_onD [OF _ x(1) r(1)]) (use x(3) r(2) q(2) in \<open>simp_all add: user_entitlement_key_def belongs_def\<close>)
      with x q r \<open>swept _ _ u\<close> show ?thesis unfolding swept_def by metis
    qed
    with \<open>promising _ _ _ _ u\<close> show ?thesis by (auto simp: keeps_promise_def promising_def belongs_def)
  qed
  have sweep: "wp (each (\<lambda>r. if ue_entitlement r \<in> ?P then ret () else andThen (write_entitlements (named (rid r))
      (\<lambda>r. r\<lparr>ue_status := user_entitlement_status.EXPIRED\<rparr>)) (\<lambda>_. ret ())) ?before)
      (\<lambda>_ u. keeps_promise s ?P (user_entitlements (live u))) E u"
    if "promising (rid s) (su_access_until s) ?before ?P (user_entitlements (live u))" for u
    unfolding expire_row_def [abs_def, symmetric]
    by (rule wp_conseq [OF sweep_walk [OF that, of "[]"]]) (use final in \<open>simp_all add: swept_def\<close>)
  show ?thesis
    unfolding reconcile_entitlements_def entitlements_of_def wp_andThen wp_statements
  proof (rule wp_conseq [OF promise_walk [OF start, where E = E]])
    fix xs :: "(nat \<times> nat) list" and u :: session
    assume walked: "map fst xs = map pe_entitlement ?pes
      \<and> promising (rid s) (su_access_until s) ?before ({} \<union> pe_entitlement ` set ?pes) (user_entitlements (live u))"
    then have "set (map fst xs) = ?P" using P by (metis set_map)
    with walked show "wp (each (\<lambda>r. if ue_entitlement r \<in> set (map fst xs) then ret () else andThen
        (write_entitlements (named (rid r)) (\<lambda>r. r\<lparr>ue_status := user_entitlement_status.EXPIRED\<rparr>)) (\<lambda>_. ret ())) ?before)
      (\<lambda>_. wp (ret xs) (\<lambda>_ u. keeps_promise s ?P (user_entitlements (live u))) E) E u"
      unfolding wp_ret by (simp only: P Un_empty_left sweep)
  qed
qed

section \<open>The promise\<close>

text \<open>
  C21: An account holds what its plan promises. Reconciling a subscription with the plan it is on always
  answers, and leaves every entitlement of the plan active for as long as the access lasts, and every other
  entitlement the subscription ever gave expired, whichever plan it came from.
\<close>

theorem entitlements_follow_the_plan:
  assumes "distinct (map rid (user_entitlements (live t)))" and "unique_on user_entitlement_key (user_entitlements (live t))"
  shows "\<exists>promised u. reconcile_entitlements s t = (Ok promised, u)
    \<and> keeps_promise s (promised_by (su_plan s) (live t)) (user_entitlements (live u))"
  using reconcile_promise [OF assms, of s "\<lambda>_ _. False"]
  by (auto simp: wp_def split: prod.splits outcome.splits)

theorem entitlements_follow_the_plan_witness:
  "\<exists>promised u. reconcile_entitlements (sample_subscription\<lparr>su_plan := 2\<rparr>) sample_failed = (Ok promised, u)
    \<and> keeps_promise (sample_subscription\<lparr>su_plan := 2\<rparr>) (promised_by (su_plan (sample_subscription\<lparr>su_plan := 2\<rparr>)) (live sample_failed))
        (user_entitlements (live u))"
  by (rule entitlements_follow_the_plan) (simp_all add: sample_defs free_of_def user_entitlement_key_def)

end
