(* ===== verification/Reports.thy ===== *)
theory Reports
  imports Reconciliation Queue Sample
begin

text \<open>
  \<^verbatim>\<open>services/app_event_service.py\<close>: what an app reports is written down under the UUID the app drew, so a batch
  sent again lands once, and a pass claims each report, reads it and closes it. The parameters of a report are
  carried to the system log and read by nothing here, so they are left out.
\<close>

definition MAX_ATTEMPTS :: nat where
  "MAX_ATTEMPTS = 5"

definition BATCH :: nat where
  "BATCH = 200"

definition EVENT_CATEGORIES :: "(string \<times> log_category) list" where
  "EVENT_CATEGORIES = [(''checkout-started'', PURCHASE), (''product-purchased'', PURCHASE), (''content-viewed'', CONTENT),
     (''gallery-viewed'', CONTENT)]"

abbreviation "write_reports \<equiv> alter app_events app_events_update free_keys"

section \<open>Taking a batch\<close>

record report =
  rp_uuid :: string
  rp_name :: string

definition new_report :: "nat option \<Rightarrow> nat option \<Rightarrow> string \<Rightarrow> report \<Rightarrow> datetime \<Rightarrow> app_event_row" where
  "new_report brand user uuid event moment =
     \<lparr>rid = 0, ae_tenant = brand, ae_user = user, ae_uuid = uuid, ae_name = rp_name event, ae_status = app_event_status.PENDING,
      ae_attempts = 0, ae_error_code = None, ae_processed_at = None, ae_created_at = moment, ae_updated_at = moment\<rparr>"

definition known_uuids :: "string list \<Rightarrow> string list service" where
  "known_uuids uuids = query (\<lambda>d. filter (\<lambda>u. u \<in> set uuids) (map ae_uuid (app_events d)))"

definition take_report :: "nat option \<Rightarrow> nat option \<Rightarrow> string list \<Rightarrow> string \<times> report \<Rightarrow> nat service" where
  "take_report brand user known incoming =
     (case incoming of (uuid, event) \<Rightarrow>
      if uuid \<in> set known then ret 0 else
      andThen now (\<lambda>moment.
      andThen (settle app_events app_events_update (free_of report_key) (\<lambda>r. ae_uuid r = uuid)
        (new_report brand user uuid event moment)) (\<lambda>settled.
      ret (case settled of Wrote r \<Rightarrow> 1 | _ \<Rightarrow> 0))))"

definition ingest :: "nat option \<Rightarrow> nat option \<Rightarrow> report list \<Rightarrow> (nat \<times> nat) service" where
  "ingest brand user events =
     (let incoming = dict_of [] (map (\<lambda>e. (rp_uuid e, e)) events) in
      andThen (known_uuids (map fst incoming)) (\<lambda>known.
      andThen (each (take_report brand user known) incoming) (\<lambda>taken.
      andThen commit (\<lambda>_. ret (sum_list taken, length incoming - sum_list taken)))))"

section \<open>The queue\<close>

definition left_behind :: "datetime \<Rightarrow> app_event_row \<Rightarrow> bool" where
  "left_behind moment r \<longleftrightarrow> ae_status r = app_event_status.PROCESSING \<and> before_by moment ABANDONED_AFTER (ae_updated_at r)"

definition takeable :: "datetime \<Rightarrow> app_event_row \<Rightarrow> bool" where
  "takeable moment r \<longleftrightarrow> (ae_status r \<in> {app_event_status.PENDING, app_event_status.FAILED} \<or> left_behind moment r)
     \<and> ae_attempts r < MAX_ATTEMPTS"

definition taken :: "datetime \<Rightarrow> app_event_row \<Rightarrow> app_event_row" where
  "taken moment r = r\<lparr>ae_status := app_event_status.PROCESSING, ae_attempts := ae_attempts r + 1, ae_updated_at := moment\<rparr>"

definition claim :: "nat \<Rightarrow> bool service" where
  "claim record_id =
     andThen now (\<lambda>moment.
     andThen (write_reports (\<lambda>r. named record_id r \<and> takeable moment r) (taken moment)) (\<lambda>rowcount.
     andThen commit (\<lambda>_. ret (rowcount = 1))))"

definition close_exhausted :: "nat service" where
  "close_exhausted =
     andThen now (\<lambda>moment.
     andThen (write_reports (\<lambda>r. left_behind moment r \<and> MAX_ATTEMPTS \<le> ae_attempts r)
       (\<lambda>r. r\<lparr>ae_status := app_event_status.FAILED, ae_error_code := Some ''abandoned'', ae_updated_at := moment\<rparr>)) (\<lambda>closed.
     andThen commit (\<lambda>_. ret closed)))"

text \<open>Whether anything on this side reads the event; what does stages an entry of the system log.\<close>

definition dispatch :: "app_event_row \<Rightarrow> bool service" where
  "dispatch event =
     (case map_of EVENT_CATEGORIES (ae_name event) of
        None \<Rightarrow> ret False
      | Some category \<Rightarrow>
          andThen (stage (ae_tenant event) (ae_user event) INFO (Some category) (ae_name event)) (\<lambda>_. ret True))"

definition close_as :: "nat \<Rightarrow> app_event_status \<Rightarrow> string option \<Rightarrow> unit service" where
  "close_as record_id status error =
     andThen now (\<lambda>moment.
     andThen (write_reports (named record_id) (\<lambda>r. r\<lparr>ae_status := status, ae_error_code := error, ae_processed_at := Some moment,
       ae_updated_at := moment\<rparr>)) (\<lambda>_. commit))"

definition settle_report :: "nat \<Rightarrow> nat option service" where
  "settle_report record_id =
     andThen (query (\<lambda>d. fetch record_id (app_events d))) (\<lambda>event.
     case event of
       None \<Rightarrow> ret None
     | Some event \<Rightarrow>
         handle
           (andThen (dispatch event) (\<lambda>through.
            andThen (close_as record_id (if through then PROCESSED else app_event_status.IGNORED) None) (\<lambda>_. ret (Some record_id))))
           (\<lambda>error.
            andThen rollback (\<lambda>_.
            andThen (query (\<lambda>d. fetch record_id (app_events d))) (\<lambda>event.
            case event of
              None \<Rightarrow> ret None
            | Some _ \<Rightarrow> andThen (close_as record_id app_event_status.FAILED (Some (error_name error))) (\<lambda>_. ret (Some record_id))))))"

definition waiting_reports :: "datetime \<Rightarrow> db \<Rightarrow> nat list" where
  "waiting_reports moment d = map rid (take BATCH (filter (takeable moment) (app_events d)))"

definition read_report :: "nat \<Rightarrow> nat list service" where
  "read_report record_id =
     andThen (claim record_id) (\<lambda>claimed.
     if \<not> claimed then ret [] else
     andThen (settle_report record_id) (\<lambda>settled. ret (case settled of None \<Rightarrow> [] | Some _ \<Rightarrow> [record_id])))"

definition process_pending :: "app_event_row list service" where
  "process_pending =
     andThen now (\<lambda>moment.
     andThen (query (waiting_reports moment)) (\<lambda>waiting.
     andThen (each read_report waiting) (\<lambda>worked.
     query (\<lambda>d. List.map_filter (\<lambda>i. fetch i (app_events d)) (concat worked)))))"

section \<open>One reader\<close>

interpretation report_queue: work_queue takeable taken ABANDONED_AFTER
  by unfold_locales (simp_all add: takeable_def taken_def left_behind_def)

lemma claim_report_row: "claims_row app_events takeable taken i (claim i)"
  by (simp add: claims_row_def claim_def taking_abs alter_def free_keys_def Let_def andThen_def)

section \<open>A batch lands once\<close>

definition stored :: "string list \<Rightarrow> db \<Rightarrow> bool" where
  "stored uuids d \<longleftrightarrow> set uuids \<subseteq> ae_uuid ` set (app_events d)"

lemma take_report_ends:
  "\<exists>n t. take_report brand user known (uuid, event) s = (Ok n, t) \<and> n \<le> 1
     \<and> ae_uuid ` set (app_events (live s)) \<subseteq> ae_uuid ` set (app_events (live t))
     \<and> (set known \<subseteq> ae_uuid ` set (app_events (live s)) \<longrightarrow> uuid \<in> ae_uuid ` set (app_events (live t)))
     \<and> kept t = kept s"
proof (cases "uuid \<in> set known")
  case True
  then show ?thesis by (auto simp: take_report_def)
next
  case False
  show ?thesis
  proof (cases "List.find (\<lambda>r. ae_uuid r = uuid) (app_events (live s))")
    case None
    then have "free_of report_key (app_events (live s)) (new_report brand user uuid event (clock s))"
      by (auto simp: free_of_keys report_key_def new_report_def find_None_iff_all)
    with False None show ?thesis
      by (auto simp: take_report_def settle_def insert_or_read_def andThen_def set_append_row new_report_def)
  next
    case (Some r)
    with False find_Some_in [OF Some] show ?thesis
      by (auto simp: take_report_def settle_def insert_or_read_def andThen_def)
  qed
qed

lemma take_all:
  assumes "set known \<subseteq> ae_uuid ` set (app_events (live s))"
  shows "\<exists>ns t. each (take_report brand user known) incoming s = (Ok ns, t) \<and> length ns = length incoming
     \<and> list_all (\<lambda>n. n \<le> 1) ns \<and> stored (map fst incoming) (live t) \<and> kept t = kept s
     \<and> ae_uuid ` set (app_events (live s)) \<subseteq> ae_uuid ` set (app_events (live t))"
  using assms
proof (induction incoming arbitrary: s)
  case Nil
  then show ?case by (simp add: stored_def)
next
  case (Cons p incoming)
  obtain uuid event where p: "p = (uuid, event)" by fastforce
  obtain n t where t: "take_report brand user known (uuid, event) s = (Ok n, t)" "n \<le> 1" "kept t = kept s"
      "ae_uuid ` set (app_events (live s)) \<subseteq> ae_uuid ` set (app_events (live t))" "uuid \<in> ae_uuid ` set (app_events (live t))"
    using take_report_ends [of brand user known uuid event s] Cons.prems by blast
  then have "set known \<subseteq> ae_uuid ` set (app_events (live t))" using Cons.prems by blast
  from Cons.IH [OF this] obtain ns u where u: "each (take_report brand user known) incoming t = (Ok ns, u)"
      "length ns = length incoming" "list_all (\<lambda>n. n \<le> 1) ns" "stored (map fst incoming) (live u)" "kept u = kept t"
      "ae_uuid ` set (app_events (live t)) \<subseteq> ae_uuid ` set (app_events (live u))" by blast
  have "each (take_report brand user known) (p # incoming) s = (Ok (n # ns), u)"
    by (simp add: p andThen_def t(1) u(1))
  moreover have "stored (map fst (p # incoming)) (live u)"
    using u(4) subsetD [OF u(6) t(5)] by (simp add: p stored_def)
  ultimately show ?case using t(2,3) u(2,3,5) subset_trans [OF t(4) u(6)] by auto
qed

lemma take_none:
  "\<forall>p\<in>set l. fst p \<in> set known \<Longrightarrow> each (take_report brand user known) l u = (Ok (map (\<lambda>_. 0) l), u)"
  by (induction l) (auto simp: take_report_def andThen_def)

lemma sum_le_length: "list_all (\<lambda>n. n \<le> 1) ns \<Longrightarrow> sum_list ns \<le> length (ns :: nat list)"
  by (induction ns) auto

text \<open>
  A batch an app sends again lands once: the first call always answers, with every report of the batch
  counted either taken or duplicated, and the same batch again takes none of them, counts them all as
  duplicated and leaves the database as it was.
\<close>
theorem batch_lands_once:
  "\<exists>accepted duplicated t. ingest brand user events s = (Ok (accepted, duplicated), t)
     \<and> accepted + duplicated = length (dict_of [] (map (\<lambda>e. (rp_uuid e, e)) events))
     \<and> ingest brand user events t = (Ok (0, accepted + duplicated), t)"
proof -
  let ?in = "dict_of [] (map (\<lambda>e. (rp_uuid e, e)) events)"
  let ?known = "filter (\<lambda>u. u \<in> set (map fst ?in)) (map ae_uuid (app_events (live s)))"
  obtain ns t where t: "each (take_report brand user ?known) ?in s = (Ok ns, t)" "length ns = length ?in"
      "list_all (\<lambda>n. n \<le> 1) ns" "stored (map fst ?in) (live t)"
    using take_all [of ?known s brand user ?in] by auto
  let ?t = "t\<lparr>kept := live t\<rparr>"
  have first: "ingest brand user events s = (Ok (sum_list ns, length ?in - sum_list ns), ?t)"
    using t(1) by (simp add: ingest_def Let_def known_uuids_def andThen_def)
  let ?again = "filter (\<lambda>u. u \<in> set (map fst ?in)) (map ae_uuid (app_events (live t)))"
  have "\<forall>p\<in>set ?in. fst p \<in> set ?again" using t(4) by (force simp: stored_def)
  note again = take_none [OF this, of brand user ?t]
  have "ingest brand user events ?t = (Ok (0, length ?in), ?t)"
    using again by (simp add: ingest_def Let_def known_uuids_def andThen_def comp_def sum_list_triv)
  with first sum_le_length [OF t(3)] t(2) show ?thesis by auto
qed

end
