(* ===== verification/Settings.thy ===== *)
theory Settings
  imports Signature Delivery
begin

text \<open>
  What this instance says of itself (\<^verbatim>\<open>config/\<close>), who a request answers for (\<^verbatim>\<open>helpers/brand.py\<close>,
  \<^verbatim>\<open>services/tenant_service.py\<close>), which language a caller is answered in (\<^verbatim>\<open>helpers/i18n.py\<close>) and the values it hands out and
  reads back without keeping them (\<^verbatim>\<open>helpers/signing.py\<close>).
\<close>

section \<open>The configuration\<close>

datatype email_provider = SMTP | CONSOLE

record email_settings =
  es_provider :: email_provider
  es_host :: string
  es_port :: nat
  es_username :: string
  es_password :: string
  es_use_tls :: bool
  es_from_address :: string

record email_login_settings =
  ls_enabled :: bool
  ls_site :: bool
  ls_admin :: bool
  ls_code_ttl :: nat
  ls_resend_interval :: nat
  ls_max_attempts :: nat

record social_login_settings =
  sg_enabled :: bool
  sg_site :: bool
  sg_admin :: bool
  sg_client_id :: string
  sg_client_secret :: string
  sg_team_id :: string
  sg_key_id :: string
  sg_private_key :: string
  sg_microsoft_tenant :: string
  sg_facebook_api_version :: string

text \<open>
  What an enabled provider must carry, where the library reads a private key as an elliptic one of the curve Apple signs with, as another
  one, or refuses it.
\<close>

definition blank :: "string \<Rightarrow> bool" where
  "blank t \<longleftrightarrow> strip t = ''''"

definition credentials_of :: "(string \<Rightarrow> bool outcome) \<Rightarrow> social_provider \<Rightarrow> social_login_settings \<Rightarrow> unit outcome" where
  "credentials_of signs_es256 provider configuration =
     (if \<not> sg_enabled configuration then Ok ()
      else if blank (sg_client_id configuration) then Err ValueError
      else if provider = APPLE then
        if sg_team_id configuration = '''' \<or> sg_key_id configuration = '''' \<or> sg_private_key configuration = '''' then Err ValueError
        else bind (signs_es256 (sg_private_key configuration)) (\<lambda>signs. if signs then Ok () else Err ValueError)
      else if sg_client_secret configuration = '''' then Err ValueError
      else Ok ())"

fun enabled_providers_have_credentials :: "(string \<Rightarrow> bool outcome) \<Rightarrow> (social_provider \<times> social_login_settings) list \<Rightarrow> unit outcome" where
  "enabled_providers_have_credentials signs_es256 [] = Ok ()"
| "enabled_providers_have_credentials signs_es256 ((provider, configuration) # others) =
     bind (credentials_of signs_es256 provider configuration) (\<lambda>_. enabled_providers_have_credentials signs_es256 others)"

record security_settings =
  ss_secret_key :: string
  ss_sign_in_attempts :: nat
  ss_sign_in_cooldown :: nat
  ss_sign_in_cooldown_max :: nat

record config =
  co_name :: string
  co_multi_tenant :: bool
  co_security :: security_settings
  co_email_login :: email_login_settings
  co_social :: "(social_provider \<times> social_login_settings) list"
  co_social_ttl :: nat
  co_ticket_ttl :: nat
  co_email :: email_settings
  co_site_scheme :: string
  co_site_domain :: string
  co_tenants :: "(string \<times> email_settings option) list"
  co_default_language :: string
  co_languages :: "string list"
  co_password_reset_token_ttl :: nat
  co_password_reset_interval :: nat
  co_confirm_sign_up :: bool
  co_confirm_sign_up_interval :: nat

text \<open>A tenant sends through what it declares, and through the default of the environment when it declares nothing.\<close>

definition email_for :: "config \<Rightarrow> string \<Rightarrow> email_settings" where
  "email_for c code = (case map_of (co_tenants c) code of Some (Some settings) \<Rightarrow> settings | _ \<Rightarrow> co_email c)"

section \<open>Brands\<close>

record brand =
  br_id :: "nat option"
  br_code :: string
  br_name :: string
  br_domain :: string
  br_email_contact :: string

definition brand_named :: "config \<Rightarrow> tenant_row option \<Rightarrow> brand" where
  "brand_named c tenant =
     (case tenant of
        None \<Rightarrow> \<lparr>br_id = None, br_code = '''', br_name = co_name c, br_domain = co_site_domain c,
          br_email_contact = es_from_address (co_email c)\<rparr>
      | Some t \<Rightarrow> \<lparr>br_id = Some (rid t), br_code = te_code t, br_name = te_name t, br_domain = te_domain t,
          br_email_contact = te_email_contact t\<rparr>)"

definition address_on :: "config \<Rightarrow> string \<Rightarrow> string \<Rightarrow> string" where
  "address_on c domain path = co_site_scheme c @ ''://'' @ domain @ path"

definition brand_of :: "config \<Rightarrow> nat option \<Rightarrow> brand service" where
  "brand_of c tenant =
     query (\<lambda>d. brand_named c (case tenant of None \<Rightarrow> None | Some t \<Rightarrow> fetch t (tenants d)))"

section \<open>Languages\<close>

text \<open>\<open>resolve_locale\<close>: the header is read in order and the first language this instance speaks wins.\<close>

fun first_spoken :: "string list \<Rightarrow> string list \<Rightarrow> string option" where
  "first_spoken spoken [] = None"
| "first_spoken spoken (chunk # chunks) =
     (let code = map (\<lambda>c. if c = CHR ''_'' then CHR ''-'' else c) (lower (strip (fst (split_once (CHR '';'') chunk))));
          primary = fst (split_once (CHR ''-'') code)
      in if code = '''' then first_spoken spoken chunks
         else if code \<in> set spoken then Some code
         else if primary \<in> set spoken then Some primary
         else first_spoken spoken chunks)"

definition resolve_locale :: "config \<Rightarrow> string option \<Rightarrow> string" where
  "resolve_locale c accept_language =
     (case accept_language of
        None \<Rightarrow> co_default_language c
      | Some line \<Rightarrow>
          if line = '''' then co_default_language c
          else (case first_spoken (co_languages c) (split_on (CHR '','') line) of
                  None \<Rightarrow> co_default_language c | Some code \<Rightarrow> code))"

section \<open>Moments a window ahead\<close>

text \<open>\<open>now() + timedelta(seconds=n)\<close>, which overflows out of the calendar.\<close>

definition later_by :: "datetime \<Rightarrow> int \<Rightarrow> datetime outcome" where
  "later_by moment n = (case from_micros (micros_of moment + seconds n) of None \<Rightarrow> Err OverflowError | Some t \<Rightarrow> Ok t)"

lemma later_by_instant:
  assumes "later_by moment n = Ok t"
  shows "valid t \<and> instant t = instant moment + seconds n"
  using assms from_micros_ok [of "micros_of moment + seconds n"]
  by (auto simp: later_by_def instant_micros_of split: option.splits)

text \<open>The language a caller is answered in is always one this instance speaks, whatever the header says.\<close>

lemma first_spoken_in: "first_spoken spoken chunks = Some code \<Longrightarrow> code \<in> set spoken"
  by (induction chunks) (auto simp: Let_def split: if_splits)

end
