(* ===== verification/Checkout.thy ===== *)
theory Checkout
  imports Commerce Settings Money Sample
begin

text \<open>
  \<^verbatim>\<open>services/checkout_service.py\<close> with \<open>read_secret\<close> of \<^verbatim>\<open>services/integration_service.py\<close> and \<^verbatim>\<open>helpers/remote.py\<close>: what sends a buyer to a
  gateway, and the row written before they ever leave. The splitting of an address, the quoting of a value, the
  decryption of a secret and the call of the gateway are parameters. A price is kept in thousandths, the scale of its column.
\<close>

record url =
  ur_before :: string
  ur_query :: string
  ur_after :: string

datatype gateway_answer = Unreached | Answered nat "json option"

record counter =
  cn_split :: "string \<Rightarrow> url"
  cn_join :: "url \<Rightarrow> string"
  cn_quote :: "string \<Rightarrow> string"
  cn_decrypt :: "string \<Rightarrow> string option"
  cn_post :: "string \<Rightarrow> (string \<times> string) list \<Rightarrow> gateway_answer"

text \<open>The body of a call to somebody else, where anything unreadable weighs the same as an empty answer.\<close>

definition body_of :: "json option \<Rightarrow> (string \<times> json) list" where
  "body_of body = (case body of Some (JMap m) \<Rightarrow> m | _ \<Rightarrow> [])"

text \<open>The API key of a gateway, stored encrypted.\<close>

definition read_secret :: "counter \<Rightarrow> integration_row \<Rightarrow> string option" where
  "read_secret k integration = (case in_api_key integration of None \<Rightarrow> None
     | Some stored \<Rightarrow> if stored = '''' then None else cn_decrypt k stored)"

definition naming :: "counter \<Rightarrow> string \<Rightarrow> string \<Rightarrow> string" where
  "naming k address reference =
     (let parts = cn_split k address; mine = ''purchase='' @ cn_quote k reference
      in cn_join k (parts\<lparr>ur_query := (if ur_query parts = '''' then mine else ur_query parts @ ''&'' @ mine)\<rparr>))"

definition gateway_of :: "nat option \<Rightarrow> integration_row service" where
  "gateway_of brand =
     andThen (query (\<lambda>d. List.find (\<lambda>i. in_tenant i = brand \<and> in_provider i = STRIPE \<and> in_active i) (integrations d))) (\<lambda>found.
     case found of None \<Rightarrow> throw (AppError ''error.checkout-unavailable'') | Some i \<Rightarrow> ret i)"

definition price_of :: "integration_row \<Rightarrow> nat \<Rightarrow> string service" where
  "price_of integration plan =
     andThen (query (\<lambda>d. List.find (\<lambda>r. ep_integration r = rid integration \<and> ep_plan r = plan \<and> ep_active r) (external_products d))) (\<lambda>found.
     case found of
       None \<Rightarrow> throw (AppError ''error.checkout-unavailable'')
     | Some r \<Rightarrow> if ep_external_id r = '''' then throw (AppError ''error.checkout-unavailable'') else ret (ep_external_id r))"

definition open_session :: "counter \<Rightarrow> integration_row \<Rightarrow> (string \<times> string) list \<Rightarrow> json service" where
  "open_session k integration form =
     (case read_secret k integration of
        None \<Rightarrow> throw (AppError ''error.checkout-unavailable'')
      | Some secret \<Rightarrow>
          if secret = '''' then throw (AppError ''error.checkout-unavailable'') else
          (case cn_post k secret form of
             Unreached \<Rightarrow> throw (AppError ''error.checkout-refused'')
           | Answered status body \<Rightarrow>
               if status \<noteq> 200 then throw (AppError ''error.checkout-refused'') else
               (case map_of (body_of body) ''url'' of
                  None \<Rightarrow> throw (AppError ''error.checkout-refused'')
                | Some address \<Rightarrow> if \<not> truthy address then throw (AppError ''error.checkout-refused'') else ret address)))"

definition product_form :: "counter \<Rightarrow> string \<Rightarrow> product_row \<Rightarrow> string \<Rightarrow> string \<Rightarrow> string \<Rightarrow> (string \<times> string) list" where
  "product_form k account_token product reference success_url cancel_url =
     [(''mode'', ''payment''), (''client_reference_id'', reference), (''metadata[account_token]'', account_token),
      (''success_url'', naming k success_url reference), (''cancel_url'', naming k cancel_url reference),
      (''line_items[0][quantity]'', ''1''), (''line_items[0][price_data][currency]'', lower (pr_currency product)),
      (''line_items[0][price_data][unit_amount]'', signed_decimal (minor_units (pr_price product) 3 (pr_currency product))),
      (''line_items[0][price_data][product_data][name]'', pr_name product)]"

text \<open>
  The purchase exists before the buyer leaves; no session opened closes it. Every refusal of \<open>open_session\<close> is an
  \<open>AppError\<close>. The purchase was read as it was born, so settling it may lose its race once.
\<close>

definition for_product :: "counter \<Rightarrow> nat option \<Rightarrow> user_row \<Rightarrow> product_row \<Rightarrow> string \<Rightarrow> string \<Rightarrow> string \<Rightarrow> json service" where
  "for_product k brand user product success_url cancel_url reference =
     andThen (gateway_of brand) (\<lambda>integration.
     andThen (open_purchase brand (rid user) product (Some (rid integration)) reference) (\<lambda>purchase.
     handle (open_session k integration (product_form k (us_token user) product (pu_reference purchase) success_url cancel_url))
       (\<lambda>e. case e of
          AppError _ \<Rightarrow> andThen (settle_purchase 2 (rid purchase) (pu_status purchase) purchase_status.FAILED None) (\<lambda>_. throw e)
        | _ \<Rightarrow> throw e)))"

definition subscribed :: "nat \<Rightarrow> integration_row \<Rightarrow> nat \<Rightarrow> bool service" where
  "subscribed user integration plan =
     query (\<lambda>d. list_ex (\<lambda>r. su_user r = user \<and> su_integration r = Some (rid integration) \<and> su_plan r = plan
       \<and> su_status r \<notin> set CLOSED_SUBSCRIPTION_STATUSES) (subscriptions d))"

definition for_plan :: "counter \<Rightarrow> nat option \<Rightarrow> user_row \<Rightarrow> nat \<Rightarrow> string \<Rightarrow> string \<Rightarrow> json service" where
  "for_plan k brand user plan success_url cancel_url =
     andThen (gateway_of brand) (\<lambda>integration.
     andThen (price_of integration plan) (\<lambda>price.
     andThen (subscribed (rid user) integration plan) (\<lambda>held.
     if held then throw (ConflictError ''error.plan-already-subscribed'') else
     open_session k integration
       [(''mode'', ''subscription''), (''metadata[account_token]'', us_token user),
        (''subscription_data[metadata][account_token]'', us_token user), (''success_url'', success_url),
        (''cancel_url'', cancel_url), (''line_items[0][quantity]'', ''1''), (''line_items[0][price]'', price)])))"

section \<open>No payment is left waiting for nobody\<close>

lemma open_session_reads:
  obtains (opened) address secret body where "open_session k integration form s = (Ok address, s)"
      "cn_post k secret form = Answered 200 body" "map_of (body_of body) ''url'' = Some address" "truthy address"
    | (refused) code where "open_session k integration form s = (Err (AppError code), s)"
proof (cases "\<exists>code. open_session k integration form s = (Err (AppError code), s)")
  case True
  then show thesis using refused by blast
next
  case False
  then show thesis by (auto simp: open_session_def intro: opened split: option.splits gateway_answer.splits if_splits)
qed

lemma gateway_of_reads:
  "gateway_of brand s = (r, t) \<Longrightarrow> t = s \<and> ((\<exists>i\<in>set (integrations (live s)). r = Ok i) \<or> (\<exists>code. r = Err (AppError code)))"
  by (auto simp: gateway_of_def split: option.splits dest: find_Some_in)

lemma open_purchase_refused:
  assumes "open_purchase brand user product integration reference s = (Err e, t)"
  shows "purchases (live t) = purchases (live s) \<or> live t = kept s"
  using assms
  by (auto simp: open_purchase_def owned_by_def refusing_def handle_def store_def Let_def andThen_def
    split: if_splits prod.splits outcome.splits exc.splits)

lemma open_purchase_returns: "open_purchase brand user product integration reference s \<noteq> (Hangs, t)"
  by (auto simp: open_purchase_def owned_by_def refusing_def handle_def store_def Let_def andThen_def
    split: if_splits prod.splits outcome.splits exc.splits)

text \<open>The purchase just opened is closed at the first try.\<close>

definition waiting_payments :: "db \<Rightarrow> purchase_row list" where
  "waiting_payments d = filter (\<lambda>p. pu_status p = purchase_status.PENDING) (purchases d)"

lemma close_opened:
  assumes "purchases (live s) = old @ [p]" and "rid p = next_id old" and "pu_status p = purchase_status.PENDING"
    and "unique_on payment_key (purchases (live s))"
  shows "\<exists>r t. settle_purchase (Suc n) (rid p) purchase_status.PENDING purchase_status.FAILED None s = (Ok r, t)
     \<and> waiting_payments (live t) = filter (\<lambda>p. pu_status p = purchase_status.PENDING) old"
proof -
  let ?p = "\<lambda>r. named (rid p) r \<and> pu_status r = purchase_status.PENDING"
  let ?f = "settlement purchase_status.FAILED None (clock s)"
  have none: "amend ?p ?f old = old"
    using assms(2) by (intro amend_none) (auto simp: named_def dest: rid_less_next)
  have z: "filter ?p old = []" using assms(2) by (auto simp: filter_empty_conv named_def dest: rid_less_next)
  have u: "amend ?p ?f (purchases (live s)) = old @ [?f p]"
    using none assms(3) by (simp add: assms(1) amend_def named_def)
  have h: "hits ?p (purchases (live s)) = 1" using z assms(3) by (simp add: assms(1) hits_def named_def)
  have "payment_key (?f r) = payment_key r" for r by (simp add: settlement_def payment_key_def)
  then have k: "purchase_keys (old @ [?f p])"
    using assms(4) unique_on_amend [of ?p payment_key ?f "purchases (live s)"] by (simp add: purchase_keys_def u)
  have row: "fetch (rid p) (old @ [?f p]) = Some (?f p)"
    using fetch_next_id [of old] assms(2) by (simp add: fetch_def find_append settlement_def)
  show ?thesis using h u k row z assms(2)
    by (simp add: settles_def alter_def Let_def andThen_def waiting_payments_def SETTLED_PURCHASE_STATUSES_def settlement_def)
qed

lemma open_purchase_writes:
  assumes "open_purchase brand user product integration reference s = (Ok purchase, t)"
  shows "purchase = \<lparr>rid = next_id (purchases (live s)), pu_tenant = brand, pu_user = user, pu_product = rid product,
      pu_integration = integration, pu_reference = reference, pu_external_id = None, pu_currency = pr_currency product,
      pu_price = pr_price product, pu_status = purchase_status.PENDING, pu_paid_at = None\<rparr>
    \<and> live t = purchases_update (\<lambda>p. p @ [purchase]) (live s) \<and> kept t = live t
    \<and> accepts_purchase (purchases (live s)) (purchase\<lparr>rid := 0\<rparr>)"
  using assms
  by (auto simp: open_purchase_def owned_by_def refusing_def handle_def store_def Let_def andThen_def append_row_def
    split: if_splits prod.splits outcome.splits exc.splits)

lemma session_or_closed:
  assumes "open_purchase brand (rid user) product (Some (rid i)) reference s = (Ok purchase, t)"
    and "unique_on payment_key (purchases (live s))"
  shows "case handle (open_session k i (product_form k (us_token user) product (pu_reference purchase) success_url cancel_url))
      (\<lambda>e. case e of
          AppError _ \<Rightarrow> andThen (settle_purchase 2 (rid purchase) (pu_status purchase) purchase_status.FAILED None) (\<lambda>_. throw e)
        | _ \<Rightarrow> throw e) t of
     (Ok address, u) \<Rightarrow> (\<exists>p\<in>set (waiting_payments (live u)). pu_reference p = reference \<and> pu_user p = rid user \<and> pu_product p = rid product)
        \<and> (\<exists>secret body. cn_post k secret (product_form k (us_token user) product reference success_url cancel_url) = Answered 200 body
             \<and> map_of (body_of body) ''url'' = Some address \<and> truthy address)
   | (Err e, u) \<Rightarrow> waiting_payments (live u) = waiting_payments (live s)
   | (Hangs, u) \<Rightarrow> False"
proof -
  from open_purchase_writes [OF assms(1)]
  have p: "pu_reference purchase = reference" "pu_user purchase = rid user" "pu_product purchase = rid product"
      "pu_status purchase = purchase_status.PENDING" "rid purchase = next_id (purchases (live s))" "payment_key purchase = None"
    and t: "purchases (live t) = purchases (live s) @ [purchase]" by (simp_all add: payment_key_def)
  show ?thesis
  proof (cases rule: open_session_reads [of k i "product_form k (us_token user) product reference success_url cancel_url" t])
    case (opened address secret body)
    then show ?thesis using p t by (auto simp: handle_def waiting_payments_def)
  next
    case (refused code)
    have "unique_on payment_key (purchases (live t))" using assms(2) p by (simp add: t unique_on_append free_of_def)
    from close_opened [OF t p(5,4) this] obtain q u where
      u: "settle_purchase (Suc 1) (rid purchase) purchase_status.PENDING purchase_status.FAILED None t = (Ok q, u)"
        "waiting_payments (live u) = waiting_payments (live s)" unfolding waiting_payments_def [of "live s"] by blast
    then show ?thesis
      using refused p by (simp add: handle_def andThen_def numeral_2_eq_2 del: settle_purchase.simps)
  qed
qed


definition sample_counter :: counter where
  "sample_counter = \<lparr>cn_split = (\<lambda>a. \<lparr>ur_before = a, ur_query = '''', ur_after = ''''\<rparr>), cn_join = (\<lambda>u. ur_before u @ ''?'' @ ur_query u),
     cn_quote = (\<lambda>t. t), cn_decrypt = Some, cn_post = (\<lambda>secret form. Unreached)\<rparr>"


end
