(* ===== verification/Engine.thy ===== *)
theory Engine
  imports Webhook_Facts Promises Reports Checkout
begin

text \<open>
  The doors of the commerce core: the jobs of \<^verbatim>\<open>jobs/\<close>, the webhook of \<^verbatim>\<open>routes/webhook.py\<close> and what an account or an operator
  sets off, each in a session of its own over the committed database, and what holds of every database they can
  reach.
\<close>

section \<open>The jobs\<close>

text \<open>One pass in one order: the provider speaks before the clock closes anything, and what is still open is delivered.\<close>

definition run_subscription_cycle :: "outside \<Rightarrow> network \<Rightarrow> (nat \<Rightarrow> datetime) \<Rightarrow> (nat \<times> nat \<times> nat \<times> nat \<times> nat) service" where
  "run_subscription_cycle w network clock_at =
     andThen (reconcile_stale (asking_of w network) clock_at) (\<lambda>reconciled.
     andThen expire_subscriptions (\<lambda>expired.
     andThen process_due (\<lambda>delivered.
     andThen retry_failed_grants (\<lambda>retried.
     andThen (Webhook.retry_failed w network) (\<lambda>events.
     ret (reconciled, length expired, length delivered, length retried, length events))))))"

definition subscription_cycle :: "outside \<Rightarrow> network \<Rightarrow> (nat \<Rightarrow> datetime) \<Rightarrow> unit service" where
  "subscription_cycle w network clock_at =
     andThen Webhook.close_exhausted (\<lambda>_. andThen (run_subscription_cycle w network clock_at) (\<lambda>_. ret ()))"

definition process_pending_events :: "unit service" where
  "process_pending_events = andThen Reports.close_exhausted (\<lambda>_. andThen Reports.process_pending (\<lambda>_. ret ()))"

section \<open>The webhook\<close>

definition is_empty :: "inbound_call \<Rightarrow> bool" where
  "is_empty call \<longleftrightarrow> ic_body call = '''' \<and> ic_query call = []"

text \<open>The row the notice was written down as; a call that says nothing is set aside before anything is read.\<close>

definition receive :: "outside \<Rightarrow> network \<Rightarrow> string \<Rightarrow> inbound_call \<Rightarrow> nat option service" where
  "receive w network key call =
     andThen (find_integration key) (\<lambda>integration.
     case integration of
       None \<Rightarrow> throw NotFoundError
     | Some i \<Rightarrow> if is_empty call then ret None else andThen (Webhook.ingest w network i call) (\<lambda>r. ret (Some r)))"

section \<open>Every door\<close>

datatype door =
    Cycle "nat \<Rightarrow> datetime"
  | Receive string inbound_call
  | Refresh nat
  | Activate nat
  | NewCycle nat
  | BuyProduct "nat option" user_row product_row string string string
  | BuyPlan "nat option" user_row nat string string
  | Report "nat option" "nat option" "report list"
  | Events

fun through :: "outside \<Rightarrow> network \<Rightarrow> counter \<Rightarrow> door \<Rightarrow> unit service" where
  "through w network k (Cycle clock_at) = subscription_cycle w network clock_at"
| "through w network k (Receive key call) = andThen (receive w network key call) (\<lambda>_. ret ())"
| "through w network k (Refresh user) = andThen (refresh (asking_of w network) user) (\<lambda>_. ret ())"
| "through w network k (Activate subscription) = andThen (activate subscription) (\<lambda>_. ret ())"
| "through w network k (NewCycle subscription) = andThen (open_new_cycle subscription) (\<lambda>_. ret ())"
| "through w network k (BuyProduct brand user product success_url cancel_url reference) =
     andThen (for_product k brand user product success_url cancel_url reference) (\<lambda>_. ret ())"
| "through w network k (BuyPlan brand user plan success_url cancel_url) =
     andThen (for_plan k brand user plan success_url cancel_url) (\<lambda>_. ret ())"
| "through w network k (Report brand user events) = andThen (Reports.ingest brand user events) (\<lambda>_. ret ())"
| "through w network k Events = process_pending_events"

text \<open>
  One call moves the committed database from one to the next, whatever it answers: its session opens on what was
  committed, and what it had not committed by its end is gone with it.
\<close>

inductive calls :: "outside \<Rightarrow> network \<Rightarrow> counter \<Rightarrow> db \<Rightarrow> db \<Rightarrow> bool" for w network k where
  call: "calls w network k d (kept (state_of (through w network k door) (opened_at moment d)))"

inductive reached :: "outside \<Rightarrow> network \<Rightarrow> counter \<Rightarrow> db \<Rightarrow> db \<Rightarrow> bool" for w network k d where
  start: "reached w network k d d"
| onward: "reached w network k d e \<Longrightarrow> calls w network k e f \<Longrightarrow> reached w network k d f"

inductive_cases callsE: "calls w network k d e"

section \<open>What every door obeys\<close>

lemma obeys_store_purchase: "effect obeys (store purchases purchases_update accepts r)"
  by (rule obeys_leaves) (rule leaves_store, simp add: lawful_part_def, rule clock_statements)

lemma obeys_write_reports: "effect obeys (alter app_events app_events_update holds p f)"
  by (rule obeys_leaves) (rule leaves_alter, simp add: lawful_part_def, rule clock_statements)

lemma obeys_settle_report: "effect obeys (settle app_events app_events_update accepts q r)"
  by (rule obeys_leaves) (rule leaves_settle, simp add: lawful_part_def, rule clock_statements)

lemma obeys_subscription_cycle: "effect obeys (subscription_cycle w network clock_at)"
  unfolding subscription_cycle_def run_subscription_cycle_def
  by (intro obeys_steps obeys_close_exhausted_events obeys_reconcile_stale obeys_expire_subscriptions obeys_process_due
      obeys_retry_failed_grants obeys_retry_failed)

lemma obeys_receive: "effect obeys (receive w network key call)"
  unfolding receive_def find_integration_def by (intro obeys_steps obeys_ingest)

lemma obeys_open_session: "effect obeys (open_session c i form)"
  unfolding open_session_def by (auto intro!: obeys_steps split: option.splits gateway_answer.splits simp del: ret_apply throw_apply)

lemma obeys_for_product: "effect obeys (for_product c brand user product success_url cancel_url reference)"
proof -
  have "effect obeys (case e of AppError _ \<Rightarrow> andThen (settle_purchase n i seen status ext) (\<lambda>_. throw e) | _ \<Rightarrow> throw e)"
    for e n i seen status ext and x :: 'a
    by (cases e) (simp_all, (intro obeys_steps obeys_settle_purchase)+)
  then show ?thesis
    unfolding for_product_def gateway_of_def open_purchase_def owned_by_def
    by (intro obeys_steps obeys_open_session obeys_store_purchase)
qed

lemma obeys_for_plan: "effect obeys (for_plan c brand user plan success_url cancel_url)"
  unfolding for_plan_def gateway_of_def price_of_def subscribed_def by (intro obeys_steps obeys_open_session)

lemma obeys_report: "effect obeys (Reports.ingest brand user events)"
  unfolding Reports.ingest_def known_uuids_def take_report_def Let_def by (intro obeys_steps obeys_settle_report)

lemma obeys_events: "effect obeys process_pending_events"
  unfolding process_pending_events_def Reports.close_exhausted_def Reports.process_pending_def read_report_def Reports.claim_def
    settle_report_def dispatch_def close_as_def
  by (intro obeys_steps obeys_write_reports obeys_stage)

lemma obeys_through: "effect obeys (through w network k door)"
  by (cases door) (simp_all only: through.simps,
    (intro obeys_steps obeys_subscription_cycle obeys_receive obeys_refresh obeys_activate obeys_open_new_cycle obeys_for_product
       obeys_for_plan obeys_report obeys_events)+)

section \<open>Every database they reach\<close>

lemma calls_lawful:
  assumes "calls w network k d e" and "law d"
  shows "law e \<and> grows d e"
  using assms(1)
proof (rule callsE)
  fix door moment
  let ?s = "opened_at moment d"
  assume e: "e = kept (state_of (through w network k door) ?s)"
  obtain r t where t: "through w network k door ?s = (r, t)" by fastforce
  have ok: "effect (keeps (steady law)) (through w network k door)" "effect (advances grows) (through w network k door)"
    using obeys_through by (simp_all add: obeys_split)
  have "steady law ?s" using assms(2) by (simp add: steady_def opened_at_def)
  with ok(1) have "steady law t" using t by (rule effect_steadyD)
  moreover have "grows (kept ?s) (kept t)" using ok(2) t by (rule growth.advancesD(1)) (simp add: opened_at_def)
  ultimately show ?thesis using e t by (simp add: steady_def opened_at_def state_of_def)
qed

text \<open>
  C1: whichever jobs, webhook calls, purchases, reports and refreshes run, in whatever order, over however many
  sessions, with whatever the providers answer and wherever each is cut short, the committed database stays lawful:
  the balances add up to the ledger, keys and names of rows stay unique, no grant passes its attempts. And it only
  ever grows from where it started: no ledger line, grant, ownership or notice is lost or rewritten, and no
  subscription goes back to an older word of its provider.
\<close>

theorem reached_databases_are_lawful:
  assumes "reached w network k d e" and "law d"
  shows "law e \<and> grows d e"
  using assms(1)
proof induction
  case start
  show ?case using assms(2) by (simp add: growth.rest)
next
  case (onward e f)
  with calls_lawful show ?case by (blast intro: growth.onward)
qed

definition after_cycle :: db where
  "after_cycle = kept (state_of (through sample_outside (\<lambda>_ _. Err HTTPError) sample_counter (Cycle (\<lambda>_. on_day 2024 3 5))) sample)"

lemma sample_lawful: "law sample_db"
  by (simp add: law_def sample_defs books_def owned_once_def grant_keys_def attempts_bounded_def snapshot_keys_def
      subscription_keys_def notice_keys_def ownership_def free_of_def split: option.splits)

lemma reached_databases_are_lawful_witness:
  "law after_cycle \<and> grows sample_db after_cycle"
proof (rule reached_databases_are_lawful)
  have "calls sample_outside (\<lambda>_ _. Err HTTPError) sample_counter sample_db after_cycle"
    unfolding after_cycle_def sample_def by (rule calls.call)
  with reached.start show "reached sample_outside (\<lambda>_ _. Err HTTPError) sample_counter sample_db after_cycle"
    by (rule reached.onward)
qed (rule sample_lawful)

end
