(* ===== verification/Reconciliation_Facts.thy ===== *)
theory Reconciliation_Facts
  imports Reconciliation_Laws
begin

text \<open>
  What a word of the gateway does to one subscription: an older word nothing, a repeated one nothing, and any
  other exactly what it says, whether the row is followed to another product, adopted under another
  transaction, closed or activated on the way.
\<close>

section \<open>What the delivery engine leaves of the subscriptions\<close>

lemma leaves_hold_subscription: "effect (leaves subscriptions) (hold_subscription i)"
proof -
  have "amend p (\<lambda>r. r) t = t" for p and t :: "subscription_row list" by (simp add: amend_def)
  then have "effect (leaves subscriptions) (write_subscriptions (named i) (\<lambda>r. r))"
    by (simp add: effect_def alter_def Let_def leaves_def)
  then show ?thesis unfolding hold_subscription_def by (intro leaves_steps)
qed

lemma leaves_engine:
  "effect (leaves subscriptions) (advance b g)" "effect (leaves subscriptions) (drop i reason)"
  "effect (leaves subscriptions) (still_owed b)" "effect (leaves subscriptions) (policy_allows b)"
  "effect (leaves subscriptions) (settled g)" "effect (leaves subscriptions) (already_held_by_user b key)"
  unfolding advance_def drop_def still_owed_def policy_allows_def settled_def already_held_by_user_def Let_def
  by (intro leaves_steps leaves_alter leaves_settle; simp)+

lemma leaves_handlers: "effect (leaves subscriptions) (handlers ty b g)"
proof (cases ty)
  case ACCESS
  show ?thesis unfolding ACCESS handlers.simps deliver_access_def by (intro leaves_steps leaves_alter; simp)
next
  case CREDIT
  show ?thesis unfolding CREDIT handlers.simps deliver_credit_def by (intro leaves_steps leaves_alter move_leaves; simp)
next
  case PRODUCT
  show ?thesis unfolding PRODUCT handlers.simps deliver_product_def by (intro leaves_steps leaves_alter grant_leaves; simp)
qed

lemma leaves_deliver: "effect (leaves subscriptions) (deliver b g)"
  unfolding deliver_def attempt_def
  by (intro leaves_steps leaves_hold_subscription leaves_engine leaves_handlers leaves_alter; simp)

lemma leaves_run_cycle: "effect (leaves subscriptions) (run_cycle b key at)"
  unfolding run_cycle_def skip_def Let_def
  by (intro leaves_steps settled_ok leaves_engine leaves_deliver)

lemma calm_activate: "effect (calm subscriptions) (activate sub)"
proof -
  have id: "amend p (\<lambda>r. r) t = t" for p and t :: "subscription_row list" by (simp add: amend_def)
  have hold: "effect (calm subscriptions) (hold_subscription sub)"
    unfolding hold_subscription_def by (intro calm_steps calm_alter) (simp add: id)
  have pause: "effect (calm subscriptions) (expire_entitlements sub)" "effect (calm subscriptions) (write_benefits p f)" for p f
    unfolding expire_entitlements_def by (intro calm_steps calm_alter; simp)+
  have rows: "effect (calm subscriptions) (reconcile_entitlements s)" for s
    unfolding reconcile_entitlements_def promise_entitlement_def entitlements_of_def Let_def
    by (intro calm_steps settled_ok calm_settle calm_alter; simp)
  have snaps: "effect (calm subscriptions) (snapshot_benefits s e)" for s e
    unfolding snapshot_benefits_def promise_benefit_def benefits_of_def resume_def Let_def
    by (intro calm_steps settled_ok calm_settle calm_alter; simp)
  have tail: "effect (calm subscriptions) (andThen commit (\<lambda>_. andThen (each activate_benefit keys) (\<lambda>k. read_grants (concat k))))" for keys
    unfolding activate_benefit_def read_grants_def
    by (rule calm_commit_first) (intro leaves_steps leaves_run_cycle)
  show ?thesis unfolding activate_def
    by (rule calm_order.andThen_ok [OF hold], rule calm_order.andThen_ok [OF calm_order.need_ok], rule calm_order.if_ok)
      (intro calm_steps pause, intro calm_order.andThen_ok rows snaps tail)
qed

lemma calm_end_benefits: "effect (calm subscriptions) (end_benefits sub)"
  unfolding end_benefits_def expire_entitlements_def by (intro calm_steps calm_alter; simp)

lemma calm_release_cycle: "effect (calm subscriptions) (release_cycle sub)"
  unfolding release_cycle_def by (intro calm_steps calm_alter; simp)

lemma calm_log: "effect (calm subscriptions) (record_log tenant user level category description)"
  by (rule calm_record_log) simp

lemmas calm_engine = calm_activate calm_end_benefits calm_release_cycle calm_log

section \<open>One subscription, followed through the statements\<close>

definition row_is :: "datetime \<Rightarrow> nat \<Rightarrow> (subscription_row \<Rightarrow> bool) \<Rightarrow> session \<Rightarrow> bool" where
  "row_is moment i P s \<longleftrightarrow> clock s = moment \<and> distinct (map rid (subscriptions (live s)))
     \<and> (case fetch i (subscriptions (live s)) of None \<Rightarrow> False | Some r \<Rightarrow> P r)"

definition quiet :: "'a service \<Rightarrow> bool" where
  "quiet m \<longleftrightarrow> effect (calm subscriptions) m \<and> effect (same clock) m"

lemma quiet_engine:
  "quiet (activate sub)" "quiet (end_benefits sub)" "quiet (release_cycle sub)" "quiet (record_log tenant user level category description)"
  using obeys_activate obeys_end_benefits obeys_release_cycle obeys_record_log
  by (simp_all add: quiet_def calm_engine obeys_split)

lemma after_quiet: "quiet m \<Longrightarrow> row_is moment i P s \<Longrightarrow> answers m (\<lambda>_ t. row_is moment i P t) s"
  by (auto simp: quiet_def answers_def effect_def row_is_def calm_def same_def dest: spec [of _ s])

lemma row_is_commit: "row_is moment i P (s\<lparr>kept := k\<rparr>) = row_is moment i P s"
  by (simp add: row_is_def)

lemma row_is_write:
  assumes "row_is moment i P s" and "\<And>r. p r \<Longrightarrow> rid (f r) = rid r" and "\<And>r. rid r = i \<Longrightarrow> P r \<Longrightarrow> Q (if p r then f r else r)"
  shows "row_is moment i Q (s\<lparr>live := (live s)\<lparr>subscriptions := amend p f (subscriptions (live s))\<rparr>\<rparr>)"
proof -
  from assms(1) obtain r where r: "fetch i (subscriptions (live s)) = Some r" "P r"
    by (auto simp: row_is_def split: option.splits)
  have "Q (if p r then f r else r)" using fetch_Some_in [OF r(1)] r(2) by (intro assms(3)) simp_all
  moreover have "fetch i (amend p f (subscriptions (live s))) = Some (if p r then f r else r)"
    using fetch_amend [of p f i "subscriptions (live s)", OF assms(2)] r(1) by simp
  ultimately show ?thesis using assms(1) by (simp add: row_is_def amend_rid assms(2))
qed

lemma after_write:
  assumes "row_is moment i P s" and "\<And>r. p r \<Longrightarrow> rid (f r) = rid r" and "\<And>r. rid r = i \<Longrightarrow> P r \<Longrightarrow> Q (if p r then f r else r)"
  shows "answers (alter subscriptions subscriptions_update holds p f) (\<lambda>_ t. row_is moment i Q t) s"
  using row_is_write [of moment i P s p f Q, OF assms] by (simp add: after_alter)

lemma row_is_D: "row_is moment i P s \<Longrightarrow> fetch i (subscriptions (live s)) = Some r \<Longrightarrow> P r"
  by (simp add: row_is_def)

lemma row_is_mono: "row_is moment i P s \<Longrightarrow> (\<And>r. P r \<Longrightarrow> Q r) \<Longrightarrow> row_is moment i Q s"
  by (auto simp: row_is_def split: option.splits)

lemma row_is_clock: "row_is moment i P s \<Longrightarrow> clock s = moment"
  by (simp add: row_is_def)

text \<open>What a row says once a line was written on it.\<close>

definition says :: "provider_purchase \<Rightarrow> subscription_row \<Rightarrow> bool" where
  "says purchase r \<longleftrightarrow> snapshot r = (status_of purchase,
     if pp_auto_resume_at purchase \<noteq> None then PAUSED else benefit_status.ACTIVE,
     deadline_of purchase, pp_grace_ends_at purchase, pp_unsubscribed_at purchase \<noteq> None)"

definition heard :: "provider_purchase \<Rightarrow> datetime \<Rightarrow> subscription_row \<Rightarrow> bool" where
  "heard purchase moment r \<longleftrightarrow>
     (if pp_refunded_at purchase \<noteq> None then su_status r = REVOKED
      else if over purchase moment then su_status r = subscription_status.EXPIRED
      else says purchase r)"

lemma says_carried: "says purchase (carried purchase moment r)"
  by (simp add: says_def snapshot_def carried_def)

lemma after_close:
  assumes "row_is moment i P s"
  shows "answers (close i status reason) (\<lambda>_ t. row_is moment i (\<lambda>r. su_status r = status) t) s"
proof -
  have w: "row_is moment i (\<lambda>r. su_status r = status)
      (s\<lparr>live := (live s)\<lparr>subscriptions := amend (named i) (closed_row status m) (subscriptions (live s))\<rparr>\<rparr>)" for m
    by (rule row_is_write [OF assms]) (auto simp: closed_row_def named_def)
  have stay: "row_is moment i (\<lambda>r. su_status r = su_status x) s" if "fetch i (subscriptions (live s)) = Some x" for x
    using assms that by (simp add: row_is_def)
  show ?thesis
    unfolding close_def using assms
    by (auto simp: after_flow after_statements after_alter split: option.splits
        intro!: after_conseq [OF after_quiet [OF quiet_engine(2)]] after_conseq [OF after_quiet [OF quiet_engine(4)]] w stay)
qed

lemma after_close_other:
  assumes "row_is moment i P s" and "j \<noteq> i"
  shows "answers (close j status reason) (\<lambda>_ t. row_is moment i P t) s"
proof -
  have w: "row_is moment i P (s\<lparr>live := (live s)\<lparr>subscriptions := amend (named j) (closed_row status m) (subscriptions (live s))\<rparr>\<rparr>)" for m
    by (rule row_is_write [OF assms(1)]) (use assms(2) in \<open>auto simp: closed_row_def named_def\<close>)
  show ?thesis
    unfolding close_def
    by (auto simp: after_flow after_statements after_alter assms split: option.splits
        intro!: after_conseq [OF after_quiet [OF quiet_engine(2)]] after_conseq [OF after_quiet [OF quiet_engine(4)]] w)
qed

section \<open>A word and the row it is about\<close>

text \<open>The row may still be moved by the word: it carries no newer stamp, and the word does not take it back to waiting.\<close>

definition open_to :: "provider_purchase \<Rightarrow> datetime option \<Rightarrow> subscription_row \<Rightarrow> bool" where
  "open_to purchase stated_at r \<longleftrightarrow> stampable stated_at r
     \<and> \<not> (status_of purchase = subscription_status.PENDING \<and> su_status r \<noteq> subscription_status.PENDING)"

lemma open_to_stamped: "open_to purchase stated_at r \<Longrightarrow> open_to purchase stated_at (stamped_row stated_at r)"
  by (auto simp: open_to_def stampable_def stamped_row_def split: option.splits)

lemma stamped_row_rid [simp]: "rid (stamped_row stated_at r) = rid r"
  by (simp add: stamped_row_def split: option.splits)

lemma after_hold:
  assumes "row_is moment i (open_to purchase stated_at) s"
  shows "answers (hold i stated_at) (\<lambda>mine t. mine \<and> row_is moment i (open_to purchase stated_at) t) s"
proof -
  let ?u = "s\<lparr>live := (live s)\<lparr>subscriptions := amend (\<lambda>r. named i r \<and> stampable stated_at r) (stamped_row stated_at) (subscriptions (live s))\<rparr>\<rparr>"
  from assms obtain r where r: "fetch i (subscriptions (live s)) = Some r" "open_to purchase stated_at r"
      and d: "distinct (map rid (subscriptions (live s)))"
    by (auto simp: row_is_def split: option.splits)
  have "hits (\<lambda>q. named i q \<and> stampable stated_at q) (subscriptions (live s)) = 1"
    using hits_alone [OF d r(1), of "stampable stated_at"] r(2) by (simp add: open_to_def)
  moreover have "row_is moment i (open_to purchase stated_at) ?u"
    by (rule row_is_write [OF assms]) (auto simp: open_to_stamped)
  ultimately show ?thesis by (simp add: hold_def after_flow after_alter)
qed

lemma after_repoint:
  assumes "row_is moment i (open_to purchase stated_at) s"
  shows "answers (repoint integration i purchase) (\<lambda>_ t. row_is moment i (open_to purchase stated_at) t) s"
proof -
  have w: "row_is moment i (open_to purchase stated_at) (s\<lparr>live := (live s)\<lparr>subscriptions :=
      amend p (\<lambda>r. r\<lparr>su_external_product := x, su_plan := y\<rparr>) (subscriptions (live s))\<rparr>\<rparr>)" for p x y
    by (rule row_is_write [OF assms]) (auto simp: open_to_def stampable_def cong: option.case_cong)
  show ?thesis
    unfolding repoint_def product_named_def
    by (auto simp: after_flow after_statements after_alter assms w split: option.splits
        intro!: after_conseq [OF after_quiet [OF quiet_engine(3)]])
qed

lemma holder_is_other:
  assumes "distinct (map rid (subscriptions d))" and "fetch i (subscriptions d) = Some r"
    and "Some (pp_external_id purchase) \<noteq> su_external_id r"
    and "List.find (holder_statement j purchase) (subscriptions d) = Some h"
  shows "rid h \<noteq> i"
proof
  assume "rid h = i"
  moreover have "h \<in> set (subscriptions d)" "holder_statement j purchase h"
    using find_Some_in [OF assms(4)] by simp_all
  ultimately have "h = r" using assms(1,2) fetch_distinct by (metis option.inject)
  with \<open>holder_statement j purchase h\<close> assms(3) show False by (simp add: holder_statement_def)
qed

lemma after_adopt:
  assumes "row_is moment i (open_to purchase stated_at) s"
  shows "answers (adopt i purchase) (\<lambda>_ t. row_is moment i (open_to purchase stated_at) t) s"
proof -
  let ?put = "\<lambda>p x. move_subscriptions p (\<lambda>r. r\<lparr>su_external_id := x\<rparr>)"
  have w: "answers (?put p x) (\<lambda>_ t. row_is moment i (open_to purchase stated_at) t) u"
    if "row_is moment i (open_to purchase stated_at) u" for p x u
    by (rule after_write [OF that]) (auto simp: open_to_def stampable_def cong: option.case_cong)
  show ?thesis
  proof (cases "fetch i (subscriptions (live s))")
    case None
    then show ?thesis by (simp add: adopt_def after_flow after_statements)
  next
    case (Some r)
    have d: "distinct (map rid (subscriptions (live s)))" using assms by (simp add: row_is_def)
    show ?thesis
      unfolding adopt_def holder_of_def Let_def
      by (auto simp: after_flow after_statements assms Some split: option.splits
          dest: holder_is_other [OF d Some]
          intro!: after_conseq [OF w] after_conseq [OF after_close_other] assms)
  qed
qed

lemma after_align:
  assumes "row_is moment i (open_to purchase stated_at) s"
  shows "answers (align i purchase stated_at) (\<lambda>_ t. row_is moment i (heard purchase moment) t) s"
proof -
  have carried: "row_is moment i (says purchase) (u\<lparr>live := (live u)\<lparr>subscriptions := amend (named i) (carried purchase moment) (subscriptions (live u))\<rparr>\<rparr>)"
    if "row_is moment i (open_to purchase stated_at) u" for u
    by (rule row_is_write [OF that]) (auto simp: says_carried named_def, simp_all add: carried_def)
  have closes: "answers (close i status reason) (\<lambda>_ t. row_is moment i (heard purchase moment) t) s"
    if "\<And>r. su_status r = status \<Longrightarrow> heard purchase moment r" for status reason
    by (rule after_conseq [OF after_close [OF assms]]) (use that in \<open>auto elim: row_is_mono\<close>)
  note clock = row_is_clock [OF assms]
  show ?thesis
  proof (cases "pp_refunded_at purchase \<noteq> None \<or> over purchase moment")
    case True
    then show ?thesis
      by (auto simp: align_def after_flow after_statements clock heard_def intro!: closes)
  next
    case False
    then have h: "heard purchase moment = says purchase" by (intro ext) (simp add: heard_def)
    have rest: "answers (carry i purchase) (\<lambda>_ t. row_is moment i (says purchase) t) u"
      if "row_is moment i (open_to purchase stated_at) u" for u
      using carried [OF that] row_is_clock [OF that] by (simp add: carry_def after_flow after_statements after_alter)
    show ?thesis using False
      by (auto simp: align_def after_flow after_statements clock h split: option.splits
          intro!: after_conseq [OF after_adopt [OF assms]] after_conseq [OF after_hold] after_conseq [OF rest]
            after_conseq [OF after_quiet [OF quiet_engine(1)]])
  qed
qed

lemma open_to_row:
  "row_is moment i (open_to purchase stated_at) t \<Longrightarrow> fetch i (subscriptions (live t)) = Some r \<Longrightarrow>
    status_of purchase = subscription_status.PENDING \<Longrightarrow> su_status r = subscription_status.PENDING"
  by (auto dest: row_is_D simp: open_to_def)

lemma settle_row_heard:
  assumes "row_is moment i (open_to purchase stated_at) s"
  shows "answers (settle_row integration i purchase stated_at) (\<lambda>_ t. row_is moment i (heard purchase moment) t) s"
proof -
  let ?open = "row_is moment i (open_to purchase stated_at)" and ?heard = "row_is moment i (heard purchase moment)"
  have act: "answers (andThen (activate i) (\<lambda>_. ret n)) (\<lambda>_ t. ?heard t) u" if "?heard u" for u and n :: nat
    by (simp add: after_flow after_quiet [OF quiet_engine(1) that])
  have tail: "answers (andThen (align i purchase stated_at) (\<lambda>changes. if \<not> changed then ret changes else andThen (activate i) (\<lambda>_. ret 1)))
      (\<lambda>_ t. ?heard t) u" if "?open u" for u changed
    by (auto simp: after_flow after_quiet [OF quiet_engine(1)] intro!: after_conseq [OF after_align [OF that]])
  have followed: "answers (andThen (repoint (rid integration) i purchase) (\<lambda>changed.
      andThen (if changed then hold i stated_at else ret True) (\<lambda>mine.
      if changed \<and> \<not> mine then ret 1 else
      andThen (align i purchase stated_at) (\<lambda>changes. if \<not> changed then ret changes else andThen (activate i) (\<lambda>_. ret 1)))))
      (\<lambda>_ t. ?heard t) u" if "?open u" for u
    unfolding after_andThen
    by (rule after_conseq [OF after_repoint [OF that]])
      (auto simp: after_flow after_quiet [OF quiet_engine(1)] intro!: after_conseq [OF after_hold] after_conseq [OF after_align])
  show ?thesis
    unfolding settle_row_def after_andThen [of "hold i stated_at"]
    by (rule after_conseq [OF after_hold [OF assms]])
      (auto simp: after_flow after_statements split: option.splits dest: open_to_row intro!: followed [unfolded after_andThen])
qed

section \<open>What the subscriptions owe to a word\<close>

text \<open>
  C7: The newest word of the gateway about a subscription is what the subscription says when the settling
  answers, whichever way it came to it (the row followed to the product the word names, the transaction taken
  over from an older row, the benefits handed out on the way): a refund revokes it, a period that is over
  expires it, and any other word leaves the status, the deadlines, the pause and the cancellation it states.
\<close>
theorem newest_word_is_heard:
  assumes "distinct (map rid (subscriptions (live s)))" and "fetch i (subscriptions (live s)) = Some r"
    and "stampable stated_at r" and "status_of purchase = subscription_status.PENDING \<Longrightarrow> su_status r = subscription_status.PENDING"
    and "settle_row integration i purchase stated_at s = (Ok n, t)"
  shows "\<exists>q. fetch i (subscriptions (live t)) = Some q
     \<and> (if pp_refunded_at purchase \<noteq> None then su_status q = REVOKED
        else if over purchase (clock s) then su_status q = subscription_status.EXPIRED
        else su_status q = status_of purchase \<and> su_access_until q = deadline_of purchase
          \<and> su_grace_until q = pp_grace_ends_at purchase
          \<and> (su_benefit_status q = PAUSED \<longleftrightarrow> pp_auto_resume_at purchase \<noteq> None)
          \<and> (su_cancel_at_period_end q \<longleftrightarrow> pp_unsubscribed_at purchase \<noteq> None))"
proof -
  have "row_is (clock s) i (open_to purchase stated_at) s"
    using assms(1-4) by (auto simp: row_is_def open_to_def)
  from after_D [OF settle_row_heard [OF this] assms(5)]
  show ?thesis by (auto simp: row_is_def heard_def says_def snapshot_def split: option.splits if_splits)
qed

definition sample_word :: provider_purchase where
  "sample_word = \<lparr>pp_external_id = ''receipt'', pp_product_reference = ''monthly'', pp_store = None, pp_ownership = None,
     pp_period_type = None, pp_trial = False, pp_purchased_at = Some (on_day 2024 1 31), pp_first_purchased_at = None,
     pp_period_ends_at = Some (on_day 2024 2 29), pp_grace_ends_at = None, pp_auto_resume_at = None,
     pp_unsubscribed_at = None, pp_refunded_at = None, pp_environment = PRODUCTION, pp_recurring = True, pp_status = None\<rparr>"

lemma newest_word_is_heard_witness:
  "\<exists>q t. fetch 1 (subscriptions (live t)) = Some q \<and> su_status q = subscription_status.EXPIRED
     \<and> snd (settle_row sample_integration 1 sample_word (Some (on_day 2024 3 5)) sample) = t"
proof -
  let ?m = "settle_row sample_integration 1 sample_word (Some (on_day 2024 3 5)) sample"
  have ok: "fst ?m = Ok 1" and o: "over sample_word (clock sample)" and f: "pp_refunded_at sample_word = None" by code_simp+
  from ok obtain t where m: "?m = (Ok 1, t)" by (metis prod.collapse)
  have d: "distinct (map rid (subscriptions (live sample)))" and r: "fetch 1 (subscriptions (live sample)) = Some sample_subscription"
    and st: "stampable (Some (on_day 2024 3 5)) sample_subscription" and p: "status_of sample_word \<noteq> subscription_status.PENDING"
    by code_simp+
  show ?thesis using newest_word_is_heard [OF d r st _ m] p o f m by auto
qed

text \<open>
  A word older than the last one heard of a subscription writes nothing at all, whether it names the
  subscription or leaves it out of a complete answer: the settling answers no change and the database is as
  it was, committed and not.
\<close>
theorem older_word_changes_nothing:
  assumes "distinct (map rid (subscriptions (live s)))" and "fetch i (subscriptions (live s)) = Some r"
    and "su_stated_at r = Some u" and "t < u"
  shows "settle_row integration i purchase (Some t) s = (Ok 0, s) \<and> close_missing (Some t) i s = (Ok 0, s)"
proof -
  let ?p = "\<lambda>q. named i q \<and> stampable (Some t) q"
  have none: "hits ?p (subscriptions (live s)) = 0"
    using hits_alone [OF assms(1,2), of "stampable (Some t)"] assms(3,4) by (simp add: stampable_def)
  have "hold i (Some t) s = (Ok False, s)"
    by (simp add: hold_def andThen_def alter_def Let_def none hits_0_amend [OF none])
  then show ?thesis by (simp add: settle_row_def close_missing_def andThen_def)
qed

lemma older_word_changes_nothing_witness:
  "settle_row sample_integration 1 sample_word (Some (on_day 2024 2 1))
     (opened_at (on_day 2024 3 5) (empty_db\<lparr>subscriptions := [sample_subscription\<lparr>su_stated_at := Some (on_day 2024 3 1)\<rparr>]\<rparr>))
   = (Ok 0, opened_at (on_day 2024 3 5) (empty_db\<lparr>subscriptions := [sample_subscription\<lparr>su_stated_at := Some (on_day 2024 3 1)\<rparr>]\<rparr>))"
  by (rule conjunct1 [OF older_word_changes_nothing [where u = "on_day 2024 3 1" and r = "sample_subscription\<lparr>su_stated_at := Some (on_day 2024 3 1)\<rparr>"]])
    code_simp+

section \<open>A complete answer\<close>

text \<open>Where a row stands as the rows an answer leaves out are gone through: \<open>gone\<close> once it was reached.\<close>

definition unheld :: "datetime option \<Rightarrow> bool \<Rightarrow> subscription_row \<Rightarrow> bool" where
  "unheld stated_at gone r \<longleftrightarrow> su_status r \<in> set ELIGIBLE_SUBSCRIPTION_STATUSES \<longrightarrow> \<not> gone \<and> stampable stated_at r"

lemma close_closes:
  assumes "row_is moment i P s"
  shows "wp (close i status reason) (\<lambda>_ t. row_is moment i (\<lambda>r. su_status r = status) t) E s"
proof -
  have w: "row_is moment i (\<lambda>r. su_status r = status)
      (s\<lparr>live := (live s)\<lparr>subscriptions := amend (named i) (closed_row status m) (subscriptions (live s))\<rparr>\<rparr>)" for m
    by (rule row_is_write [OF assms]) (auto simp: closed_row_def named_def)
  show ?thesis
    using assms w
    unfolding close_def end_benefits_def expire_entitlements_def record_log_def stage_def
    by (auto simp: wp_flow wp_statements wp_store Let_def row_is_def split: option.splits)
qed

lemma close_others:
  assumes "row_is moment i P s" and "fetch j (subscriptions (live s)) \<noteq> None" and "j \<noteq> i"
  shows "wp (close j status reason) (\<lambda>_ t. row_is moment i P t) E s"
proof -
  have w: "row_is moment i P
      (s\<lparr>live := (live s)\<lparr>subscriptions := amend (named j) (closed_row status m) (subscriptions (live s))\<rparr>\<rparr>)" for m
    by (rule row_is_write [OF assms(1)]) (use assms(3) in \<open>auto simp: closed_row_def named_def\<close>)
  show ?thesis
    using assms w
    unfolding close_def end_benefits_def expire_entitlements_def record_log_def stage_def
    by (auto simp: wp_flow wp_statements wp_store Let_def row_is_def split: option.splits)
qed

lemma close_missing_one:
  assumes "row_is moment i (unheld stated_at gone) s" and "fetch j (subscriptions (live s)) \<noteq> None"
  shows "wp (close_missing stated_at j) (\<lambda>_ t. row_is moment i (unheld stated_at (gone \<or> j = i)) t) E s"
proof -
  let ?p = "\<lambda>q. named j q \<and> stampable stated_at q"
  let ?u = "s\<lparr>live := (live s)\<lparr>subscriptions := amend ?p (stamped_row stated_at) (subscriptions (live s))\<rparr>\<rparr>"
  have d: "distinct (map rid (subscriptions (live s)))" using assms(1) by (simp add: row_is_def)
  obtain q where q: "fetch j (subscriptions (live s)) = Some q" using assms(2) by auto
  have hit: "hits ?p (subscriptions (live s)) = (if stampable stated_at q then 1 else 0)"
    using hits_alone [OF d q] .
  have u: "row_is moment i (unheld stated_at gone) ?u"
    by (rule row_is_write [OF assms(1)]) (auto simp: unheld_def stampable_def stamped_row_def split: option.splits)
  have there: "fetch j (subscriptions (live ?u)) = Some (if stampable stated_at q then stamped_row stated_at q else q)"
    using q fetch_Some_in [OF q] by (simp add: fetch_amend named_def)
  have status: "su_status (stamped_row stated_at q) = su_status q" by (simp add: stamped_row_def split: option.splits)
  show ?thesis
  proof (cases "stampable stated_at q \<and> su_status q \<in> set ELIGIBLE_SUBSCRIPTION_STATUSES")
    case True
    have "wp (close j subscription_status.EXPIRED reason) (\<lambda>_ t. row_is moment i (unheld stated_at (gone \<or> j = i)) t) E ?u" for reason
    proof (cases "j = i")
      case here: True
      have "wp (close i subscription_status.EXPIRED reason) (\<lambda>_ t. row_is moment i (unheld stated_at (gone \<or> j = i)) t) E ?u"
        by (rule wp_conseq [OF close_closes [OF u]]) (auto elim!: row_is_mono simp: unheld_def ELIGIBLE_SUBSCRIPTION_STATUSES_def)
      with here show ?thesis by simp
    next
      case False
      then show ?thesis using there by (auto intro!: wp_conseq [OF close_others [OF u]])
    qed
    with True there status show ?thesis by (simp add: close_missing_def hold_def wp_flow wp_statements hit)
  next
    case False
    have at_i: "row_is moment i (unheld stated_at (gone \<or> j = i)) ?u"
    proof (cases "j = i")
      case True
      then show ?thesis using u there status False by (auto simp: row_is_def unheld_def split: if_splits)
    next
      case False
      with u show ?thesis by simp
    qed
    with False there status show ?thesis by (simp add: close_missing_def hold_def wp_flow wp_statements hit)
  qed
qed

lemma keys_close_missing: "effect (calm (\<lambda>d. map rid (subscriptions d))) (close_missing stated_at j)"
proof -
  have frame: "effect (calm (\<lambda>d. map rid (subscriptions d))) (end_benefits i)"
    "effect (calm (\<lambda>d. map rid (subscriptions d))) (record_log tenant user level category description)" for i tenant user level category description
    unfolding end_benefits_def expire_entitlements_def by (intro calm_steps calm_alter calm_record_log; simp)+
  show ?thesis unfolding close_missing_def hold_def close_def
    by (intro calm_steps frame calm_alter) (simp_all add: amend_rid closed_row_def)
qed

lemma close_missing_all:
  assumes "row_is moment i (unheld stated_at gone) s" and "\<And>j. j \<in> set js \<Longrightarrow> fetch j (subscriptions (live s)) \<noteq> None"
  shows "wp (each (close_missing stated_at) js) (\<lambda>_ t. row_is moment i (unheld stated_at (gone \<or> i \<in> set js)) t) E s"
  using assms
proof (induction js arbitrary: s gone)
  case Nil
  then show ?case by (simp add: wp_flow)
next
  case (Cons j js)
  have step: "wp (close_missing stated_at j) (\<lambda>_ t. row_is moment i (unheld stated_at (gone \<or> j = i)) t) E s"
    by (rule close_missing_one) (use Cons.prems in auto)
  show ?case unfolding each.simps wp_andThen
  proof (rule wp_conseq [OF wp_and_effect [OF keys_close_missing step]])
    fix x t
    assume t: "row_is moment i (unheld stated_at (gone \<or> j = i)) t \<and> calm (\<lambda>d. map rid (subscriptions d)) s t"
    have "fetch k (subscriptions (live t)) \<noteq> None" if "k \<in> set js" for k
      using Cons.prems(2) [of k] that t unfolding calm_def fetch_None_iff by (metis list.set_intros(2) list.set_map)
    from Cons.IH [OF conjunct1 [OF t] this]
    show "wp (each (close_missing stated_at) js) (\<lambda>xs. wp (ret (x # xs)) (\<lambda>_ t. row_is moment i (unheld stated_at (gone \<or> i \<in> set (j # js))) t) E) E t"
      by (auto simp: wp_flow disj_assoc eq_commute [of i] simp del: ret_apply)
  qed simp
qed

text \<open>Every row the account is known to hold here is a row there is.\<close>

lemma dict_set_values: "snd ` set (dict_set k v d) \<subseteq> insert v (snd ` set d)"
  by (induction k v d rule: dict_set.induct) auto

lemma dict_of_values: "snd ` set (dict_of d kvs) \<subseteq> snd ` set d \<union> snd ` set kvs"
proof (induction kvs arbitrary: d)
  case Nil
  then show ?case by simp
next
  case (Cons kv kvs)
  obtain k v where kv: "kv = (k, v)" by fastforce
  show ?case using Cons.IH [of "dict_set k v d"] dict_set_values [of k v d] by (auto simp: kv)
qed

lemma ours_there:
  assumes "value_of (ours integration user) s = Ok known" and "j \<in> snd ` set known"
  shows "fetch j (subscriptions (live s)) \<noteq> None"
proof -
  let ?pairs = "List.map_filter (\<lambda>r. if held_here integration user r
      then (case su_external_product r of None \<Rightarrow> None
        | Some p \<Rightarrow> map_option (\<lambda>e. (ep_external_id e, rid r)) (fetch p (external_products (live s))))
      else None) (subscriptions (live s))"
  have "known = dict_of [] ?pairs" using assms(1) by (simp add: ours_def value_of_def)
  then have "j \<in> snd ` set ?pairs" using dict_of_values [of "[]" ?pairs] assms(2) by auto
  then have "j \<in> rid ` set (subscriptions (live s))"
    by (auto simp: List.map_filter_def split: if_splits option.splits)
  then show ?thesis by (simp add: fetch_None_iff)
qed



end
