(* ===== verification/Idempotency.thy ===== *)
theory Idempotency
  imports Sample
begin

text \<open>
  \<^verbatim>\<open>helpers/idempotency.py\<close>: a write a client named runs once and answers the same thing every time it is sent. The
  work is a service handed to \<open>once\<close>, and its answer a document kept as text.
\<close>

definition ABANDONED_AFTER :: int where
  "ABANDONED_AFTER = minutes 5"

abbreviation "write_requests \<equiv> alter client_requests client_requests_update free_keys"

section \<open>Taking a name\<close>

definition names :: "nat \<Rightarrow> string \<Rightarrow> client_request_row \<Rightarrow> bool" where
  "names user key r \<longleftrightarrow> cr_user r = user \<and> cr_idempotency_key r = key"

definition take_over :: "nat \<Rightarrow> bool service" where
  "take_over record_id =
     andThen now (\<lambda>moment.
     andThen (write_requests
       (\<lambda>r. named record_id r \<and> cr_answer r = None \<and> before_by moment ABANDONED_AFTER (cr_claimed_at r))
       (\<lambda>r. r\<lparr>cr_claimed_at := moment\<rparr>)) (\<lambda>rowcount.
     andThen commit (\<lambda>_. ret (rowcount = 1))))"

text \<open>
  The row taken, if the call was named at all, and the answer where the first call already left one.
\<close>

definition claim :: "nat \<Rightarrow> string option \<Rightarrow> string \<Rightarrow> (client_request_row option \<times> string option) service" where
  "claim user key endpoint =
     (if key = None \<or> key = Some '''' then ret (None, None) else
      andThen now (\<lambda>moment.
      andThen (settle client_requests client_requests_update (free_of request_key) (names user (the key))
        \<lparr>rid = 0, cr_user = user, cr_idempotency_key = the key, cr_endpoint = endpoint, cr_answer = None, cr_claimed_at = moment\<rparr>) (\<lambda>w.
      andThen commit (\<lambda>_.
      case w of
        Wrote r \<Rightarrow> ret (Some r, None)
      | Missed \<Rightarrow> throw (ConflictError ''error.idempotency-key-in-flight'')
      | Found r \<Rightarrow>
          if cr_endpoint r \<noteq> endpoint then throw (ConflictError ''error.idempotency-key-reused'') else
          (case cr_answer r of
             Some answer \<Rightarrow> ret (Some r, Some answer)
           | None \<Rightarrow>
               andThen (take_over (rid r)) (\<lambda>taken.
               if \<not> taken then throw (ConflictError ''error.idempotency-key-in-flight'') else ret (Some r, None)))))))"

definition give_back :: "nat option \<Rightarrow> unit service" where
  "give_back record_id =
     (case record_id of
        None \<Rightarrow> ret ()
      | Some i \<Rightarrow>
          andThen rollback (\<lambda>_.
          andThen (remove client_requests client_requests_update (\<lambda>r. named i r \<and> cr_answer r = None)) (\<lambda>_. commit)))"

definition settle_answer :: "client_request_row option \<Rightarrow> string \<Rightarrow> unit service" where
  "settle_answer request answer =
     (case request of
        None \<Rightarrow> ret ()
      | Some r \<Rightarrow> andThen (write_requests (named (rid r)) (\<lambda>q. q\<lparr>cr_answer := Some answer\<rparr>)) (\<lambda>_. commit))"

definition once :: "nat \<Rightarrow> string option \<Rightarrow> string \<Rightarrow> string service \<Rightarrow> string service" where
  "once user key endpoint work =
     andThen (claim user key endpoint) (\<lambda>(request, answered).
     case answered of
       Some answer \<Rightarrow> ret answer
     | None \<Rightarrow>
         andThen (handle work (\<lambda>error. andThen (give_back (map_option rid request)) (\<lambda>_. throw error))) (\<lambda>answer.
         andThen (settle_answer request answer) (\<lambda>_. ret answer)))"

section \<open>What a name answers\<close>

definition sample_requested :: session where
  "sample_requested = opened_at (on_day 2024 3 5) (sample_db\<lparr>client_requests := [\<lparr>rid = 1, cr_user = 1, cr_idempotency_key = ''first'',
     cr_endpoint = ''checkout'', cr_answer = None, cr_claimed_at = on_day 2024 3 5\<rparr>]\<rparr>)"

text \<open>The work leaves the names of the clients alone, wherever it commits or rolls back.\<close>

definition minds_its_own :: "string service \<Rightarrow> bool" where
  "minds_its_own work \<longleftrightarrow> effect (leaves client_requests) work"

lemma own_work:
  assumes "minds_its_own work" and "client_requests (kept s) = client_requests (live s)" and "work s = (r, t)"
  shows "client_requests (live t) = client_requests (live s) \<and> client_requests (kept t) = client_requests (live s)"
  using assms effectD [of "leaves client_requests" work s r t] by (auto simp: minds_its_own_def leaves_def)

definition fresh_request :: "nat \<Rightarrow> string \<Rightarrow> string \<Rightarrow> session \<Rightarrow> client_request_row" where
  "fresh_request user key endpoint s = \<lparr>rid = next_id (client_requests (live s)), cr_user = user, cr_idempotency_key = key,
     cr_endpoint = endpoint, cr_answer = None, cr_claimed_at = clock s\<rparr>"

lemma claim_new:
  assumes "key \<noteq> ''''" and "List.find (names user key) (client_requests (live s)) = None"
  shows "claim user (Some key) endpoint s = (Ok (Some (fresh_request user key endpoint s), None),
    s\<lparr>live := client_requests_update (\<lambda>t. t @ [fresh_request user key endpoint s]) (live s),
      kept := client_requests_update (\<lambda>t. t @ [fresh_request user key endpoint s]) (live s)\<rparr>)"
proof -
  have "free_of request_key (client_requests (live s)) \<lparr>rid = 0, cr_user = user, cr_idempotency_key = key, cr_endpoint = endpoint,
      cr_answer = None, cr_claimed_at = clock s\<rparr>"
    using assms(2) by (auto simp: free_of_keys request_key_def find_None_iff_all names_def)
  with assms show ?thesis
    by (simp add: claim_def settle_def insert_or_read_def andThen_def append_row_def fresh_request_def)
qed

lemma claim_found:
  assumes "key \<noteq> ''''" and "List.find (names user key) (client_requests (live s)) = Some r" and "cr_endpoint r = endpoint"
    and "cr_answer r = Some answer"
  shows "claim user (Some key) endpoint s = (Ok (Some r, Some answer), s\<lparr>kept := live s\<rparr>)"
  using assms by (simp add: claim_def settle_def insert_or_read_def andThen_def)

lemma find_named_once:
  assumes "List.find p t = None" and "p q" and "\<And>r. p r \<Longrightarrow> p (f r)" and "\<And>r. r \<in> set t \<Longrightarrow> rid r \<noteq> rid q"
  shows "List.find p (amend (named (rid q)) f (t @ [q])) = Some (f q)"
proof -
  have "amend (named (rid q)) f t = t" using assms(4) by (intro amend_none) (auto simp: named_def)
  then have "amend (named (rid q)) f (t @ [q]) = t @ [f q]" by (simp add: amend_def named_def)
  with assms(1-3) show ?thesis by (simp add: find_append)
qed

text \<open>
  C19: A write a client named runs once. Where the first call answered, the same call sent again, at any later
  moment and whatever work it carries, answers the very same thing without running it, and writes nothing.
\<close>
theorem named_write_runs_once:
  assumes "minds_its_own work" and "key \<noteq> ''''" and "List.find (names user key) (client_requests (live s)) = None"
    and "once user (Some key) endpoint work s = (Ok answer, t)"
  shows "once user (Some key) endpoint other (t\<lparr>clock := later\<rparr>) = (Ok answer, t\<lparr>clock := later\<rparr>)"
proof -
  let ?q = "fresh_request user key endpoint s"
  let ?u = "client_requests_update (\<lambda>t. t @ [?q]) (live s)"
  let ?s = "s\<lparr>live := ?u, kept := ?u\<rparr>"
  obtain r v where w: "work ?s = (r, v)" by fastforce
  from own_work [OF assms(1) _ w] have rows: "client_requests (live v) = client_requests (live s) @ [?q]" by simp
  let ?done = "client_requests_update (\<lambda>_. amend (named (rid ?q)) (\<lambda>q. q\<lparr>cr_answer := Some answer\<rparr>) (client_requests (live v))) (live v)"
  from assms(4) w have r: "r = Ok answer" and t: "t = v\<lparr>live := ?done, kept := ?done\<rparr>"
    by (auto simp: once_def claim_new [OF assms(2,3)] handle_def andThen_def give_back_def settle_answer_def alter_def
      free_keys_def Let_def split: outcome.splits)
  have "rid x \<noteq> rid ?q" if "x \<in> set (client_requests (live s))" for x
    using rid_less_next [OF that] by (simp add: fresh_request_def)
  with assms(3) have "List.find (names user key)
      (amend (named (rid ?q)) (\<lambda>q. q\<lparr>cr_answer := Some answer\<rparr>) (client_requests (live s) @ [?q])) = Some (?q\<lparr>cr_answer := Some answer\<rparr>)"
    by (intro find_named_once) (simp_all add: names_def fresh_request_def)
  then have "List.find (names user key) (client_requests ?done) = Some (?q\<lparr>cr_answer := Some answer\<rparr>)"
    by (simp add: rows)
  then have "claim user (Some key) endpoint (t\<lparr>clock := later\<rparr>)
      = (Ok (Some (?q\<lparr>cr_answer := Some answer\<rparr>), Some answer), t\<lparr>clock := later\<rparr>)"
    using claim_found [OF assms(2), of user "t\<lparr>clock := later\<rparr>" "?q\<lparr>cr_answer := Some answer\<rparr>" endpoint answer]
    by (simp add: t fresh_request_def)
  then show ?thesis by (simp add: once_def andThen_def)
qed

text \<open>
  A named write that failed gives the name back: the call raises what the work raised, no request of the name
  is left in the transaction or in what was committed, and the names of everybody else are as they were.
\<close>
theorem failed_write_gives_the_name_back:
  assumes "minds_its_own work" and "key \<noteq> ''''" and "List.find (names user key) (client_requests (live s)) = None"
    and "value_of (once user (Some key) endpoint work) s = Err error"
  shows "\<exists>t. once user (Some key) endpoint work s = (Err error, t)
     \<and> client_requests (live t) = client_requests (live s) \<and> client_requests (kept t) = client_requests (live s)"
proof -
  let ?q = "fresh_request user key endpoint s"
  let ?u = "client_requests_update (\<lambda>t. t @ [?q]) (live s)"
  let ?s = "s\<lparr>live := ?u, kept := ?u\<rparr>"
  obtain r v where w: "work ?s = (r, v)" by fastforce
  from own_work [OF assms(1) _ w] have rows: "client_requests (kept v) = client_requests (live s) @ [?q]" by simp
  have "filter (\<lambda>r. \<not> (named (rid ?q) r \<and> cr_answer r = None)) (client_requests (live s)) = client_requests (live s)"
    by (auto simp: filter_id_conv named_def fresh_request_def dest: rid_less_next)
  then have restored: "filter (\<lambda>r. \<not> (named (rid ?q) r \<and> cr_answer r = None)) (client_requests (kept v)) = client_requests (live s)"
    by (simp add: rows named_def fresh_request_def)
  from assms(4) w restored show ?thesis
    by (auto simp: value_of_def once_def claim_new [OF assms(2,3)] handle_def andThen_def give_back_def settle_answer_def alter_def
      free_keys_def Let_def split: outcome.splits)
qed

text \<open>
  While the first call works, nobody else does: the same name on the same endpoint is refused as in flight, and
  on another one as reused, and neither refusal writes anything.
\<close>
theorem name_in_flight_is_refused:
  assumes "key \<noteq> ''''" and "List.find (names user key) (client_requests (live s)) = Some r" and "kept s = live s"
    and "distinct (map rid (client_requests (live s)))"
    and "cr_answer r = None" and "\<not> before_by (clock s) ABANDONED_AFTER (cr_claimed_at r)"
  shows "once user (Some key) endpoint work s = (Err (ConflictError (if cr_endpoint r = endpoint
      then ''error.idempotency-key-in-flight'' else ''error.idempotency-key-reused'')), s)"
proof -
  let ?p = "\<lambda>q. named (rid r) q \<and> cr_answer q = None \<and> before_by (clock s) ABANDONED_AFTER (cr_claimed_at q)"
  have "fetch (rid r) (client_requests (live s)) = Some r"
    using fetch_distinct [OF assms(4)] find_Some_in [OF assms(2)] by simp
  from hits_alone [OF assms(4) this] assms(6) have h: "hits ?p (client_requests (live s)) = 0" by simp
  from hits_0_amend [OF h] h assms(1,2,3,5) show ?thesis
    by (simp add: once_def claim_def take_over_def settle_def insert_or_read_def alter_def free_keys_def Let_def andThen_def)
qed

lemma named_write_runs_once_witness:
  "\<exists>t. once 1 (Some ''key'') ''checkout'' (ret ''paid'') sample = (Ok ''paid'', t)
     \<and> once 1 (Some ''key'') ''checkout'' (ret ''again'') (t\<lparr>clock := on_day 2024 3 6\<rparr>) = (Ok ''paid'', t\<lparr>clock := on_day 2024 3 6\<rparr>)"
proof -
  have own: "minds_its_own (ret ''paid'')" unfolding minds_its_own_def by (rule leaves_order.ret_ok)
  have none: "List.find (names 1 ''key'') (client_requests (live sample)) = None" by (simp add: sample_defs)
  obtain t where t: "once 1 (Some ''key'') ''checkout'' (ret ''paid'') sample = (Ok ''paid'', t)"
    using claim_new [OF _ none, of "''checkout''"]
    by (simp add: once_def andThen_def handle_def settle_answer_def alter_def free_keys_def Let_def)
  from named_write_runs_once [OF own _ none t, of "ret ''again''" "on_day 2024 3 6"] t show ?thesis by auto
qed

lemma failed_write_gives_the_name_back_witness:
  "\<exists>t. once 1 (Some ''key'') ''checkout'' (throw Silent) sample = (Err Silent, t)
     \<and> client_requests (live t) = client_requests (live sample) \<and> client_requests (kept t) = client_requests (live sample)"
proof -
  have own: "minds_its_own (throw Silent)" unfolding minds_its_own_def by (rule leaves_order.throw_ok)
  have none: "List.find (names 1 ''key'') (client_requests (live sample)) = None" by (simp add: sample_defs)
  have "value_of (once 1 (Some ''key'') ''checkout'' (throw Silent)) sample = Err Silent"
    using claim_new [OF _ none, of "''checkout''"]
    by (simp add: value_of_def once_def andThen_def handle_def give_back_def)
  from failed_write_gives_the_name_back [OF own _ none this] show ?thesis by simp
qed

lemma name_in_flight_is_refused_witness:
  "once 1 (Some ''first'') ''checkout'' (ret ''again'') sample_requested = (Err (ConflictError ''error.idempotency-key-in-flight''), sample_requested)"
proof -
  let ?r = "\<lparr>rid = 1, cr_user = 1, cr_idempotency_key = ''first'', cr_endpoint = ''checkout'', cr_answer = None, cr_claimed_at = on_day 2024 3 5\<rparr>"
  have "List.find (names 1 ''first'') (client_requests (live sample_requested)) = Some ?r"
    "kept sample_requested = live sample_requested" "distinct (map rid (client_requests (live sample_requested)))"
    "cr_answer ?r = None" "\<not> before_by (clock sample_requested) ABANDONED_AFTER (cr_claimed_at ?r)"
    by (simp_all add: sample_requested_def opened_at_def names_def before_by_def ABANDONED_AFTER_def minutes_def)
  from name_in_flight_is_refused [OF _ this, of "''checkout''" "ret ''again''"] show ?thesis by simp
qed

end
