(* ===== verification/Mail.thy ===== *)
theory Mail
  imports Settings Reconciliation Queue Sample
begin

text \<open>
  \<^verbatim>\<open>services/email_service.py\<close> over \<^verbatim>\<open>helpers/mailer.py\<close> and \<^verbatim>\<open>helpers/smtp_mailer.py\<close>: a message is written down first and
  dialled out later. The catalogues, the templates and the conversation with the server are parameters; \<open>late\<close> says at which message of a
  pass the clock of the process is past its deadline. A message given its language at the call is one the caller
  names; the row a send works on is the one its claim left. The text of an error is kept nowhere but as the reason
  an address is suppressed for.
\<close>

definition MAX_ATTEMPTS :: nat where
  "MAX_ATTEMPTS = 5"

definition BATCH :: nat where
  "BATCH = 50"

definition ABANDONED_AFTER :: int where
  "ABANDONED_AFTER = minutes 30"

section \<open>How a message leaves\<close>

record letter =
  le_sender :: string
  le_to :: string
  le_subject :: string
  le_html :: string
  le_reply_to :: "string option"

text \<open>What the server said: every recipient refused with a code of its own, one refused, or the conversation broke.\<close>

datatype dialled = Taken | RecipientsRefused "nat list" string | RecipientRefused nat string | Broken exc

record post =
  ps_translate :: "string \<Rightarrow> string \<Rightarrow> string"
  ps_render :: "string \<Rightarrow> string \<Rightarrow> string \<Rightarrow> (string \<times> string) list \<Rightarrow> string outcome"
  ps_dial :: "email_settings \<Rightarrow> letter \<Rightarrow> dialled"
  ps_print :: "letter \<Rightarrow> unit outcome"

fun refuses_the_address :: "dialled \<Rightarrow> bool" where
  "refuses_the_address (RecipientsRefused codes said) = list_ex (\<lambda>c. 500 \<le> c \<and> c < 600) codes"
| "refuses_the_address (RecipientRefused code said) = (500 \<le> code \<and> code < 600)"
| "refuses_the_address _ = False"

definition smtp_send :: "post \<Rightarrow> email_settings \<Rightarrow> letter \<Rightarrow> unit outcome" where
  "smtp_send p settings letter =
     (case ps_dial p settings letter of
        Taken \<Rightarrow> Ok ()
      | RecipientsRefused codes said \<Rightarrow>
          Err (if refuses_the_address (RecipientsRefused codes said) then AddressRefused said else Raised ''SMTPRecipientsRefused'')
      | RecipientRefused code said \<Rightarrow>
          Err (if refuses_the_address (RecipientRefused code said) then AddressRefused said else Raised ''SMTPRecipientRefused'')
      | Broken error \<Rightarrow> Err error)"

definition send :: "post \<Rightarrow> email_settings \<Rightarrow> letter \<Rightarrow> unit outcome" where
  "send p settings letter = (case es_provider settings of SMTP \<Rightarrow> smtp_send p settings letter | CONSOLE \<Rightarrow> ps_print p letter)"

section \<open>Writing a message down\<close>

abbreviation "write_letters \<equiv> alter outbound_emails outbound_emails_update free_keys"

definition suppressed :: "string \<Rightarrow> bool service" where
  "suppressed address = query (\<lambda>d. list_ex (\<lambda>r. sa_address r = address) (suppressed_addresses d))"

definition suppress :: "string \<Rightarrow> string \<Rightarrow> unit service" where
  "suppress address reason =
     andThen (settle suppressed_addresses suppressed_addresses_update (free_of address_key) (\<lambda>r. sa_address r = address)
       \<lparr>rid = 0, sa_address = address, sa_reason = take 255 reason\<rparr>) (\<lambda>_. ret ())"

definition queue :: "nat option \<Rightarrow> string \<Rightarrow> string \<Rightarrow> string \<Rightarrow> string option \<Rightarrow> string \<Rightarrow> (string \<times> string) list \<Rightarrow> outbound_email_row service" where
  "queue tenant to subject template reply_to spoken context =
     andThen now (\<lambda>moment.
     andThen (suppressed to) (\<lambda>refused.
     andThen (store outbound_emails outbound_emails_update (\<lambda>_ _. True)
       \<lparr>rid = 0, oe_tenant = tenant, oe_to = to, oe_reply_to = reply_to, oe_subject = subject, oe_template = template,
        oe_locale = spoken, oe_context = context,
        oe_status = (if refused then outbound_email_status.REFUSED else outbound_email_status.PENDING), oe_attempts = 0,
        oe_error_code = (if refused then Some ''SuppressedAddress'' else None), oe_sent_at = None,
        oe_created_at = moment, oe_updated_at = moment\<rparr>) (\<lambda>r.
     andThen commit (\<lambda>_. ret r))))"

definition language_of :: "config \<Rightarrow> string \<Rightarrow> user_row \<Rightarrow> string service" where
  "language_of c current user =
     query (\<lambda>d. case us_language user of
         None \<Rightarrow> current
       | Some i \<Rightarrow> (case fetch i (languages d) of
           None \<Rightarrow> current
         | Some l \<Rightarrow> if la_code_iso_639_1 l \<in> set (co_languages c) then la_code_iso_639_1 l else current))"

definition to_user :: "config \<Rightarrow> post \<Rightarrow> string \<Rightarrow> nat option \<Rightarrow> user_row \<Rightarrow> string \<Rightarrow> string \<Rightarrow> string option \<Rightarrow> (string \<times> string) list
    \<Rightarrow> unit service" where
  "to_user c p current tenant user subject_key template address context =
     andThen (language_of c current user) (\<lambda>spoken.
     case (case address of Some a \<Rightarrow> if a = '''' then us_email user else Some a | None \<Rightarrow> us_email user) of
       None \<Rightarrow> throw IntegrityError
     | Some to \<Rightarrow> andThen (queue tenant to (ps_translate p subject_key spoken) template None spoken context) (\<lambda>_. ret ()))"

section \<open>Sending\<close>

definition claim :: "nat \<Rightarrow> bool service" where
  "claim record_id =
     andThen now (\<lambda>moment.
     andThen (write_letters (\<lambda>r. named record_id r \<and> oe_status r = outbound_email_status.PENDING)
       (\<lambda>r. r\<lparr>oe_status := SENDING, oe_attempts := oe_attempts r + 1, oe_updated_at := moment\<rparr>)) (\<lambda>rowcount.
     andThen commit (\<lambda>_. ret (rowcount = 1))))"

definition deliver_record :: "config \<Rightarrow> post \<Rightarrow> outbound_email_row \<Rightarrow> unit service" where
  "deliver_record c p record =
     andThen (brand_of c (oe_tenant record)) (\<lambda>brand.
     andThen (lift (ps_render p (''email/'' @ oe_template record @ ''.html'') (br_code brand) (oe_locale record)
       (dict_of [(''brand'', br_name brand), (''subject'', oe_subject record)] (oe_context record)))) (\<lambda>body.
     lift (send p (email_for c (br_code brand))
       \<lparr>le_sender = br_name brand, le_to = oe_to record, le_subject = oe_subject record, le_html = body,
        le_reply_to = oe_reply_to record\<rparr>)))"

definition mark_letter :: "nat \<Rightarrow> (datetime \<Rightarrow> outbound_email_row \<Rightarrow> outbound_email_row) \<Rightarrow> unit service" where
  "mark_letter record_id f =
     andThen now (\<lambda>moment.
     andThen (write_letters (named record_id) (\<lambda>r. (f moment r)\<lparr>oe_updated_at := moment\<rparr>)) (\<lambda>_. ret ()))"

definition fail :: "outbound_email_row \<Rightarrow> exc \<Rightarrow> unit service" where
  "fail record error =
     (case error of
        AddressRefused said \<Rightarrow>
          andThen (mark_letter (rid record) (\<lambda>_ r. r\<lparr>oe_status := outbound_email_status.REFUSED, oe_error_code := Some ''AddressRefused''\<rparr>)) (\<lambda>_.
          andThen (suppress (oe_to record) said) (\<lambda>_.
          record_log (oe_tenant record) None WARNING (Some ACCOUNT) (oe_to record @ '' was refused for good and stops receiving'')))
      | _ \<Rightarrow>
          andThen (mark_letter (rid record) (\<lambda>_ r. r\<lparr>oe_status :=
            (if MAX_ATTEMPTS \<le> oe_attempts r then outbound_email_status.FAILED else outbound_email_status.PENDING),
            oe_error_code := Some (error_name error)\<rparr>)) (\<lambda>_.
          record_log (oe_tenant record) None ERROR (Some ACCOUNT)
            (''email '' @ oe_template record @ '' to '' @ oe_to record @ '' failed: '' @ error_name error)))"

definition write_down :: "nat \<Rightarrow> exc option \<Rightarrow> outbound_email_row option service" where
  "write_down record_id error =
     andThen (load outbound_emails record_id) (\<lambda>record.
     case error of
       Some e \<Rightarrow> andThen (fail record e) (\<lambda>_. andThen commit (\<lambda>_. ret None))
     | None \<Rightarrow>
         andThen (mark_letter record_id (\<lambda>moment r. r\<lparr>oe_status := SENT, oe_sent_at := Some moment, oe_error_code := None\<rparr>)) (\<lambda>_.
         andThen commit (\<lambda>_. andThen (load outbound_emails record_id) (\<lambda>r. ret (Some r)))))"

definition settle_letter :: "config \<Rightarrow> post \<Rightarrow> nat \<Rightarrow> outbound_email_row option service" where
  "settle_letter c p record_id =
     andThen (load outbound_emails record_id) (\<lambda>record.
     andThen (handle (andThen (deliver_record c p record) (\<lambda>_. ret None)) (\<lambda>error. ret (Some error))) (\<lambda>error.
     write_down record_id error))"

text \<open>The pass reads what waits, oldest first, and takes messages until its deadline.\<close>

definition waiting_letters :: "db \<Rightarrow> nat list" where
  "waiting_letters d = map rid (take BATCH (sort_key oe_created_at
     (filter (\<lambda>r. oe_status r = outbound_email_status.PENDING \<and> oe_attempts r < MAX_ATTEMPTS) (outbound_emails d))))"

definition send_one :: "config \<Rightarrow> post \<Rightarrow> nat \<Rightarrow> outbound_email_row list service" where
  "send_one c p record_id =
     andThen (claim record_id) (\<lambda>claimed.
     if \<not> claimed then ret [] else
     andThen (settle_letter c p record_id) (\<lambda>settled. ret (case settled of None \<Rightarrow> [] | Some r \<Rightarrow> [r])))"

fun taking_letters :: "config \<Rightarrow> post \<Rightarrow> (nat \<Rightarrow> bool) \<Rightarrow> nat \<Rightarrow> nat list \<Rightarrow> outbound_email_row list service" where
  "taking_letters c p late i [] = ret []"
| "taking_letters c p late i (record_id # queued) =
     (if late i then ret [] else
      andThen (send_one c p record_id) (\<lambda>sent.
      andThen (taking_letters c p late (Suc i) queued) (\<lambda>rest. ret (sent @ rest))))"

definition process_pending :: "config \<Rightarrow> post \<Rightarrow> (nat \<Rightarrow> bool) \<Rightarrow> outbound_email_row list service" where
  "process_pending c p late = andThen (query waiting_letters) (taking_letters c p late 0)"

definition stranded :: "datetime \<Rightarrow> outbound_email_row \<Rightarrow> bool" where
  "stranded moment r \<longleftrightarrow> oe_status r = SENDING \<and> before_by moment ABANDONED_AFTER (oe_updated_at r)"

definition reclaim_abandoned :: "nat service" where
  "reclaim_abandoned =
     andThen now (\<lambda>moment.
     andThen (write_letters (\<lambda>r. stranded moment r \<and> MAX_ATTEMPTS \<le> oe_attempts r)
       (\<lambda>r. r\<lparr>oe_status := outbound_email_status.FAILED, oe_error_code := Some ''abandoned'', oe_updated_at := moment\<rparr>)) (\<lambda>_.
     andThen (write_letters (\<lambda>r. stranded moment r \<and> oe_attempts r < MAX_ATTEMPTS)
       (\<lambda>r. r\<lparr>oe_status := outbound_email_status.PENDING, oe_updated_at := moment\<rparr>)) (\<lambda>reclaimed.
     andThen commit (\<lambda>_. ret reclaimed))))"

section \<open>One sender\<close>

definition awaiting :: "datetime \<Rightarrow> outbound_email_row \<Rightarrow> bool" where
  "awaiting moment r \<longleftrightarrow> oe_status r = outbound_email_status.PENDING"

definition claimed_letter :: "datetime \<Rightarrow> outbound_email_row \<Rightarrow> outbound_email_row" where
  "claimed_letter moment r = r\<lparr>oe_status := SENDING, oe_attempts := oe_attempts r + 1, oe_updated_at := moment\<rparr>"

interpretation letter_queue: work_queue awaiting claimed_letter ABANDONED_AFTER
  by unfold_locales (simp_all add: awaiting_def claimed_letter_def)

lemma claim_letter_row: "claims_row outbound_emails awaiting claimed_letter i (claim i)"
  by (simp add: claims_row_def claim_def taking_abs awaiting_def claimed_letter_def [abs_def] alter_def free_keys_def Let_def andThen_def)

section \<open>A pass settles what it takes\<close>

definition on_the_way :: "session \<Rightarrow> nat set" where
  "on_the_way s = rid ` set (filter (\<lambda>r. oe_status r = SENDING) (outbound_emails (live s)))"

lemma wp_mark_letter: "wp (mark_letter i f) Q E s =
  Q () (s\<lparr>live := outbound_emails_update (\<lambda>_. amend (named i) (\<lambda>r. (f (clock s) r)\<lparr>oe_updated_at := clock s\<rparr>) (outbound_emails (live s))) (live s)\<rparr>)"
  by (simp add: mark_letter_def wp_flow wp_statements del: ret_apply)

text \<open>How a message may be left by the end of its send: nowhere on the way, and waiting only with an attempt left.\<close>

definition settling :: "(outbound_email_row \<Rightarrow> outbound_email_row) \<Rightarrow> bool" where
  "settling f \<longleftrightarrow> (\<forall>r. rid (f r) = rid r \<and> oe_attempts (f r) = oe_attempts r \<and> oe_status (f r) \<noteq> SENDING
     \<and> (oe_status (f r) = outbound_email_status.PENDING \<longrightarrow> oe_attempts r < MAX_ATTEMPTS))"

lemma wp_suppress: "wp (suppress address reason) Q E s = (case insert_or_read (free_of address_key) (\<lambda>r. sa_address r = address)
    \<lparr>rid = 0, sa_address = address, sa_reason = take 255 reason\<rparr> (suppressed_addresses (live s)) of
  (w, u) \<Rightarrow> Q () (s\<lparr>live := suppressed_addresses_update (\<lambda>_. u) (live s)\<rparr>))"
  by (simp add: suppress_def wp_flow wp_settle split: prod.splits del: ret_apply)

lemma wp_record_log: "wp (record_log tenant user level category description) Q E s =
  (let d = logs_update (\<lambda>_. append_row \<lparr>rid = 0, lo_tenant = tenant, lo_user = user, lo_level = level, lo_category = category,
     lo_description = description\<rparr> (logs (live s))) (live s) in Q () (s\<lparr>live := d, kept := d\<rparr>))"
  by (simp add: wp_def record_log_def stage_def andThen_def store_def Let_def)

lemma fail_settles:
  "wp (fail record error) (\<lambda>_ t. \<exists>f. settling f \<and> outbound_emails (live t) = amend (named (rid record)) f (outbound_emails (live s)))
     (\<lambda>_ _. False) s"
proof (cases "\<exists>said. error = AddressRefused said")
  case True
  then obtain said where e: "error = AddressRefused said" by blast
  have "settling (\<lambda>r. r\<lparr>oe_status := outbound_email_status.REFUSED, oe_error_code := Some ''AddressRefused'', oe_updated_at := clock s\<rparr>)"
    by (simp add: settling_def)
  then show ?thesis
    by (auto simp: fail_def e wp_flow wp_mark_letter wp_suppress wp_record_log Let_def split: prod.splits)
next
  case False
  let ?f = "\<lambda>r. r\<lparr>oe_status := (if MAX_ATTEMPTS \<le> oe_attempts r then outbound_email_status.FAILED else outbound_email_status.PENDING),
    oe_error_code := Some (error_name error), oe_updated_at := clock s\<rparr>"
  have f: "settling ?f" by (simp add: settling_def)
  from False have "fail record error =
      andThen (mark_letter (rid record) (\<lambda>_ r. r\<lparr>oe_status :=
        (if MAX_ATTEMPTS \<le> oe_attempts r then outbound_email_status.FAILED else outbound_email_status.PENDING),
        oe_error_code := Some (error_name error)\<rparr>)) (\<lambda>_.
      record_log (oe_tenant record) None ERROR (Some ACCOUNT)
        (''email '' @ oe_template record @ '' to '' @ oe_to record @ '' failed: '' @ error_name error))"
    by (cases error) (simp_all add: fail_def)
  then show ?thesis using f by (auto simp: wp_flow wp_mark_letter wp_record_log Let_def)
qed

text \<open>The parts outside return or raise; none of them loops.\<close>

definition returns :: "post \<Rightarrow> bool" where
  "returns p \<longleftrightarrow> (\<forall>name code spoken context. ps_render p name code spoken context \<noteq> Hangs) \<and> (\<forall>l. ps_print p l \<noteq> Hangs)"

lemma delivery_reads:
  assumes "returns p"
  shows "\<exists>error. handle (andThen (deliver_record c p record) (\<lambda>_. ret None)) (\<lambda>error. ret (Some error)) s = (Ok error, s)"
proof -
  have "send p settings letter \<noteq> Hangs" for settings letter
    using assms by (auto simp: send_def smtp_send_def returns_def split: email_provider.splits dialled.splits)
  then show ?thesis using assms
    by (auto simp: deliver_record_def brand_of_def returns_def handle_def andThen_def lift_def split: prod.splits outcome.splits)
qed

lemma settle_letter_settles:
  assumes "returns p" and "fetch i (outbound_emails (live s)) = Some record"
  shows "wp (settle_letter c p i) (\<lambda>sent t. (\<exists>f. settling f \<and> outbound_emails (live t) = amend (named i) f (outbound_emails (live s)))
     \<and> (\<forall>r. sent = Some r \<longrightarrow> oe_status r = SENT \<and> rid r = i)) (\<lambda>_ _. False) s"
proof -
  obtain error where e: "handle (andThen (deliver_record c p record) (\<lambda>_. ret None)) (\<lambda>error. ret (Some error)) s = (Ok error, s)"
    using delivery_reads [OF assms(1)] by blast
  have "andThen (handle (andThen (deliver_record c p record) (\<lambda>_. ret None)) (\<lambda>error. ret (Some error))) (\<lambda>error. write_down i error) s
      = write_down i error s" by (rule andThen_Ok) (rule e)
  then have "settle_letter c p i s = write_down i error s"
    using assms(2) by (simp add: settle_letter_def)
  moreover have "wp (write_down i error) (\<lambda>sent t. (\<exists>f. settling f \<and> outbound_emails (live t) = amend (named i) f (outbound_emails (live s)))
     \<and> (\<forall>r. sent = Some r \<longrightarrow> oe_status r = SENT \<and> rid r = i)) (\<lambda>_ _. False) s"
  proof (cases error)
    case None
    let ?f = "\<lambda>r. r\<lparr>oe_status := SENT, oe_sent_at := Some (clock s), oe_error_code := None, oe_updated_at := clock s\<rparr>"
    have "settling ?f" by (simp add: settling_def)
    moreover have "fetch i (amend (named i) ?f (outbound_emails (live s))) = Some (?f record)"
      using assms(2) fetch_Some_in [OF assms(2)] by (simp add: fetch_amend named_def)
    ultimately show ?thesis using assms(2) fetch_Some_in [OF assms(2)]
      by (auto simp: write_down_def None wp_flow wp_load wp_mark_letter wp_commit)
  next
    case (Some e)
    show ?thesis using assms(2) fetch_Some_in [OF assms(2)] wp_conseq [OF fail_settles [of "record" e s]]
      by (auto simp: write_down_def Some wp_flow wp_load wp_commit elim!: wp_conseq)
  qed
  ultimately show ?thesis by (simp add: wp_def)
qed

lemma hits_le_1: "distinct (map rid t) \<Longrightarrow> hits (\<lambda>q. named i q \<and> p q) t \<le> 1"
proof (cases "fetch i t")
  case None
  then have "hits (\<lambda>q. named i q \<and> p q) t = 0"
    by (auto simp: hits_def filter_empty_conv named_def fetch_None_iff image_iff)
  then show ?thesis by simp
qed (simp add: hits_alone)

lemma send_one_settles:
  assumes "returns p" and d: "distinct (map rid (outbound_emails (live s)))"
  shows "wp (send_one c p i) (\<lambda>sent t. distinct (map rid (outbound_emails (live t))) \<and> on_the_way t \<subseteq> on_the_way s
     \<and> (\<forall>r\<in>set sent. oe_status r = SENT)) (\<lambda>_ _. False) s"
proof -
  let ?taking = "\<lambda>r. named i r \<and> oe_status r = outbound_email_status.PENDING"
  let ?taken = "claimed_letter (clock s)"
  let ?rows = "outbound_emails (live s)"
  let ?u = "outbound_emails_update (\<lambda>_. amend ?taking ?taken ?rows) (live s)"
  let ?s = "s\<lparr>live := ?u, kept := ?u\<rparr>"
  have c: "claim i s = (Ok (hits ?taking ?rows = 1), ?s)"
    by (simp add: claim_def alter_def Let_def andThen_def free_keys_def claimed_letter_def [abs_def])
  have c': "andThen (claim i) k s = k (hits ?taking ?rows = 1) ?s" for k :: "bool \<Rightarrow> 'b service"
    by (rule andThen_Ok) (rule c)
  have ids: "rid (?taken r) = rid r" for r by (simp add: claimed_letter_def)
  show ?thesis
  proof (cases "hits ?taking ?rows = 1")
    case False
    then have "hits ?taking ?rows = 0" using hits_le_1 [OF d, of i "\<lambda>r. oe_status r = outbound_email_status.PENDING"] by linarith
    then have "amend ?taking ?taken ?rows = ?rows" by (rule hits_0_amend)
    with False d show ?thesis by (simp add: send_one_def wp_def c' on_the_way_def)
  next
    case True
    then have "filter ?taking ?rows \<noteq> []" by (auto simp: hits_def)
    then have "fetch i ?rows \<noteq> None" by (auto simp: filter_empty_conv named_def fetch_None_iff image_iff dest: sym)
    then obtain q where q: "fetch i (outbound_emails (live ?s)) = Some q" using ids by (auto simp: fetch_amend)
    have e: "wp (send_one c p i) Q E s = wp (settle_letter c p i) (\<lambda>x. Q (case x of None \<Rightarrow> [] | Some r \<Rightarrow> [r])) E ?s" for Q E
      unfolding send_one_def wp_def c' using True by (simp add: andThen_def split: prod.splits outcome.splits)
    have step: "distinct (map rid (amend (named i) f (amend ?taking ?taken ?rows)))
        \<and> rid ` set (filter (\<lambda>r. oe_status r = SENDING) (amend (named i) f (amend ?taking ?taken ?rows))) \<subseteq> on_the_way s"
      if f: "settling f" for f
    proof
      show "distinct (map rid (amend (named i) f (amend ?taking ?taken ?rows)))"
        using d f ids by (simp add: amend_rid settling_def)
      show "rid ` set (filter (\<lambda>r. oe_status r = SENDING) (amend (named i) f (amend ?taking ?taken ?rows))) \<subseteq> on_the_way s"
        using f by (auto simp: set_amend settling_def on_the_way_def named_def ids split: if_splits)
    qed
    show ?thesis unfolding e
    proof (rule wp_conseq [OF settle_letter_settles [OF assms(1) q]])
      fix sent and t :: session
      assume a: "(\<exists>f. settling f \<and> outbound_emails (live t) = amend (named i) f (outbound_emails (live ?s)))
        \<and> (\<forall>r. sent = Some r \<longrightarrow> oe_status r = SENT \<and> rid r = i)"
      then obtain f where f: "settling f" "outbound_emails (live t) = amend (named i) f (amend ?taking ?taken ?rows)" by auto
      have "on_the_way t \<subseteq> on_the_way s" unfolding on_the_way_def [of t] f(2) using step [OF f(1)] by blast
      with a step [OF f(1)] f(2) show "distinct (map rid (outbound_emails (live t))) \<and> on_the_way t \<subseteq> on_the_way s
        \<and> (\<forall>r\<in>set (case sent of None \<Rightarrow> [] | Some r \<Rightarrow> [r]). oe_status r = SENT)"
        by (auto split: option.splits)
    qed
  qed
qed

lemma taking_letters_settles:
  assumes "returns p" and "distinct (map rid (outbound_emails (live s)))"
  shows "wp (taking_letters c p late n queued) (\<lambda>sent t. on_the_way t \<subseteq> on_the_way s
     \<and> (\<forall>r\<in>set sent. oe_status r = SENT)) (\<lambda>_ _. False) s"
  using assms(2)
proof (induction queued arbitrary: n s)
  case Nil
  then show ?case by (simp add: wp_ret del: ret_apply)
next
  case (Cons i queued)
  show ?case
  proof (cases "late n")
    case True
    then show ?thesis by (simp add: wp_ret del: ret_apply)
  next
    case False
    have "wp (andThen (taking_letters c p late (Suc n) queued) (\<lambda>rest. ret (sent @ rest)))
        (\<lambda>sent u. on_the_way u \<subseteq> on_the_way s \<and> (\<forall>r\<in>set sent. oe_status r = SENT)) (\<lambda>_ _. False) t"
      if "distinct (map rid (outbound_emails (live t)))" "on_the_way t \<subseteq> on_the_way s" "\<forall>r\<in>set sent. oe_status r = SENT" for sent t
      unfolding wp_andThen wp_ret by (rule wp_conseq [OF Cons.IH [OF that(1)]]) (use that(2,3) in auto)
    then show ?thesis unfolding taking_letters.simps wp_andThen using False
      by (auto simp: wp_andThen intro: wp_conseq [OF send_one_settles [OF assms(1) Cons.prems]])
  qed
qed



definition sample_letter :: outbound_email_row where
  "sample_letter = \<lparr>rid = 1, oe_tenant = Some 1, oe_to = ''reader@example.com'', oe_reply_to = None, oe_subject = ''Hello'',
     oe_template = ''welcome'', oe_locale = ''en'', oe_context = [], oe_status = outbound_email_status.PENDING, oe_attempts = 0,
     oe_error_code = None, oe_sent_at = None, oe_created_at = on_day 2024 3 5, oe_updated_at = on_day 2024 3 5\<rparr>"

definition sample_mailed :: session where
  "sample_mailed = opened_at (on_day 2024 3 5) (sample_db\<lparr>outbound_emails := [sample_letter]\<rparr>)"

definition sample_config :: config where
  "sample_config = \<lparr>co_name = ''Shop'', co_multi_tenant = True,
     co_security = \<lparr>ss_secret_key = ''key'', ss_sign_in_attempts = 5, ss_sign_in_cooldown = 60, ss_sign_in_cooldown_max = 900\<rparr>,
     co_email_login = \<lparr>ls_enabled = True, ls_site = True, ls_admin = True, ls_code_ttl = 600, ls_resend_interval = 60, ls_max_attempts = 5\<rparr>,
     co_social = [], co_social_ttl = 600, co_ticket_ttl = 60,
     co_email = \<lparr>es_provider = SMTP, es_host = ''mail'', es_port = 587, es_username = '''', es_password = '''', es_use_tls = True,
       es_from_address = ''no-reply@shop''\<rparr>,
     co_site_scheme = ''https'', co_site_domain = ''shop'', co_tenants = [], co_default_language = ''en'', co_languages = [''en'', ''pt''],
     co_password_reset_token_ttl = 3600, co_password_reset_interval = 60, co_confirm_sign_up = True, co_confirm_sign_up_interval = 60\<rparr>"

text \<open>A server that refuses every recipient for good.\<close>

definition sample_post :: post where
  "sample_post = \<lparr>ps_translate = (\<lambda>key spoken. key), ps_render = (\<lambda>name code spoken context. Ok name),
     ps_dial = (\<lambda>settings letter. RecipientRefused 550 ''no such user''), ps_print = (\<lambda>letter. Ok ())\<rparr>"


section \<open>What waits has an attempt left\<close>

definition letters_lawful :: "db \<Rightarrow> bool" where
  "letters_lawful d \<longleftrightarrow> list_all (\<lambda>r. oe_attempts r \<le> MAX_ATTEMPTS
     \<and> (oe_status r = outbound_email_status.PENDING \<longrightarrow> oe_attempts r < MAX_ATTEMPTS)) (outbound_emails d)"

lemma lawful_letter: "letters_lawful d \<Longrightarrow> q \<in> set (outbound_emails d) \<Longrightarrow> oe_attempts q \<le> MAX_ATTEMPTS
    \<and> (oe_status q = outbound_email_status.PENDING \<longrightarrow> oe_attempts q < MAX_ATTEMPTS)"
  by (auto simp: letters_lawful_def list_all_iff)

lemma lawful_write:
  assumes "\<And>r. p r \<Longrightarrow> oe_attempts r \<le> MAX_ATTEMPTS \<Longrightarrow> (oe_status r = outbound_email_status.PENDING \<longrightarrow> oe_attempts r < MAX_ATTEMPTS)
      \<Longrightarrow> oe_attempts (f r) \<le> MAX_ATTEMPTS \<and> (oe_status (f r) = outbound_email_status.PENDING \<longrightarrow> oe_attempts (f r) < MAX_ATTEMPTS)"
  shows "effect (keeps (steady letters_lawful)) (write_letters p f)"
  by (rule steady_alter) (auto simp: letters_lawful_def list_all_iff set_amend assms)

lemma lawful_frame:
  assumes "effect (leaves outbound_emails) m"
  shows "effect (keeps (steady letters_lawful)) m"
  by (rule leaves_keeps [OF assms]) (simp add: letters_lawful_def)

lemma lawful_mark:
  assumes "\<And>moment r. oe_attempts r \<le> MAX_ATTEMPTS
      \<Longrightarrow> oe_attempts (f moment r) \<le> MAX_ATTEMPTS \<and> (oe_status (f moment r) = outbound_email_status.PENDING \<longrightarrow> oe_attempts (f moment r) < MAX_ATTEMPTS)"
  shows "effect (keeps (steady letters_lawful)) (mark_letter i f)"
  unfolding mark_letter_def by (intro steady_steps lawful_write) (simp add: assms)

lemma lawful_queue: "effect (keeps (steady letters_lawful)) (queue tenant to subject template reply_to spoken context)"
  unfolding queue_def suppressed_def
  by (intro steady_steps steady_store) (simp add: letters_lawful_def append_row_def MAX_ATTEMPTS_def)

lemma lawful_claim: "effect (keeps (steady letters_lawful)) (claim i)"
  unfolding claim_def by (intro steady_steps lawful_write) auto

lemma lawful_record_log: "effect (keeps (steady letters_lawful)) (record_log tenant user level category description)"
  unfolding record_log_def stage_def by (intro lawful_frame leaves_steps leaves_store) simp

lemma lawful_suppress: "effect (keeps (steady letters_lawful)) (suppress address reason)"
  unfolding suppress_def by (intro lawful_frame leaves_steps leaves_settle) simp

lemma lawful_fail: "effect (keeps (steady letters_lawful)) (fail record error)"
  unfolding fail_def
  by (cases error) (simp_all, (intro steady_steps lawful_mark lawful_suppress lawful_record_log; simp)+)

lemma lawful_write_down: "effect (keeps (steady letters_lawful)) (write_down i error)"
  unfolding write_down_def by (intro steady_steps lawful_mark lawful_fail) simp

lemma lawful_settle_letter: "effect (keeps (steady letters_lawful)) (settle_letter c p i)"
  unfolding settle_letter_def deliver_record_def brand_of_def by (intro steady_steps lawful_write_down)

lemma lawful_taking: "effect (keeps (steady letters_lawful)) (taking_letters c p late n queued)"
proof (induction queued arbitrary: n)
  case Nil
  show ?case unfolding taking_letters.simps by (rule keeps_order.ret_ok)
next
  case (Cons i queued)
  show ?case unfolding taking_letters.simps send_one_def
    by (intro steady_steps lawful_claim lawful_settle_letter Cons)
qed

lemma lawful_reclaim: "effect (keeps (steady letters_lawful)) reclaim_abandoned"
  unfolding reclaim_abandoned_def by (intro steady_steps lawful_write) auto

text \<open>Everything that writes a letter, in any order.\<close>

datatype mail_call =
    Queue "nat option" string string string "string option" string "(string \<times> string) list"
  | Claim nat
  | Send nat
  | Pass "nat \<Rightarrow> bool"
  | Reclaim

fun mailing :: "config \<Rightarrow> post \<Rightarrow> mail_call \<Rightarrow> unit service" where
  "mailing c p (Queue tenant to subject template reply_to spoken context) =
     andThen (queue tenant to subject template reply_to spoken context) (\<lambda>_. ret ())"
| "mailing c p (Claim i) = andThen (claim i) (\<lambda>_. ret ())"
| "mailing c p (Send i) = andThen (settle_letter c p i) (\<lambda>_. ret ())"
| "mailing c p (Pass late) = andThen (process_pending c p late) (\<lambda>_. ret ())"
| "mailing c p Reclaim = andThen reclaim_abandoned (\<lambda>_. ret ())"

lemma lawful_mailing: "effect (keeps (steady letters_lawful)) (mailing c p call)"
  by (cases call) (simp_all only: mailing.simps process_pending_def,
    (intro steady_steps lawful_queue lawful_claim lawful_settle_letter lawful_taking lawful_reclaim)+)

definition mailed :: "config \<Rightarrow> post \<Rightarrow> mail_call list \<Rightarrow> session \<Rightarrow> session" where
  "mailed c p calls s = foldl (\<lambda>s call. state_of (mailing c p call) s) s calls"

text \<open>
  However messages are queued, claimed, sent and reclaimed, and whatever the servers answer, a message that
  waits always has an attempt left and none was ever dialled more than \<open>MAX_ATTEMPTS\<close> times, in the transaction
  and in what was committed.
\<close>
theorem letters_are_bounded:
  assumes "steady letters_lawful s"
  shows "steady letters_lawful (mailed c p calls s)"
  using assms
proof (induction calls arbitrary: s)
  case (Cons call calls)
  have "steady letters_lawful (state_of (mailing c p call) s)"
    using effect_keepsD [OF lawful_mailing Cons.prems] by (simp add: state_of_def)
  from Cons.IH [OF this] show ?case by (simp add: mailed_def)
qed (simp add: mailed_def)

lemma letters_are_bounded_witness:
  "steady letters_lawful (mailed sample_config sample_post [Pass (\<lambda>n. False), Reclaim] sample_mailed)"
proof -
  have "steady letters_lawful sample_mailed"
    by (simp add: steady_def letters_lawful_def sample_mailed_def opened_at_def sample_letter_def MAX_ATTEMPTS_def)
  then show ?thesis by (rule letters_are_bounded)
qed

section \<open>An address refused for good\<close>

text \<open>
  A server that refuses an address for good is listened to: the message is left refused, the address is written
  down, and whatever is queued to it afterwards is born refused and changes nothing of what waits to be sent.
\<close>
theorem refused_address_is_silenced:
  assumes "fetch i (outbound_emails (live s)) = Some record"
    and "value_of (deliver_record c p record) s = Err (AddressRefused said)"
  shows "\<exists>t. settle_letter c p i s = (Ok None, t) \<and> kept t = live t
     \<and> map_option oe_status (fetch i (outbound_emails (live t))) = Some outbound_email_status.REFUSED
     \<and> (\<exists>letter u. queue tenant (oe_to record) subject template reply_to spoken context t = (Ok letter, u)
          \<and> oe_status letter = outbound_email_status.REFUSED \<and> waiting_letters (live u) = waiting_letters (live t))"
proof -
  have r: "rid record = i" using fetch_Some_in [OF assms(1)] by simp
  have d: "deliver_record c p record s = (Err (AddressRefused said), s)"
    using assms(2) by (auto simp: deliver_record_def brand_of_def value_of_def andThen_def lift_def split: prod.splits outcome.splits)
  let ?new = "\<lparr>rid = 0, sa_address = oe_to record, sa_reason = take 255 said\<rparr>"
  obtain w u where io: "insert_or_read (free_of address_key) (\<lambda>r. sa_address r = oe_to record) ?new (suppressed_addresses (live s)) = (w, u)"
    by fastforce
  then have known: "list_ex (\<lambda>r. sa_address r = oe_to record) u"
    by (cases rule: insert_or_read_cases)
      (auto simp: list_ex_iff append_row_def free_of_keys address_key_def find_None_iff_all)
  let ?f = "\<lambda>r. r\<lparr>oe_status := outbound_email_status.REFUSED, oe_error_code := Some ''AddressRefused'', oe_updated_at := clock s\<rparr>"
  let ?rows = "amend (named i) ?f (outbound_emails (live s))"
  have "wp (settle_letter c p i) (\<lambda>x t. x = None \<and> kept t = live t \<and> outbound_emails (live t) = ?rows \<and> suppressed_addresses (live t) = u)
      (\<lambda>_ _. False) s"
    using assms(1)
    by (simp add: settle_letter_def write_down_def fail_def wp_flow wp_load wp_mark_letter wp_suppress wp_record_log wp_commit
      wp_def [of "deliver_record c p record"] d r io Let_def)
  then obtain t where t: "settle_letter c p i s = (Ok None, t)" "kept t = live t" "outbound_emails (live t) = ?rows"
      "suppressed_addresses (live t) = u" by (auto simp: wp_def split: prod.splits outcome.splits)
  have "fetch i ?rows = Some (?f record)" using assms(1) r by (simp add: fetch_amend named_def)
  moreover have "\<exists>letter v. queue tenant (oe_to record) subject template reply_to spoken context t = (Ok letter, v)
      \<and> oe_status letter = outbound_email_status.REFUSED \<and> waiting_letters (live v) = waiting_letters (live t)"
    using known t(4) by (simp add: queue_def suppressed_def store_def Let_def andThen_def waiting_letters_def append_row_def)
  ultimately show ?thesis using t by auto
qed

lemma refused_address_is_silenced_witness:
  "\<exists>t. settle_letter sample_config sample_post 1 sample_mailed = (Ok None, t) \<and> kept t = live t
     \<and> map_option oe_status (fetch 1 (outbound_emails (live t))) = Some outbound_email_status.REFUSED
     \<and> (\<exists>letter u. queue None ''reader@example.com'' ''Again'' ''welcome'' None ''en'' [] t = (Ok letter, u)
          \<and> oe_status letter = outbound_email_status.REFUSED \<and> waiting_letters (live u) = waiting_letters (live t))"
proof -
  have f: "fetch 1 (outbound_emails (live sample_mailed)) = Some sample_letter"
    by (simp add: sample_mailed_def opened_at_def fetch_def sample_letter_def)
  have "value_of (deliver_record sample_config sample_post sample_letter) sample_mailed = Err (AddressRefused ''no such user'')"
    by (simp add: deliver_record_def brand_of_def value_of_def sample_post_def send_def smtp_send_def email_for_def sample_config_def
      andThen_def lift_def)
  from refused_address_is_silenced [OF f this, of None "''Again''" "''welcome''" None "''en''" "[]"] show ?thesis
    by (simp add: sample_letter_def)
qed

end
