(* ===== verification/Text.thy ===== *)
theory Text
  imports Json
begin

text \<open>
  \<^verbatim>\<open>helpers/text.py\<close> and the terms of \<^verbatim>\<open>helpers/search.py\<close>: what a value read by a person looks like and what one typed by a person
  is worth. The NFKD decomposition that strips the accents is a parameter, the text it leaves in ASCII.
\<close>

section \<open>Text a person types\<close>

text \<open>The decomposition keeps plain text as it is and leaves nothing but ASCII.\<close>

definition plain :: "(string \<Rightarrow> string) \<Rightarrow> string option \<Rightarrow> string" where
  "plain nfkd v = lower (nfkd (case v of None \<Rightarrow> '''' | Some t \<Rightarrow> t))"

definition slug_char :: "char \<Rightarrow> bool" where
  "slug_char c \<longleftrightarrow> 97 \<le> code_of c \<and> code_of c \<le> 122 \<or> is_digit c"

text \<open>\<open>SLUG_PATTERN.sub("-", t)\<close>: every run of what is not a slug character becomes one hyphen.\<close>

fun hyphened :: "bool \<Rightarrow> string \<Rightarrow> string" where
  "hyphened inside [] = []"
| "hyphened inside (c # t) = (if slug_char c then c # hyphened False t
     else if inside then hyphened True t else CHR ''-'' # hyphened True t)"

definition strip_hyphens :: "string \<Rightarrow> string" where
  "strip_hyphens t = rev (dropWhile (\<lambda>c. c = CHR ''-'') (rev (dropWhile (\<lambda>c. c = CHR ''-'') t)))"

definition slugify :: "(string \<Rightarrow> string) \<Rightarrow> string \<Rightarrow> string \<Rightarrow> nat option \<Rightarrow> string" where
  "slugify nfkd v fallback max_length =
     (let slug = strip_hyphens (hyphened False (plain nfkd (Some v)));
          cut = (case max_length of None \<Rightarrow> slug
            | Some n \<Rightarrow> rev (dropWhile (\<lambda>c. c = CHR ''-'') (rev (take n slug))))
      in if cut = '''' then fallback else cut)"

definition only_digits :: "string option \<Rightarrow> string" where
  "only_digits v = (case v of None \<Rightarrow> '''' | Some t \<Rightarrow> filter is_digit t)"

definition digit_at :: "string \<Rightarrow> nat \<Rightarrow> nat" where
  "digit_at digits i = read_digits 0 [digits ! i]"

definition check_digit :: "string \<Rightarrow> nat \<Rightarrow> nat" where
  "check_digit digits position = sum_list (map (\<lambda>i. digit_at digits i * (position + 1 - i)) [0..<position]) * 10 mod 11 mod 10"

definition is_valid_cpf :: "string option \<Rightarrow> bool" where
  "is_valid_cpf v =
     (let digits = only_digits v
      in if length digits \<noteq> 11 \<or> digits = replicate 11 (digits ! 0) then False
         else list_all (\<lambda>position. check_digit digits position = digit_at digits position) [9, 10])"

definition falls_under :: "string \<Rightarrow> string \<Rightarrow> bool" where
  "falls_under path prefix' \<longleftrightarrow> path = prefix' \<or> prefix (prefix' @ ''/'') path"

definition display_name :: "user_row \<Rightarrow> string" where
  "display_name user =
     (let stripped = (\<lambda>v. strip (case v of None \<Rightarrow> '''' | Some t \<Rightarrow> t));
          first = stripped (us_first_name user); family = stripped (us_last_name user);
          full = (if first \<noteq> '''' \<and> family \<noteq> '''' then first @ '' '' @ family else first @ family);
          local = fst (split_once (CHR ''@'') (case us_email user of None \<Rightarrow> '''' | Some e \<Rightarrow> e))
      in if stripped (us_nickname user) \<noteq> '''' then stripped (us_nickname user)
         else if full \<noteq> '''' then full
         else case us_username user of
           Some u \<Rightarrow> if u \<noteq> '''' then u else if local \<noteq> '''' then local else ''#'' @ decimal (rid user)
         | None \<Rightarrow> if local \<noteq> '''' then local else ''#'' @ decimal (rid user))"

section \<open>Search terms\<close>

text \<open>What a dialect reads as syntax.\<close>

definition OPERATORS :: string where
  "OPERATORS = [CHR ''+'', CHR ''-'', CHR ''<'', CHR ''>'', CHR ''('', CHR '')'', CHR ''~'', CHR ''*'', CHR 0x22, CHR ''@'', CHR '':'',
     CHR ''&'', CHR ''|'', CHR ''!'', CHR 0x5C, CHR ''%'', CHR ''_'']"

definition MIN_TOKEN_SIZE :: nat where
  "MIN_TOKEN_SIZE = 3"

text \<open>\<open>t.split()\<close> on runs of blanks.\<close>

definition words_of :: "string \<Rightarrow> string list" where
  "words_of term = filter (\<lambda>w. w \<noteq> '''') (split_on (CHR '' '')
     (map (\<lambda>c. if c \<in> set OPERATORS \<or> is_space c then CHR '' '' else c) term))"

definition tokens_of :: "string \<Rightarrow> string list" where
  "tokens_of term = filter (\<lambda>w. MIN_TOKEN_SIZE \<le> length w) (words_of term)"

fun join :: "string \<Rightarrow> string list \<Rightarrow> string" where
  "join sep [] = []"
| "join sep [w] = w"
| "join sep (w # ws) = w @ sep @ join sep ws"

definition phrase_of :: "string \<Rightarrow> string" where
  "phrase_of term = join '' '' (words_of term)"

text \<open>The pattern \<open>contains\<close> hands to ILIKE, whose three special characters are escaped.\<close>

definition escaped :: "string \<Rightarrow> string" where
  "escaped term = concat (map (\<lambda>c. if c \<in> {CHR 0x5C, CHR ''%'', CHR ''_''} then [CHR 0x5C, c] else [c]) term)"

definition pattern_of :: "string \<Rightarrow> string" where
  "pattern_of term = ''%'' @ escaped term @ ''%''"

text \<open>\<open>column ILIKE pattern ESCAPE '\'\<close> as SQL reads it.\<close>

fun ilike :: "string \<Rightarrow> string \<Rightarrow> bool" where
  "ilike [] v \<longleftrightarrow> v = []"
| "ilike (c # p) v \<longleftrightarrow>
     (if c = CHR ''%'' then ilike p v \<or> (case v of [] \<Rightarrow> False | _ # w \<Rightarrow> ilike (c # p) w)
      else if c = CHR 0x5C then
        (case (p, v) of (d # q, x # w) \<Rightarrow> lower_char d = lower_char x \<and> ilike q w | _ \<Rightarrow> False)
      else if c = CHR ''_'' then (case v of [] \<Rightarrow> False | _ # w \<Rightarrow> ilike p w)
      else (case v of [] \<Rightarrow> False | x # w \<Rightarrow> lower_char c = lower_char x \<and> ilike p w))"

definition contains :: "string \<Rightarrow> string \<Rightarrow> bool" where
  "contains term value = ilike (pattern_of term) value"

section \<open>A term is a piece and never a pattern\<close>

lemma map_split_Cons: "(\<exists>u z. x # w = u @ z \<and> map f u = y # l \<and> P z) \<longleftrightarrow> y = f x \<and> (\<exists>u z. w = u @ z \<and> map f u = l \<and> P z)"
proof
  assume "\<exists>u z. x # w = u @ z \<and> map f u = y # l \<and> P z"
  then show "y = f x \<and> (\<exists>u z. w = u @ z \<and> map f u = l \<and> P z)" by (auto simp: Cons_eq_append_conv)
next
  assume "y = f x \<and> (\<exists>u z. w = u @ z \<and> map f u = l \<and> P z)"
  then obtain u z where "y = f x" "w = u @ z" "map f u = l" "P z" by blast
  then show "\<exists>u z. x # w = u @ z \<and> map f u = y # l \<and> P z" by (intro exI [of _ "x # u"] exI [of _ z]) simp
qed

lemma ilike_escaped:
  "ilike (escaped term @ p) v \<longleftrightarrow> (\<exists>u w. v = u @ w \<and> lower u = lower term \<and> ilike p w)"
proof (induction "term" arbitrary: v)
  case Nil
  then show ?case by (simp add: escaped_def lower_def)
next
  case (Cons c t)
  have e: "escaped (c # t) = (if c \<in> {CHR 0x5C, CHR ''%'', CHR ''_''} then [CHR 0x5C, c] else [c]) @ escaped t"
    by (simp add: escaped_def)
  have step: "ilike (escaped (c # t) @ p) v \<longleftrightarrow> (case v of [] \<Rightarrow> False | x # w \<Rightarrow> lower_char c = lower_char x \<and> ilike (escaped t @ p) w)"
    by (auto simp: e split: list.splits)
  show ?case
  proof (cases v)
    case Nil
    then show ?thesis using step by (simp add: lower_def del: ilike.simps)
  next
    case (Cons x w)
    have "ilike (escaped (c # t) @ p) v \<longleftrightarrow> lower_char c = lower_char x \<and> (\<exists>u z. w = u @ z \<and> lower u = lower t \<and> ilike p z)"
      unfolding step by (simp add: Cons Cons.IH del: ilike.simps)
    also have "\<dots> \<longleftrightarrow> (\<exists>u z. x # w = u @ z \<and> lower u = lower (c # t) \<and> ilike p z)"
      by (simp only: lower_def list.map map_split_Cons)
    finally show ?thesis by (simp only: Cons)
  qed
qed

lemma ilike_any: "ilike (CHR ''%'' # p) v \<longleftrightarrow> (\<exists>u w. v = u @ w \<and> ilike p w)"
proof (induction v)
  case Nil
  then show ?case by simp
next
  case (Cons x v)
  then show ?case by (auto simp: append_eq_Cons_conv Cons_eq_append_conv)
qed

text \<open>
  What a reader typed is searched as a piece of the value and never as a pattern: whatever characters it
  carries, the condition holds of exactly the values that hold it, letters of either case alike.
\<close>
theorem term_is_a_piece:
  "contains term v \<longleftrightarrow> (\<exists>before piece rest. v = before @ piece @ rest \<and> lower piece = lower term)"
proof -
  have all: "ilike ''%'' w" for w
  proof -
    have "w = w @ [] \<and> ilike [] []" by simp
    then show ?thesis unfolding ilike_any by (intro exI)
  qed
  have p: "pattern_of term = CHR ''%'' # escaped term @ ''%''" by (simp add: pattern_of_def)
  have "(\<exists>u w. v = u @ w \<and> (\<exists>x y. w = x @ y \<and> lower x = lower term \<and> ilike ''%'' y))
      \<longleftrightarrow> (\<exists>before piece rest. v = before @ piece @ rest \<and> lower piece = lower term)"
    using all by metis
  then show ?thesis by (simp only: contains_def p ilike_any [of "escaped term @ ''%''"] ilike_escaped)
qed

section \<open>A slug\<close>

definition slug_shaped :: "string \<Rightarrow> bool" where
  "slug_shaped t \<longleftrightarrow> list_all (\<lambda>c. slug_char c \<or> c = CHR ''-'') t \<and> t \<noteq> '''' \<and> hd t \<noteq> CHR ''-'' \<and> last t \<noteq> CHR ''-''
     \<and> (\<forall>p q. t \<noteq> p @ ''--'' @ q)"

definition no_doubles :: "string \<Rightarrow> bool" where
  "no_doubles t \<longleftrightarrow> (\<forall>p q. t \<noteq> p @ ''--'' @ q)"

lemma hyphened_chars: "list_all (\<lambda>c. slug_char c \<or> c = CHR ''-'') (hyphened b t)"
  by (induction b t rule: hyphened.induct) auto

lemma hyphen_apart: "\<not> slug_char (CHR ''-'')"
  by (simp add: slug_char_def code_of_def is_digit_def)

lemma hyphened_inside: "hyphened True t = [] \<or> hd (hyphened True t) \<noteq> CHR ''-''"
proof (induction t)
  case (Cons c t)
  then show ?case by (auto simp: hyphen_apart)
qed simp

lemma no_doubles_Cons: "no_doubles (c # t) \<longleftrightarrow> no_doubles t \<and> (c = CHR ''-'' \<longrightarrow> t = [] \<or> hd t \<noteq> CHR ''-'')"
proof
  assume a: "no_doubles (c # t)"
  have "t \<noteq> p @ ''--'' @ q" for p q using a by (metis no_doubles_def append_Cons)
  moreover have "t = [] \<or> hd t \<noteq> CHR ''-''" if "c = CHR ''-''"
    using a that unfolding no_doubles_def by (metis append_Nil append_Cons list.collapse)
  ultimately show "no_doubles t \<and> (c = CHR ''-'' \<longrightarrow> t = [] \<or> hd t \<noteq> CHR ''-'')" by (simp add: no_doubles_def)
next
  assume a: "no_doubles t \<and> (c = CHR ''-'' \<longrightarrow> t = [] \<or> hd t \<noteq> CHR ''-'')"
  show "no_doubles (c # t)" unfolding no_doubles_def
  proof (intro allI notI)
    fix p q
    assume "c # t = p @ ''--'' @ q"
    with a show False by (cases p) (auto simp: no_doubles_def)
  qed
qed

lemma hyphened_no_doubles: "no_doubles (hyphened b t)"
proof (induction b t rule: hyphened.induct)
  case (1 inside)
  then show ?case by (simp add: no_doubles_def)
next
  case (2 inside c t)
  then show ?case using hyphened_inside [of t]
    by (auto simp: no_doubles_Cons hyphen_apart)
qed

lemma no_doubles_part: "no_doubles (p @ t @ q) \<Longrightarrow> no_doubles t"
  unfolding no_doubles_def by (metis append.assoc)

lemma dropWhile_part: "\<exists>p. t = p @ dropWhile P t"
  by (metis takeWhile_dropWhile_id)

lemma stripped_part: "\<exists>p q. t = p @ strip_hyphens t @ q"
proof -
  let ?u = "dropWhile (\<lambda>c. c = CHR ''-'') t"
  obtain p where p: "t = p @ ?u" using dropWhile_part by blast
  obtain q where "rev ?u = q @ dropWhile (\<lambda>c. c = CHR ''-'') (rev ?u)" using dropWhile_part by blast
  then have "?u = strip_hyphens t @ rev q" unfolding strip_hyphens_def by (metis rev_append rev_rev_ident)
  with p show ?thesis by (metis append.assoc)
qed

lemma stripped_ends:
  assumes "strip_hyphens t \<noteq> ''''"
  shows "hd (strip_hyphens t) \<noteq> CHR ''-''" and "last (strip_hyphens t) \<noteq> CHR ''-''"
proof -
  let ?u = "dropWhile (\<lambda>c. c = CHR ''-'') t"
  have n: "dropWhile (\<lambda>c. c = CHR ''-'') (rev ?u) \<noteq> []" using assms by (simp add: strip_hyphens_def)
  from hd_dropWhile [OF n] show "last (strip_hyphens t) \<noteq> CHR ''-''" using n by (simp add: strip_hyphens_def last_rev)
  obtain q where "rev ?u = q @ dropWhile (\<lambda>c. c = CHR ''-'') (rev ?u)" using dropWhile_part by blast
  then have u: "?u = strip_hyphens t @ rev q" unfolding strip_hyphens_def by (metis rev_append rev_rev_ident)
  then have "?u \<noteq> []" and "hd (strip_hyphens t) = hd ?u" using assms by (metis Nil_is_append_conv, metis hd_append)
  then show "hd (strip_hyphens t) \<noteq> CHR ''-''" using hd_dropWhile [of "\<lambda>c. c = CHR ''-''" t] by simp
qed

lemma cut_shaped:
  assumes "list_all (\<lambda>c. slug_char c \<or> c = CHR ''-'') t" and "no_doubles t" and "t = [] \<or> hd t \<noteq> CHR ''-''"
    and "rev (dropWhile (\<lambda>c. c = CHR ''-'') (rev (take n t))) \<noteq> ''''" (is "?cut \<noteq> _")
  shows "slug_shaped ?cut" and "length ?cut \<le> n"
proof -
  obtain q where "rev (take n t) = q @ dropWhile (\<lambda>c. c = CHR ''-'') (rev (take n t))" using dropWhile_part by blast
  then have c: "take n t = ?cut @ rev q" by (metis rev_append rev_rev_ident)
  then have p: "t = ?cut @ (rev q @ drop n t)" by (metis append.assoc append_take_drop_id)
  have "no_doubles ?cut" using assms(2) p no_doubles_part [of "[]" ?cut] by (metis append_Nil)
  moreover have "set ?cut \<subseteq> set t" using p by (metis Un_upper1 set_append)
  moreover have "hd ?cut = hd t" using assms(4) p by (metis hd_append)
  moreover have "t \<noteq> []" using assms(4) by auto
  moreover have "last ?cut \<noteq> CHR ''-''"
    using assms(4) hd_dropWhile [of "\<lambda>c. c = CHR ''-''" "rev (take n t)"] by (simp add: last_rev)
  ultimately show "slug_shaped ?cut" using assms(1,3,4)
    by (auto simp: slug_shaped_def no_doubles_def list_all_iff)
  show "length ?cut \<le> n" using c by (metis le_add1 length_append length_take min.bounded_iff)
qed

text \<open>
  A slug is safe to address by, whatever was typed: where the text leaves anything at all, only lowercase
  letters, digits and single hyphens inside, no longer than the column; where it leaves nothing, the fallback.
\<close>
theorem slug_is_addressable:
  "(let slug = slugify nfkd v fallback max_length in
     slug = fallback \<or> slug_shaped slug \<and> (\<forall>n. max_length = Some n \<longrightarrow> length slug \<le> n))"
proof -
  let ?s = "strip_hyphens (hyphened False (plain nfkd (Some v)))"
  obtain p q where pq: "hyphened False (plain nfkd (Some v)) = p @ ?s @ q" using stripped_part by blast
  have d: "no_doubles ?s" using hyphened_no_doubles [of False "plain nfkd (Some v)"] pq no_doubles_part by metis
  have "set ?s \<subseteq> set (hyphened False (plain nfkd (Some v)))" using pq by (metis Un_commute Un_upper1 le_supI1 set_append)
  then have c: "list_all (\<lambda>c. slug_char c \<or> c = CHR ''-'') ?s"
    using hyphened_chars [of False "plain nfkd (Some v)"] by (auto simp: list_all_iff)
  show ?thesis
  proof (cases max_length)
    case None
    then show ?thesis using c d stripped_ends [of "hyphened False (plain nfkd (Some v))"]
      by (auto simp: slugify_def Let_def slug_shaped_def no_doubles_def)
  next
    case (Some n)
    then show ?thesis using cut_shaped [OF c d, of n] stripped_ends [of "hyphened False (plain nfkd (Some v))"]
      by (auto simp: slugify_def Let_def)
  qed
qed

end
