(* ===== verification/Accounts.thy ===== *)
theory Accounts
  imports Mail Text
begin

text \<open>
  The account: how a login names one and what keeps two from sharing an identity (\<^verbatim>\<open>services/user_service.py\<close>), who a token
  answers for (\<^verbatim>\<open>helpers/auth.py\<close>), and everything that turns a person into a session (\<^verbatim>\<open>services/auth_service.py\<close>). What costs or draws
  is a parameter: the hash of a password and its verification, the reading of a signed token; a drawn token is an argument of
  the call that draws it.
\<close>

record craft =
  ck_hash :: "string \<Rightarrow> string"
  ck_verify :: "string \<Rightarrow> string \<Rightarrow> bool"
  ck_nobody :: string
  ck_decode :: "string \<Rightarrow> (string \<times> nat option) option"
  ck_quote :: "string \<Rightarrow> string"

abbreviation "write_users \<equiv> alter users users_update user_keys"
abbreviation "note_users \<equiv> alter users users_update free_keys"

definition has_password :: "user_row \<Rightarrow> bool" where
  "has_password r \<longleftrightarrow> us_password_hash r \<noteq> ''''"

section \<open>Who a login names\<close>

text \<open>The one scope a row sits in, where no tenant is the global one.\<close>

definition belongs_to_tenant :: "nat option \<Rightarrow> nat option \<Rightarrow> bool" where
  "belongs_to_tenant column tenant \<longleftrightarrow> column = tenant"

definition identified_by :: "string \<Rightarrow> user_row \<Rightarrow> bool" where
  "identified_by login r \<longleftrightarrow>
     (if list_ex is_alpha login then us_username r = Some login \<or> us_email r = Some (lower login)
      else us_document r = Some (only_digits (Some login)) \<or> us_mobile_phone r = Some (only_digits (Some login)))"

definition find_by_login :: "string \<Rightarrow> nat option \<Rightarrow> user_row option service" where
  "find_by_login login tenant =
     query (\<lambda>d. List.find (\<lambda>r. identified_by login r \<and> belongs_to_tenant (us_tenant r) tenant) (users d))"

text \<open>The panel roles first, and of those the brand's own.\<close>

definition operator_order :: "user_row \<Rightarrow> nat" where
  "operator_order r = (if us_role r \<in> set PANEL_ROLES then 0 else 2) + (if us_tenant r = None then 1 else 0)"

definition first_of :: "user_row list \<Rightarrow> user_row option" where
  "first_of rows = (case sort_key operator_order rows of [] \<Rightarrow> None | r # rs \<Rightarrow> Some r)"

definition find_operator :: "string \<Rightarrow> nat option \<Rightarrow> user_row option service" where
  "find_operator login tenant =
     query (\<lambda>d. first_of (filter (\<lambda>r. identified_by login r \<and> (belongs_to_tenant (us_tenant r) tenant \<or> us_tenant r = None)) (users d)))"

definition find_by_recovery_token :: "string \<Rightarrow> nat option \<Rightarrow> user_row option service" where
  "find_by_recovery_token token tenant =
     query (\<lambda>d. List.find (\<lambda>r. us_recovery_token r = Some token \<and> belongs_to_tenant (us_tenant r) tenant) (users d))"

definition find_by_confirmation_token :: "string \<Rightarrow> nat option \<Rightarrow> user_row option service" where
  "find_by_confirmation_token token tenant =
     query (\<lambda>d. List.find (\<lambda>r. us_confirmation_token r = Some token \<and> belongs_to_tenant (us_tenant r) tenant) (users d))"

definition get_user :: "nat \<Rightarrow> user_row service" where
  "get_user i = andThen (query (\<lambda>d. fetch i (users d))) (\<lambda>r. case r of None \<Rightarrow> throw NotFoundError | Some r \<Rightarrow> ret r)"

definition taken_code :: "string \<Rightarrow> string" where
  "taken_code name = (if name = ''mobile_phone'' then ''error.mobile-phone-already-used'' else ''error.'' @ name @ ''-already-used'')"

definition ensure_free :: "string \<Rightarrow> string \<Rightarrow> nat option \<Rightarrow> nat option \<Rightarrow> unit service" where
  "ensure_free name v tenant instance_id =
     andThen (query (\<lambda>d. list_ex (\<lambda>r. identified_by v r \<and> belongs_to_tenant (us_tenant r) tenant \<and> Some (rid r) \<noteq> instance_id) (users d))) (\<lambda>taken.
     if taken then throw (ConflictError (taken_code name)) else ret ())"

text \<open>A write about an account holds its row first.\<close>

definition hold :: "nat \<Rightarrow> unit service" where
  "hold user_id =
     andThen (note_users (\<lambda>r. named user_id r \<and> us_status r \<noteq> ERASED) (\<lambda>r. r)) (\<lambda>rowcount.
     if rowcount \<noteq> 1 then throw (ConflictError ''error.account-erased'') else ret ())"

section \<open>Who a token answers for\<close>

definition load_user :: "craft \<Rightarrow> string \<Rightarrow> user_row service" where
  "load_user k token =
     (case ck_decode k token of
        None \<Rightarrow> throw (AuthenticationError ''error.invalid-token'')
      | Some (subject, epoch) \<Rightarrow>
          andThen (query (\<lambda>d. List.find (\<lambda>r. us_token r = subject) (users d))) (\<lambda>user.
          case user of
            None \<Rightarrow> throw (AuthenticationError ''error.invalid-token'')
          | Some u \<Rightarrow>
              if us_status u = ERASED then throw (AuthenticationError ''error.invalid-token'')
              else if epoch \<noteq> Some (us_session_epoch u) then throw (AuthenticationError ''error.invalid-token'')
              else if us_status u = BLOCKED then throw (AuthenticationError ''error.account-blocked'')
              else if us_status u = user_status.PENDING then throw (AuthenticationError ''error.account-pending'')
              else ret u))"

fun is_app_error :: "exc \<Rightarrow> bool" where
  "is_app_error (ValidationError _ _) = True"
| "is_app_error (ConflictError _) = True"
| "is_app_error (AuthenticationError _) = True"
| "is_app_error (AppError _) = True"
| "is_app_error NotFoundError = True"
| "is_app_error (PermissionError _) = True"
| "is_app_error _ = False"

definition get_current_user :: "craft \<Rightarrow> string option \<Rightarrow> user_row service" where
  "get_current_user k credentials =
     (case credentials of None \<Rightarrow> throw (AuthenticationError ''error.unauthorized'') | Some token \<Rightarrow> load_user k token)"

definition get_optional_user :: "craft \<Rightarrow> string option \<Rightarrow> user_row option service" where
  "get_optional_user k credentials =
     (case credentials of
        None \<Rightarrow> ret None
      | Some token \<Rightarrow> handle (andThen (load_user k token) (\<lambda>u. ret (Some u)))
          (\<lambda>e. if is_app_error e then ret None else throw e))"

definition requires :: "user_role list \<Rightarrow> user_row \<Rightarrow> user_row service" where
  "requires roles user = (if us_role user \<notin> set roles then throw (PermissionError ''error.role-not-allowed'') else ret user)"

definition get_current_brand :: "config \<Rightarrow> string option \<Rightarrow> brand service" where
  "get_current_brand c tenant_code =
     (if \<not> co_multi_tenant c then
        if tenant_code \<noteq> None then throw (AppError ''error.unknown-tenant'') else ret (brand_named c None)
      else (case tenant_code of
          None \<Rightarrow> throw (ValidationError ''validation.required'' ''X-Tenant-Code'')
        | Some code \<Rightarrow>
            andThen (query (\<lambda>d. List.find (\<lambda>t. te_code t = lower code \<and> te_active t) (tenants d))) (\<lambda>found.
            case found of None \<Rightarrow> throw (AppError ''error.unknown-tenant'') | Some t \<Rightarrow> ret (brand_named c (Some t)))))"

definition get_brand_account :: "user_row \<Rightarrow> brand \<Rightarrow> user_row service" where
  "get_brand_account user brand =
     (if us_tenant user \<noteq> br_id brand then throw (PermissionError ''error.account-of-another-brand'') else ret user)"

definition get_optional_brand_account :: "user_row option \<Rightarrow> brand \<Rightarrow> user_row option" where
  "get_optional_brand_account user brand =
     (case user of None \<Rightarrow> None | Some u \<Rightarrow> if us_tenant u = br_id brand then Some u else None)"

section \<open>Signing in\<close>

definition blocked :: "datetime \<Rightarrow> user_row \<Rightarrow> bool" where
  "blocked moment r \<longleftrightarrow> (case us_sign_in_blocked_until r of None \<Rightarrow> False | Some t \<Rightarrow> instant moment < instant t)"

definition ensure_usable :: "user_row \<Rightarrow> unit service" where
  "ensure_usable r =
     (if us_status r = BLOCKED then throw (AuthenticationError ''error.account-blocked'')
      else if us_status r = user_status.PENDING then throw (AuthenticationError ''error.account-pending'')
      else ret ())"

definition waiting_seconds :: "config \<Rightarrow> nat \<Rightarrow> nat" where
  "waiting_seconds c failed = min (ss_sign_in_cooldown (co_security c) * 2 ^ (failed - ss_sign_in_attempts (co_security c)))
     (ss_sign_in_cooldown_max (co_security c))"

definition count_failure :: "config \<Rightarrow> nat \<Rightarrow> unit service" where
  "count_failure c user_id =
     andThen (note_users (named user_id) (\<lambda>r. r\<lparr>us_failed_sign_ins := us_failed_sign_ins r + 1\<rparr>)) (\<lambda>_.
     andThen commit (\<lambda>_.
     andThen (load users user_id) (\<lambda>user.
     if us_failed_sign_ins user < ss_sign_in_attempts (co_security c) then ret () else
     andThen now (\<lambda>moment.
     andThen (lift (later_by moment (int (waiting_seconds c (us_failed_sign_ins user))))) (\<lambda>until.
     andThen (note_users (named user_id) (\<lambda>r. r\<lparr>us_sign_in_blocked_until := Some until\<rparr>)) (\<lambda>_. commit))))))"

definition settle_sign_in :: "config \<Rightarrow> craft \<Rightarrow> user_row option \<Rightarrow> string \<Rightarrow> user_row service" where
  "settle_sign_in c k user password =
     (let password_hash = (case user of Some u \<Rightarrow> if has_password u then us_password_hash u else ck_nobody k | None \<Rightarrow> ck_nobody k);
          settled = (ck_verify k password password_hash \<and> (case user of Some u \<Rightarrow> has_password u | None \<Rightarrow> False))
      in case user of
           None \<Rightarrow> throw (AuthenticationError ''error.invalid-credentials'')
         | Some u \<Rightarrow>
             if \<not> settled then andThen (count_failure c (rid u)) (\<lambda>_. throw (AuthenticationError ''error.invalid-credentials'')) else
             andThen now (\<lambda>moment.
             if blocked moment u then throw (AuthenticationError ''error.too-many-attempts'') else
             andThen (ensure_usable u) (\<lambda>_.
             andThen (note_users (\<lambda>r. named (rid u) r \<and> us_password_hash r = password_hash \<and> us_session_epoch r = us_session_epoch u
                 \<and> us_status r = user_status.ACTIVE)
               (\<lambda>r. r\<lparr>us_failed_sign_ins := 0, us_sign_in_blocked_until := None, us_last_login_at := Some moment\<rparr>)) (\<lambda>rowcount.
             andThen commit (\<lambda>_.
             if rowcount \<noteq> 1 then throw (AuthenticationError ''error.invalid-credentials'') else
             andThen (get_user (rid u)) (\<lambda>again.
             if us_password_hash again \<noteq> password_hash \<or> us_session_epoch again \<noteq> us_session_epoch u \<or> us_status again \<noteq> user_status.ACTIVE
             then throw (AuthenticationError ''error.invalid-credentials'') else ret again))))))"

definition authenticate :: "config \<Rightarrow> craft \<Rightarrow> nat option \<Rightarrow> string \<Rightarrow> string \<Rightarrow> user_row service" where
  "authenticate c k tenant login password =
     andThen (find_by_login login tenant) (\<lambda>user. settle_sign_in c k user password)"

definition authenticate_for_panel :: "config \<Rightarrow> craft \<Rightarrow> nat option \<Rightarrow> string \<Rightarrow> string \<Rightarrow> user_row service" where
  "authenticate_for_panel c k tenant login password =
     andThen (find_operator login tenant) (\<lambda>user.
     andThen (settle_sign_in c k user password) (\<lambda>user.
     if us_role user \<notin> set PANEL_ROLES then throw (AuthenticationError ''error.panel-not-allowed'') else ret user))"

end
