(* ===== verification/Recovery.thy ===== *)
theory Recovery
  imports Accounts
begin

text \<open>
  The rest of \<^verbatim>\<open>services/auth_service.py\<close>: changing a password, recovering one by mail and proving an address. Every way in is one
  conditioned update, so a letter, a code or a password opens what it names once. The account an operation is
  handed is the row it was loaded with.
\<close>

section \<open>A new password\<close>

text \<open>What a new password writes: a new hash, the next epoch, and no recovery left open.\<close>

definition password_changes :: "craft \<Rightarrow> string \<Rightarrow> user_row \<Rightarrow> user_row" where
  "password_changes k new_password r = r\<lparr>us_password_hash := ck_hash k new_password, us_session_epoch := us_session_epoch r + 1,
     us_recovery_token := None, us_recovery_token_created_at := None\<rparr>"

definition settle_password :: "craft \<Rightarrow> nat \<Rightarrow> string \<Rightarrow> string \<Rightarrow> nat \<Rightarrow> user_row service" where
  "settle_password k user_id new_password password_hash session_epoch =
     andThen (note_users (\<lambda>r. named user_id r \<and> us_password_hash r = password_hash \<and> us_session_epoch r = session_epoch
         \<and> us_status r = user_status.ACTIVE) (password_changes k new_password)) (\<lambda>rowcount.
     if rowcount \<noteq> 1 then andThen rollback (\<lambda>_. throw (AuthenticationError ''error.invalid-credentials'')) else
     andThen commit (\<lambda>_.
     andThen (load users user_id) (\<lambda>user.
     if us_password_hash user \<noteq> ck_hash k new_password \<or> us_session_epoch user \<noteq> session_epoch + 1 \<or> us_status user \<noteq> user_status.ACTIVE
     then throw (AuthenticationError ''error.invalid-credentials'') else ret user)))"

definition change_password :: "craft \<Rightarrow> user_row \<Rightarrow> string \<Rightarrow> string \<Rightarrow> user_row service" where
  "change_password k user current_password new_password =
     (if \<not> ck_verify k current_password (us_password_hash user)
      then throw (ValidationError ''error.current-password-invalid'' ''current_password'')
      else settle_password k (rid user) new_password (us_password_hash user) (us_session_epoch user))"

section \<open>Recovery\<close>

definition onward :: "config \<Rightarrow> craft \<Rightarrow> brand \<Rightarrow> string \<Rightarrow> string \<Rightarrow> string" where
  "onward c k brand path wanted =
     address_on c (br_domain brand) (if wanted \<noteq> '''' then path @ ''?next='' @ ck_quote k wanted else path)"

definition waited :: "datetime \<Rightarrow> nat \<Rightarrow> datetime option \<Rightarrow> bool" where
  "waited moment interval sent_at = (case sent_at of None \<Rightarrow> True | Some t \<Rightarrow> before_by moment (seconds (int interval)) t)"

definition claim_recovery :: "config \<Rightarrow> nat \<Rightarrow> string \<Rightarrow> bool service" where
  "claim_recovery c user_id drawn =
     andThen now (\<lambda>moment.
     andThen (note_users (\<lambda>r. named user_id r \<and> waited moment (co_password_reset_interval c) (us_recovery_token_created_at r))
       (\<lambda>r. r\<lparr>us_recovery_token := Some drawn, us_recovery_token_created_at := Some moment\<rparr>)) (\<lambda>rowcount.
     andThen commit (\<lambda>_. ret (rowcount = 1))))"

definition mail_recovery :: "config \<Rightarrow> craft \<Rightarrow> post \<Rightarrow> string \<Rightarrow> brand \<Rightarrow> nat \<Rightarrow> string \<Rightarrow> unit service" where
  "mail_recovery c k p current brand user_id wanted =
     andThen (load users user_id) (\<lambda>user.
     andThen (need (us_recovery_token user)) (\<lambda>token.
     to_user c p current (br_id brand) user ''email.password-reset-subject'' ''password-reset'' None
       [(''token'', token), (''hours'', decimal (co_password_reset_token_ttl c div 3600)),
        (''link'', onward c k brand (''/account/reset-password/'' @ token) wanted)]))"

definition start_password_reset :: "config \<Rightarrow> craft \<Rightarrow> post \<Rightarrow> string \<Rightarrow> brand \<Rightarrow> string \<Rightarrow> string \<Rightarrow> string \<Rightarrow> unit service" where
  "start_password_reset c k p current brand login wanted drawn =
     andThen (find_by_login login (br_id brand)) (\<lambda>user.
     case user of
       None \<Rightarrow> ret ()
     | Some u \<Rightarrow>
         if us_email u = None then ret () else
         andThen (claim_recovery c (rid u) drawn) (\<lambda>claimed.
         if \<not> claimed then ret () else mail_recovery c k p current brand (rid u) wanted))"

definition recoverable :: "config \<Rightarrow> nat option \<Rightarrow> string \<Rightarrow> user_row service" where
  "recoverable c tenant token =
     andThen (find_by_recovery_token token tenant) (\<lambda>user.
     case user of
       None \<Rightarrow> throw (ValidationError ''error.recovery-token-invalid'' ''token'')
     | Some u \<Rightarrow>
         (case us_recovery_token_created_at u of
            None \<Rightarrow> throw (ValidationError ''error.recovery-token-invalid'' ''token'')
          | Some created \<Rightarrow>
              andThen now (\<lambda>moment.
              if seconds (int (co_password_reset_token_ttl c)) < instant moment - instant created
              then throw (ValidationError ''error.recovery-token-expired'' ''token'') else ret u)))"

definition confirm_password_reset :: "config \<Rightarrow> craft \<Rightarrow> nat option \<Rightarrow> string \<Rightarrow> string \<Rightarrow> unit service" where
  "confirm_password_reset c k tenant token new_password =
     andThen (recoverable c tenant token) (\<lambda>user.
     andThen (note_users (\<lambda>r. named (rid user) r \<and> us_recovery_token r = Some token)
       (\<lambda>r. (password_changes k new_password r)\<lparr>
          us_status := (if us_status r = user_status.PENDING then user_status.ACTIVE else us_status r),
          us_confirmation_token := None, us_confirmation_sent_at := None, us_failed_sign_ins := 0,
          us_sign_in_blocked_until := None\<rparr>)) (\<lambda>rowcount.
     if rowcount \<noteq> 1 then andThen commit (\<lambda>_. throw (ValidationError ''error.recovery-token-invalid'' ''token'')) else commit))"

section \<open>Proving an address\<close>

definition confirmation_is_asked_of :: "config \<Rightarrow> string option \<Rightarrow> bool" where
  "confirmation_is_asked_of c email \<longleftrightarrow> co_confirm_sign_up c \<and> email \<noteq> None \<and> email \<noteq> Some ''''"

text \<open>The accounts a confirmation letter still answers for.\<close>

definition awaiting :: "user_row \<Rightarrow> bool" where
  "awaiting r \<longleftrightarrow> us_status r = user_status.PENDING \<or> us_pending_email r \<noteq> None"

definition claim_confirmation :: "config \<Rightarrow> nat \<Rightarrow> string \<Rightarrow> bool service" where
  "claim_confirmation c user_id drawn =
     andThen now (\<lambda>moment.
     andThen (note_users (\<lambda>r. named user_id r \<and> awaiting r \<and> waited moment (co_confirm_sign_up_interval c) (us_confirmation_sent_at r))
       (\<lambda>r. r\<lparr>us_confirmation_token := Some drawn, us_confirmation_sent_at := Some moment\<rparr>)) (\<lambda>rowcount.
     andThen commit (\<lambda>_. ret (rowcount = 1))))"

definition mail_confirmation :: "config \<Rightarrow> craft \<Rightarrow> post \<Rightarrow> string \<Rightarrow> brand \<Rightarrow> nat \<Rightarrow> string \<Rightarrow> string \<Rightarrow> unit service" where
  "mail_confirmation c k p current brand user_id wanted drawn =
     andThen (claim_confirmation c user_id drawn) (\<lambda>claimed.
     if \<not> claimed then ret () else
     andThen (load users user_id) (\<lambda>user.
     andThen (need (us_confirmation_token user)) (\<lambda>token.
     let link = onward c k brand (''/account/confirm/'' @ token) wanted in
     case us_pending_email user of
       Some address \<Rightarrow> to_user c p current (br_id brand) user ''email.confirm-address-subject'' ''address-confirmation'' (Some address)
         [(''token'', token), (''link'', link)]
     | None \<Rightarrow> to_user c p current (br_id brand) user ''email.confirm-sign-up-subject'' ''account-confirmation'' None
         [(''token'', token), (''link'', link)])))"

definition resend_confirmation :: "config \<Rightarrow> craft \<Rightarrow> post \<Rightarrow> string \<Rightarrow> brand \<Rightarrow> string \<Rightarrow> string \<Rightarrow> unit service" where
  "resend_confirmation c k p current brand login drawn =
     andThen (find_by_login login (br_id brand)) (\<lambda>user.
     case user of
       None \<Rightarrow> ret ()
     | Some u \<Rightarrow>
         if \<not> (us_status u = user_status.PENDING \<and> us_email u \<noteq> None \<and> us_email u \<noteq> Some ''''
             \<or> us_pending_email u \<noteq> None \<and> us_pending_email u \<noteq> Some '''')
         then ret () else mail_confirmation c k p current brand (rid u) '''' drawn)"

definition awaiting_confirmation :: "nat option \<Rightarrow> string \<Rightarrow> user_row option service" where
  "awaiting_confirmation tenant token =
     andThen (find_by_confirmation_token token tenant) (\<lambda>user.
     ret (case user of None \<Rightarrow> None | Some u \<Rightarrow> if awaiting u then Some u else None))"

definition confirmed :: "bool \<Rightarrow> user_row \<Rightarrow> user_row" where
  "confirmed moved r = (let q = r\<lparr>us_status := (if us_status r = user_status.PENDING then user_status.ACTIVE else us_status r),
       us_email := (case us_pending_email r of None \<Rightarrow> us_email r | Some e \<Rightarrow> Some e), us_pending_email := None,
       us_confirmation_token := None, us_confirmation_sent_at := None\<rparr>
     in if moved then q\<lparr>us_recovery_token := None, us_recovery_token_created_at := None\<rparr> else q)"

definition confirm_sign_up :: "nat option \<Rightarrow> string \<Rightarrow> (user_row \<times> bool) service" where
  "confirm_sign_up tenant token =
     andThen (awaiting_confirmation tenant token) (\<lambda>user.
     case user of
       None \<Rightarrow> throw (ValidationError ''error.confirmation-token-invalid'' ''token'')
     | Some u \<Rightarrow>
         andThen (refusing ''error.email-already-used''
           (andThen (write_users (\<lambda>r. named (rid u) r \<and> awaiting r \<and> us_confirmation_token r = Some token)
              (confirmed (us_pending_email u \<noteq> None))) (\<lambda>rowcount.
            if rowcount \<noteq> 1 then andThen rollback (\<lambda>_. throw (ValidationError ''error.confirmation-token-invalid'' ''token''))
            else ret ()))) (\<lambda>_.
         andThen commit (\<lambda>_.
         andThen (load users (rid u)) (\<lambda>again. ret (again, us_status u = user_status.PENDING)))))"

section \<open>A password ends every session it did not open\<close>

text \<open>The sessions of an account as the tokens that read it, and that a new password ends them.\<close>

lemma load_user_epoch:
  assumes "ck_decode k token = Some (subject, epoch)" and "List.find (\<lambda>r. us_token r = subject) (users (live s)) = Some u"
    and "epoch \<noteq> Some (us_session_epoch u)"
  shows "load_user k token s = (Err (AuthenticationError ''error.invalid-token''), s)"
  using assms by (simp add: load_user_def)

lemma find_token:
  assumes "unique_on user_token_key t" and "q \<in> set t" and "us_token q = subject"
  shows "List.find (\<lambda>r. us_token r = subject) t = Some q"
proof -
  obtain x where x: "List.find (\<lambda>r. us_token r = subject) t = Some x"
    using assms(2,3) by (cases "List.find (\<lambda>r. us_token r = subject) t") (auto simp: find_None_iff_all)
  from find_Some_in [OF x] have "x \<in> set t" "us_token x = subject" by simp_all
  then have "x = q" using unique_onD [OF assms(1), of x q subject] assms(2,3) by (simp add: user_token_key_def)
  with x show ?thesis by simp
qed

lemma find_token_amend:
  assumes "unique_on user_token_key t" and "r \<in> set t" and "p r" and "\<And>q. us_token (f q) = us_token q"
  shows "List.find (\<lambda>q. us_token q = us_token r) (amend p f t) = Some (f r)"
proof (rule find_token)
  show "unique_on user_token_key (amend p f t)" using assms(1,4) by (subst unique_on_amend) (simp_all add: user_token_key_def)
  show "f r \<in> set (amend p f t)" using assms(2,3) by (force simp: set_amend)
qed (simp add: assms(4))

end
