(* ===== verification/Accounts_Facts.thy ===== *)
theory Accounts_Facts
  imports Recovery
begin

text \<open>
  What signing in, changing a password, recovering one and proving an address owe: wrong passwords lock the account for
  longer each time, a new password ends the sessions of the old one, a link opens what it names once, and no two
  accounts of one scope ever share an identity.
\<close>

section \<open>The row an operation is about\<close>

lemma note_one:
  assumes "distinct (map rid (users (live s)))" and "fetch i (users (live s)) = Some r"
  shows "note_users (\<lambda>q. named i q \<and> p q) f s =
    (Ok (if p r then 1 else 0), s\<lparr>live := users_update (\<lambda>_. amend (\<lambda>q. named i q \<and> p q) f (users (live s))) (live s)\<rparr>)"
  using hits_alone [OF assms, of p] by (simp add: alter_def free_keys_def Let_def)

lemma note_named:
  assumes "distinct (map rid (users (live s)))" and "fetch i (users (live s)) = Some r"
  shows "note_users (named i) f s = (Ok 1, s\<lparr>live := users_update (\<lambda>_. amend (named i) f (users (live s))) (live s)\<rparr>)"
  using note_one [OF assms, of "\<lambda>_. True" f] by simp

lemma fetch_note:
  assumes "fetch i t = Some r" and "\<And>q. rid (f q) = rid q"
  shows "fetch i (amend (\<lambda>q. named i q \<and> p q) f t) = Some (if p r then f r else r)"
  using assms fetch_Some_in [OF assms(1)] by (simp add: fetch_amend named_def)

lemma fetch_note_all:
  assumes "fetch i t = Some r" and "\<And>q. rid (f q) = rid q"
  shows "fetch i (amend (named i) f t) = Some (f r)"
  using fetch_note [OF assms, of "\<lambda>_. True"] by simp

lemma andThen_get_user: "fetch i (users (live s)) = Some r \<Longrightarrow> andThen (get_user i) f s = f r s"
  by (simp add: get_user_def andThen_assoc)

section \<open>Wrong passwords\<close>

definition right :: "craft \<Rightarrow> user_row \<Rightarrow> string \<Rightarrow> bool" where
  "right k u password \<longleftrightarrow> has_password u \<and> ck_verify k password (us_password_hash u)"

lemma wrong_counts:
  assumes "\<not> right k u password"
  shows "settle_sign_in c k (Some u) password = andThen (count_failure c (rid u)) (\<lambda>_. throw (AuthenticationError ''error.invalid-credentials''))"
  using assms by (auto simp: settle_sign_in_def right_def)

lemma right_goes_on:
  assumes "right k u password"
  shows "settle_sign_in c k (Some u) password = andThen now (\<lambda>moment.
     if blocked moment u then throw (AuthenticationError ''error.too-many-attempts'') else
     andThen (ensure_usable u) (\<lambda>_.
     andThen (note_users (\<lambda>r. named (rid u) r \<and> us_password_hash r = us_password_hash u \<and> us_session_epoch r = us_session_epoch u
         \<and> us_status r = user_status.ACTIVE)
       (\<lambda>r. r\<lparr>us_failed_sign_ins := 0, us_sign_in_blocked_until := None, us_last_login_at := Some moment\<rparr>)) (\<lambda>rowcount.
     andThen commit (\<lambda>_.
     if rowcount \<noteq> 1 then throw (AuthenticationError ''error.invalid-credentials'') else
     andThen (get_user (rid u)) (\<lambda>again.
     if us_password_hash again \<noteq> us_password_hash u \<or> us_session_epoch again \<noteq> us_session_epoch u \<or> us_status again \<noteq> user_status.ACTIVE
     then throw (AuthenticationError ''error.invalid-credentials'') else ret again)))))"
  using assms by (simp add: settle_sign_in_def right_def Let_def)

definition after_failure :: "config \<Rightarrow> datetime \<Rightarrow> user_row \<Rightarrow> user_row" where
  "after_failure c until u = u\<lparr>us_failed_sign_ins := us_failed_sign_ins u + 1, us_sign_in_blocked_until :=
     (if us_failed_sign_ins u + 1 < ss_sign_in_attempts (co_security c) then us_sign_in_blocked_until u else Some until)\<rparr>"

lemma count_failure_leaves:
  assumes "distinct (map rid (users (live s)))" and "fetch i (users (live s)) = Some u"
    and "later_by (clock s) (int (waiting_seconds c (us_failed_sign_ins u + 1))) = Ok until"
  shows "\<exists>t. count_failure c i s = (Ok (), t) \<and> kept t = live t \<and> fetch i (users (live t)) = Some (after_failure c until u)"
proof -
  let ?f = "\<lambda>r. r\<lparr>us_failed_sign_ins := us_failed_sign_ins r + 1\<rparr>"
  let ?d = "users_update (\<lambda>_. amend (named i) ?f (users (live s))) (live s)"
  let ?s = "s\<lparr>live := ?d, kept := ?d\<rparr>"
  have one: "fetch i (users (live ?s)) = Some (?f u)" using fetch_note_all [OF assms(2), of ?f] by simp
  have d: "distinct (map rid (users (live ?s)))" using assms(1) by (simp add: amend_rid)
  show ?thesis
  proof (cases "us_failed_sign_ins u + 1 < ss_sign_in_attempts (co_security c)")
    case True
    with note_named [OF assms(1,2), of ?f] one show ?thesis
      by (simp add: count_failure_def andThen_def [of "note_users _ _"] after_failure_def)
  next
    case False
    from note_named [OF assms(1,2), of ?f] note_named [OF d one, of "\<lambda>r. r\<lparr>us_sign_in_blocked_until := Some until\<rparr>"]
      fetch_note_all [OF one, of "\<lambda>r. r\<lparr>us_sign_in_blocked_until := Some until\<rparr>"] one False assms(3)
    show ?thesis by (simp add: count_failure_def andThen_def [of "note_users _ _"] after_failure_def)
  qed
qed

lemma blocked_nobody:
  assumes "blocked (clock s) u"
  shows "settle_sign_in c k (Some u) password s \<noteq> (Ok v, t)"
proof (cases "right k u password")
  case True
  then show ?thesis using assms by (simp add: right_goes_on)
next
  case False
  then show ?thesis by (auto simp: wrong_counts andThen_def split: prod.splits outcome.splits)
qed

text \<open>
  A wrong password is never let in and never forgotten: it is counted on the account, and from the last attempt the
  configuration allows on it shuts the account for a window that doubles with every further failure up to its
  ceiling, inside which nobody signs in, the right password included.
\<close>
theorem wrong_password_locks:
  assumes "distinct (map rid (users (live s)))" and "fetch (rid u) (users (live s)) = Some u" and "\<not> right k u password"
    and "later_by (clock s) (int (waiting_seconds c (us_failed_sign_ins u + 1))) = Ok until"
  shows "\<exists>t. settle_sign_in c k (Some u) password s = (Err (AuthenticationError ''error.invalid-credentials''), t) \<and> kept t = live t
     \<and> fetch (rid u) (users (live t)) = Some (after_failure c until u)
     \<and> instant until = instant (clock s) + seconds (int (waiting_seconds c (us_failed_sign_ins u + 1)))
     \<and> (ss_sign_in_attempts (co_security c) \<le> us_failed_sign_ins u + 1 \<longrightarrow>
         (\<forall>moment other v x. instant moment < instant until \<longrightarrow>
            settle_sign_in c k (Some (after_failure c until u)) other (t\<lparr>clock := moment\<rparr>) \<noteq> (Ok v, x)))"
proof -
  obtain t where t: "count_failure c (rid u) s = (Ok (), t)" "kept t = live t" "fetch (rid u) (users (live t)) = Some (after_failure c until u)"
    using count_failure_leaves [OF assms(1,2,4)] by blast
  have "settle_sign_in c k (Some u) password s = (Err (AuthenticationError ''error.invalid-credentials''), t)"
    using t(1) by (simp add: wrong_counts [OF assms(3)] andThen_def)
  moreover have "settle_sign_in c k (Some (after_failure c until u)) other (t\<lparr>clock := moment\<rparr>) \<noteq> (Ok v, x)"
    if "ss_sign_in_attempts (co_security c) \<le> us_failed_sign_ins u + 1" "instant moment < instant until" for moment other v x
    using that by (intro blocked_nobody) (simp add: blocked_def after_failure_def)
  moreover have "instant until = instant (clock s) + seconds (int (waiting_seconds c (us_failed_sign_ins u + 1)))"
    using later_by_instant [OF assms(4)] by simp
  ultimately show ?thesis using t(2,3) by blast
qed

text \<open>
  C32: Whoever is signed in is who they say, and whoever is who they say is signed in: exactly where the account has a
  password and it is the one typed, the account is active and it is not waiting out a lock. Its failures are then
  forgotten, and the row answered is the one committed.
\<close>
theorem sign_in_is_earned:
  assumes "distinct (map rid (users (live s)))" and "fetch (rid u) (users (live s)) = Some u"
  shows "(if right k u password \<and> us_status u = user_status.ACTIVE \<and> \<not> blocked (clock s) u
    then \<exists>v t. settle_sign_in c k (Some u) password s = (Ok v, t) \<and> kept t = live t \<and> fetch (rid u) (users (live t)) = Some v
       \<and> v = u\<lparr>us_failed_sign_ins := 0, us_sign_in_blocked_until := None, us_last_login_at := Some (clock s)\<rparr>
    else \<forall>v t. settle_sign_in c k (Some u) password s \<noteq> (Ok v, t))"
proof (cases "right k u password \<and> \<not> blocked (clock s) u")
  case False
  then have "settle_sign_in c k (Some u) password s \<noteq> (Ok v, t)" for v t
    using blocked_nobody by (cases "right k u password") (auto simp: wrong_counts andThen_def split: prod.splits outcome.splits)
  with False show ?thesis by auto
next
  case True
  then have r: "right k u password" and b: "\<not> blocked (clock s) u" by simp_all
  let ?p = "\<lambda>r. us_password_hash r = us_password_hash u \<and> us_session_epoch r = us_session_epoch u \<and> us_status r = user_status.ACTIVE"
  let ?f = "\<lambda>r. r\<lparr>us_failed_sign_ins := 0, us_sign_in_blocked_until := None, us_last_login_at := Some (clock s)\<rparr>"
  let ?d = "users_update (\<lambda>_. amend (\<lambda>q. named (rid u) q \<and> ?p q) ?f (users (live s))) (live s)"
  have one: "andThen (note_users (\<lambda>q. named (rid u) q \<and> ?p q) ?f) g s
      = g (if us_status u = user_status.ACTIVE then 1 else 0) (s\<lparr>live := ?d\<rparr>)" for g :: "nat \<Rightarrow> user_row service"
    by (rule andThen_Ok) (simp add: note_one [OF assms(1,2)])
  show ?thesis
  proof (cases "us_status u = user_status.ACTIVE")
    case False
    then have "settle_sign_in c k (Some u) password s \<noteq> (Ok v, t)" for v t
      using b by (simp add: right_goes_on [OF r] ensure_usable_def one)
    with False show ?thesis by simp
  next
    case True
    then have row: "fetch (rid u) (amend (\<lambda>q. named (rid u) q \<and> ?p q) ?f (users (live s))) = Some (?f u)"
      using fetch_note [OF assms(2), of ?f ?p] by simp
    then have "settle_sign_in c k (Some u) password s = (Ok (?f u), s\<lparr>live := ?d, kept := ?d\<rparr>)"
      using b True by (simp add: right_goes_on [OF r] ensure_usable_def one andThen_get_user)
    with row r b True show ?thesis by simp
  qed
qed

section \<open>A new password ends the sessions of the old one\<close>

text \<open>
  C33: A new password ends every session it did not open: an active account gets it, and from then on a signed token of
  the account is answered where it carries the next epoch and refused as invalid where it carries any other, the ones
  minted before it included.
\<close>
theorem new_password_ends_sessions:
  assumes "distinct (map rid (users (live s)))" and "unique_on user_token_key (users (live s))"
    and "fetch (rid u) (users (live s)) = Some u"
    and "us_status u = user_status.ACTIVE" and "ck_decode k token = Some (us_token u, epoch)"
  shows "\<exists>v t. settle_password k (rid u) new_password (us_password_hash u) (us_session_epoch u) s = (Ok v, t)
     \<and> kept t = live t \<and> us_password_hash v = ck_hash k new_password
     \<and> load_user k token t = (if epoch = Some (us_session_epoch u + 1) then Ok v else Err (AuthenticationError ''error.invalid-token''), t)"
proof -
  let ?p = "\<lambda>r. us_password_hash r = us_password_hash u \<and> us_session_epoch r = us_session_epoch u \<and> us_status r = user_status.ACTIVE"
  let ?f = "password_changes k new_password"
  let ?d = "users_update (\<lambda>_. amend (\<lambda>q. named (rid u) q \<and> ?p q) ?f (users (live s))) (live s)"
  have ids: "rid (?f q) = rid q" "us_token (?f q) = us_token q" for q by (simp_all add: password_changes_def)
  have one: "andThen (note_users (\<lambda>q. named (rid u) q \<and> ?p q) ?f) g s
      = g 1 (s\<lparr>live := ?d\<rparr>)" for g :: "nat \<Rightarrow> user_row service"
    by (rule andThen_Ok) (simp add: note_one [OF assms(1,3)] assms(4))
  note active = assms(4)
  have row: "fetch (rid u) (users ?d) = Some (?f u)"
    using fetch_note [OF assms(3), of ?f ?p] ids active by simp
  with active have ran: "settle_password k (rid u) new_password (us_password_hash u) (us_session_epoch u) s
      = (Ok (?f u), s\<lparr>live := ?d, kept := ?d\<rparr>)"
    by (simp add: settle_password_def one password_changes_def)
  have u: "u \<in> set (users (live s))" using fetch_Some_in [OF assms(3)] by simp
  have found: "List.find (\<lambda>q. us_token q = us_token u) (users ?d) = Some (?f u)"
    using find_token_amend [OF assms(2) u, of "\<lambda>q. named (rid u) q \<and> ?p q" ?f] ids active by (simp add: named_def)
  have "load_user k token (s\<lparr>live := ?d, kept := ?d\<rparr>)
      = (if epoch = Some (us_session_epoch u + 1) then Ok (?f u) else Err (AuthenticationError ''error.invalid-token''), s\<lparr>live := ?d, kept := ?d\<rparr>)"
    using found active by (simp add: load_user_def assms(5) password_changes_def)
  with ran show ?thesis by (simp add: password_changes_def)
qed

section \<open>A link opens once\<close>

lemma unique_token_gone:
  assumes "unique_on key t" and "r \<in> set t" and "key r = Some token" and "p r" and "\<And>q. key (f q) = None"
  shows "\<forall>q\<in>set (amend p f t). key q \<noteq> Some token"
proof
  fix q
  assume "q \<in> set (amend p f t)"
  then obtain x where x: "x \<in> set t" "q = (if p x then f x else x)" by (auto simp: set_amend)
  show "key q \<noteq> Some token"
  proof
    assume k: "key q = Some token"
    with x assms(5) have "q = x" by (auto split: if_splits)
    with k x assms(1-3) have "x = r" using unique_onD [OF assms(1), of x r token] by simp
    with x assms(4,5) k show False by simp
  qed
qed

lemma recoverable_reads:
  "recoverable c tenant token s = (Ok u, t) \<Longrightarrow>
     t = s \<and> List.find (\<lambda>r. us_recovery_token r = Some token \<and> us_tenant r = tenant) (users (live s)) = Some u"
  by (auto simp: recoverable_def find_by_recovery_token_def belongs_to_tenant_def andThen_assoc split: option.splits if_splits)

text \<open>
  A recovery link opens an account once. Where the link is the one an account of this brand holds and is young
  enough, the account gets the password, moves to the next epoch, is unlocked, and opens if it
  was waiting to while one that was blocked stays blocked; and the same link at any later moment is refused.
\<close>
theorem recovery_link_opens_once:
  assumes "distinct (map rid (users (live s)))" and "unique_on us_recovery_token (users (live s))"
    and "recoverable c tenant token s = (Ok u, x)"
  shows "\<exists>t. confirm_password_reset c k tenant token new_password s = (Ok (), t) \<and> kept t = live t
     \<and> (\<exists>v. fetch (rid u) (users (live t)) = Some v
       \<and> us_password_hash v = ck_hash k new_password \<and> us_session_epoch v = us_session_epoch u + 1
       \<and> us_status v = (if us_status u = user_status.PENDING then user_status.ACTIVE else us_status u)
       \<and> us_failed_sign_ins v = 0 \<and> us_sign_in_blocked_until v = None)
     \<and> confirm_password_reset c k tenant token other (t\<lparr>clock := later\<rparr>)
         = (Err (ValidationError ''error.recovery-token-invalid'' ''token''), t\<lparr>clock := later\<rparr>)"
proof -
  from recoverable_reads [OF assms(3)] assms(3) have u: "recoverable c tenant token s = (Ok u, s)"
      "List.find (\<lambda>r. us_recovery_token r = Some token \<and> us_tenant r = tenant) (users (live s)) = Some u" by simp_all
  have in_t: "u \<in> set (users (live s))" "us_recovery_token u = Some token" using find_Some_in [OF u(2)] by simp_all
  have f: "fetch (rid u) (users (live s)) = Some u" using fetch_distinct [OF assms(1) in_t(1)] .
  let ?f = "\<lambda>r. (password_changes k new_password r)\<lparr>
      us_status := (if us_status r = user_status.PENDING then user_status.ACTIVE else us_status r),
      us_confirmation_token := None, us_confirmation_sent_at := None, us_failed_sign_ins := 0, us_sign_in_blocked_until := None\<rparr>"
  let ?d = "users_update (\<lambda>_. amend (\<lambda>q. named (rid u) q \<and> us_recovery_token q = Some token) ?f (users (live s))) (live s)"
  have ids: "rid (?f q) = rid q" for q by (simp add: password_changes_def)
  let ?s = "s\<lparr>live := ?d, kept := ?d\<rparr>"
  have t: "confirm_password_reset c k tenant token new_password s = (Ok (), ?s)"
    using note_one [OF assms(1) f, of "\<lambda>q. us_recovery_token q = Some token" ?f] in_t(2)
    by (simp add: confirm_password_reset_def andThen_def [of "recoverable _ _ _"] u(1) andThen_def [of "note_users _ _"])
  have v: "fetch (rid u) (users ?d) = Some (?f u)"
    using fetch_note [OF f, of ?f "\<lambda>q. us_recovery_token q = Some token"] ids in_t(2) by simp
  have gone: "\<forall>q\<in>set (users ?d). us_recovery_token q \<noteq> Some token"
    using unique_token_gone [OF assms(2) in_t, of "\<lambda>q. named (rid u) q \<and> us_recovery_token q = Some token" ?f] in_t
    by (simp add: named_def password_changes_def)
  then have "List.find (\<lambda>r. us_recovery_token r = Some token \<and> us_tenant r = tenant) (users ?d) = None"
    by (auto simp: find_None_iff_all)
  then have "confirm_password_reset c k tenant token other (?s\<lparr>clock := later\<rparr>)
      = (Err (ValidationError ''error.recovery-token-invalid'' ''token''), ?s\<lparr>clock := later\<rparr>)"
    by (simp add: confirm_password_reset_def recoverable_def find_by_recovery_token_def belongs_to_tenant_def andThen_assoc)
  moreover have "us_password_hash (?f u) = ck_hash k new_password" "us_session_epoch (?f u) = us_session_epoch u + 1"
    by (simp_all add: password_changes_def)
  ultimately show ?thesis using v t by auto
qed

definition proving :: "string \<Rightarrow> user_row \<Rightarrow> session \<Rightarrow> user_row list" where
  "proving token u s = amend (\<lambda>q. named (rid u) q \<and> awaiting q \<and> us_confirmation_token q = Some token)
    (confirmed (us_pending_email u \<noteq> None)) (users (live s))"

lemma confirm_sign_up_writes:
  assumes "distinct (map rid (users (live s)))" and "confirm_sign_up tenant token s = (Ok (v, first), t)"
  obtains u where "u \<in> set (users (live s))" "us_confirmation_token u = Some token" "awaiting u"
    "v = confirmed (us_pending_email u \<noteq> None) u" "first = (us_status u = user_status.PENDING)" "user_keys (proving token u s)"
    "t = s\<lparr>live := users_update (\<lambda>_. proving token u s) (live s), kept := users_update (\<lambda>_. proving token u s) (live s)\<rparr>"
proof -
  obtain u where u: "awaiting_confirmation tenant token s = (Ok (Some u), s)"
    using assms(2) by (auto simp: confirm_sign_up_def awaiting_confirmation_def find_by_confirmation_token_def andThen_assoc
      split: option.splits if_splits)
  then have found: "List.find (\<lambda>r. us_confirmation_token r = Some token \<and> us_tenant r = tenant) (users (live s)) = Some u" and aw: "awaiting u"
    by (auto simp: awaiting_confirmation_def find_by_confirmation_token_def belongs_to_tenant_def split: option.splits if_splits)
  have in_t: "u \<in> set (users (live s))" "us_confirmation_token u = Some token" using find_Some_in [OF found] by simp_all
  have f: "fetch (rid u) (users (live s)) = Some u" using fetch_distinct [OF assms(1) in_t(1)] .
  let ?f = "confirmed (us_pending_email u \<noteq> None)"
  let ?p = "\<lambda>q. awaiting q \<and> us_confirmation_token q = Some token"
  have ids: "rid (?f q) = rid q" for q by (simp add: confirmed_def Let_def)
  have h: "hits (\<lambda>q. named (rid u) q \<and> ?p q) (users (live s)) = 1" using hits_alone [OF assms(1) f, of ?p] aw in_t(2) by simp
  have row: "fetch (rid u) (proving token u s) = Some (?f u)"
    unfolding proving_def using fetch_note [OF f, of ?f ?p] ids aw in_t(2) by simp
  have run: "andThen (awaiting_confirmation tenant token) g s = g (Some u) s" for g :: "user_row option \<Rightarrow> (user_row \<times> bool) service"
    by (rule andThen_Ok) (rule u)
  let ?w = "refusing ''error.email-already-used'' (andThen (write_users (\<lambda>q. named (rid u) q \<and> ?p q) ?f) (\<lambda>rowcount.
      if rowcount \<noteq> 1 then andThen rollback (\<lambda>_. throw (ValidationError ''error.confirmation-token-invalid'' ''token'')) else ret ()))"
  let ?g = "\<lambda>_. andThen commit (\<lambda>_. andThen (load users (rid u)) (\<lambda>again. ret (again, us_status u = user_status.PENDING)))"
  have whole: "confirm_sign_up tenant token s = andThen ?w ?g s" by (simp add: confirm_sign_up_def run)
  have part: "?w s = (if user_keys (proving token u s) then (Ok (), s\<lparr>live := users_update (\<lambda>_. proving token u s) (live s)\<rparr>)
      else (Err (ConflictError ''error.email-already-used''), s\<lparr>live := kept s\<rparr>))"
    by (simp add: refusing_def handle_def andThen_def alter_def Let_def h proving_def)
  have keys: "user_keys (proving token u s)" using assms(2) part by (auto simp: whole andThen_def split: if_splits)
  with part have "andThen ?w ?g s = ?g () (s\<lparr>live := users_update (\<lambda>_. proving token u s) (live s)\<rparr>)" by (intro andThen_Ok) simp
  with whole assms(2) row in_t aw keys show thesis by (intro that) auto
qed

text \<open>
  A confirmation letter opens an account once: where it answers, the account it named is no longer waiting, the
  address it was waiting on is the one it holds, no two accounts of a scope share it, and the same letter at any later
  moment is refused and writes nothing.
\<close>
theorem confirmation_opens_once:
  assumes "distinct (map rid (users (live s)))" and "unique_on us_confirmation_token (users (live s))"
    and "user_keys (users (live s))" and "confirm_sign_up tenant token s = (Ok (v, first), t)"
  shows "us_status v \<noteq> user_status.PENDING \<and> us_pending_email v = None \<and> us_confirmation_token v = None
     \<and> user_keys (users (live t)) \<and> kept t = live t
     \<and> (\<exists>u\<in>set (users (live s)). us_confirmation_token u = Some token \<and> v = confirmed (us_pending_email u \<noteq> None) u
          \<and> first = (us_status u = user_status.PENDING))
     \<and> confirm_sign_up tenant token (t\<lparr>clock := later\<rparr>)
         = (Err (ValidationError ''error.confirmation-token-invalid'' ''token''), t\<lparr>clock := later\<rparr>)"
proof -
  from confirm_sign_up_writes [OF assms(1,4)] obtain u where
    u: "u \<in> set (users (live s))" "us_confirmation_token u = Some token" "awaiting u"
      "v = confirmed (us_pending_email u \<noteq> None) u" "first = (us_status u = user_status.PENDING)" and
    keys: "user_keys (proving token u s)" and
    t: "t = s\<lparr>live := users_update (\<lambda>_. proving token u s) (live s), kept := users_update (\<lambda>_. proving token u s) (live s)\<rparr>" by metis
  have "\<forall>q\<in>set (proving token u s). us_confirmation_token q \<noteq> Some token"
    using unique_token_gone [OF assms(2) u(1,2), of "\<lambda>q. named (rid u) q \<and> awaiting q \<and> us_confirmation_token q = Some token"
      "confirmed (us_pending_email u \<noteq> None)"] u(2,3)
    by (simp add: named_def confirmed_def Let_def proving_def)
  then have "List.find (\<lambda>r. us_confirmation_token r = Some token \<and> us_tenant r = tenant) (proving token u s) = None"
    by (auto simp: find_None_iff_all)
  then have "confirm_sign_up tenant token (t\<lparr>clock := later\<rparr>)
      = (Err (ValidationError ''error.confirmation-token-invalid'' ''token''), t\<lparr>clock := later\<rparr>)"
    by (simp add: t confirm_sign_up_def awaiting_confirmation_def find_by_confirmation_token_def belongs_to_tenant_def andThen_assoc)
  moreover have "us_status v \<noteq> user_status.PENDING" "us_pending_email v = None" "us_confirmation_token v = None"
    by (simp_all add: u(4) confirmed_def Let_def)
  ultimately show ?thesis using u t keys by auto
qed

section \<open>No two accounts share an identity\<close>

definition identities_apart :: "db \<Rightarrow> bool" where
  "identities_apart d \<longleftrightarrow> user_keys (users d)"

definition identity_of :: "user_row \<Rightarrow> string \<times> nat option \<times> string option \<times> string option \<times> string option \<times> string option" where
  "identity_of r = (us_token r, us_tenant r, us_username r, us_email r, us_document r, us_mobile_phone r)"

lemma apart_note:
  assumes "\<And>r. identity_of (f r) = identity_of r"
  shows "effect (keeps (steady identities_apart)) (note_users p f)"
proof (rule steady_alter)
  fix d u
  assume "identities_apart d" "u = amend p f (users d)"
  moreover have "us_token (f r) = us_token r" "us_tenant (f r) = us_tenant r" "us_username (f r) = us_username r" "us_email (f r) = us_email r"
      "us_document (f r) = us_document r" "us_mobile_phone (f r) = us_mobile_phone r" for r
    using assms [of r] by (simp_all add: identity_of_def)
  ultimately show "identities_apart (users_update (\<lambda>_. u) d)"
    by (simp add: identities_apart_def user_keys_def unique_on_amend user_token_key_def scoped_def)
qed

lemma apart_write: "effect (keeps (steady identities_apart)) (write_users p f)"
  by (rule steady_alter) (auto simp: identities_apart_def hits_0_amend)

lemma apart_frame:
  assumes "effect (leaves users) m"
  shows "effect (keeps (steady identities_apart)) m"
  by (rule leaves_keeps [OF assms]) (simp add: identities_apart_def)

lemma apart_count_failure: "effect (keeps (steady identities_apart)) (count_failure c i)"
  unfolding count_failure_def by (intro steady_steps apart_note) (simp_all add: identity_of_def)

lemma apart_get_user: "effect (keeps (steady identities_apart)) (get_user i)"
  unfolding get_user_def by (intro steady_steps)

lemma apart_settle_sign_in: "effect (keeps (steady identities_apart)) (settle_sign_in c k u password)"
  unfolding settle_sign_in_def ensure_usable_def Let_def
  by (intro steady_steps apart_note apart_count_failure apart_get_user) (simp add: identity_of_def)

lemma apart_to_user: "effect (keeps (steady identities_apart)) (to_user c p current tenant user subject_key template address context)"
  unfolding to_user_def language_of_def queue_def suppressed_def by (intro apart_frame leaves_steps leaves_store) simp

lemma apart_settle_password: "effect (keeps (steady identities_apart)) (settle_password k i new_password hash epoch)"
  unfolding settle_password_def by (intro steady_steps apart_note) (simp add: identity_of_def password_changes_def)

lemma apart_claim_recovery: "effect (keeps (steady identities_apart)) (claim_recovery c i drawn)"
  unfolding claim_recovery_def by (intro steady_steps apart_note) (simp add: identity_of_def)

lemma apart_mail_confirmation: "effect (keeps (steady identities_apart)) (mail_confirmation c k p current brand i wanted drawn)"
  unfolding mail_confirmation_def claim_confirmation_def Let_def
  by (intro steady_steps apart_note apart_to_user) (simp add: identity_of_def)

lemma apart_confirm_password_reset: "effect (keeps (steady identities_apart)) (confirm_password_reset c k tenant token new_password)"
  unfolding confirm_password_reset_def recoverable_def find_by_recovery_token_def
  by (intro steady_steps apart_note) (simp add: identity_of_def password_changes_def)

lemma apart_confirm_sign_up: "effect (keeps (steady identities_apart)) (confirm_sign_up tenant token)"
  unfolding confirm_sign_up_def awaiting_confirmation_def find_by_confirmation_token_def by (intro steady_steps apart_write)

text \<open>The calls of the account, each with what it draws.\<close>

datatype account_call =
    SignIn "nat option" string string
  | SignInPanel "nat option" string string
  | ChangePassword user_row string string
  | StartReset brand string string string
  | Reset "nat option" string string
  | Resend brand string string
  | Confirm "nat option" string

fun account_step :: "config \<Rightarrow> craft \<Rightarrow> post \<Rightarrow> string \<Rightarrow> account_call \<Rightarrow> unit service" where
  "account_step c k p current (SignIn tenant login password) = andThen (authenticate c k tenant login password) (\<lambda>_. ret ())"
| "account_step c k p current (SignInPanel tenant login password) = andThen (authenticate_for_panel c k tenant login password) (\<lambda>_. ret ())"
| "account_step c k p current (ChangePassword user before after) = andThen (change_password k user before after) (\<lambda>_. ret ())"
| "account_step c k p current (StartReset brand login wanted drawn) = start_password_reset c k p current brand login wanted drawn"
| "account_step c k p current (Reset tenant token password) = confirm_password_reset c k tenant token password"
| "account_step c k p current (Resend brand login drawn) = resend_confirmation c k p current brand login drawn"
| "account_step c k p current (Confirm tenant token) = andThen (confirm_sign_up tenant token) (\<lambda>_. ret ())"

lemma apart_account_step: "effect (keeps (steady identities_apart)) (account_step c k p current call)"
  by (cases call)
    (simp_all only: account_step.simps authenticate_def authenticate_for_panel_def change_password_def start_password_reset_def
      mail_recovery_def resend_confirmation_def find_by_login_def find_operator_def,
     (intro steady_steps apart_settle_sign_in apart_settle_password apart_claim_recovery apart_to_user apart_mail_confirmation
        apart_confirm_password_reset apart_confirm_sign_up)+)


section \<open>On the sample account\<close>

definition sample_craft :: craft where
  "sample_craft = \<lparr>ck_hash = (\<lambda>p. CHR ''#'' # p), ck_verify = (\<lambda>p h. h = ''hash'' \<and> p = ''right''), ck_nobody = ''none'',
     ck_decode = (\<lambda>t. Some (''reader'', if t = ''old'' then Some 0 else Some 1)), ck_quote = (\<lambda>t. t)\<rparr>"

definition waiting_user :: user_row where
  "waiting_user = sample_user\<lparr>us_status := user_status.PENDING, us_recovery_token := Some ''recover'',
     us_recovery_token_created_at := Some (on_day 2024 3 5), us_pending_email := Some ''new@example.com'',
     us_confirmation_token := Some ''confirm''\<rparr>"

definition sample_waiting :: session where
  "sample_waiting = opened_at (on_day 2024 3 5) (sample_db\<lparr>users := [waiting_user]\<rparr>)"

lemmas account_samples = sample_craft_def waiting_user_def sample_waiting_def sample_config_def sample_defs

lemma wrong_password_locks_witness:
  "\<exists>t. settle_sign_in sample_config sample_craft (Some sample_user) ''wrong'' sample
       = (Err (AuthenticationError ''error.invalid-credentials''), t)
     \<and> fetch 1 (users (live t)) = Some (after_failure sample_config (DateTime 2024 3 5 36060000000) sample_user)"
proof -
  have d: "distinct (map rid (users (live sample)))" "fetch (rid sample_user) (users (live sample)) = Some sample_user"
    by (simp_all add: sample_defs fetch_def)
  have w: "\<not> right sample_craft sample_user ''wrong''" by (simp add: right_def sample_craft_def)
  have "later_by (clock sample) (int (waiting_seconds sample_config (us_failed_sign_ins sample_user + 1))) = Ok (DateTime 2024 3 5 36060000000)"
    by code_simp
  from wrong_password_locks [OF d w this] show ?thesis by (auto simp: sample_user_def)
qed

lemma sample_row: "distinct (map rid (users (live sample)))" "fetch (rid sample_user) (users (live sample)) = Some sample_user"
  by (simp_all add: sample_defs fetch_def)

lemma sign_in_is_earned_witness:
  "\<exists>v t. settle_sign_in sample_config sample_craft (Some sample_user) ''right'' sample = (Ok v, t)
     \<and> fetch 1 (users (live t)) = Some v"
proof -
  have "right sample_craft sample_user ''right'' \<and> us_status sample_user = user_status.ACTIVE \<and> \<not> blocked (clock sample) sample_user"
    by (simp add: right_def has_password_def blocked_def sample_craft_def sample_user_def)
  with sign_in_is_earned [OF sample_row, of sample_craft "''right''" sample_config] show ?thesis
    by (auto simp: sample_user_def)
qed

lemma new_password_ends_sessions_witness:
  "\<exists>v t. settle_password sample_craft 1 ''fresh'' ''hash'' 0 sample = (Ok v, t)
     \<and> load_user sample_craft ''old'' t = (Err (AuthenticationError ''error.invalid-token''), t)"
proof -
  have u: "unique_on user_token_key (users (live sample))" by (simp add: sample_defs free_of_def user_token_key_def)
  have "us_status sample_user = user_status.ACTIVE" "ck_decode sample_craft ''old'' = Some (us_token sample_user, Some 0)"
    by (simp_all add: sample_craft_def sample_user_def)
  from new_password_ends_sessions [OF sample_row(1) u sample_row(2) this, of "''fresh''"] show ?thesis
    by (auto simp: sample_user_def)
qed

lemma recovery_link_opens_once_witness:
  "\<exists>t. confirm_password_reset sample_config sample_craft (Some 1) ''recover'' ''fresh'' sample_waiting = (Ok (), t)
     \<and> confirm_password_reset sample_config sample_craft (Some 1) ''recover'' ''again'' (t\<lparr>clock := on_day 2024 3 6\<rparr>)
         = (Err (ValidationError ''error.recovery-token-invalid'' ''token''), t\<lparr>clock := on_day 2024 3 6\<rparr>)"
proof -
  have d: "distinct (map rid (users (live sample_waiting)))" "unique_on us_recovery_token (users (live sample_waiting))"
    by (simp_all add: account_samples free_of_def)
  have "recoverable sample_config (Some 1) ''recover'' sample_waiting = (Ok waiting_user, sample_waiting)"
    by (simp add: recoverable_def find_by_recovery_token_def belongs_to_tenant_def andThen_assoc seconds_def account_samples)
  from recovery_link_opens_once [OF d this, of sample_craft "''fresh''" "''again''" "on_day 2024 3 6"] show ?thesis by blast
qed

lemma confirmation_opens_once_witness:
  "\<exists>v t. confirm_sign_up (Some 1) ''confirm'' sample_waiting = (Ok (v, True), t) \<and> us_status v \<noteq> user_status.PENDING
     \<and> confirm_sign_up (Some 1) ''confirm'' (t\<lparr>clock := on_day 2024 3 6\<rparr>)
         = (Err (ValidationError ''error.confirmation-token-invalid'' ''token''), t\<lparr>clock := on_day 2024 3 6\<rparr>)"
proof -
  have d: "distinct (map rid (users (live sample_waiting)))" "unique_on us_confirmation_token (users (live sample_waiting))"
      "user_keys (users (live sample_waiting))"
    by (simp_all add: account_samples free_of_def user_keys_def user_token_key_def scoped_def)
  obtain v t where "confirm_sign_up (Some 1) ''confirm'' sample_waiting = (Ok (v, True), t)"
    by (simp add: confirm_sign_up_def awaiting_confirmation_def find_by_confirmation_token_def belongs_to_tenant_def andThen_assoc
      awaiting_def refusing_def handle_def andThen_def account_samples alter_def amend_def hits_def named_def confirmed_def
      user_keys_def free_of_def user_token_key_def scoped_def fetch_def load_def need_def Let_def)
  with confirmation_opens_once [OF d this] show ?thesis by blast
qed


end
