(* ===== verification/Ways_In.thy ===== *)
theory Ways_In
  imports Accounts_Facts
begin

text \<open>
  The ways in that carry no password: the rules every optional method shares (\<^verbatim>\<open>helpers/authentication_helper.py\<close>), the code sent to an
  address (\<^verbatim>\<open>services/email_login_service.py\<close>) and the ticket one browser redeems (\<^verbatim>\<open>services/login_ticket_service.py\<close>). Tokens and codes are
  drawn outside and arguments of the call; \<open>digest\<close> of \<^verbatim>\<open>helpers/signing.py\<close> is the HMAC of its purpose and its body.
\<close>

definition digest :: "outside \<Rightarrow> config \<Rightarrow> string \<Rightarrow> string \<Rightarrow> string" where
  "digest w c purpose body = o_hmac w (ss_secret_key (co_security c)) (purpose @ ''.'' @ body)"

fun surface_name :: "authentication_surface \<Rightarrow> string" where
  "surface_name SITE = ''site''"
| "surface_name authentication_surface.ADMIN = ''admin''"

section \<open>The rules every method shares\<close>

definition available :: "email_login_settings \<Rightarrow> authentication_surface \<Rightarrow> bool" where
  "available settings surface \<longleftrightarrow> ls_enabled settings \<and> (case surface of SITE \<Rightarrow> ls_site settings | authentication_surface.ADMIN \<Rightarrow> ls_admin settings)"

definition require_email :: "config \<Rightarrow> authentication_surface \<Rightarrow> unit service" where
  "require_email c surface = (if available (co_email_login c) surface then ret () else throw NotFoundError)"

definition in_scope :: "nat option \<Rightarrow> authentication_surface \<Rightarrow> user_row \<Rightarrow> bool" where
  "in_scope tenant surface r \<longleftrightarrow> belongs_to_tenant (us_tenant r) tenant \<or> surface = authentication_surface.ADMIN \<and> us_tenant r = None"

definition by_email :: "nat option \<Rightarrow> string \<Rightarrow> authentication_surface \<Rightarrow> user_row option service" where
  "by_email tenant email surface =
     query (\<lambda>d. first_of (filter (\<lambda>r. us_email r = Some email \<and> in_scope tenant surface r) (users d)))"

definition ensure_access :: "user_row option \<Rightarrow> authentication_surface \<Rightarrow> user_row service" where
  "ensure_access user surface =
     (case user of
        None \<Rightarrow> throw (AuthenticationError ''error.invalid-credentials'')
      | Some u \<Rightarrow>
          if us_status u \<noteq> user_status.ACTIVE
          then throw (AuthenticationError (if us_status u = BLOCKED then ''error.account-blocked'' else ''error.invalid-credentials''))
          else if surface = authentication_surface.ADMIN \<and> us_role u \<notin> set PANEL_ROLES then throw (AuthenticationError ''error.panel-not-allowed'')
          else ret u)"

definition ensure_scope :: "user_row \<Rightarrow> nat option \<Rightarrow> authentication_surface \<Rightarrow> unit service" where
  "ensure_scope u tenant surface =
     (if surface = authentication_surface.ADMIN \<and> us_tenant u = None then ret ()
      else if us_tenant u \<noteq> tenant then throw (PermissionError ''error.account-of-another-brand'') else ret ())"

definition signed_in :: "user_row option \<Rightarrow> authentication_surface \<Rightarrow> nat option \<Rightarrow> user_row service" where
  "signed_in user surface tenant =
     andThen (ensure_access user surface) (\<lambda>u.
     andThen (ensure_scope u tenant surface) (\<lambda>_.
     andThen now (\<lambda>moment.
     andThen (note_users (\<lambda>r. named (rid u) r \<and> us_status r = user_status.ACTIVE \<and> us_session_epoch r = us_session_epoch u
         \<and> in_scope tenant surface r)
       (\<lambda>r. r\<lparr>us_last_login_at := Some moment, us_failed_sign_ins := 0, us_sign_in_blocked_until := None\<rparr>)) (\<lambda>rowcount.
     andThen commit (\<lambda>_.
     if rowcount \<noteq> 1 then throw (AuthenticationError ''error.invalid-credentials'') else
     andThen (get_user (rid u)) (\<lambda>again.
     andThen (ensure_access (Some again) surface) (\<lambda>_.
     andThen (ensure_scope again tenant surface) (\<lambda>_.
     if us_session_epoch again \<noteq> us_session_epoch u then throw (AuthenticationError ''error.invalid-credentials'') else ret again))))))))"

section \<open>Tickets\<close>

abbreviation "write_tickets \<equiv> alter login_tickets login_tickets_update free_keys"

definition create_ticket :: "outside \<Rightarrow> config \<Rightarrow> nat option \<Rightarrow> user_row \<Rightarrow> string \<Rightarrow> string \<Rightarrow> string service" where
  "create_ticket w c tenant user browser drawn =
     andThen now (\<lambda>moment.
     andThen (lift (later_by moment (int (co_ticket_ttl c)))) (\<lambda>until.
     andThen (store login_tickets login_tickets_update (free_of ticket_key)
       \<lparr>rid = 0, lt_tenant = tenant, lt_user = rid user, lt_session_epoch = us_session_epoch user,
        lt_token_digest = digest w c ''login-ticket'' drawn, lt_browser_digest = digest w c ''login-browser'' browser,
        lt_expires_at = until, lt_consumed_at = None\<rparr>) (\<lambda>_.
     andThen commit (\<lambda>_. ret drawn))))"

definition opens_ticket :: "outside \<Rightarrow> config \<Rightarrow> nat option \<Rightarrow> string \<Rightarrow> string \<Rightarrow> datetime \<Rightarrow> login_ticket_row \<Rightarrow> bool" where
  "opens_ticket w c tenant token browser moment r \<longleftrightarrow>
     lt_tenant r = tenant \<and> lt_token_digest r = digest w c ''login-ticket'' token
     \<and> lt_browser_digest r = digest w c ''login-browser'' browser \<and> instant moment < instant (lt_expires_at r) \<and> lt_consumed_at r = None"

definition redeem :: "outside \<Rightarrow> config \<Rightarrow> nat option \<Rightarrow> string \<Rightarrow> string \<Rightarrow> user_row service" where
  "redeem w c tenant token browser =
     andThen (query (\<lambda>d. List.find (\<lambda>r. lt_token_digest r = digest w c ''login-ticket'' token) (login_tickets d))) (\<lambda>ticket.
     case ticket of
       None \<Rightarrow> throw (AuthenticationError ''error.social-attempt-invalid'')
     | Some ticket \<Rightarrow>
         andThen now (\<lambda>moment.
         andThen (write_tickets (opens_ticket w c tenant token browser moment) (\<lambda>r. r\<lparr>lt_consumed_at := Some moment\<rparr>)) (\<lambda>rowcount.
         andThen commit (\<lambda>_.
         if rowcount \<noteq> 1 then throw (AuthenticationError ''error.social-attempt-invalid'') else
         andThen (query (\<lambda>d. fetch (lt_user ticket) (users d))) (\<lambda>user.
         if map_option us_session_epoch user \<noteq> Some (lt_session_epoch ticket)
         then throw (AuthenticationError ''error.social-attempt-invalid'')
         else signed_in user authentication_surface.ADMIN tenant)))))"

section \<open>Codes\<close>

abbreviation "write_challenges \<equiv> alter email_login_challenges email_login_challenges_update free_keys"

definition optional_id :: "nat option \<Rightarrow> string" where
  "optional_id i = (case i of None \<Rightarrow> ''None'' | Some n \<Rightarrow> decimal n)"

definition renewed :: "outside \<Rightarrow> config \<Rightarrow> string \<Rightarrow> string \<Rightarrow> datetime \<Rightarrow> datetime \<Rightarrow> email_login_challenge_row \<Rightarrow> email_login_challenge_row" where
  "renewed w c token code expires resend r = r\<lparr>el_token := token, el_code_digest := digest w c ''email-login-code'' (token @ '':'' @ code),
     el_attempts := 0, el_expires_at := expires, el_resend_at := resend, el_consumed_at := None\<rparr>"

definition write_code :: "config \<Rightarrow> post \<Rightarrow> string \<Rightarrow> nat option \<Rightarrow> string \<Rightarrow> string \<Rightarrow> unit service" where
  "write_code c p current tenant address code =
     andThen (queue tenant address (ps_translate p ''email.sign-in-code-subject'' current) ''sign-in-code'' None current
       [(''code'', code), (''minutes'', decimal (ls_code_ttl (co_email_login c) div 60))]) (\<lambda>_. ret ())"

text \<open>
  A code nothing answers for any more waits its turn, and one still out is answered again; the driver raises where
  the drawn token is one another challenge holds.
\<close>

definition request_code :: "outside \<Rightarrow> config \<Rightarrow> post \<Rightarrow> string \<Rightarrow> nat option \<Rightarrow> string \<Rightarrow> authentication_surface \<Rightarrow> string \<Rightarrow> string
    \<Rightarrow> email_login_challenge_row service" where
  "request_code w c p current tenant email surface token code =
     andThen (require_email c surface) (\<lambda>_.
     andThen now (\<lambda>moment.
     let address = lower email;
         scope_key = digest w c ''email-login-scope'' (optional_id tenant @ '':'' @ surface_name surface @ '':'' @ address)
     in
     andThen (lift (later_by moment (int (ls_code_ttl (co_email_login c))))) (\<lambda>expires.
     andThen (lift (later_by moment (int (ls_resend_interval (co_email_login c))))) (\<lambda>resend.
     andThen (settle email_login_challenges email_login_challenges_update accepts_challenge (\<lambda>r. el_scope_key r = scope_key)
       (renewed w c token code expires resend \<lparr>rid = 0, el_tenant = tenant, el_scope_key = scope_key, el_surface = surface,
          el_email = address, el_token = token, el_code_digest = '''', el_attempts = 0, el_expires_at = expires,
          el_resend_at = resend, el_consumed_at = None\<rparr>)) (\<lambda>settled.
     case settled of
       Wrote r \<Rightarrow> andThen (write_code c p current tenant address code) (\<lambda>_. load email_login_challenges (rid r))
     | Missed \<Rightarrow> throw AttributeError
     | Found r \<Rightarrow>
         andThen (write_challenges (\<lambda>q. named (rid r) q \<and> instant (el_resend_at q) \<le> instant moment)
           (renewed w c token code expires resend)) (\<lambda>rowcount.
         if rowcount = 1
         then andThen (write_code c p current tenant address code) (\<lambda>_. load email_login_challenges (rid r))
         else
           andThen commit (\<lambda>_.
           andThen (load email_login_challenges (rid r)) (\<lambda>again.
           if el_consumed_at again \<noteq> None \<or> instant (el_expires_at again) \<le> instant moment
             \<or> ls_max_attempts (co_email_login c) \<le> el_attempts again
           then throw (ValidationError ''error.sign-in-code-wait'' ''email'') else ret again))))))))"

definition live_challenge :: "config \<Rightarrow> nat option \<Rightarrow> authentication_surface \<Rightarrow> string \<Rightarrow> datetime \<Rightarrow> email_login_challenge_row \<Rightarrow> bool" where
  "live_challenge c tenant surface token moment r \<longleftrightarrow>
     el_token r = token \<and> el_tenant r = tenant \<and> el_surface r = surface \<and> el_consumed_at r = None
     \<and> instant moment < instant (el_expires_at r) \<and> el_attempts r < ls_max_attempts (co_email_login c)"

definition opened_account :: "string \<Rightarrow> nat option \<Rightarrow> string \<Rightarrow> user_row" where
  "opened_account email tenant token = \<lparr>rid = 0, us_tenant = tenant, us_token = token, us_language = None, us_username = None,
     us_email = Some email, us_document = None, us_mobile_phone = None, us_password_hash = '''', us_role = NORMAL,
     us_reaches_shared = False, us_status = user_status.ACTIVE, us_first_name = None, us_last_name = None, us_nickname = None,
     us_avatar = None, us_notes = None, us_recovery_token = None, us_recovery_token_created_at = None, us_pending_email = None,
     us_confirmation_token = None, us_confirmation_sent_at = None, us_reconciled_at = None, us_last_login_at = None,
     us_failed_sign_ins = 0, us_sign_in_blocked_until = None, us_session_epoch = 0, us_erased_at = None\<rparr>"

text \<open>The account the address names, opened where there is none and the surface is the site.\<close>

definition account_of_address :: "nat option \<Rightarrow> string \<Rightarrow> authentication_surface \<Rightarrow> string \<Rightarrow> user_row service" where
  "account_of_address tenant email surface account_token =
     andThen (by_email tenant email surface) (\<lambda>user.
     case user of
       Some u \<Rightarrow> ret u
     | None \<Rightarrow>
         if surface = authentication_surface.ADMIN then andThen commit (\<lambda>_. throw (AuthenticationError ''error.panel-not-allowed'')) else
         andThen (ensure_free ''email'' email tenant None) (\<lambda>_.
         andThen (settle users users_update accepts_user (\<lambda>r. us_email r = Some email \<and> us_tenant r = tenant)
           (opened_account email tenant account_token)) (\<lambda>settled.
         case settled of Wrote r \<Rightarrow> ret r | Found r \<Rightarrow> ret r | Missed \<Rightarrow> throw AttributeError)))"

definition proved :: "user_row \<Rightarrow> user_row" where
  "proved r = r\<lparr>us_status := user_status.ACTIVE, us_password_hash := '''', us_session_epoch := us_session_epoch r + 1,
     us_confirmation_token := None, us_confirmation_sent_at := None, us_recovery_token := None, us_recovery_token_created_at := None\<rparr>"

definition confirm_code :: "outside \<Rightarrow> config \<Rightarrow> nat option \<Rightarrow> string \<Rightarrow> string \<Rightarrow> authentication_surface \<Rightarrow> string \<Rightarrow> user_row service" where
  "confirm_code w c tenant token code surface account_token =
     andThen (require_email c surface) (\<lambda>_.
     andThen now (\<lambda>moment.
     let expected = digest w c ''email-login-code'' (token @ '':'' @ code) in
     andThen (write_challenges (\<lambda>r. live_challenge c tenant surface token moment r \<and> el_code_digest r = expected)
       (\<lambda>r. r\<lparr>el_consumed_at := Some moment\<rparr>)) (\<lambda>rowcount.
     if rowcount \<noteq> 1 then
       andThen (write_challenges (\<lambda>r. live_challenge c tenant surface token moment r \<and> el_code_digest r \<noteq> expected)
         (\<lambda>r. r\<lparr>el_attempts := el_attempts r + 1\<rparr>)) (\<lambda>_.
       andThen commit (\<lambda>_. throw (ValidationError ''error.sign-in-code-invalid'' ''code'')))
     else
       andThen (query (\<lambda>d. List.find (\<lambda>r. el_token r = token) (email_login_challenges d))) (\<lambda>challenge.
       andThen (need challenge) (\<lambda>challenge.
       andThen (account_of_address tenant (el_email challenge) surface account_token) (\<lambda>user.
       andThen (if us_status user = user_status.PENDING
           then andThen (note_users (\<lambda>r. named (rid user) r \<and> us_status r = user_status.PENDING) proved) (\<lambda>_. load users (rid user))
           else ret user) (\<lambda>user.
       andThen commit (\<lambda>_. signed_in (Some user) surface tenant))))))))"

section \<open>A code cannot be guessed\<close>

text \<open>What a wrong code writes, whoever tries it.\<close>

definition guess :: "outside \<Rightarrow> config \<Rightarrow> nat option \<Rightarrow> string \<Rightarrow> authentication_surface \<Rightarrow> string \<times> datetime \<Rightarrow> session \<Rightarrow> session" where
  "guess w c tenant token surface g s = state_of (confirm_code w c tenant token (fst g) surface '''') (s\<lparr>clock := snd g\<rparr>)"

definition wrong_code :: "outside \<Rightarrow> config \<Rightarrow> string \<Rightarrow> string \<Rightarrow> email_login_challenge_row list \<Rightarrow> bool" where
  "wrong_code w c token code t \<longleftrightarrow>
     (\<forall>q\<in>set t. el_token q = token \<longrightarrow> el_code_digest q \<noteq> digest w c ''email-login-code'' (token @ '':'' @ code))"

definition tried :: "config \<Rightarrow> nat option \<Rightarrow> authentication_surface \<Rightarrow> string \<Rightarrow> datetime \<Rightarrow> nat \<Rightarrow> email_login_challenge_row list \<Rightarrow> bool" where
  "tried c tenant surface token m n t \<longleftrightarrow> (\<forall>q\<in>set t. live_challenge c tenant surface token m q \<longrightarrow> n \<le> el_attempts q)"

lemma wrong_code_map: "wrong_code w c token code t \<longleftrightarrow>
    (\<forall>k\<in>set (map (\<lambda>q. (el_token q, el_code_digest q)) t). fst k = token \<longrightarrow> snd k \<noteq> digest w c ''email-login-code'' (token @ '':'' @ code))"
  by (auto simp: wrong_code_def)

lemma refused_code:
  assumes "available (co_email_login c) surface"
    and "\<forall>q\<in>set (email_login_challenges (live s)). \<not> (live_challenge c tenant surface token (clock s) q
      \<and> el_code_digest q = digest w c ''email-login-code'' (token @ '':'' @ code))"
  shows "\<exists>t. confirm_code w c tenant token code surface account_token s = (Err (ValidationError ''error.sign-in-code-invalid'' ''code''), t)
     \<and> email_login_challenges (live t) = amend (\<lambda>r. live_challenge c tenant surface token (clock s) r
         \<and> el_code_digest r \<noteq> digest w c ''email-login-code'' (token @ '':'' @ code)) (\<lambda>r. r\<lparr>el_attempts := el_attempts r + 1\<rparr>)
         (email_login_challenges (live s))"
proof -
  let ?p = "\<lambda>r. live_challenge c tenant surface token (clock s) r \<and> el_code_digest r = digest w c ''email-login-code'' (token @ '':'' @ code)"
  have h: "hits ?p (email_login_challenges (live s)) = 0" using assms(2) by (simp add: hits_def filter_empty_conv)
  have same: "amend ?p (\<lambda>r. r\<lparr>el_consumed_at := Some (clock s)\<rparr>) (email_login_challenges (live s)) = email_login_challenges (live s)"
    by (rule hits_0_amend [OF h])
  show ?thesis using assms(1) h same
    by (simp add: confirm_code_def require_email_def Let_def alter_def free_keys_def andThen_def)
qed

lemma one_guess:
  assumes "available (co_email_login c) surface" and "wrong_code w c token (fst g) (email_login_challenges (live s))"
    and "instant (snd g) \<le> instant m" and "tried c tenant surface token m n (email_login_challenges (live s))"
  shows "wrong_code w c token other (email_login_challenges (live s))
      = wrong_code w c token other (email_login_challenges (live (guess w c tenant token surface g s)))"
    and "tried c tenant surface token m (min (Suc n) (ls_max_attempts (co_email_login c)))
      (email_login_challenges (live (guess w c tenant token surface g s)))"
proof -
  let ?t = "email_login_challenges (live s)"
  let ?p = "\<lambda>r. live_challenge c tenant surface token (snd g) r \<and> el_code_digest r \<noteq> digest w c ''email-login-code'' (token @ '':'' @ fst g)"
  let ?u = "amend ?p (\<lambda>r. r\<lparr>el_attempts := el_attempts r + 1\<rparr>) ?t"
  have "\<forall>q\<in>set (email_login_challenges (live (s\<lparr>clock := snd g\<rparr>))). \<not> (live_challenge c tenant surface token (clock (s\<lparr>clock := snd g\<rparr>)) q
      \<and> el_code_digest q = digest w c ''email-login-code'' (token @ '':'' @ fst g))"
    using assms(2) by (auto simp: wrong_code_def live_challenge_def)
  from refused_code [OF assms(1) this, of "''''"]
  have u: "email_login_challenges (live (guess w c tenant token surface g s)) = ?u" by (auto simp: guess_def state_of_def)
  show "wrong_code w c token other ?t = wrong_code w c token other (email_login_challenges (live (guess w c tenant token surface g s)))"
    unfolding u wrong_code_map by (subst map_amend) simp_all
  show "tried c tenant surface token m (min (Suc n) (ls_max_attempts (co_email_login c)))
      (email_login_challenges (live (guess w c tenant token surface g s)))"
    unfolding u tried_def
  proof (intro ballI impI)
    fix q
    assume "q \<in> set ?u" and l: "live_challenge c tenant surface token m q"
    then obtain x where x: "x \<in> set ?t" "q = (if ?p x then x\<lparr>el_attempts := el_attempts x + 1\<rparr> else x)" by (auto simp: set_amend)
    have lx: "live_challenge c tenant surface token m x" using l x(2) by (auto simp: live_challenge_def split: if_splits)
    then have "n \<le> el_attempts x" using assms(4) x(1) by (simp add: tried_def)
    moreover have "?p x" using lx assms(2,3) x(1) by (auto simp: live_challenge_def wrong_code_def)
    ultimately show "min (Suc n) (ls_max_attempts (co_email_login c)) \<le> el_attempts q" using x(2) by simp
  qed
qed

lemma many_guesses:
  assumes "available (co_email_login c) surface"
    and "\<forall>g\<in>set guesses. wrong_code w c token (fst g) (email_login_challenges (live s)) \<and> instant (snd g) \<le> instant m"
    and "tried c tenant surface token m n (email_login_challenges (live s))" and "n \<le> ls_max_attempts (co_email_login c)"
  shows "tried c tenant surface token m (min (n + length guesses) (ls_max_attempts (co_email_login c)))
     (email_login_challenges (live (foldl (\<lambda>s g. guess w c tenant token surface g s) s guesses)))"
  using assms(2-)
proof (induction guesses arbitrary: s n)
  case Nil
  then show ?case by simp
next
  case (Cons g guesses)
  let ?max = "ls_max_attempts (co_email_login c)"
  have g: "wrong_code w c token (fst g) (email_login_challenges (live s))" "instant (snd g) \<le> instant m" using Cons.prems(1) by simp_all
  note step = one_guess [OF assms(1) g Cons.prems(2)]
  have "\<forall>g'\<in>set guesses. wrong_code w c token (fst g') (email_login_challenges (live (guess w c tenant token surface g s)))
      \<and> instant (snd g') \<le> instant m" using Cons.prems(1) step(1) by auto
  note Cons.IH [OF this step(2) min.cobounded2]
  moreover have "min (min (Suc n) ?max + length guesses) ?max = min (n + length (g # guesses)) ?max" by auto
  ultimately show ?case by (simp only: foldl_Cons)
qed

text \<open>
  C36: A code cannot be guessed. Once as many wrong codes as the configuration allows were tried on a letter, by anybody and
  in any order, no code signs anybody in with it any more, the right one included.
\<close>
theorem code_cannot_be_guessed:
  assumes "available (co_email_login c) surface"
    and "\<forall>g\<in>set guesses. wrong_code w c token (fst g) (email_login_challenges (live s)) \<and> instant (snd g) \<le> instant m"
    and "ls_max_attempts (co_email_login c) \<le> length guesses"
  shows "value_of (confirm_code w c tenant token code surface account_token)
     ((foldl (\<lambda>s g. guess w c tenant token surface g s) s guesses)\<lparr>clock := m\<rparr>)
     = Err (ValidationError ''error.sign-in-code-invalid'' ''code'')"
proof -
  let ?s = "(foldl (\<lambda>s g. guess w c tenant token surface g s) s guesses)\<lparr>clock := m\<rparr>"
  have "tried c tenant surface token m 0 (email_login_challenges (live s))" by (simp add: tried_def)
  note many_guesses [OF assms(1,2) this le0]
  moreover have "min (0 + length guesses) (ls_max_attempts (co_email_login c)) = ls_max_attempts (co_email_login c)" using assms(3) by simp
  ultimately have "tried c tenant surface token m (ls_max_attempts (co_email_login c)) (email_login_challenges (live ?s))" by simp
  then have "\<forall>q\<in>set (email_login_challenges (live ?s)). \<not> (live_challenge c tenant surface token (clock ?s) q
      \<and> el_code_digest q = digest w c ''email-login-code'' (token @ '':'' @ code))"
    by (auto simp: tried_def live_challenge_def)
  from refused_code [OF assms(1) this, of account_token] show ?thesis by (auto simp: value_of_def)
qed

section \<open>A ticket opens once\<close>

lemma signed_in_tickets: "effect (leaves login_tickets) (signed_in user surface tenant)"
  unfolding signed_in_def ensure_access_def ensure_scope_def get_user_def
  by (intro leaves_steps leaves_alter) simp

text \<open>
  C35: A ticket is redeemed once: where it signed somebody in, it was this brand's, in the browser it was handed to and in
  time, and from then on the same token is refused everywhere.
\<close>
theorem ticket_opens_once:
  assumes "unique_on ticket_key (login_tickets (live s))"
    and "redeem w c tenant token browser s = (Ok v, t)"
  shows "(\<exists>r\<in>set (login_tickets (live s)). opens_ticket w c tenant token browser (clock s) r)
     \<and> value_of (redeem w c other_tenant token other_browser) (t\<lparr>clock := later\<rparr>)
         = Err (AuthenticationError ''error.social-attempt-invalid'')"
proof -
  let ?digest = "digest w c ''login-ticket'' token"
  let ?p = "opens_ticket w c tenant token browser (clock s)"
  let ?f = "\<lambda>r. r\<lparr>lt_consumed_at := Some (clock s)\<rparr>"
  let ?t = "amend ?p ?f (login_tickets (live s))"
  let ?s = "s\<lparr>live := login_tickets_update (\<lambda>_. ?t) (live s), kept := login_tickets_update (\<lambda>_. ?t) (live s)\<rparr>"
  obtain ticket where f: "List.find (\<lambda>r. lt_token_digest r = ?digest) (login_tickets (live s)) = Some ticket"
    using assms(2) by (auto simp: redeem_def split: option.splits)
  have h: "hits ?p (login_tickets (live s)) = 1"
    using assms(2) f by (auto simp: redeem_def alter_def free_keys_def Let_def andThen_def split: if_splits)
  then have "filter ?p (login_tickets (live s)) \<noteq> []" by (auto simp: hits_def)
  then obtain r where r: "r \<in> set (login_tickets (live s))" "?p r" by (auto simp: filter_empty_conv)
  let ?user = "fetch (lt_user ticket) (users (live s))"
  have e: "map_option us_session_epoch ?user = Some (lt_session_epoch ticket)"
    using assms(2) f h by (auto simp: redeem_def alter_def free_keys_def Let_def andThen_def split: if_splits)
  have run: "redeem w c tenant token browser s = signed_in ?user authentication_surface.ADMIN tenant ?s"
    using f h e by (auto simp: redeem_def alter_def free_keys_def Let_def andThen_def)
  have lt: "login_tickets (live t) = ?t"
    using effectD [OF signed_in_tickets] assms(2) [unfolded run] by (fastforce simp: leaves_def)
  have spent: "lt_consumed_at q \<noteq> None" if "q \<in> set ?t" "lt_token_digest q = ?digest" for q
  proof -
    from that(1) obtain x where x: "x \<in> set (login_tickets (live s))" "q = (if ?p x then ?f x else x)" by (auto simp: set_amend)
    have "x = r" using unique_onD [OF assms(1) x(1) r(1)] that(2) x(2) r(2)
      by (auto simp: ticket_key_def opens_ticket_def split: if_splits)
    with x(2) r(2) show ?thesis by simp
  qed
  have h0: "hits (opens_ticket w c other_tenant token other_browser later) ?t = 0"
    using spent by (auto simp: hits_def filter_empty_conv opens_ticket_def)
  have "value_of (redeem w c other_tenant token other_browser) (t\<lparr>clock := later\<rparr>) = Err (AuthenticationError ''error.social-attempt-invalid'')"
    by (simp add: value_of_def redeem_def lt alter_def free_keys_def Let_def andThen_def h0 split: option.splits)
  with r show ?thesis by blast
qed

section \<open>On the sample account\<close>

text \<open>A keyed digest that is its own input.\<close>

definition sample_signer :: outside where
  "sample_signer = \<lparr>o_loads = (\<lambda>_. None), o_dumps = (\<lambda>_. ''''), o_form = (\<lambda>_. []), o_decode = (\<lambda>b. b), o_repr = (\<lambda>_. ''''),
     o_iso = (\<lambda>_. None), o_decimal = (\<lambda>_. Err ValueError), o_hmac = (\<lambda>_ t. t), o_digest = (\<lambda>_. '''')\<rparr>"

definition sample_challenge :: email_login_challenge_row where
  "sample_challenge = \<lparr>rid = 1, el_tenant = Some 1, el_scope_key = ''scope'', el_surface = SITE, el_email = ''reader@example.com'',
     el_token = ''letter'', el_code_digest = ''email-login-code.letter:123456'', el_attempts = 0, el_expires_at = on_day 2024 3 6,
     el_resend_at = on_day 2024 3 5, el_consumed_at = None\<rparr>"

definition sample_ticket :: login_ticket_row where
  "sample_ticket = \<lparr>rid = 1, lt_tenant = Some 1, lt_user = 1, lt_session_epoch = 0, lt_token_digest = ''login-ticket.ticket'',
     lt_browser_digest = ''login-browser.browser'', lt_expires_at = on_day 2024 3 6, lt_consumed_at = None\<rparr>"

definition sample_entering :: session where
  "sample_entering = opened_at (on_day 2024 3 5) (sample_db\<lparr>users := [sample_user\<lparr>us_role := EDITOR\<rparr>],
     email_login_challenges := [sample_challenge], login_tickets := [sample_ticket]\<rparr>)"

lemma code_cannot_be_guessed_witness:
  "value_of (confirm_code sample_signer sample_config (Some 1) ''letter'' ''123456'' SITE ''fresh'')
     ((foldl (\<lambda>s g. guess sample_signer sample_config (Some 1) ''letter'' SITE g s) sample_entering
        (replicate 5 (''000000'', on_day 2024 3 5)))\<lparr>clock := on_day 2024 3 5\<rparr>)
     = Err (ValidationError ''error.sign-in-code-invalid'' ''code'')"
proof (rule code_cannot_be_guessed)
  show "available (co_email_login sample_config) SITE" by (simp add: available_def sample_config_def)
  show "\<forall>g\<in>set (replicate 5 (''000000'', on_day 2024 3 5)).
      wrong_code sample_signer sample_config ''letter'' (fst g) (email_login_challenges (live sample_entering))
      \<and> instant (snd g) \<le> instant (on_day 2024 3 5)"
    by (simp add: wrong_code_def sample_entering_def opened_at_def sample_challenge_def digest_def sample_signer_def)
  show "ls_max_attempts (co_email_login sample_config) \<le> length (replicate 5 (''000000'', on_day 2024 3 5))"
    by (simp add: sample_config_def)
qed

lemma ticket_opens_once_witness:
  "\<exists>v t. redeem sample_signer sample_config (Some 1) ''ticket'' ''browser'' sample_entering = (Ok v, t)
     \<and> value_of (redeem sample_signer sample_config (Some 1) ''ticket'' ''browser'') (t\<lparr>clock := on_day 2024 3 5\<rparr>)
         = Err (AuthenticationError ''error.social-attempt-invalid'')"
proof -
  have u: "unique_on ticket_key (login_tickets (live sample_entering))"
    by (simp add: sample_entering_def opened_at_def free_of_def ticket_key_def)
  have "instant (on_day 2024 3 5) < instant (on_day 2024 3 6)" by code_simp
  then have "\<exists>v t. redeem sample_signer sample_config (Some 1) ''ticket'' ''browser'' sample_entering = (Ok v, t)"
    by (simp add: redeem_def sample_entering_def opened_at_def sample_ticket_def opens_ticket_def digest_def sample_signer_def
      alter_def free_keys_def Let_def hits_def amend_def andThen_def sample_user_def fetch_def signed_in_def ensure_access_def
      ensure_scope_def in_scope_def belongs_to_tenant_def named_def get_user_def PANEL_ROLES_def)
  then obtain v t where "redeem sample_signer sample_config (Some 1) ''ticket'' ''browser'' sample_entering = (Ok v, t)" by blast
  with ticket_opens_once [OF u this] show ?thesis by blast
qed

end
