(* ===== verification/Providers.thy ===== *)
theory Providers
  imports Accounts
begin

text \<open>
  Who a social provider says somebody is: the classes of \<^verbatim>\<open>services/*_login_provider.py\<close> and the strict reading of what they answer
  (\<^verbatim>\<open>helpers/o_auth_login_helper.py\<close>). The OAuth client, the documents it is answered, the signatures of the tokens and the grammar of
  an address are a \<open>web\<close>, which every operation that leaves the process takes.
\<close>

section \<open>What lies outside\<close>

text \<open>An answer is its status and its document, where there is one; \<open>HTTPError\<close> is an answer that never came.\<close>

record reply =
  ry_status :: nat
  ry_document :: "json option"

type_synonym document = "(string \<times> json) list"

record client_options =
  op_client_id :: string
  op_client_secret :: string
  op_scope :: string
  op_redirect_uri :: string
  op_code_challenge_method :: "string option"
  op_token_endpoint_auth_method :: string
  op_timeout :: nat
  op_follow_redirects :: bool

text \<open>
  The client of authlib: the address it sends a browser to, the token it exchanges a code for once the hook the application
  registered has read the answer, and the plain requests, made
  with a token or with none.
\<close>

record client =
  cl_authorization_url :: "string \<Rightarrow> string \<Rightarrow> string option \<Rightarrow> (string \<times> string) list \<Rightarrow> string"
  cl_fetch_token :: "(reply \<Rightarrow> reply outcome) \<Rightarrow> string \<Rightarrow> string \<Rightarrow> string option \<Rightarrow> document outcome"
  cl_get :: "document option \<Rightarrow> string \<Rightarrow> (string \<times> string) list \<Rightarrow> reply outcome"
  cl_post :: "document option \<Rightarrow> string \<Rightarrow> (string \<times> string) list \<Rightarrow> reply outcome"

text \<open>What the library checks the claims of an identity token against.\<close>

record id_token_options =
  io_issuers :: "string list"
  io_client_id :: string
  io_nonce :: string
  io_access_token :: json
  io_leeway :: nat

record web =
  wb_outside :: outside
  wb_client :: "client_options \<Rightarrow> client"
  wb_email :: "json \<Rightarrow> string option"
  wb_decode :: "document \<Rightarrow> string \<Rightarrow> (document \<times> document) option"
  wb_validate :: "id_token_options \<Rightarrow> document \<times> document \<Rightarrow> unit outcome"
  wb_sign :: "document \<Rightarrow> string \<Rightarrow> string \<Rightarrow> string"
  wb_decrypt :: "string \<Rightarrow> string option"
  wb_encrypt :: "string \<Rightarrow> string"

record social_profile =
  sp_subject :: string
  sp_email :: "string option"

abbreviation "invalid_response \<equiv> Err (AuthenticationError ''error.social-response-invalid'')"

section \<open>Reading an answer strictly\<close>

definition code_verifier :: "web \<Rightarrow> string \<Rightarrow> string outcome" where
  "code_verifier w encrypted =
     (case wb_decrypt w encrypted of None \<Rightarrow> Err (AuthenticationError ''error.social-attempt-invalid'') | Some v \<Rightarrow> Ok v)"

definition raise_for_status :: "reply \<Rightarrow> unit outcome" where
  "raise_for_status r = (if 200 \<le> ry_status r \<and> ry_status r < 300 then Ok () else Err (HTTPStatusError (ry_status r)))"

definition json_of :: "reply \<Rightarrow> json outcome" where
  "json_of r = (case ry_document r of None \<Rightarrow> Err ValueError | Some v \<Rightarrow> Ok v)"

fun nonempty_text :: "json \<Rightarrow> bool" where
  "nonempty_text (JText t) = (t \<noteq> '''')"
| "nonempty_text _ = False"

fun is_bearer :: "json \<Rightarrow> bool" where
  "is_bearer (JText t) = (lower t = ''bearer'')"
| "is_bearer _ = False"

definition token_response :: "reply \<Rightarrow> reply outcome" where
  "token_response response =
     bind (raise_for_status response) (\<lambda>_.
     bind (json_of response) (\<lambda>payload. case payload of
       JMap d \<Rightarrow>
         if map_of d ''error'' \<noteq> None then (if nonempty_text (entry d ''error'') then Ok response else invalid_response)
         else if \<not> nonempty_text (entry d ''access_token'') \<or> \<not> is_bearer (entry d ''token_type'') then invalid_response
         else Ok response
     | _ \<Rightarrow> invalid_response))"

definition read_document :: "client \<Rightarrow> document option \<Rightarrow> string \<Rightarrow> (string \<times> string) list \<Rightarrow> document outcome" where
  "read_document cl token url params =
     bind (cl_get cl token url params) (\<lambda>response.
     bind (raise_for_status response) (\<lambda>_.
     bind (json_of response) (\<lambda>payload. case payload of JMap d \<Rightarrow> Ok d | _ \<Rightarrow> invalid_response)))"

text \<open>The name a provider keeps somebody under: a text or a whole number, and a flag is neither.\<close>

fun subject_text :: "json \<Rightarrow> string option" where
  "subject_text (JText t) = Some t"
| "subject_text (JInt i) = Some (signed_decimal i)"
| "subject_text _ = None"

definition subject :: "document \<Rightarrow> string \<Rightarrow> string outcome" where
  "subject payload field =
     (case subject_text (entry payload field) of
        None \<Rightarrow> invalid_response
      | Some t \<Rightarrow> if strip t = '''' \<or> 255 < length t then invalid_response else Ok t)"

definition verified_email :: "web \<Rightarrow> document \<Rightarrow> string option outcome" where
  "verified_email w payload =
     (if entry payload ''email_verified'' \<noteq> JBool True \<or> \<not> truthy (entry payload ''email'') then Ok None
      else case wb_email w (entry payload ''email'') of
        None \<Rightarrow> invalid_response
      | Some address \<Rightarrow> Ok (Some (lower address)))"

definition validate_claims :: "web \<Rightarrow> string \<Rightarrow> document \<Rightarrow> string list \<Rightarrow> string \<Rightarrow> string \<Rightarrow> json \<Rightarrow> document outcome" where
  "validate_claims w encoded keys issuers client_id nonce access_token =
     (case wb_decode w keys encoded of
        None \<Rightarrow> invalid_response
      | Some decoded \<Rightarrow>
          bind (wb_validate w \<lparr>io_issuers = issuers, io_client_id = client_id, io_nonce = nonce, io_access_token = access_token,
            io_leeway = 30\<rparr> decoded) (\<lambda>_. Ok (fst decoded)))"

section \<open>A provider\<close>

text \<open>
  What every provider declares and does. The templates of its addresses are filled in from the configuration, and a client secret is
  read at a moment, because Apple's is a token of its own that expires.
\<close>

record login_provider =
  lp_label :: string
  lp_authorization_url :: "social_login_settings \<Rightarrow> string"
  lp_scope :: string
  lp_pkce :: bool
  lp_client_secret :: "web \<Rightarrow> datetime \<Rightarrow> social_login_settings \<Rightarrow> string"
  lp_authorization_parameters :: "social_login_attempt_row \<Rightarrow> (string \<times> string) list"
  lp_exchange :: "web \<Rightarrow> client \<Rightarrow> social_login_settings \<Rightarrow> social_login_attempt_row \<Rightarrow> string \<Rightarrow> document outcome"
  lp_identify :: "web \<Rightarrow> client \<Rightarrow> social_login_settings \<Rightarrow> social_login_attempt_row \<Rightarrow> document \<Rightarrow> social_profile outcome"

definition open_client :: "web \<Rightarrow> login_provider \<Rightarrow> datetime \<Rightarrow> social_login_settings \<Rightarrow> social_login_attempt_row \<Rightarrow> client" where
  "open_client w p moment configuration att =
     wb_client w \<lparr>op_client_id = sg_client_id configuration, op_client_secret = lp_client_secret p w moment configuration,
       op_scope = lp_scope p, op_redirect_uri = sl_redirect_uri att,
       op_code_challenge_method = (if lp_pkce p then Some ''S256'' else None),
       op_token_endpoint_auth_method = ''client_secret_post'', op_timeout = 10, op_follow_redirects = False\<rparr>"

definition declared_secret :: "web \<Rightarrow> datetime \<Rightarrow> social_login_settings \<Rightarrow> string" where
  "declared_secret w moment configuration = sg_client_secret configuration"

definition proof_of :: "web \<Rightarrow> bool \<Rightarrow> social_login_attempt_row \<Rightarrow> string option outcome" where
  "proof_of w pkce att = (if pkce then bind (code_verifier w (sl_verifier_encrypted att)) (\<lambda>v. Ok (Some v)) else Ok None)"

definition authorization :: "web \<Rightarrow> login_provider \<Rightarrow> datetime \<Rightarrow> social_login_settings \<Rightarrow> social_login_attempt_row \<Rightarrow> string \<Rightarrow> string outcome" where
  "authorization w p moment configuration att state =
     bind (proof_of w (lp_pkce p) att) (\<lambda>verifier.
     Ok (cl_authorization_url (open_client w p moment configuration att) (lp_authorization_url p configuration) state verifier
       (lp_authorization_parameters p att)))"

definition exchange :: "bool \<Rightarrow> (social_login_settings \<Rightarrow> string) \<Rightarrow> web \<Rightarrow> client \<Rightarrow> social_login_settings \<Rightarrow> social_login_attempt_row \<Rightarrow> string
    \<Rightarrow> document outcome" where
  "exchange pkce token_url w cl configuration att code =
     bind (proof_of w pkce att) (\<lambda>verifier. cl_fetch_token cl token_response (token_url configuration) code verifier)"

section \<open>OpenID Connect\<close>

record oidc =
  oi_jwks_url :: string
  oi_userinfo_url :: "string option"
  oi_alternate_issuers :: "string list"
  oi_issuer :: "social_login_settings \<Rightarrow> string"
  oi_verified_email :: "web \<Rightarrow> document \<Rightarrow> string option outcome"

definition nonce_parameter :: "social_login_attempt_row \<Rightarrow> (string \<times> string) list" where
  "nonce_parameter att = [(''nonce'', sl_nonce att)]"

definition identify_oidc :: "oidc \<Rightarrow> web \<Rightarrow> client \<Rightarrow> social_login_settings \<Rightarrow> social_login_attempt_row \<Rightarrow> document \<Rightarrow> social_profile outcome" where
  "identify_oidc p w cl configuration att token =
     (case entry token ''id_token'' of
        JText encoded \<Rightarrow>
          bind (read_document cl None (oi_jwks_url p) []) (\<lambda>keys.
          bind (case map_of token ''access_token'' of None \<Rightarrow> Err KeyError | Some v \<Rightarrow> Ok v) (\<lambda>access_token.
          bind (validate_claims w encoded keys (oi_issuer p configuration # oi_alternate_issuers p) (sg_client_id configuration)
            (sl_nonce att) access_token) (\<lambda>claims.
          bind (subject claims ''sub'') (\<lambda>sub. case oi_userinfo_url p of
            Some url \<Rightarrow>
              bind (read_document cl (Some token) url []) (\<lambda>information.
              bind (subject information ''sub'') (\<lambda>again.
              if again \<noteq> sub then invalid_response
              else bind (oi_verified_email p w information) (\<lambda>email. Ok \<lparr>sp_subject = sub, sp_email = email\<rparr>)))
          | None \<Rightarrow> bind (oi_verified_email p w claims) (\<lambda>email. Ok \<lparr>sp_subject = sub, sp_email = email\<rparr>)))))
      | _ \<Rightarrow> invalid_response)"

definition google :: login_provider where
  "google = \<lparr>lp_label = ''Google'',
     lp_authorization_url = (\<lambda>_. ''https://accounts.google.com/o/oauth2/v2/auth''),
     lp_scope = ''openid email'', lp_pkce = True,
     lp_client_secret = declared_secret, lp_authorization_parameters = nonce_parameter,
     lp_exchange = exchange True (\<lambda>_. ''https://oauth2.googleapis.com/token''),
     lp_identify = identify_oidc \<lparr>oi_jwks_url = ''https://www.googleapis.com/oauth2/v3/certs'',
       oi_userinfo_url = Some ''https://openidconnect.googleapis.com/v1/userinfo'',
       oi_alternate_issuers = [''accounts.google.com''],
       oi_issuer = (\<lambda>_. ''https://accounts.google.com''), oi_verified_email = verified_email\<rparr>\<rparr>"

definition linked_in :: login_provider where
  "linked_in = \<lparr>lp_label = ''LinkedIn'',
     lp_authorization_url = (\<lambda>_. ''https://www.linkedin.com/oauth/v2/authorization''),
     lp_scope = ''openid profile email'', lp_pkce = False,
     lp_client_secret = declared_secret, lp_authorization_parameters = nonce_parameter,
     lp_exchange = exchange False (\<lambda>_. ''https://www.linkedin.com/oauth/v2/accessToken''),
     lp_identify = identify_oidc \<lparr>oi_jwks_url = ''https://www.linkedin.com/oauth/openid/jwks'',
       oi_userinfo_url = Some ''https://api.linkedin.com/v2/userinfo'', oi_alternate_issuers = [],
       oi_issuer = (\<lambda>_. ''https://www.linkedin.com/oauth''), oi_verified_email = verified_email\<rparr>\<rparr>"

definition discord :: login_provider where
  "discord = \<lparr>lp_label = ''Discord'',
     lp_authorization_url = (\<lambda>_. ''https://discord.com/api/oauth2/authorize''),
     lp_scope = ''openid identify email'', lp_pkce = True,
     lp_client_secret = declared_secret, lp_authorization_parameters = nonce_parameter,
     lp_exchange = exchange True (\<lambda>_. ''https://discord.com/api/oauth2/token''),
     lp_identify = identify_oidc \<lparr>oi_jwks_url = ''https://discord.com/api/oauth2/keys'',
       oi_userinfo_url = Some ''https://discord.com/api/oauth2/userinfo'', oi_alternate_issuers = [],
       oi_issuer = (\<lambda>_. ''https://discord.com''), oi_verified_email = verified_email\<rparr>\<rparr>"

text \<open>An address of Microsoft is whatever the tenant it comes from says, so it never names anybody.\<close>

definition microsoft_issuer :: "social_login_settings \<Rightarrow> string" where
  "microsoft_issuer configuration =
     (let tenant = (if sg_microsoft_tenant configuration = ''consumers'' then ''9188040d-6c67-4c5b-b112-36a304b66dad''
        else sg_microsoft_tenant configuration)
      in ''https://login.microsoftonline.com/'' @ lower tenant @ ''/v2.0'')"

definition microsoft_url :: "string \<Rightarrow> social_login_settings \<Rightarrow> string" where
  "microsoft_url path configuration = ''https://login.microsoftonline.com/'' @ sg_microsoft_tenant configuration @ path"

definition microsoft :: login_provider where
  "microsoft = \<lparr>lp_label = ''Microsoft'',
     lp_authorization_url = microsoft_url ''/oauth2/v2.0/authorize'',
     lp_scope = ''openid email profile'', lp_pkce = True,
     lp_client_secret = declared_secret, lp_authorization_parameters = nonce_parameter,
     lp_exchange = exchange True (microsoft_url ''/oauth2/v2.0/token''),
     lp_identify = identify_oidc \<lparr>oi_jwks_url = ''https://login.microsoftonline.com/common/discovery/v2.0/keys'',
       oi_userinfo_url = Some ''https://graph.microsoft.com/oidc/userinfo'', oi_alternate_issuers = [],
       oi_issuer = microsoft_issuer, oi_verified_email = (\<lambda>_ _. Ok None)\<rparr>\<rparr>"

text \<open>Apple is asked with a token signed for five minutes, answers with a form, and says a flag as a text.\<close>

definition apple_secret :: "web \<Rightarrow> datetime \<Rightarrow> social_login_settings \<Rightarrow> string" where
  "apple_secret w moment configuration =
     (let stamp = micros_of moment div 1000000
      in wb_sign w [(''iss'', JText (sg_team_id configuration)), (''sub'', JText (sg_client_id configuration)),
           (''aud'', JText ''https://appleid.apple.com''), (''iat'', JInt stamp), (''exp'', JInt (stamp + 300))]
           (sg_private_key configuration) (sg_key_id configuration))"

definition apple_email :: "web \<Rightarrow> document \<Rightarrow> string option outcome" where
  "apple_email w claims =
     (let verified = entry claims ''email_verified''
      in verified_email w ((''email_verified'', JBool (verified = JBool True \<or> verified = JText ''true'')) # claims))"

definition apple :: login_provider where
  "apple = \<lparr>lp_label = ''Apple'',
     lp_authorization_url = (\<lambda>_. ''https://appleid.apple.com/auth/authorize''),
     lp_scope = ''openid email'', lp_pkce = False,
     lp_client_secret = apple_secret,
     lp_authorization_parameters = (\<lambda>att. nonce_parameter att @ [(''response_mode'', ''form_post'')]),
     lp_exchange = exchange False (\<lambda>_. ''https://appleid.apple.com/auth/token''),
     lp_identify = identify_oidc \<lparr>oi_jwks_url = ''https://appleid.apple.com/auth/keys'', oi_userinfo_url = None, oi_alternate_issuers = [],
       oi_issuer = (\<lambda>_. ''https://appleid.apple.com''), oi_verified_email = apple_email\<rparr>\<rparr>"

section \<open>The others\<close>

definition text_at :: "document \<Rightarrow> string \<Rightarrow> string outcome" where
  "text_at d name = (case map_of d name of None \<Rightarrow> Err KeyError | Some (JText t) \<Rightarrow> Ok t | Some _ \<Rightarrow> Err AttributeError)"

definition identify_facebook :: "web \<Rightarrow> client \<Rightarrow> social_login_settings \<Rightarrow> social_login_attempt_row \<Rightarrow> document \<Rightarrow> social_profile outcome" where
  "identify_facebook w cl configuration att token =
     bind (text_at token ''access_token'') (\<lambda>access_token.
     bind (read_document cl (Some token) (''https://graph.facebook.com/'' @ sg_facebook_api_version configuration @ ''/me'')
       [(''fields'', ''id''), (''appsecret_proof'', o_hmac (wb_outside w) (sg_client_secret configuration) access_token)]) (\<lambda>profile.
     bind (subject profile ''id'') (\<lambda>sub. Ok \<lparr>sp_subject = sub, sp_email = None\<rparr>)))"

definition facebook :: login_provider where
  "facebook = \<lparr>lp_label = ''Facebook'',
     lp_authorization_url = (\<lambda>configuration. ''https://www.facebook.com/'' @ sg_facebook_api_version configuration @ ''/dialog/oauth''),
     lp_scope = ''public_profile'', lp_pkce = False,
     lp_client_secret = declared_secret, lp_authorization_parameters = (\<lambda>_. []),
     lp_exchange = exchange False (\<lambda>configuration. ''https://graph.facebook.com/'' @ sg_facebook_api_version configuration @ ''/oauth/access_token''),
     lp_identify = identify_facebook\<rparr>"

fun primary_verified :: "json \<Rightarrow> bool" where
  "primary_verified (JMap d) = (entry d ''primary'' = JBool True \<and> entry d ''verified'' = JBool True)"
| "primary_verified _ = False"

definition identify_git_hub :: "web \<Rightarrow> client \<Rightarrow> social_login_settings \<Rightarrow> social_login_attempt_row \<Rightarrow> document \<Rightarrow> social_profile outcome" where
  "identify_git_hub w cl configuration att token =
     bind (read_document cl (Some token) ''https://api.github.com/user'' []) (\<lambda>profile.
     bind (subject profile ''id'') (\<lambda>sub.
     bind (cl_get cl (Some token) ''https://api.github.com/user/emails'' []) (\<lambda>response.
     bind (raise_for_status response) (\<lambda>_.
     bind (json_of response) (\<lambda>addresses. case addresses of
       JList l \<Rightarrow>
         if list_ex (\<lambda>v. \<not> is_map v) l then invalid_response
         else (case List.find primary_verified l of
             None \<Rightarrow> Ok \<lparr>sp_subject = sub, sp_email = None\<rparr>
           | Some address \<Rightarrow>
               bind (get address ''email'') (\<lambda>v.
               bind (verified_email w [(''email'', v), (''email_verified'', JBool True)]) (\<lambda>email.
               Ok \<lparr>sp_subject = sub, sp_email = email\<rparr>)))
     | _ \<Rightarrow> invalid_response)))))"

definition git_hub :: login_provider where
  "git_hub = \<lparr>lp_label = ''GitHub'',
     lp_authorization_url = (\<lambda>_. ''https://github.com/login/oauth/authorize''),
     lp_scope = ''user:email'', lp_pkce = True,
     lp_client_secret = declared_secret, lp_authorization_parameters = (\<lambda>_. []),
     lp_exchange = exchange True (\<lambda>_. ''https://github.com/login/oauth/access_token''),
     lp_identify = identify_git_hub\<rparr>"

definition exchange_instagram :: "web \<Rightarrow> client \<Rightarrow> social_login_settings \<Rightarrow> social_login_attempt_row \<Rightarrow> string \<Rightarrow> document outcome" where
  "exchange_instagram w cl configuration att code =
     bind (cl_post cl None ''https://api.instagram.com/oauth/access_token''
       [(''client_id'', sg_client_id configuration), (''client_secret'', sg_client_secret configuration),
        (''grant_type'', ''authorization_code''), (''redirect_uri'', sl_redirect_uri att), (''code'', code)]) (\<lambda>response.
     bind (raise_for_status response) (\<lambda>_.
     bind (json_of response) (\<lambda>payload.
     case (case payload of JMap d \<Rightarrow> entry d ''data'' | _ \<Rightarrow> JNull) of
       JList [JMap identity] \<Rightarrow>
         if \<not> nonempty_text (entry identity ''access_token'') then invalid_response
         else bind (subject identity ''user_id'') (\<lambda>sub.
           Ok [(''access_token'', entry identity ''access_token''), (''token_type'', JText ''Bearer''), (''subject'', JText sub)])
     | _ \<Rightarrow> invalid_response)))"

definition identify_instagram :: "web \<Rightarrow> client \<Rightarrow> social_login_settings \<Rightarrow> social_login_attempt_row \<Rightarrow> document \<Rightarrow> social_profile outcome" where
  "identify_instagram w cl configuration att token =
     bind (read_document cl (Some token) (''https://graph.instagram.com/'' @ sg_facebook_api_version configuration @ ''/me'')
       [(''fields'', ''user_id,username'')]) (\<lambda>profile.
     bind (subject profile ''user_id'') (\<lambda>sub.
     case map_of token ''subject'' of
       None \<Rightarrow> Err KeyError
     | Some v \<Rightarrow> if JText sub \<noteq> v then invalid_response else Ok \<lparr>sp_subject = sub, sp_email = None\<rparr>))"

definition instagram :: login_provider where
  "instagram = \<lparr>lp_label = ''Instagram'',
     lp_authorization_url = (\<lambda>_. ''https://www.instagram.com/oauth/authorize''),
     lp_scope = ''instagram_business_basic'', lp_pkce = False,
     lp_client_secret = declared_secret,
     lp_authorization_parameters = (\<lambda>_. [(''enable_fb_login'', ''false''), (''force_reauth'', ''true'')]),
     lp_exchange = exchange_instagram, lp_identify = identify_instagram\<rparr>"

fun PROVIDERS :: "social_provider \<Rightarrow> login_provider" where
  "PROVIDERS GOOGLE = google"
| "PROVIDERS APPLE = apple"
| "PROVIDERS FACEBOOK = facebook"
| "PROVIDERS INSTAGRAM = instagram"
| "PROVIDERS GITHUB = git_hub"
| "PROVIDERS LINKEDIN = linked_in"
| "PROVIDERS MICROSOFT = microsoft"
| "PROVIDERS DISCORD = discord"

section \<open>What an identity rests on\<close>

lemma bind_Ok: "bind r k = Ok y \<longleftrightarrow> (\<exists>x. r = Ok x \<and> k x = Ok y)"
  by (cases r) simp_all

text \<open>
  Whoever an OpenID provider names was named by a token its own keys open, checked for this client and for the nonce of this very attempt;
  and where it answers for somebody itself, it answers for the same name.
\<close>

lemma identify_oidc_proved:
  assumes "identify_oidc p w cl configuration att token = Ok profile"
  shows "\<exists>encoded keys decoded access_token. entry token ''id_token'' = JText encoded \<and> map_of token ''access_token'' = Some access_token
    \<and> read_document cl None (oi_jwks_url p) [] = Ok keys \<and> wb_decode w keys encoded = Some decoded
    \<and> wb_validate w \<lparr>io_issuers = oi_issuer p configuration # oi_alternate_issuers p, io_client_id = sg_client_id configuration,
        io_nonce = sl_nonce att, io_access_token = access_token, io_leeway = 30\<rparr> decoded = Ok ()
    \<and> subject (fst decoded) ''sub'' = Ok (sp_subject profile)
    \<and> (case oi_userinfo_url p of
        None \<Rightarrow> oi_verified_email p w (fst decoded) = Ok (sp_email profile)
      | Some url \<Rightarrow> \<exists>information. read_document cl (Some token) url [] = Ok information \<and> subject information ''sub'' = Ok (sp_subject profile)
          \<and> oi_verified_email p w information = Ok (sp_email profile))"
  using assms unfolding identify_oidc_def validate_claims_def
  by (cases "oi_userinfo_url p") (fastforce simp: bind_Ok split: json.splits option.splits if_splits)+

text \<open>An address is taken only from who says it was verified, and in the case it is stored in.\<close>

lemma verified_email_Some:
  assumes "verified_email w d = Ok (Some e)"
  shows "entry d ''email_verified'' = JBool True \<and> (\<exists>address. wb_email w (entry d ''email'') = Some address \<and> e = lower address)"
  using assms by (auto simp: verified_email_def split: if_splits option.splits)

lemma apple_email_Some:
  assumes "apple_email w d = Ok (Some e)"
  shows "entry d ''email_verified'' \<in> {JBool True, JText ''true''} \<and> (\<exists>address. wb_email w (entry d ''email'') = Some address \<and> e = lower address)"
  using verified_email_Some [OF assms [unfolded apple_email_def Let_def]] by (auto simp: entry_def)

text \<open>Three of the providers prove no address, so nobody is ever told apart by the one they carry.\<close>

lemma addresses_proved_by:
  assumes "lp_identify (PROVIDERS provider) w cl configuration att token = Ok profile" and "sp_email profile = Some e"
  shows "provider \<notin> {FACEBOOK, INSTAGRAM, MICROSOFT}"
  using assms by (cases provider) (auto simp: facebook_def identify_facebook_def instagram_def identify_instagram_def microsoft_def
      identify_oidc_def bind_Ok split: json.splits option.splits if_splits)

end
