(* ===== verification/Social.thy ===== *)
theory Social
  imports Ways_In Providers
begin

text \<open>
  Entering by a social provider: \<^verbatim>\<open>services/social_login_service.py\<close> over the providers, with the screens of what an account is connected
  to (\<^verbatim>\<open>helpers/authentication_helper.py\<close>). What is drawn for an att is an argument of the call that opens it.
\<close>

section \<open>What is offered\<close>

definition offered_on :: "social_login_settings \<Rightarrow> authentication_surface \<Rightarrow> bool" where
  "offered_on configuration surface \<longleftrightarrow> sg_enabled configuration
     \<and> (case surface of SITE \<Rightarrow> sg_site configuration | authentication_surface.ADMIN \<Rightarrow> sg_admin configuration)"

definition require_social :: "config \<Rightarrow> social_provider \<Rightarrow> authentication_surface \<Rightarrow> social_login_settings service" where
  "require_social c provider surface =
     (case map_of (co_social c) provider of
        None \<Rightarrow> throw NotFoundError
      | Some configuration \<Rightarrow> if offered_on configuration surface then ret configuration else throw NotFoundError)"

text \<open>A screen lists a provider while it is offered or still connected, and what each row says of it.\<close>

definition social_order :: "social_provider list" where
  "social_order = [GOOGLE, APPLE, FACEBOOK, INSTAGRAM, GITHUB, LINKEDIN, MICROSOFT, DISCORD]"

record connection =
  cn_provider :: social_provider
  cn_label :: string
  cn_connected :: bool
  cn_enabled :: bool
  cn_created_at :: "datetime option"

definition connection_of :: "config \<Rightarrow> authentication_surface \<Rightarrow> social_identity_row list \<Rightarrow> social_provider \<Rightarrow> connection option" where
  "connection_of c surface identities provider =
     (let enabled = (case map_of (co_social c) provider of None \<Rightarrow> False | Some configuration \<Rightarrow> offered_on configuration surface);
          linked = List.find (\<lambda>i. si_provider i = provider) (rev identities)
      in if \<not> enabled \<and> linked = None then None
         else Some \<lparr>cn_provider = provider, cn_label = lp_label (PROVIDERS provider), cn_connected = (linked \<noteq> None),
           cn_enabled = enabled, cn_created_at = map_option si_created_at linked\<rparr>)"

definition connections_shown :: "config \<Rightarrow> authentication_surface \<Rightarrow> social_identity_row list \<Rightarrow> connection list" where
  "connections_shown c surface identities = List.map_filter (connection_of c surface identities) social_order"

definition methods :: "config \<Rightarrow> authentication_surface \<Rightarrow> bool \<times> (social_provider \<times> string) list" where
  "methods c surface =
     (available (co_email_login c) surface,
      map (\<lambda>(provider, configuration). (provider, lp_label (PROVIDERS provider)))
        (filter (\<lambda>(provider, configuration). offered_on configuration surface) (co_social c)))"

section \<open>An attempt\<close>

abbreviation "write_attempts \<equiv> alter social_login_attempts social_login_attempts_update free_keys"

record drawn_attempt =
  dr_state :: string
  dr_browser :: string
  dr_nonce :: string
  dr_verifier :: string

definition provider_name :: "social_provider \<Rightarrow> string" where
  "provider_name provider = (case provider of GOOGLE \<Rightarrow> ''google'' | APPLE \<Rightarrow> ''apple'' | FACEBOOK \<Rightarrow> ''facebook'' | INSTAGRAM \<Rightarrow> ''instagram''
     | GITHUB \<Rightarrow> ''github'' | LINKEDIN \<Rightarrow> ''linkedin'' | MICROSOFT \<Rightarrow> ''microsoft'' | DISCORD \<Rightarrow> ''discord'')"

definition ensure_starts :: "user_row option \<Rightarrow> nat option \<Rightarrow> authentication_surface \<Rightarrow> unit service" where
  "ensure_starts user tenant surface =
     (case user of None \<Rightarrow> ret ()
      | Some u \<Rightarrow> andThen (ensure_access (Some u) surface) (\<lambda>_. ensure_scope u tenant surface))"

text \<open>The attempt, the address the browser is sent to, and the two secrets only this answer carries.\<close>

definition start :: "web \<Rightarrow> config \<Rightarrow> brand \<Rightarrow> social_provider \<Rightarrow> authentication_surface \<Rightarrow> string \<Rightarrow> user_row option \<Rightarrow> drawn_attempt
    \<Rightarrow> (social_login_attempt_row \<times> string \<times> string \<times> string) service" where
  "start w c brand provider surface next_path user drawn =
     andThen (require_social c provider surface) (\<lambda>configuration.
     andThen (ensure_starts user (br_id brand) surface) (\<lambda>_.
     andThen now (\<lambda>moment.
     andThen (lift (later_by moment (int (co_social_ttl c)))) (\<lambda>until.
     let att = \<lparr>rid = 0, sl_tenant = br_id brand, sl_user = map_option rid user, sl_session_epoch = map_option us_session_epoch user,
           sl_surface = surface, sl_provider = provider, sl_state_digest = digest (wb_outside w) c ''social-state'' (dr_state drawn),
           sl_browser_digest = digest (wb_outside w) c ''login-browser'' (dr_browser drawn), sl_nonce = dr_nonce drawn,
           sl_verifier_encrypted = wb_encrypt w (dr_verifier drawn),
           sl_redirect_uri = address_on c (br_domain brand) (''/account/social/'' @ provider_name provider @ ''/callback''),
           sl_next_path = next_path, sl_expires_at = until, sl_consumed_at = None\<rparr>
     in
     andThen (lift (authorization w (PROVIDERS provider) moment configuration att (dr_state drawn))) (\<lambda>address.
     andThen (store social_login_attempts social_login_attempts_update (free_of attempt_key) att) (\<lambda>written.
     andThen commit (\<lambda>_. ret (written, address, dr_state drawn, dr_browser drawn))))))))"

definition opens_attempt :: "web \<Rightarrow> config \<Rightarrow> nat option \<Rightarrow> social_provider \<Rightarrow> string \<Rightarrow> string \<Rightarrow> datetime \<Rightarrow> social_login_attempt_row \<Rightarrow> bool" where
  "opens_attempt w c tenant provider state browser moment r \<longleftrightarrow>
     sl_tenant r = tenant \<and> sl_provider r = provider \<and> sl_state_digest r = digest (wb_outside w) c ''social-state'' state
     \<and> sl_browser_digest r = digest (wb_outside w) c ''login-browser'' browser \<and> sl_consumed_at r = None
     \<and> instant moment < instant (sl_expires_at r)"

definition consume :: "web \<Rightarrow> config \<Rightarrow> brand \<Rightarrow> social_provider \<Rightarrow> string \<Rightarrow> string \<Rightarrow> social_login_attempt_row service" where
  "consume w c brand provider state browser =
     andThen (query (\<lambda>d. List.find (\<lambda>r. sl_state_digest r = digest (wb_outside w) c ''social-state'' state) (social_login_attempts d))) (\<lambda>found.
     case found of
       None \<Rightarrow> throw (AuthenticationError ''error.social-attempt-invalid'')
     | Some att \<Rightarrow>
         andThen now (\<lambda>moment.
         andThen (write_attempts (opens_attempt w c (br_id brand) provider state browser moment) (\<lambda>r. r\<lparr>sl_consumed_at := Some moment\<rparr>)) (\<lambda>rowcount.
         andThen commit (\<lambda>_.
         if rowcount \<noteq> 1 then throw (AuthenticationError ''error.social-attempt-invalid'') else ret att))))"

section \<open>Who it enters\<close>

text \<open>The account a provider's name is linked to, where the surface reaches it: an operator first, and the brand's own before those of no brand.\<close>

definition linked_to :: "nat option \<Rightarrow> authentication_surface \<Rightarrow> social_provider \<Rightarrow> string \<Rightarrow> db \<Rightarrow> (social_identity_row \<times> user_row) list" where
  "linked_to tenant surface provider name d =
     [(i, u). i \<leftarrow> social_identities d, si_provider i = provider \<and> si_subject i = name,
              u \<leftarrow> users d, rid u = si_user i \<and> in_scope tenant surface u]"

definition identity :: "nat option \<Rightarrow> authentication_surface \<Rightarrow> social_provider \<Rightarrow> string \<Rightarrow> social_identity_row option service" where
  "identity tenant surface provider name =
     query (\<lambda>d. case sort_key (\<lambda>(i, u). operator_order u) (linked_to tenant surface provider name d) of [] \<Rightarrow> None | (i, u) # _ \<Rightarrow> Some i)"

definition social_account :: "string option \<Rightarrow> string option \<Rightarrow> nat option \<Rightarrow> string \<Rightarrow> user_row" where
  "social_account email username tenant token = (opened_account '''' tenant token)\<lparr>us_email := email, us_username := username\<rparr>"

definition new_identity :: "datetime \<Rightarrow> user_row \<Rightarrow> social_provider \<Rightarrow> string \<Rightarrow> social_identity_row" where
  "new_identity moment user provider name =
     \<lparr>rid = 0, si_tenant = us_tenant user, si_user = rid user, si_provider = provider, si_subject = name, si_created_at = moment\<rparr>"

text \<open>
  Opening an account for a name nobody is linked to, with the suffix and the token drawn for it. Where another call wrote the identity
  first, the account just added is rolled back and the other one is entered.
\<close>

definition open_account :: "social_login_attempt_row \<Rightarrow> social_profile \<Rightarrow> string \<Rightarrow> string \<Rightarrow> user_row option service" where
  "open_account att profile hex token =
     (let email = sp_email profile;
          username = (case email of Some (_ # _) \<Rightarrow> None | _ \<Rightarrow> Some (provider_name (sl_provider att) @ ''-'' @ hex))
      in
      andThen (case email of None \<Rightarrow> ret () | Some e \<Rightarrow> ensure_free ''email'' e (sl_tenant att) None) (\<lambda>_.
      refusing ''error.social-identity-in-use''
        (andThen (store users users_update accepts_user (social_account email username (sl_tenant att) token)) (\<lambda>user.
         andThen now (\<lambda>moment.
         andThen (settle social_identities social_identities_update accepts_identity
           (\<lambda>i. belongs_to_tenant (si_tenant i) (sl_tenant att) \<and> si_provider i = sl_provider att \<and> si_subject i = sp_subject profile)
           (new_identity moment user (sl_provider att) (sp_subject profile))) (\<lambda>proposed.
         case proposed of
           Wrote i \<Rightarrow> andThen commit (\<lambda>_. ret (Some user))
         | Missed \<Rightarrow> throw AttributeError
         | Found i \<Rightarrow> andThen rollback (\<lambda>_. query (\<lambda>d. fetch (si_user i) (users d)))))))))"

definition sign_in :: "social_login_attempt_row \<Rightarrow> social_profile \<Rightarrow> string \<Rightarrow> string \<Rightarrow> user_row service" where
  "sign_in att profile hex token =
     (let surface = sl_surface att; tenant = sl_tenant att in
      andThen (identity tenant surface (sl_provider att) (sp_subject profile)) (\<lambda>linked.
      case linked of
        Some i \<Rightarrow> andThen (query (\<lambda>d. fetch (si_user i) (users d))) (\<lambda>user. signed_in user surface tenant)
      | None \<Rightarrow>
          andThen (case sp_email profile of None \<Rightarrow> ret None | Some e \<Rightarrow> by_email tenant e surface) (\<lambda>named_by_address.
          if named_by_address \<noteq> None then throw (ValidationError ''error.social-link-required'' '''')
          else if surface = authentication_surface.ADMIN then throw (AuthenticationError ''error.panel-not-allowed'')
          else andThen (open_account att profile hex token) (\<lambda>user. signed_in user surface tenant))))"

section \<open>Connecting and disconnecting\<close>

text \<open>The account that started the attempt, still in the session it started it from.\<close>

definition connect :: "social_login_attempt_row \<Rightarrow> nat \<Rightarrow> social_profile \<Rightarrow> user_row service" where
  "connect att user_id profile =
     andThen (query (\<lambda>d. fetch user_id (users d))) (\<lambda>found.
     case found of
       None \<Rightarrow> throw (AuthenticationError ''error.social-attempt-invalid'')
     | Some user \<Rightarrow>
         if Some (us_session_epoch user) \<noteq> sl_session_epoch att then throw (AuthenticationError ''error.social-attempt-invalid'') else
         andThen (ensure_access (Some user) (sl_surface att)) (\<lambda>_.
         andThen (hold (rid user)) (\<lambda>_.
         andThen (load users (rid user)) (\<lambda>user.
         andThen (ensure_access (Some user) (sl_surface att)) (\<lambda>_.
         andThen (ensure_scope user (sl_tenant att) (sl_surface att)) (\<lambda>_.
         if Some (us_session_epoch user) \<noteq> sl_session_epoch att then throw (AuthenticationError ''error.social-attempt-invalid'') else
         refusing ''error.social-identity-in-use''
           (andThen (query (\<lambda>d. List.find (\<lambda>i. si_user i = rid user \<and> si_provider i = sl_provider att) (social_identities d))) (\<lambda>linked.
            case linked of
              Some i \<Rightarrow>
                if si_subject i \<noteq> sp_subject profile then throw (ValidationError ''error.social-provider-already-connected'' '''')
                else andThen commit (\<lambda>_. ret user)
            | None \<Rightarrow>
                andThen now (\<lambda>moment.
                andThen (store social_identities social_identities_update accepts_identity
                  (new_identity moment user (sl_provider att) (sp_subject profile))) (\<lambda>_.
                andThen commit (\<lambda>_. ret user)))))))))))"

definition complete :: "web \<Rightarrow> config \<Rightarrow> social_login_attempt_row \<Rightarrow> string \<Rightarrow> string \<Rightarrow> string \<Rightarrow> user_row service" where
  "complete w c att code hex token =
     andThen (require_social c (sl_provider att) (sl_surface att)) (\<lambda>configuration.
     andThen now (\<lambda>moment.
     let provider = PROVIDERS (sl_provider att); cl = open_client w provider moment configuration att in
     andThen (handle (lift (bind (lp_exchange provider w cl configuration att code) (lp_identify provider w cl configuration att)))
       (\<lambda>e. case e of
          HTTPError \<Rightarrow> throw (AppError ''error.social-unavailable'')
        | HTTPStatusError _ \<Rightarrow> throw (AppError ''error.social-unavailable'')
        | Raised kind \<Rightarrow>
            if kind = ''OAuthError'' then throw (AppError ''error.social-unavailable'')
            else if kind = ''JoseError'' then throw (AuthenticationError ''error.social-response-invalid'')
            else throw e
        | ValueError \<Rightarrow> throw (AuthenticationError ''error.social-response-invalid'')
        | _ \<Rightarrow> throw e)) (\<lambda>profile.
     case sl_user att of
       Some user_id \<Rightarrow> connect att user_id profile
     | None \<Rightarrow> sign_in att profile hex token)))"

text \<open>The identities of an account in the order of the names of their providers.\<close>

definition provider_rank :: "social_provider \<Rightarrow> nat" where
  "provider_rank provider = (case provider of APPLE \<Rightarrow> 0 | DISCORD \<Rightarrow> 1 | FACEBOOK \<Rightarrow> 2 | GITHUB \<Rightarrow> 3 | GOOGLE \<Rightarrow> 4 | INSTAGRAM \<Rightarrow> 5
     | LINKEDIN \<Rightarrow> 6 | MICROSOFT \<Rightarrow> 7)"

definition connections :: "nat \<Rightarrow> social_identity_row list service" where
  "connections user_id =
     query (\<lambda>d. sort_key (\<lambda>i. provider_rank (si_provider i)) (filter (\<lambda>i. si_user i = user_id) (social_identities d)))"

definition enabled_providers :: "config \<Rightarrow> authentication_surface \<Rightarrow> social_provider list" where
  "enabled_providers c surface = map fst (filter (\<lambda>(provider, configuration). offered_on configuration surface) (co_social c))"

definition disconnect :: "config \<Rightarrow> nat \<Rightarrow> social_provider \<Rightarrow> authentication_surface \<Rightarrow> unit service" where
  "disconnect c user_id provider surface =
     andThen (hold user_id) (\<lambda>_.
     andThen (load users user_id) (\<lambda>user.
     andThen (ensure_access (Some user) surface) (\<lambda>_.
     andThen (connections user_id) (\<lambda>identities.
     let other_methods = list_ex (\<lambda>i. si_provider i \<noteq> provider \<and> si_provider i \<in> set (enabled_providers c surface)) identities;
         email_available = (us_email user \<notin> {None, Some ''''} \<and> available (co_email_login c) surface)
     in
     if \<not> has_password user \<and> \<not> email_available \<and> \<not> other_methods then throw (ValidationError ''error.last-sign-in-method'' '''')
     else
     andThen (remove social_identities social_identities_update (\<lambda>i. si_user i = user_id \<and> si_provider i = provider)) (\<lambda>_. commit)))))"

section \<open>What signing in writes\<close>

text \<open>What an account is known by, and no sign in writes.\<close>

definition known_by :: "user_row \<Rightarrow> nat \<times> nat option \<times> string option \<times> string \<times> user_role" where
  "known_by r = (rid r, us_tenant r, us_email r, us_password_hash r, us_role r)"

lemma signed_in_enters:
  assumes "signed_in user surface tenant s = (Ok v, t)"
  shows "\<exists>u. user = Some u \<and> rid v = rid u \<and> map known_by (users (live t)) = map known_by (users (live s))
    \<and> social_identities (live t) = social_identities (live s)"
proof -
  obtain u where u: "user = Some u" "ensure_access user surface s = (Ok u, s)"
    using assms by (auto simp: signed_in_def ensure_access_def andThen_def throw_def ret_def split: option.splits if_splits)
  let ?p = "\<lambda>r. named (rid u) r \<and> us_status r = user_status.ACTIVE \<and> us_session_epoch r = us_session_epoch u \<and> in_scope tenant surface r"
  let ?f = "\<lambda>r. r\<lparr>us_last_login_at := Some (clock s), us_failed_sign_ins := 0, us_sign_in_blocked_until := None\<rparr>"
  let ?d = "users_update (\<lambda>_. amend ?p ?f (users (live s))) (live s)"
  have "rid v = rid u \<and> t = s\<lparr>live := ?d, kept := ?d\<rparr>"
    using assms u by (auto simp: signed_in_def alter_def free_keys_def Let_def andThen_def get_user_def ensure_access_def ensure_scope_def
        throw_def ret_def dest!: fetch_Some_in split: option.splits if_splits)
  moreover have "map known_by (amend ?p ?f (users (live s))) = map known_by (users (live s))"
    by (rule map_amend) (simp add: known_by_def)
  ultimately show ?thesis using u(1) by simp
qed

section \<open>Whom a provider enters\<close>

lemma first_linked:
  assumes "sort_key (\<lambda>(i, u). operator_order u) (linked_to tenant surface provider name d) = (i, u) # rest"
  shows "i \<in> set (social_identities d) \<and> si_provider i = provider \<and> si_subject i = name \<and> u \<in> set (users d) \<and> rid u = si_user i"
proof -
  have "set (sort_key (\<lambda>(i, u). operator_order u) (linked_to tenant surface provider name d)) = set (linked_to tenant surface provider name d)" by simp
  with assms have "(i, u) \<in> set (linked_to tenant surface provider name d)" by (metis list.set_intros(1))
  then show ?thesis by (auto simp: linked_to_def)
qed

lemma first_of_None: "first_of rows = None \<longleftrightarrow> rows = []"
proof -
  have "sort_key operator_order rows = [] \<longleftrightarrow> rows = []" by (metis length_0_conv length_sort)
  then show ?thesis by (auto simp: first_of_def split: list.splits)
qed

text \<open>The account a provider's name was linked to, which is the only one of those that were there it may enter.\<close>

definition was_linked :: "social_provider \<Rightarrow> string \<Rightarrow> nat \<Rightarrow> db \<Rightarrow> bool" where
  "was_linked provider name account d \<longleftrightarrow>
     (\<exists>i\<in>set (social_identities d). si_provider i = provider \<and> si_subject i = name \<and> si_user i = account)"

definition opened_for :: "social_login_attempt_row \<Rightarrow> social_profile \<Rightarrow> nat \<Rightarrow> db \<Rightarrow> db \<Rightarrow> bool" where
  "opened_for att profile account d e \<longleftrightarrow> account \<notin> rid ` set (users d)
     \<and> (\<exists>i. social_identities e = social_identities d @ [i] \<and> si_user i = account \<and> si_provider i = sl_provider att \<and> si_subject i = sp_subject profile)
     \<and> (\<exists>r. map known_by (users e) = map known_by (users d) @ [known_by r] \<and> rid r = account \<and> us_tenant r = sl_tenant att
         \<and> us_role r = NORMAL \<and> \<not> has_password r \<and> us_email r = sp_email profile)"

lemma open_account_opens:
  assumes run: "open_account att profile hex token s = (Ok user, t)" and clean: "kept s = live s"
  shows "(\<exists>u. user = Some u \<and> opened_for att profile (rid u) (live s) (live t))
    \<or> (live t = live s \<and> (\<forall>u. user = Some u \<longrightarrow> was_linked (sl_provider att) (sp_subject profile) (rid u) (live s)))"
proof -
  let ?email = "sp_email profile"
  let ?username = "case ?email of Some (_ # _) \<Rightarrow> None | _ \<Rightarrow> Some (provider_name (sl_provider att) @ ''-'' @ hex)"
  let ?new = "social_account ?email ?username (sl_tenant att) token"
  let ?user = "?new\<lparr>rid := next_id (users (live s))\<rparr>"
  let ?d = "users_update (\<lambda>_. append_row ?new (users (live s))) (live s)"
  let ?read = "\<lambda>i. belongs_to_tenant (si_tenant i) (sl_tenant att) \<and> si_provider i = sl_provider att \<and> si_subject i = sp_subject profile"
  let ?link = "new_identity (clock s) ?user (sl_provider att) (sp_subject profile)"
  obtain w links where w: "insert_or_read accepts_identity ?read ?link (social_identities (live s)) = (w, links)" by fastforce
  have "accepts_user (users (live s)) ?new \<and>
      (case w of Wrote i \<Rightarrow> user = Some ?user \<and> live t = social_identities_update (\<lambda>_. links) ?d
       | Missed \<Rightarrow> False
       | Found i \<Rightarrow> live t = kept s \<and> user = fetch (si_user i) (users (kept s)))"
    using run w unfolding open_account_def Let_def
    by (auto simp: andThen_def ensure_free_def refusing_def handle_def store_def settle_def Let_def throw_def ret_def
        split: option.splits if_splits settled.splits exc.splits outcome.splits prod.splits list.splits)
  note all = this
  from w show ?thesis
  proof (cases rule: insert_or_read_cases)
    case (found q)
    with all clean have "live t = live s" "user = fetch (si_user q) (users (live s))" by simp_all
    with found(3,4) show ?thesis by (auto simp: was_linked_def dest!: fetch_Some_in)
  next
    case wrote
    with all have t: "user = Some ?user" "live t = social_identities_update (\<lambda>_. links) ?d" by simp_all
    have "next_id (users (live s)) \<notin> rid ` set (users (live s))" using rid_less_next [of _ "users (live s)"] by fastforce
    moreover have "map known_by (users (live t)) = map known_by (users (live s)) @ [known_by ?user]"
      by (simp add: t(2) append_row_def)
    ultimately have "opened_for att profile (rid ?user) (live s) (live t)"
      using wrote(2) unfolding opened_for_def
      by (auto simp: t(2) append_row_def new_identity_def social_account_def opened_account_def has_password_def intro!: exI [of _ ?user])
    with t(1) show ?thesis by blast
  qed (use all in simp)
qed

text \<open>
  C28: A provider's name enters the account it is linked to, or one opened for it there and then, and never an account that was already there and
  only shares its address: a sign-in that is answered either reached an account by an identity written before, and wrote none, or opened, on the
  site, an account of its own without a password, linked to that name alone, where no account of the brand had the address. No account that was
  there has its brand, its address, its password or its role changed.
\<close>

theorem social_entry_takes_no_account:
  assumes run: "sign_in att profile hex token s = (Ok v, t)" and clean: "kept s = live s"
  shows "(was_linked (sl_provider att) (sp_subject profile) (rid v) (live s) \<and> social_identities (live t) = social_identities (live s)
       \<and> map known_by (users (live t)) = map known_by (users (live s)))
    \<or> (sl_surface att = SITE \<and> opened_for att profile (rid v) (live s) (live t)
       \<and> (\<forall>e. sp_email profile = Some e \<longrightarrow> (\<forall>r\<in>set (users (live s)). us_tenant r = sl_tenant att \<longrightarrow> us_email r \<noteq> Some e)))"
proof -
  let ?links = "sort_key (\<lambda>(i, u). operator_order u) (linked_to (sl_tenant att) (sl_surface att) (sl_provider att) (sp_subject profile) (live s))"
  show ?thesis
  proof (cases ?links)
    case (Cons l rest)
    obtain i u where l: "l = (i, u)" by fastforce
    note linked = first_linked [OF Cons [unfolded l]]
    from run Cons l have "signed_in (fetch (si_user i) (users (live s))) (sl_surface att) (sl_tenant att) s = (Ok v, t)"
      by (simp add: sign_in_def identity_def Let_def)
    from signed_in_enters [OF this] linked show ?thesis by (auto simp: was_linked_def dest!: fetch_Some_in)
  next
    case Nil
    have address: "(case sp_email profile of None \<Rightarrow> ret None | Some e \<Rightarrow> by_email (sl_tenant att) e (sl_surface att)) s = (Ok None, s)"
        "sl_surface att = SITE" "andThen (open_account att profile hex token) (\<lambda>user. signed_in user (sl_surface att) (sl_tenant att)) s = (Ok v, t)"
      using run Nil by (cases "sp_email profile"; cases "sl_surface att"; auto simp: sign_in_def identity_def Let_def by_email_def query_def reads_def
          andThen_def throw_def ret_def split: if_splits)+
    obtain user x where x: "open_account att profile hex token s = (Ok user, x)" "signed_in user (sl_surface att) (sl_tenant att) x = (Ok v, t)"
      using address(3) by (auto elim!: andThen_OkD)
    obtain u where u: "user = Some u" "rid v = rid u" "map known_by (users (live t)) = map known_by (users (live x))"
        "social_identities (live t) = social_identities (live x)"
      using signed_in_enters [OF x(2)] by blast
    have unnamed: "us_email r \<noteq> Some e" if "sp_email profile = Some e" "r \<in> set (users (live s))" "us_tenant r = sl_tenant att" for e r
      using address(1) that by (auto simp: by_email_def first_of_None filter_empty_conv in_scope_def belongs_to_tenant_def)
    from open_account_opens [OF x(1) clean] u show ?thesis
      using address(2) unnamed by (auto simp: opened_for_def was_linked_def)
  qed
qed

section \<open>A callback opens once\<close>

lemma callback_opens_once:
  assumes keys: "unique_on attempt_key (social_login_attempts (live s))"
    and run: "consume w c brand provider state browser s = (Ok att, t)"
  shows "opens_attempt w c (br_id brand) provider state browser (clock s) att
     \<and> value_of (consume w c other_brand other_provider state other_browser) (t\<lparr>clock := later\<rparr>)
         = Err (AuthenticationError ''error.social-attempt-invalid'')"
proof -
  let ?digest = "digest (wb_outside w) c ''social-state'' state"
  let ?p = "opens_attempt w c (br_id brand) provider state browser (clock s)"
  let ?f = "\<lambda>r. r\<lparr>sl_consumed_at := Some (clock s)\<rparr>"
  let ?t = "amend ?p ?f (social_login_attempts (live s))"
  have f: "List.find (\<lambda>r. sl_state_digest r = ?digest) (social_login_attempts (live s)) = Some att"
    and h: "hits ?p (social_login_attempts (live s)) = 1" and t: "social_login_attempts (live t) = ?t"
    using run by (auto simp: consume_def alter_def free_keys_def Let_def andThen_def throw_def split: option.splits if_splits)
  have att: "att \<in> set (social_login_attempts (live s))" "sl_state_digest att = ?digest" using find_Some_in [OF f] by auto
  have "filter ?p (social_login_attempts (live s)) \<noteq> []" using h by (auto simp: hits_def)
  then obtain r where r: "r \<in> set (social_login_attempts (live s))" "?p r" by (auto simp: filter_empty_conv)
  have same: "q = att" if "q \<in> set (social_login_attempts (live s))" "sl_state_digest q = ?digest" for q
    using unique_onD [OF keys that(1) att(1)] that(2) att(2) by (simp add: attempt_key_def)
  have "r = att" by (rule same) (use r in \<open>simp_all add: opens_attempt_def\<close>)
  have "sl_consumed_at q \<noteq> None" if "q \<in> set ?t" "sl_state_digest q = ?digest" for q
  proof -
    from that(1) obtain x where x: "x \<in> set (social_login_attempts (live s))" "q = (if ?p x then ?f x else x)" by (auto simp: set_amend)
    have "x = att" by (rule same) (use x that(2) in \<open>auto split: if_splits\<close>)
    with x(2) r(2) \<open>r = att\<close> show ?thesis by simp
  qed
  then have h0: "hits (opens_attempt w c (br_id other_brand) other_provider state other_browser later) ?t = 0"
    by (auto simp: hits_def filter_empty_conv opens_attempt_def)
  have "value_of (consume w c other_brand other_provider state other_browser) (t\<lparr>clock := later\<rparr>) = Err (AuthenticationError ''error.social-attempt-invalid'')"
    by (cases "List.find (\<lambda>r. sl_state_digest r = ?digest) ?t") (simp_all add: value_of_def consume_def t alter_def free_keys_def Let_def andThen_def h0 throw_def)
  with r(2) \<open>r = att\<close> show ?thesis by simp
qed

section \<open>A way in is always left\<close>

lemma hold_apply: "hold user_id s = (if hits (\<lambda>r. named user_id r \<and> us_status r \<noteq> ERASED) (users (live s)) \<noteq> 1
    then Err (ConflictError ''error.account-erased'') else Ok (), s)"
proof -
  have "amend p (\<lambda>r. r) t = t" for p and t :: "user_row list" by (simp add: amend_def)
  then show ?thesis by (simp add: hold_def alter_def free_keys_def Let_def andThen_def throw_def)
qed

lemma disconnect_leaves_a_way_in:
  assumes run: "disconnect c user_id provider surface s = (Ok (), t)"
  shows "(\<exists>u. fetch user_id (users (live t)) = Some u
       \<and> (has_password u \<or> us_email u \<notin> {None, Some ''''} \<and> available (co_email_login c) surface
          \<or> (\<exists>i\<in>set (social_identities (live t)). si_user i = user_id \<and> si_provider i \<in> set (enabled_providers c surface))))
     \<and> (\<forall>i\<in>set (social_identities (live t)). \<not> (si_user i = user_id \<and> si_provider i = provider))
     \<and> kept t = live t"
proof -
  obtain u where u: "fetch user_id (users (live s)) = Some u" using run
    by (auto simp: disconnect_def hold_apply andThen_def load_def need_def throw_def split: if_splits option.splits)
  let ?gone = "\<lambda>i. si_user i = user_id \<and> si_provider i = provider"
  let ?d = "social_identities_update (\<lambda>_. filter (\<lambda>i. \<not> ?gone i) (social_identities (live s))) (live s)"
  have "t = s\<lparr>live := ?d, kept := ?d\<rparr> \<and> (has_password u \<or> (us_email u \<notin> {None, Some ''''} \<and> available (co_email_login c) surface)
      \<or> list_ex (\<lambda>i. si_provider i \<noteq> provider \<and> si_provider i \<in> set (enabled_providers c surface))
          (sort_key (\<lambda>i. provider_rank (si_provider i)) (filter (\<lambda>i. si_user i = user_id) (social_identities (live s)))))"
    using run u by (auto simp: disconnect_def hold_apply andThen_def load_def need_def throw_def ensure_access_def connections_def remove_def
        query_def reads_def commit_def writes_def ret_def Let_def split: if_splits)
  with u show ?thesis by (auto simp: list_ex_iff)
qed

section \<open>On the sample account\<close>

definition sample_attempt :: social_login_attempt_row where
  "sample_attempt = \<lparr>rid = 1, sl_tenant = Some 1, sl_user = None, sl_session_epoch = None, sl_surface = SITE, sl_provider = GOOGLE,
     sl_state_digest = ''social-state.state'', sl_browser_digest = ''login-browser.browser'', sl_nonce = ''nonce'', sl_verifier_encrypted = ''verifier'',
     sl_redirect_uri = ''https://shop.example.com/account/social/google/callback'', sl_next_path = ''/'', sl_expires_at = on_day 2024 3 6,
     sl_consumed_at = Some (on_day 2024 3 5)\<rparr>"

definition sample_linked :: session where
  "sample_linked = opened_at (on_day 2024 3 5) (sample_db\<lparr>users := [sample_user],
     social_identities := [\<lparr>rid = 1, si_tenant = Some 1, si_user = 1, si_provider = GOOGLE, si_subject = ''1001'', si_created_at = on_day 2024 3 1\<rparr>]\<rparr>)"

lemma social_entry_takes_no_account_witness:
  "\<exists>v t. sign_in sample_attempt \<lparr>sp_subject = ''1001'', sp_email = Some ''reader@example.com''\<rparr> ''00'' ''fresh'' sample_linked = (Ok v, t)
     \<and> was_linked GOOGLE ''1001'' (rid v) (live sample_linked) \<and> map known_by (users (live t)) = [known_by sample_user]"
proof -
  have "\<exists>v t. sign_in sample_attempt \<lparr>sp_subject = ''1001'', sp_email = Some ''reader@example.com''\<rparr> ''00'' ''fresh'' sample_linked = (Ok v, t)
      \<and> rid v = 1"
    by (simp add: sign_in_def identity_def Let_def linked_to_def sample_attempt_def sample_linked_def opened_at_def sample_user_def fetch_def
      in_scope_def belongs_to_tenant_def signed_in_def ensure_access_def ensure_scope_def alter_def free_keys_def hits_def amend_def andThen_def
      named_def get_user_def)
  then obtain v t where run: "sign_in sample_attempt \<lparr>sp_subject = ''1001'', sp_email = Some ''reader@example.com''\<rparr> ''00'' ''fresh'' sample_linked = (Ok v, t)"
    and v: "rid v = 1" by blast
  have "kept sample_linked = live sample_linked" by (simp add: sample_linked_def opened_at_def)
  from social_entry_takes_no_account [OF run this] v run show ?thesis
    by (auto simp: sample_linked_def opened_at_def sample_user_def opened_for_def sample_attempt_def)
qed

end
