(* ===== verification/Schema_Diff.thy ===== *)
theory Schema_Diff
  imports Text "HOL-Library.List_Lexorder" "HOL-Library.Char_ord"
begin

text \<open>
  \<^verbatim>\<open>services/schema_diff.py\<close>: what the database should be against what it is, as the statements proposed to a person. The
  shapes are the rows the four queries of the catalogue answer, each a tuple of texts; the metadata of the models carries
  the text the dialect compiles a table, an index, a column or a constraint to. The container, the dump and the
  connections are not modelled.
\<close>

type_synonym tuple = "string list"

record shape =
  sh_tables :: "tuple set"
  sh_columns :: "tuple set"
  sh_indexes :: "tuple set"
  sh_keys :: "tuple set"

record delta =
  de_missing :: "tuple list"
  de_extra :: "tuple list"

record shapes =
  sp_tables :: delta
  sp_columns :: delta
  sp_indexes :: delta
  sp_keys :: delta

definition delta_of :: "tuple set \<Rightarrow> tuple set \<Rightarrow> delta" where
  "delta_of fresh current = \<lparr>de_missing = sorted_list_of_set (fresh - current), de_extra = sorted_list_of_set (current - fresh)\<rparr>"

definition difference :: "shape \<Rightarrow> shape \<Rightarrow> shapes" where
  "difference fresh current = \<lparr>sp_tables = delta_of (sh_tables fresh) (sh_tables current),
     sp_columns = delta_of (sh_columns fresh) (sh_columns current), sp_indexes = delta_of (sh_indexes fresh) (sh_indexes current),
     sp_keys = delta_of (sh_keys fresh) (sh_keys current)\<rparr>"

section \<open>The metadata of the models\<close>

datatype scalar = Flag bool | Number string | Quoted string

record column =
  cl_name :: string
  cl_nullable :: bool
  cl_default :: "scalar option"
  cl_declaration :: string

record indexed =
  ix_name :: string
  ix_columns :: "string list"
  ix_created :: string

record keyed =
  fk_columns :: "string list"
  fk_added :: string

record metadata =
  mt_name :: string
  mt_columns :: "column list"
  mt_indexes :: "indexed list"
  mt_uniques :: "indexed list"
  mt_keys :: "keyed list"
  mt_created :: string

text \<open>The value the rows already there receive; a default that is not a scalar is none.\<close>

definition filling :: "column \<Rightarrow> string option" where
  "filling column = (case cl_default column of
       None \<Rightarrow> None
     | Some (Flag b) \<Rightarrow> Some (if b then ''1'' else ''0'')
     | Some (Number n) \<Rightarrow> Some n
     | Some (Quoted t) \<Rightarrow> Some (CHR 0x27 # t @ [CHR 0x27]))"

definition adding :: "metadata \<Rightarrow> column \<Rightarrow> string list" where
  "adding table column =
     (if cl_nullable column then [''ALTER TABLE '' @ mt_name table @ '' ADD COLUMN '' @ cl_declaration column @ '';'']
      else case filling column of
        None \<Rightarrow>
          [''-- a human decides: '' @ mt_name table @ ''.'' @ cl_name column
             @ '' is required and has no default, so somebody says what the rows of today hold'',
           ''-- ALTER TABLE '' @ mt_name table @ '' ADD COLUMN '' @ cl_declaration column @ '' DEFAULT <value>;'',
           ''-- ALTER TABLE '' @ mt_name table @ '' ALTER COLUMN '' @ cl_name column @ '' DROP DEFAULT;'']
      | Some v \<Rightarrow>
          [''ALTER TABLE '' @ mt_name table @ '' ADD COLUMN '' @ cl_declaration column @ '' DEFAULT '' @ v @ '';'',
           ''ALTER TABLE '' @ mt_name table @ '' ALTER COLUMN '' @ cl_name column @ '' DROP DEFAULT;''])"

definition is_comment :: "string \<Rightarrow> bool" where
  "is_comment line = prefix ''--'' line"

section \<open>The proposal\<close>

definition pair_of :: "tuple \<Rightarrow> string \<times> string" where
  "pair_of r = (r ! 0, r ! 1)"

definition pairs :: "tuple list \<Rightarrow> (string \<times> string) list" where
  "pairs rows = map pair_of rows"

text \<open>What kept its name or its column and changed its shape.\<close>

definition reshaped :: "delta \<Rightarrow> (string \<times> string) list" where
  "reshaped d = filter (\<lambda>p. p \<in> set (pairs (de_extra d))) (pairs (de_missing d))"

definition new_columns :: "shapes \<Rightarrow> metadata \<Rightarrow> column list" where
  "new_columns shapes table =
     List.map_filter (\<lambda>r. if r ! 0 = mt_name table then List.find (\<lambda>c. cl_name c = r ! 1) (mt_columns table) else None)
       (de_missing (sp_columns shapes))"

definition undecided :: "metadata \<Rightarrow> column list \<Rightarrow> string list" where
  "undecided table columns = map cl_name (filter (\<lambda>c. is_comment (hd (adding table c))) columns)"

definition touches :: "string list \<Rightarrow> string list \<Rightarrow> bool" where
  "touches columns pending \<longleftrightarrow> list_ex (\<lambda>c. c \<in> set pending) columns"

definition index_lines :: "(string \<times> string) list \<Rightarrow> metadata \<Rightarrow> string list \<Rightarrow> string \<Rightarrow> indexed \<Rightarrow> string list" where
  "index_lines mutated table pending waiting index =
     (if touches (ix_columns index) pending then [''-- waits on the decision above: '' @ waiting]
      else (if (mt_name table, ix_name index) \<in> set mutated then [''DROP INDEX '' @ ix_name index @ '' ON '' @ mt_name table @ '';''] else [])
        @ [ix_created index @ '';''])"

definition names_missing :: "(string \<times> string) list \<Rightarrow> metadata \<Rightarrow> indexed \<Rightarrow> bool" where
  "names_missing missing table index \<longleftrightarrow> (mt_name table, ix_name index) \<in> set missing"

text \<open>The name this database gave a key that changed is read to drop it, and one it never reported is a \<open>KeyError\<close>.\<close>

fun dropped_keys :: "((string \<times> string) \<times> string) list \<Rightarrow> string \<Rightarrow> string list \<Rightarrow> string list outcome" where
  "dropped_keys key_names table [] = Ok []"
| "dropped_keys key_names table (c # columns) = bind (case map_of key_names (table, c) of None \<Rightarrow> Err KeyError
       | Some name \<Rightarrow> Ok (''ALTER TABLE '' @ table @ '' DROP FOREIGN KEY '' @ name @ '';'')) (\<lambda>line.
     bind (dropped_keys key_names table columns) (\<lambda>lines. Ok (line # lines)))"

definition key_lines :: "((string \<times> string) \<times> string) list \<Rightarrow> (string \<times> string) list \<Rightarrow> metadata \<Rightarrow> string list \<Rightarrow> keyed \<Rightarrow> string list outcome" where
  "key_lines key_names rekeyed table pending key =
     (if touches (fk_columns key) pending
      then Ok [''-- waits on the decision above: FOREIGN KEY '' @ join '', '' (fk_columns key) @ '' on '' @ mt_name table]
      else bind (dropped_keys key_names (mt_name table) (filter (\<lambda>c. (mt_name table, c) \<in> set rekeyed) (fk_columns key))) (\<lambda>dropped.
        Ok (dropped @ [fk_added key @ '';''])))"

fun all_lines :: "('a \<Rightarrow> string list outcome) \<Rightarrow> 'a list \<Rightarrow> string list outcome" where
  "all_lines f [] = Ok []"
| "all_lines f (x # xs) = bind (f x) (\<lambda>lines. bind (all_lines f xs) (\<lambda>more. Ok (lines @ more)))"

definition table_lines :: "shapes \<Rightarrow> ((string \<times> string) \<times> string) list \<Rightarrow> metadata \<Rightarrow> string list outcome" where
  "table_lines shapes key_names table =
     (let absent = map (\<lambda>r. r ! 0) (de_missing (sp_tables shapes));
          known = filter (\<lambda>r. r ! 0 \<notin> set absent);
          indexes = pairs (known (de_missing (sp_indexes shapes)));
          keys = pairs (known (de_missing (sp_keys shapes)));
          columns = new_columns shapes table;
          pending = undecided table columns;
          mutated = reshaped (sp_indexes shapes);
          rekeyed = reshaped (sp_keys shapes)
      in if mt_name table \<in> set absent
         then Ok ((mt_created table @ '';'') # map (\<lambda>i. ix_created i @ '';'') (sort_key ix_name (mt_indexes table)))
         else
           bind (all_lines (key_lines key_names rekeyed table pending)
             (filter (\<lambda>k. list_ex (\<lambda>c. (mt_name table, c) \<in> set keys) (fk_columns k)) (mt_keys table))) (\<lambda>keys_written.
           Ok (concat (map (adding table) columns)
             @ concat (map (\<lambda>i. index_lines mutated table pending (''CREATE INDEX '' @ ix_name i @ '' ON '' @ mt_name table) i)
                 (filter (names_missing indexes table) (mt_indexes table)))
             @ concat (map (\<lambda>u. index_lines mutated table pending (''UNIQUE '' @ ix_name u @ '' on '' @ mt_name table) u)
                 (filter (names_missing indexes table) (mt_uniques table)))
             @ keys_written)))"

definition statements_for :: "shapes \<Rightarrow> ((string \<times> string) \<times> string) list \<Rightarrow> metadata list \<Rightarrow> string list outcome" where
  "statements_for shapes key_names tables = all_lines (table_lines shapes key_names) tables"

definition report_lines :: "string \<Rightarrow> delta \<Rightarrow> string list" where
  "report_lines title d =
     [CHR 0x0A # title @ '': '' @ decimal (length (de_missing d)) @ '' to create, '' @ decimal (length (de_extra d)) @ '' to remove'']
     @ map (\<lambda>r. ''   MISSING '' @ join '' | '' r) (de_missing d) @ map (\<lambda>r. ''   EXTRA   '' @ join '' | '' r) (de_extra d)"

definition report_of :: "shapes \<Rightarrow> string list" where
  "report_of shapes = report_lines ''TABLES'' (sp_tables shapes) @ report_lines ''COLUMNS'' (sp_columns shapes)
     @ report_lines ''INDEXES'' (sp_indexes shapes) @ report_lines ''FOREIGN KEYS'' (sp_keys shapes)"

text \<open>The warnings \<open>compare\<close> writes under the proposal: a removal is never proposed.\<close>

definition warnings :: "shapes \<Rightarrow> string list" where
  "warnings shapes =
     (let mutated = reshaped (sp_indexes shapes) @ reshaped (sp_keys shapes)
      in map (\<lambda>r. ''-- a human decides: '' @ join '' | '' r)
           (filter (\<lambda>r. pair_of r \<notin> set mutated)
             (de_extra (sp_columns shapes) @ de_extra (sp_indexes shapes) @ de_extra (sp_keys shapes))))"

section \<open>Facts of the proposal\<close>

lemma all_lines_member:
  assumes "all_lines f xs = Ok lines" and "line \<in> set lines"
  shows "\<exists>x\<in>set xs. \<exists>some. f x = Ok some \<and> line \<in> set some"
  using assms by (induction f xs arbitrary: lines rule: all_lines.induct) (auto simp: bind_def split: outcome.splits)

lemma all_lines_each:
  assumes "all_lines f xs = Ok lines" and "x \<in> set xs"
  shows "\<exists>some. f x = Ok some \<and> (\<forall>line\<in>set some. line \<in> set lines)"
  using assms by (induction f xs arbitrary: lines rule: all_lines.induct) (fastforce simp: bind_def split: outcome.splits)+

lemma reshaped_both: "p \<in> set (reshaped (delta_of fresh current)) \<Longrightarrow> p \<in> pair_of ` (fresh - current) \<inter> pair_of ` (current - fresh)"
  by (cases "finite (fresh - current)"; cases "finite (current - fresh)") (auto simp: reshaped_def pairs_def delta_of_def)

lemma dropped_keys_member:
  assumes "dropped_keys key_names table columns = Ok lines" and "line \<in> set lines"
  shows "\<exists>c\<in>set columns. \<exists>name. map_of key_names (table, c) = Some name \<and> line = ''ALTER TABLE '' @ table @ '' DROP FOREIGN KEY '' @ name @ '';''"
  using assms by (induction key_names table columns arbitrary: lines rule: dropped_keys.induct)
    (auto simp: bind_def split: outcome.splits option.splits)

text \<open>
  The ways a line of the proposal can come to be: a comment; something the models declare being created, and an index,
  a uniqueness or a key only where no column of it still waits for a decision; a required column taking and leaving
  its default; or a thing that changed its shape being dropped by its name, where the same proposal creates it again.
\<close>

definition creates :: "shapes \<Rightarrow> metadata \<Rightarrow> string \<Rightarrow> bool" where
  "creates shapes t line \<longleftrightarrow>
     line = mt_created t @ '';''
     \<or> (\<exists>c\<in>set (mt_columns t). line \<in> set (adding t c))
     \<or> (\<exists>i\<in>set (mt_indexes t) \<union> set (mt_uniques t). line = ix_created i @ '';''
          \<and> (mt_name t \<in> (\<lambda>r. r ! 0) ` set (de_missing (sp_tables shapes)) \<or> \<not> touches (ix_columns i) (undecided t (new_columns shapes t))))
     \<or> (\<exists>k\<in>set (mt_keys t). line = fk_added k @ '';'' \<and> \<not> touches (fk_columns k) (undecided t (new_columns shapes t)))"

definition replaces :: "shape \<Rightarrow> shape \<Rightarrow> ((string \<times> string) \<times> string) list \<Rightarrow> string list \<Rightarrow> metadata \<Rightarrow> string \<Rightarrow> bool" where
  "replaces fresh current key_names lines t line \<longleftrightarrow>
     (\<exists>i\<in>set (mt_indexes t) \<union> set (mt_uniques t). line = ''DROP INDEX '' @ ix_name i @ '' ON '' @ mt_name t @ '';''
        \<and> (mt_name t, ix_name i) \<in> pair_of ` (sh_indexes fresh - sh_indexes current) \<inter> pair_of ` (sh_indexes current - sh_indexes fresh)
        \<and> ix_created i @ '';'' \<in> set lines)
     \<or> (\<exists>k\<in>set (mt_keys t). \<exists>c\<in>set (fk_columns k). \<exists>name. map_of key_names (mt_name t, c) = Some name
        \<and> line = ''ALTER TABLE '' @ mt_name t @ '' DROP FOREIGN KEY '' @ name @ '';''
        \<and> (mt_name t, c) \<in> pair_of ` (sh_keys fresh - sh_keys current) \<inter> pair_of ` (sh_keys current - sh_keys fresh)
        \<and> fk_added k @ '';'' \<in> set lines)"

lemma replaces_mono: "replaces fresh current key_names lines t line \<Longrightarrow> (\<forall>l\<in>set lines. l \<in> set others) \<Longrightarrow> replaces fresh current key_names others t line"
  unfolding replaces_def by blast

lemma index_lines_ok:
  assumes "line \<in> set (index_lines (reshaped (delta_of a b)) t pending waiting i)"
  shows "is_comment line \<or> line = ix_created i @ '';'' \<and> \<not> touches (ix_columns i) pending
     \<or> line = ''DROP INDEX '' @ ix_name i @ '' ON '' @ mt_name t @ '';'' \<and> (mt_name t, ix_name i) \<in> pair_of ` (a - b) \<inter> pair_of ` (b - a)
         \<and> ix_created i @ '';'' \<in> set (index_lines (reshaped (delta_of a b)) t pending waiting i)"
proof (cases "touches (ix_columns i) pending")
  case True
  with assms show ?thesis by (simp add: index_lines_def is_comment_def)
next
  case False
  with assms consider "line = ix_created i @ '';''"
    | "line = ''DROP INDEX '' @ ix_name i @ '' ON '' @ mt_name t @ '';''" "(mt_name t, ix_name i) \<in> set (reshaped (delta_of a b))"
    by (auto simp: index_lines_def split: if_splits)
  then show ?thesis
  proof cases
    case 2
    with reshaped_both False show ?thesis by (auto simp: index_lines_def)
  qed (simp add: False)
qed

lemma key_lines_ok:
  assumes "key_lines key_names (reshaped (delta_of a b)) t pending k = Ok lines" and "line \<in> set lines"
  shows "is_comment line \<or> line = fk_added k @ '';'' \<and> \<not> touches (fk_columns k) pending
     \<or> (\<exists>c\<in>set (fk_columns k). \<exists>name. map_of key_names (mt_name t, c) = Some name
        \<and> line = ''ALTER TABLE '' @ mt_name t @ '' DROP FOREIGN KEY '' @ name @ '';''
        \<and> (mt_name t, c) \<in> pair_of ` (a - b) \<inter> pair_of ` (b - a) \<and> fk_added k @ '';'' \<in> set lines)"
proof (cases "touches (fk_columns k) pending")
  case True
  with assms show ?thesis by (auto simp: key_lines_def is_comment_def)
next
  case False
  with assms(1) obtain dropped where d: "dropped_keys key_names (mt_name t)
      (filter (\<lambda>c. (mt_name t, c) \<in> set (reshaped (delta_of a b))) (fk_columns k)) = Ok dropped" "lines = dropped @ [fk_added k @ '';'']"
    by (auto simp: key_lines_def bind_def split: outcome.splits)
  from assms(2) d(2) consider "line = fk_added k @ '';''" | "line \<in> set dropped" by auto
  then show ?thesis
  proof cases
    case 2
    from dropped_keys_member [OF d(1) 2] obtain c name where c: "c \<in> set (fk_columns k)" "(mt_name t, c) \<in> set (reshaped (delta_of a b))"
        "map_of key_names (mt_name t, c) = Some name" "line = ''ALTER TABLE '' @ mt_name t @ '' DROP FOREIGN KEY '' @ name @ '';''" by auto
    with reshaped_both [OF c(2)] d(2) show ?thesis by auto
  qed (simp add: False)
qed

lemma new_columns_in: "c \<in> set (new_columns shapes t) \<Longrightarrow> c \<in> set (mt_columns t)"
  by (auto simp: new_columns_def List.map_filter_def split: if_splits dest: find_Some_in)

lemma table_lines_ok:
  assumes "table_lines (difference fresh current) key_names t = Ok lines" and "line \<in> set lines"
  shows "is_comment line \<or> creates (difference fresh current) t line \<or> replaces fresh current key_names lines t line"
proof (cases "mt_name t \<in> set (map (\<lambda>r. r ! 0) (de_missing (sp_tables (difference fresh current))))")
  case True
  with assms show ?thesis by (auto simp: table_lines_def creates_def)
next
  case False
  let ?d = "difference fresh current"
  let ?known = "filter (\<lambda>r. r ! 0 \<notin> set (map (\<lambda>r. r ! 0) (de_missing (sp_tables ?d))))"
  let ?pending = "undecided t (new_columns ?d t)"
  let ?i = "\<lambda>i. index_lines (reshaped (sp_indexes ?d)) t ?pending (''CREATE INDEX '' @ ix_name i @ '' ON '' @ mt_name t) i"
  let ?u = "\<lambda>u. index_lines (reshaped (sp_indexes ?d)) t ?pending (''UNIQUE '' @ ix_name u @ '' on '' @ mt_name t) u"
  let ?keys = "filter (\<lambda>k. list_ex (\<lambda>c. (mt_name t, c) \<in> set (pairs (?known (de_missing (sp_keys ?d))))) (fk_columns k)) (mt_keys t)"
  from False assms(1) obtain keys where k: "all_lines (key_lines key_names (reshaped (sp_keys ?d)) t ?pending) ?keys = Ok keys"
      and l: "lines = concat (map (adding t) (new_columns ?d t))
        @ concat (map ?i (filter (names_missing (pairs (?known (de_missing (sp_indexes ?d)))) t) (mt_indexes t)))
        @ concat (map ?u (filter (names_missing (pairs (?known (de_missing (sp_indexes ?d)))) t) (mt_uniques t))) @ keys"
    by (auto simp: table_lines_def Let_def bind_def split: outcome.splits)
  have e: "sp_indexes ?d = delta_of (sh_indexes fresh) (sh_indexes current)" "sp_keys ?d = delta_of (sh_keys fresh) (sh_keys current)"
    by (simp_all add: difference_def)
  have sub: "\<forall>i\<in>set (filter (names_missing (pairs (?known (de_missing (sp_indexes ?d)))) t) (mt_indexes t)). \<forall>x\<in>set (?i i). x \<in> set lines"
    "\<forall>i\<in>set (filter (names_missing (pairs (?known (de_missing (sp_indexes ?d)))) t) (mt_uniques t)). \<forall>x\<in>set (?u i). x \<in> set lines"
    unfolding l by (simp_all only: set_append set_concat set_map) blast+
  from assms(2) [unfolded l set_append Un_iff] consider (column) c where "c \<in> set (new_columns ?d t)" "line \<in> set (adding t c)"
    | (index) i where "i \<in> set (mt_indexes t)" "line \<in> set (?i i)" "\<forall>x\<in>set (?i i). x \<in> set lines"
    | (unique) u where "u \<in> set (mt_uniques t)" "line \<in> set (?u u)" "\<forall>x\<in>set (?u u). x \<in> set lines"
    | (key) "line \<in> set keys"
  proof (elim disjE)
    assume "line \<in> set (concat (map (adding t) (new_columns ?d t)))"
    then show thesis by (simp only: set_concat set_map) (blast intro: column)
  next
    assume "line \<in> set (concat (map ?i (filter (names_missing (pairs (?known (de_missing (sp_indexes ?d)))) t) (mt_indexes t))))"
    then obtain i where i: "i \<in> set (filter (names_missing (pairs (?known (de_missing (sp_indexes ?d)))) t) (mt_indexes t))" "line \<in> set (?i i)"
      by (simp only: set_concat set_map) blast
    show thesis
    proof (rule index [of i])
      show "i \<in> set (mt_indexes t)" using i(1) by (simp only: set_filter mem_Collect_eq)
      show "\<forall>x\<in>set (?i i). x \<in> set lines" using sub(1) i(1) by (rule bspec)
    qed (rule i(2))
  next
    assume "line \<in> set (concat (map ?u (filter (names_missing (pairs (?known (de_missing (sp_indexes ?d)))) t) (mt_uniques t))))"
    then obtain i where i: "i \<in> set (filter (names_missing (pairs (?known (de_missing (sp_indexes ?d)))) t) (mt_uniques t))" "line \<in> set (?u i)"
      by (simp only: set_concat set_map) blast
    show thesis
    proof (rule unique [of i])
      show "i \<in> set (mt_uniques t)" using i(1) by (simp only: set_filter mem_Collect_eq)
      show "\<forall>x\<in>set (?u i). x \<in> set lines" using sub(2) i(1) by (rule bspec)
    qed (rule i(2))
  qed (rule key)
  then show ?thesis
  proof cases
    case column
    with new_columns_in show ?thesis by (auto simp: creates_def)
  next
    case index
    from index_lines_ok [OF index(2) [unfolded e]] index(1,3) show ?thesis
      unfolding creates_def replaces_def e by blast
  next
    case unique
    from index_lines_ok [OF unique(2) [unfolded e]] unique(1,3) show ?thesis
      unfolding creates_def replaces_def e by blast
  next
    case key
    from all_lines_member [OF k key] obtain x some where x: "x \<in> set (mt_keys t)" "x \<in> set ?keys"
        "key_lines key_names (reshaped (sp_keys ?d)) t ?pending x = Ok some" "line \<in> set some" by auto
    from all_lines_each [OF k x(2)] x(3) l have "\<forall>y\<in>set some. y \<in> set lines" by auto
    with key_lines_ok [OF x(3) [unfolded e] x(4)] x(1) show ?thesis
      unfolding creates_def replaces_def by blast
  qed
qed

text \<open>
  C37: A proposal never loses data: every line of it is a comment, creates something the models declare without resting
  on a column somebody still has to decide about, or drops an index or a key whose shape changed, known by that name
  on both sides, and then the same proposal creates it again. No table and no column is ever dropped.
\<close>
theorem proposal_only_creates_and_replaces:
  assumes "statements_for (difference fresh current) key_names tables = Ok lines" and "line \<in> set lines"
  shows "is_comment line \<or> (\<exists>t\<in>set tables. creates (difference fresh current) t line \<or> replaces fresh current key_names lines t line)"
proof -
  from all_lines_member [OF assms(1) [unfolded statements_for_def] assms(2)] obtain t some where
    t: "t \<in> set tables" "table_lines (difference fresh current) key_names t = Ok some" "line \<in> set some" by blast
  from all_lines_each [OF assms(1) [unfolded statements_for_def] t(1)] t(2) have "\<forall>l\<in>set some. l \<in> set lines" by auto
  with table_lines_ok [OF t(2,3)] t(1) replaces_mono show ?thesis by blast
qed

definition sample_shape :: "string \<Rightarrow> shape" where
  "sample_shape kind = \<lparr>sh_tables = {[''user'']}, sh_columns = {[''user'', ''id'']}, sh_indexes = {[''user'', ''user_email'', kind]}, sh_keys = {}\<rparr>"

definition sample_metadata :: metadata where
  "sample_metadata = \<lparr>mt_name = ''user'', mt_columns = [], mt_indexes = [\<lparr>ix_name = ''user_email'', ix_columns = [''email''],
     ix_created = ''CREATE UNIQUE INDEX user_email ON user (email)''\<rparr>], mt_uniques = [], mt_keys = [], mt_created = ''CREATE TABLE user ()''\<rparr>"

lemma proposal_only_creates_and_replaces_witness:
  "\<exists>lines. statements_for (difference (sample_shape ''unique'') (sample_shape ''plain'')) [] [sample_metadata] = Ok lines
     \<and> ''DROP INDEX user_email ON user;'' \<in> set lines
     \<and> (\<forall>line\<in>set lines. is_comment line \<or> (\<exists>t\<in>set [sample_metadata].
          creates (difference (sample_shape ''unique'') (sample_shape ''plain'')) t line
          \<or> replaces (sample_shape ''unique'') (sample_shape ''plain'') [] lines t line))"
proof -
  have "statements_for (difference (sample_shape ''unique'') (sample_shape ''plain'')) [] [sample_metadata]
      = Ok [''DROP INDEX user_email ON user;'', ''CREATE UNIQUE INDEX user_email ON user (email);'']"
    by (simp add: statements_for_def table_lines_def difference_def delta_of_def sample_shape_def sample_metadata_def Let_def bind_def
      index_lines_def names_missing_def reshaped_def pairs_def pair_of_def touches_def undecided_def new_columns_def List.map_filter_def)
  with proposal_only_creates_and_replaces [OF this] show ?thesis by auto
qed

end
