(* ===== verification/Registry.thy ===== *)
theory Registry
  imports Clock Tables
begin

text \<open>
  The schema of \<^verbatim>\<open>models/\<close> as the panel walks it: one constructor per mapped class, and for each of them its table, its unique
  keys and its columns in the order they are declared, with what each holds, whether it may be null, the length of its text, the value it
  defaults to and the row it points at. The generic services of \<^verbatim>\<open>services/crud_service.py\<close> read and write every table through
  this description, the way the code reads and writes them through the mapper.
\<close>

section \<open>What a column is\<close>

text \<open>
  A value of a row. Every enum is its value, a price counts thousandths, a day is its ordinal, and a JSON column is the text it prints as.
\<close>

datatype cell = Null | Whole int | Price int | Text string | Flag bool | Moment datetime | Day int | Doc string

datatype kind = WholeKind | MoneyKind | TextKind | FlagKind | MomentKind | DayKind | DocKind | ChoiceKind "string list"

text \<open>A default the schema writes down, one a function draws when the row is born, or none.\<close>

datatype default = Unset | Scalar cell | Drawn

datatype on_delete = Cascade | SetNull | Restrict

text \<open>A unique key over the whole table, inside the tenant, or inside the tenant and the language both.\<close>

datatype unique = Plain "string list" | InTenant "string list" | InLanguage string

datatype table =
    AppEvent | Banner | BannerImpression | Benefit | BenefitGrant | ClientRequest | Content | ContentCategory
  | Country | CreditTransaction | Currency | EmailLoginChallenge | Entitlement | ExternalProduct | Gallery | GalleryPhoto
  | Integration | Language | LoginTicket | NewsletterSubscription | OutboundEmail | Plan | PlanEntitlement | Product
  | Purchase | SocialIdentity | SocialLoginAttempt | StoredFile | StoredFileMention | Subscription | SubscriptionBenefit | SuppressedAddress
  | SystemLog | Tenant | User | UserAddress | UserBalance | UserEntitlement | UserProduct | WebhookEvent

record column =
  co_name :: string
  co_kind :: kind
  co_length :: "nat option"
  co_nullable :: bool
  co_default :: default
  co_points :: "(table \<times> on_delete) option"

record model =
  mo_name :: string
  mo_uniques :: "unique list"
  mo_columns :: "column list"

definition col :: "string \<Rightarrow> kind \<Rightarrow> nat option \<Rightarrow> bool \<Rightarrow> default \<Rightarrow> column" where
  "col name what len nullable dflt = \<lparr>co_name = name, co_kind = what, co_length = len, co_nullable = nullable, co_default = dflt, co_points = None\<rparr>"

definition points :: "string \<Rightarrow> bool \<Rightarrow> table \<Rightarrow> on_delete \<Rightarrow> column" where
  "points name nullable target gone = \<lparr>co_name = name, co_kind = WholeKind, co_length = None, co_nullable = nullable, co_default = Unset,
     co_points = Some (target, gone)\<rparr>"

section \<open>The tables\<close>

definition app_event_model :: model where
  "app_event_model = \<lparr>mo_name = ''app_event'',
     mo_uniques = [Plain [''uuid'']],
     mo_columns = [points ''tenant_id'' True Tenant Cascade, points ''user_id'' True User Cascade,
       col ''uuid'' TextKind (Some 36) False Unset, col ''name'' TextKind (Some 128) False Unset,
       col ''params'' DocKind None False Drawn, col ''occurred_at'' MomentKind None False Unset,
       col ''status'' (ChoiceKind [''pending'', ''processing'', ''processed'', ''ignored'', ''failed'']) None False (Scalar (Text ''pending'')),
       col ''attempts'' WholeKind None False (Scalar (Whole 0)), col ''error_code'' TextKind (Some 64) True Unset,
       col ''error_message'' TextKind None True Unset, col ''processed_at'' MomentKind None True Unset,
       col ''created_at'' MomentKind None False Drawn, col ''updated_at'' MomentKind None False Drawn]\<rparr>"

definition banner_model :: model where
  "banner_model = \<lparr>mo_name = ''banner'',
     mo_uniques = [Plain [''uuid'']],
     mo_columns = [points ''tenant_id'' True Tenant Cascade, points ''language_id'' True Language Restrict,
       col ''placement'' (ChoiceKind [''home'', ''app-space1'', ''app-space2'', ''app-space3'']) None False (Scalar (Text ''home'')),
       col ''title'' TextKind (Some 255) False Unset, col ''image'' TextKind (Some 512) True Unset,
       col ''url'' TextKind (Some 512) True Unset, col ''position'' WholeKind None False (Scalar (Whole 0)),
       col ''starts_at'' MomentKind None True Unset, col ''ends_at'' MomentKind None True Unset,
       col ''active'' FlagKind None False (Scalar (Flag True)), col ''views'' WholeKind None False (Scalar (Whole 0)),
       col ''clicks'' WholeKind None False (Scalar (Whole 0)), col ''meta'' DocKind None False Drawn,
       col ''uuid'' TextKind (Some 36) False Drawn, col ''created_at'' MomentKind None False Drawn,
       col ''updated_at'' MomentKind None False Drawn]\<rparr>"

definition banner_impression_model :: model where
  "banner_impression_model = \<lparr>mo_name = ''banner_impression'',
     mo_uniques = [Plain [''banner_id'', ''kind'', ''visitor'', ''day'']],
     mo_columns = [points ''banner_id'' False Banner Cascade, col ''kind'' (ChoiceKind [''view'', ''click'']) None False Unset,
       col ''visitor'' TextKind (Some 64) False Unset, col ''day'' DayKind None False Unset,
       col ''occurred_at'' MomentKind None False Drawn, col ''created_at'' MomentKind None False Drawn,
       col ''updated_at'' MomentKind None False Drawn]\<rparr>"

definition benefit_model :: model where
  "benefit_model = \<lparr>mo_name = ''subscription_benefit_catalog'',
     mo_uniques = [Plain [''entitlement_id'', ''target'']],
     mo_columns = [points ''entitlement_id'' False Entitlement Cascade, points ''product_id'' True Product Restrict,
       points ''currency_id'' True Currency Restrict,
       col ''type'' (ChoiceKind [''access'', ''credit'', ''product'']) None False Unset,
       col ''target'' TextKind (Some 191) False Unset, col ''quantity'' WholeKind None False (Scalar (Whole 1)),
       col ''cadence'' (ChoiceKind [''on-activation'', ''recurring'', ''once-per-user'']) None False Unset,
       col ''interval_unit'' (ChoiceKind [''day'', ''week'', ''month'', ''year'']) None True Unset,
       col ''interval_value'' WholeKind None True Unset,
       col ''grant_on_activation'' FlagKind None False (Scalar (Flag True)),
       col ''missed_cycle_policy'' (ChoiceKind [''skip'', ''latest-only'', ''catch-up'']) None False (Scalar (Text ''skip'')),
       col ''active'' FlagKind None False (Scalar (Flag True)), col ''meta'' DocKind None False Drawn,
       col ''created_at'' MomentKind None False Drawn, col ''updated_at'' MomentKind None False Drawn]\<rparr>"

definition benefit_grant_model :: model where
  "benefit_grant_model = \<lparr>mo_name = ''subscription_benefit_grant'',
     mo_uniques = [Plain [''grant_key''], Plain [''subscription_benefit_id'', ''cycle_key''], Plain [''user_benefit_key'']],
     mo_columns = [points ''subscription_benefit_id'' False SubscriptionBenefit Cascade,
       col ''grant_key'' TextKind (Some 191) False Unset, col ''user_benefit_key'' TextKind (Some 191) True Unset,
       col ''cycle'' WholeKind None False (Scalar (Whole 0)), col ''cycle_key'' TextKind (Some 32) False Unset,
       col ''scheduled_at'' MomentKind None False Unset,
       col ''status'' (ChoiceKind [''processing'', ''completed'', ''skipped'', ''failed'']) None False Unset,
       col ''requested_quantity'' WholeKind None False (Scalar (Whole 0)),
       col ''granted_quantity'' WholeKind None False (Scalar (Whole 0)), col ''result'' DocKind None False Drawn,
       col ''error_code'' TextKind (Some 64) True Unset, col ''error_message'' TextKind None True Unset,
       col ''attempts'' WholeKind None False (Scalar (Whole 0)), col ''started_at'' MomentKind None True Unset,
       col ''completed_at'' MomentKind None True Unset, col ''meta'' DocKind None False Drawn,
       col ''created_at'' MomentKind None False Drawn, col ''updated_at'' MomentKind None False Drawn]\<rparr>"

definition client_request_model :: model where
  "client_request_model = \<lparr>mo_name = ''client_request'',
     mo_uniques = [Plain [''user_id'', ''idempotency_key'']],
     mo_columns = [points ''user_id'' False User Cascade, col ''idempotency_key'' TextKind (Some 128) False Unset,
       col ''endpoint'' TextKind (Some 191) False Unset, col ''answer'' DocKind None True Unset,
       col ''claimed_at'' MomentKind None False Drawn, col ''created_at'' MomentKind None False Drawn,
       col ''updated_at'' MomentKind None False Drawn]\<rparr>"

definition content_model :: model where
  "content_model = \<lparr>mo_name = ''content'',
     mo_uniques = [Plain [''uuid''], InLanguage ''tag''],
     mo_columns = [points ''tenant_id'' True Tenant Cascade, points ''category_id'' True ContentCategory Restrict,
       points ''language_id'' True Language Restrict, col ''title'' TextKind (Some 255) False Unset,
       col ''tag'' TextKind (Some 255) False Unset, col ''content'' TextKind None True Unset,
       col ''published_at'' DayKind None True Unset, col ''active'' FlagKind None False (Scalar (Flag True)),
       col ''meta'' DocKind None False Drawn, col ''uuid'' TextKind (Some 36) False Drawn,
       col ''created_at'' MomentKind None False Drawn, col ''updated_at'' MomentKind None False Drawn]\<rparr>"

definition content_category_model :: model where
  "content_category_model = \<lparr>mo_name = ''content_category'',
     mo_uniques = [Plain [''uuid''], InTenant [''tag'']],
     mo_columns = [points ''tenant_id'' True Tenant Cascade, col ''name'' TextKind (Some 255) False Unset,
       col ''tag'' TextKind (Some 255) False Unset, col ''active'' FlagKind None False (Scalar (Flag True)),
       col ''uuid'' TextKind (Some 36) False Drawn, col ''created_at'' MomentKind None False Drawn,
       col ''updated_at'' MomentKind None False Drawn]\<rparr>"

definition country_model :: model where
  "country_model = \<lparr>mo_name = ''country'',
     mo_uniques = [Plain [''code_iso_3166_1'']],
     mo_columns = [col ''name'' TextKind (Some 128) False Unset, col ''code_iso_3166_1'' TextKind (Some 2) False Unset,
       col ''postal_code_provider'' (ChoiceKind [''viacep'']) None True Unset,
       col ''phone_mask'' TextKind (Some 32) True Unset, col ''active'' FlagKind None False (Scalar (Flag True)),
       col ''created_at'' MomentKind None False Drawn, col ''updated_at'' MomentKind None False Drawn]\<rparr>"

definition credit_transaction_model :: model where
  "credit_transaction_model = \<lparr>mo_name = ''credit_transaction'',
     mo_uniques = [Plain [''idempotency_key'']],
     mo_columns = [points ''user_id'' False User Cascade, points ''currency_id'' False Currency Restrict,
       points ''benefit_grant_id'' True BenefitGrant SetNull,
       col ''type'' (ChoiceKind [''credit'', ''debit'', ''reversal'', ''adjustment'']) None False Unset,
       col ''amount'' WholeKind None False Unset, col ''balance_after'' WholeKind None False Unset,
       col ''idempotency_key'' TextKind (Some 191) False Unset, col ''description'' TextKind (Some 255) True Unset,
       col ''meta'' DocKind None False Drawn, col ''created_at'' MomentKind None False Drawn,
       col ''updated_at'' MomentKind None False Drawn]\<rparr>"

definition currency_model :: model where
  "currency_model = \<lparr>mo_name = ''currency'',
     mo_uniques = [Plain [''uuid''], InTenant [''code'']],
     mo_columns = [points ''tenant_id'' True Tenant Cascade, col ''code'' TextKind (Some 32) False Unset,
       col ''name'' TextKind (Some 128) False Unset, col ''symbol'' TextKind (Some 8) True Unset,
       col ''position'' WholeKind None False (Scalar (Whole 0)), col ''active'' FlagKind None False (Scalar (Flag True)),
       col ''meta'' DocKind None False Drawn, col ''uuid'' TextKind (Some 36) False Drawn,
       col ''created_at'' MomentKind None False Drawn, col ''updated_at'' MomentKind None False Drawn]\<rparr>"

definition email_login_challenge_model :: model where
  "email_login_challenge_model = \<lparr>mo_name = ''email_login_challenge'',
     mo_uniques = [Plain [''scope_key''], Plain [''token'']],
     mo_columns = [points ''tenant_id'' True Tenant Cascade, col ''scope_key'' TextKind (Some 64) False Unset,
       col ''surface'' (ChoiceKind [''site'', ''admin'']) None False Unset, col ''email'' TextKind (Some 255) False Unset,
       col ''token'' TextKind (Some 64) False Unset, col ''code_digest'' TextKind (Some 64) False Unset,
       col ''attempts'' WholeKind None False (Scalar (Whole 0)), col ''expires_at'' MomentKind None False Unset,
       col ''resend_at'' MomentKind None False Unset, col ''consumed_at'' MomentKind None True Unset,
       col ''created_at'' MomentKind None False Drawn, col ''updated_at'' MomentKind None False Drawn]\<rparr>"

definition entitlement_model :: model where
  "entitlement_model = \<lparr>mo_name = ''subscription_entitlement'',
     mo_uniques = [InTenant [''code'']],
     mo_columns = [points ''tenant_id'' True Tenant Cascade, col ''code'' TextKind (Some 64) False Unset,
       col ''name'' TextKind (Some 255) False Unset, col ''description'' TextKind None True Unset,
       col ''active'' FlagKind None False (Scalar (Flag True)), col ''meta'' DocKind None False Drawn,
       col ''created_at'' MomentKind None False Drawn, col ''updated_at'' MomentKind None False Drawn]\<rparr>"

definition external_product_model :: model where
  "external_product_model = \<lparr>mo_name = ''integration_external_product'',
     mo_uniques = [Plain [''integration_id'', ''external_id'']],
     mo_columns = [points ''integration_id'' False Integration Cascade, points ''plan_id'' False Plan Restrict,
       col ''external_id'' TextKind (Some 191) False Unset, col ''display_name'' TextKind (Some 255) True Unset,
       col ''reference_currency'' TextKind (Some 3) True Unset, col ''reference_price'' MoneyKind None True Unset,
       col ''notes'' TextKind None True Unset, col ''active'' FlagKind None False (Scalar (Flag True)),
       col ''meta'' DocKind None False Drawn, col ''created_at'' MomentKind None False Drawn,
       col ''updated_at'' MomentKind None False Drawn]\<rparr>"

definition gallery_model :: model where
  "gallery_model = \<lparr>mo_name = ''gallery'',
     mo_uniques = [Plain [''uuid''], InLanguage ''tag''],
     mo_columns = [points ''tenant_id'' True Tenant Cascade, points ''language_id'' True Language Restrict,
       col ''title'' TextKind (Some 255) False Unset, col ''tag'' TextKind (Some 255) False Unset,
       col ''description'' TextKind None True Unset, col ''published_at'' DayKind None True Unset,
       col ''position'' WholeKind None False (Scalar (Whole 0)), col ''active'' FlagKind None False (Scalar (Flag True)),
       col ''meta'' DocKind None False Drawn, col ''uuid'' TextKind (Some 36) False Drawn,
       col ''created_at'' MomentKind None False Drawn, col ''updated_at'' MomentKind None False Drawn]\<rparr>"

definition gallery_photo_model :: model where
  "gallery_photo_model = \<lparr>mo_name = ''gallery_photo'',
     mo_uniques = [Plain [''uuid'']],
     mo_columns = [points ''gallery_id'' False Gallery Cascade, col ''image'' TextKind (Some 512) False Unset,
       col ''caption'' TextKind (Some 255) True Unset, col ''position'' WholeKind None False (Scalar (Whole 0)),
       col ''uuid'' TextKind (Some 36) False Drawn, col ''created_at'' MomentKind None False Drawn,
       col ''updated_at'' MomentKind None False Drawn]\<rparr>"

definition integration_model :: model where
  "integration_model = \<lparr>mo_name = ''integration'',
     mo_uniques = [Plain [''webhook_key''], InTenant [''provider'']],
     mo_columns = [points ''tenant_id'' True Tenant Cascade,
       col ''provider'' (ChoiceKind [''revenuecat'', ''stripe'']) None False Unset,
       col ''environment'' (ChoiceKind [''sandbox'', ''production'']) None False (Scalar (Text ''production'')),
       col ''webhook_key'' TextKind (Some 64) False Unset, col ''revenuecat_api_key_encrypted'' TextKind None True Unset,
       col ''revenuecat_webhook_secret_encrypted'' TextKind None True Unset,
       col ''stripe_api_key_encrypted'' TextKind None True Unset,
       col ''stripe_webhook_secret_encrypted'' TextKind None True Unset,
       col ''active'' FlagKind None False (Scalar (Flag True)), col ''meta'' DocKind None False Drawn,
       col ''created_at'' MomentKind None False Drawn, col ''updated_at'' MomentKind None False Drawn]\<rparr>"

definition language_model :: model where
  "language_model = \<lparr>mo_name = ''language'',
     mo_uniques = [Plain [''code_iso_639_1'']],
     mo_columns = [col ''name'' TextKind (Some 255) False Unset, col ''native_name'' TextKind (Some 255) False Unset,
       col ''code_iso_639_1'' TextKind (Some 8) False Unset, col ''code_iso_language'' TextKind (Some 16) False Unset,
       col ''active'' FlagKind None False (Scalar (Flag True)), col ''created_at'' MomentKind None False Drawn,
       col ''updated_at'' MomentKind None False Drawn]\<rparr>"

definition login_ticket_model :: model where
  "login_ticket_model = \<lparr>mo_name = ''login_ticket'',
     mo_uniques = [Plain [''token_digest'']],
     mo_columns = [points ''tenant_id'' True Tenant Cascade, points ''user_id'' False User Cascade,
       col ''session_epoch'' WholeKind None False Unset, col ''token_digest'' TextKind (Some 64) False Unset,
       col ''browser_digest'' TextKind (Some 64) False Unset, col ''expires_at'' MomentKind None False Unset,
       col ''consumed_at'' MomentKind None True Unset, col ''created_at'' MomentKind None False Drawn,
       col ''updated_at'' MomentKind None False Drawn]\<rparr>"

definition newsletter_subscription_model :: model where
  "newsletter_subscription_model = \<lparr>mo_name = ''newsletter_subscription'',
     mo_uniques = [InTenant [''email''], Plain [''token'']],
     mo_columns = [points ''tenant_id'' True Tenant Cascade, col ''email'' TextKind (Some 320) False Unset,
       col ''locale'' TextKind (Some 8) False Unset, col ''token'' TextKind (Some 36) False Drawn,
       col ''status'' (ChoiceKind [''pending'', ''confirmed'', ''unsubscribed'']) None False (Scalar (Text ''pending'')),
       col ''invited_at'' MomentKind None True Unset, col ''settled_at'' MomentKind None True Unset,
       col ''created_at'' MomentKind None False Drawn, col ''updated_at'' MomentKind None False Drawn]\<rparr>"

definition outbound_email_model :: model where
  "outbound_email_model = \<lparr>mo_name = ''outbound_email'',
     mo_uniques = [],
     mo_columns = [points ''tenant_id'' True Tenant Cascade, col ''to_address'' TextKind (Some 320) False Unset,
       col ''reply_to'' TextKind (Some 320) True Unset, col ''subject'' TextKind (Some 255) False Unset,
       col ''template'' TextKind (Some 191) False Unset, col ''locale'' TextKind (Some 8) False Unset,
       col ''context'' DocKind None False Drawn,
       col ''status'' (ChoiceKind [''pending'', ''sending'', ''sent'', ''failed'', ''refused'']) None False (Scalar (Text ''pending'')),
       col ''attempts'' WholeKind None False (Scalar (Whole 0)), col ''error_code'' TextKind (Some 64) True Unset,
       col ''error_message'' TextKind None True Unset, col ''sent_at'' MomentKind None True Unset,
       col ''created_at'' MomentKind None False Drawn, col ''updated_at'' MomentKind None False Drawn]\<rparr>"

definition plan_model :: model where
  "plan_model = \<lparr>mo_name = ''subscription_plan'',
     mo_uniques = [Plain [''uuid''], InLanguage ''code''],
     mo_columns = [points ''tenant_id'' True Tenant Cascade, points ''language_id'' True Language Restrict,
       col ''code'' TextKind (Some 64) False Unset, col ''name'' TextKind (Some 255) False Unset,
       col ''description'' TextKind None True Unset, col ''image'' TextKind (Some 512) True Unset,
       col ''currency'' TextKind (Some 3) False (Scalar (Text ''USD'')),
       col ''price'' MoneyKind None False (Scalar (Price 0)),
       col ''billing_interval_unit'' (ChoiceKind [''day'', ''week'', ''month'', ''year'']) None True Unset,
       col ''billing_interval_value'' WholeKind None True Unset,
       col ''resume_delivery_policy'' (ChoiceKind [''same-cycle'', ''new-cycle'']) None False (Scalar (Text ''same-cycle'')),
       col ''trial_benefit_policy'' (ChoiceKind [''none'', ''access-only'', ''all'']) None False (Scalar (Text ''access-only'')),
       col ''grace_benefit_policy'' (ChoiceKind [''none'', ''access-only'', ''all'']) None False (Scalar (Text ''access-only'')),
       col ''featured'' FlagKind None False (Scalar (Flag False)), col ''position'' WholeKind None False (Scalar (Whole 0)),
       col ''active'' FlagKind None False (Scalar (Flag True)), col ''meta'' DocKind None False Drawn,
       col ''uuid'' TextKind (Some 36) False Drawn, col ''created_at'' MomentKind None False Drawn,
       col ''updated_at'' MomentKind None False Drawn]\<rparr>"

definition plan_entitlement_model :: model where
  "plan_entitlement_model = \<lparr>mo_name = ''subscription_plan_entitlement'',
     mo_uniques = [Plain [''plan_id'', ''entitlement_id'']],
     mo_columns = [points ''plan_id'' False Plan Cascade, points ''entitlement_id'' False Entitlement Cascade,
       col ''meta'' DocKind None False Drawn, col ''created_at'' MomentKind None False Drawn,
       col ''updated_at'' MomentKind None False Drawn]\<rparr>"

definition product_model :: model where
  "product_model = \<lparr>mo_name = ''commerce_product'',
     mo_uniques = [Plain [''uuid''], InTenant [''slug'']],
     mo_columns = [points ''tenant_id'' True Tenant Cascade, col ''name'' TextKind (Some 255) False Unset,
       col ''slug'' TextKind (Some 255) False Unset, col ''description'' TextKind None True Unset,
       col ''image'' TextKind (Some 512) True Unset, col ''file'' TextKind (Some 512) True Unset,
       col ''currency'' TextKind (Some 3) False (Scalar (Text ''USD'')),
       col ''price'' MoneyKind None False (Scalar (Price 0)), col ''credits'' WholeKind None False (Scalar (Whole 0)),
       points ''credits_currency_id'' True Currency Restrict, col ''featured'' FlagKind None False (Scalar (Flag False)),
       col ''position'' WholeKind None False (Scalar (Whole 0)), col ''active'' FlagKind None False (Scalar (Flag True)),
       col ''meta'' DocKind None False Drawn, col ''uuid'' TextKind (Some 36) False Drawn,
       col ''created_at'' MomentKind None False Drawn, col ''updated_at'' MomentKind None False Drawn]\<rparr>"

definition purchase_model :: model where
  "purchase_model = \<lparr>mo_name = ''commerce_purchase'',
     mo_uniques = [Plain [''reference''], Plain [''integration_id'', ''external_id'']],
     mo_columns = [points ''tenant_id'' True Tenant Cascade, points ''user_id'' False User Cascade,
       points ''product_id'' False Product Restrict, points ''integration_id'' True Integration Restrict,
       col ''reference'' TextKind (Some 64) False Drawn, col ''external_id'' TextKind (Some 191) True Unset,
       col ''currency'' TextKind (Some 3) False Unset, col ''price'' MoneyKind None False Unset,
       col ''status'' (ChoiceKind [''pending'', ''paid'', ''canceled'', ''failed'', ''refunded'', ''charged-back'']) None False (Scalar (Text ''pending'')),
       col ''paid_at'' MomentKind None True Unset, col ''meta'' DocKind None False Drawn,
       col ''created_at'' MomentKind None False Drawn, col ''updated_at'' MomentKind None False Drawn]\<rparr>"

definition social_identity_model :: model where
  "social_identity_model = \<lparr>mo_name = ''social_identity'',
     mo_uniques = [InTenant [''provider'', ''subject''], Plain [''user_id'', ''provider'']],
     mo_columns = [points ''tenant_id'' True Tenant Cascade, points ''user_id'' False User Cascade,
       col ''provider'' (ChoiceKind [''google'', ''apple'', ''facebook'', ''instagram'', ''github'', ''linkedin'', ''microsoft'', ''discord'']) None False Unset,
       col ''subject'' TextKind (Some 255) False Unset, col ''created_at'' MomentKind None False Drawn,
       col ''updated_at'' MomentKind None False Drawn]\<rparr>"

definition social_login_attempt_model :: model where
  "social_login_attempt_model = \<lparr>mo_name = ''social_login_attempt'',
     mo_uniques = [Plain [''state_digest'']],
     mo_columns = [points ''tenant_id'' True Tenant Cascade, points ''user_id'' True User Cascade,
       col ''session_epoch'' WholeKind None True Unset, col ''surface'' (ChoiceKind [''site'', ''admin'']) None False Unset,
       col ''provider'' (ChoiceKind [''google'', ''apple'', ''facebook'', ''instagram'', ''github'', ''linkedin'', ''microsoft'', ''discord'']) None False Unset,
       col ''state_digest'' TextKind (Some 64) False Unset, col ''browser_digest'' TextKind (Some 64) False Unset,
       col ''nonce'' TextKind (Some 64) False Unset, col ''verifier_encrypted'' TextKind None False Unset,
       col ''redirect_uri'' TextKind (Some 1024) False Unset, col ''next_path'' TextKind (Some 2048) False Unset,
       col ''expires_at'' MomentKind None False Unset, col ''consumed_at'' MomentKind None True Unset,
       col ''created_at'' MomentKind None False Drawn, col ''updated_at'' MomentKind None False Drawn]\<rparr>"

definition stored_file_model :: model where
  "stored_file_model = \<lparr>mo_name = ''stored_file'',
     mo_uniques = [Plain [''uuid'']],
     mo_columns = [col ''uuid'' TextKind (Some 36) False Unset, col ''key'' TextKind (Some 512) False Unset,
       col ''purpose'' (ChoiceKind [''image'', ''avatar'', ''banner'', ''gallery-photo'', ''product-image'', ''product-file'', ''plan-image'']) None False Unset,
       col ''size'' WholeKind None False Unset, col ''claimed_at'' MomentKind None True Unset,
       col ''created_at'' MomentKind None False Drawn, col ''updated_at'' MomentKind None False Drawn]\<rparr>"

definition stored_file_mention_model :: model where
  "stored_file_mention_model = \<lparr>mo_name = ''stored_file_mention'',
     mo_uniques = [Plain [''stored_file_id'', ''owner'']],
     mo_columns = [points ''stored_file_id'' False StoredFile Cascade, col ''owner'' TextKind (Some 96) False Unset,
       col ''created_at'' MomentKind None False Drawn, col ''updated_at'' MomentKind None False Drawn]\<rparr>"

definition subscription_model :: model where
  "subscription_model = \<lparr>mo_name = ''subscription'',
     mo_uniques = [Plain [''integration_id'', ''external_id''], Plain [''user_id'', ''integration_id'', ''external_product_id'']],
     mo_columns = [points ''tenant_id'' True Tenant Cascade, points ''user_id'' False User Cascade,
       points ''plan_id'' False Plan Restrict, points ''integration_id'' True Integration Restrict,
       points ''external_product_id'' True ExternalProduct Restrict, col ''external_id'' TextKind (Some 191) True Unset,
       col ''status'' (ChoiceKind [''pending'', ''trialing'', ''active'', ''grace-period'', ''suspended'', ''expired'', ''revoked'']) None False (Scalar (Text ''pending'')),
       col ''benefit_status'' (ChoiceKind [''active'', ''paused'', ''ended'']) None False (Scalar (Text ''active'')),
       col ''environment'' (ChoiceKind [''sandbox'', ''production'']) None True Unset,
       col ''started_at'' MomentKind None True Unset, col ''current_period_started_at'' MomentKind None True Unset,
       col ''current_period_ends_at'' MomentKind None True Unset, col ''access_until'' MomentKind None True Unset,
       col ''trial_ends_at'' MomentKind None True Unset, col ''grace_until'' MomentKind None True Unset,
       col ''cancel_at_period_end'' FlagKind None False (Scalar (Flag False)),
       col ''canceled_at'' MomentKind None True Unset, col ''expired_at'' MomentKind None True Unset,
       col ''stated_at'' MomentKind None True Unset, col ''meta'' DocKind None False Drawn,
       col ''created_at'' MomentKind None False Drawn, col ''updated_at'' MomentKind None False Drawn]\<rparr>"

definition subscription_benefit_model :: model where
  "subscription_benefit_model = \<lparr>mo_name = ''subscription_benefit'',
     mo_uniques = [Plain [''subscription_id'', ''benefit_id'']],
     mo_columns = [points ''subscription_id'' False Subscription Cascade, points ''benefit_id'' False Benefit Restrict,
       points ''user_entitlement_id'' False UserEntitlement Cascade, points ''product_id'' True Product Restrict,
       points ''currency_id'' True Currency Restrict,
       col ''status'' (ChoiceKind [''active'', ''paused'', ''ended'']) None False (Scalar (Text ''active'')),
       col ''benefit_type'' (ChoiceKind [''access'', ''credit'', ''product'']) None False Unset,
       col ''target'' TextKind (Some 191) False Unset, col ''quantity'' WholeKind None False Unset,
       col ''cadence'' (ChoiceKind [''on-activation'', ''recurring'', ''once-per-user'']) None False Unset,
       col ''interval_unit'' (ChoiceKind [''day'', ''week'', ''month'', ''year'']) None True Unset,
       col ''interval_value'' WholeKind None True Unset,
       col ''grant_on_activation'' FlagKind None False (Scalar (Flag True)),
       col ''missed_cycle_policy'' (ChoiceKind [''skip'', ''latest-only'', ''catch-up'']) None False (Scalar (Text ''skip'')),
       col ''anchor_at'' MomentKind None False Unset, col ''cycle'' WholeKind None False (Scalar (Whole 0)),
       col ''last_grant_at'' MomentKind None True Unset, col ''next_grant_at'' MomentKind None True Unset,
       col ''meta'' DocKind None False Drawn, col ''created_at'' MomentKind None False Drawn,
       col ''updated_at'' MomentKind None False Drawn]\<rparr>"

definition suppressed_address_model :: model where
  "suppressed_address_model = \<lparr>mo_name = ''email_suppressed_address'',
     mo_uniques = [Plain [''address'']],
     mo_columns = [col ''address'' TextKind (Some 320) False Unset, col ''reason'' TextKind (Some 255) False Unset,
       col ''created_at'' MomentKind None False Drawn, col ''updated_at'' MomentKind None False Drawn]\<rparr>"

definition system_log_model :: model where
  "system_log_model = \<lparr>mo_name = ''system_log'',
     mo_uniques = [],
     mo_columns = [points ''tenant_id'' True Tenant Cascade, points ''user_id'' True User SetNull,
       col ''level'' (ChoiceKind [''info'', ''success'', ''warning'', ''error'']) None False Unset,
       col ''category'' (ChoiceKind [''cron'', ''admin'', ''account'', ''purchase'', ''content'']) None True Unset,
       col ''description'' TextKind None False Unset, col ''meta'' DocKind None False Drawn,
       col ''created_at'' MomentKind None False Drawn, col ''updated_at'' MomentKind None False Drawn]\<rparr>"

definition tenant_model :: model where
  "tenant_model = \<lparr>mo_name = ''tenant'',
     mo_uniques = [Plain [''code''], Plain [''domain'']],
     mo_columns = [col ''code'' TextKind (Some 64) False Unset, col ''name'' TextKind (Some 128) False Unset,
       col ''domain'' TextKind (Some 255) False Unset, col ''email_contact'' TextKind (Some 255) False Unset,
       col ''active'' FlagKind None False (Scalar (Flag True)), col ''meta'' DocKind None False Drawn,
       col ''created_at'' MomentKind None False Drawn, col ''updated_at'' MomentKind None False Drawn]\<rparr>"

definition user_model :: model where
  "user_model = \<lparr>mo_name = ''user'',
     mo_uniques = [Plain [''token''], InTenant [''username''], InTenant [''email''], InTenant [''document''], InTenant [''mobile_phone'']],
     mo_columns = [col ''token'' TextKind (Some 36) False Drawn, points ''tenant_id'' True Tenant Cascade,
       points ''language_id'' True Language Restrict, col ''username'' TextKind (Some 64) True Unset,
       col ''email'' TextKind (Some 255) True Unset, col ''document'' TextKind (Some 11) True Unset,
       col ''mobile_phone'' TextKind (Some 16) True Unset, col ''password_hash'' TextKind (Some 255) False Unset,
       col ''role'' (ChoiceKind [''normal'', ''editor'', ''administrator'']) None False (Scalar (Text ''normal'')),
       col ''reaches_shared'' FlagKind None False (Scalar (Flag False)),
       col ''status'' (ChoiceKind [''pending'', ''active'', ''blocked'', ''erased'']) None False (Scalar (Text ''active'')),
       col ''first_name'' TextKind (Some 128) True Unset, col ''last_name'' TextKind (Some 128) True Unset,
       col ''nickname'' TextKind (Some 128) True Unset,
       col ''gender'' (ChoiceKind [''male'', ''female'', ''none'']) None False (Scalar (Text ''none'')),
       col ''avatar'' TextKind (Some 512) True Unset, col ''timezone'' TextKind (Some 64) False (Scalar (Text ''UTC'')),
       col ''notes'' TextKind None True Unset, col ''recovery_token'' TextKind (Some 64) True Unset,
       col ''recovery_token_created_at'' MomentKind None True Unset, col ''pending_email'' TextKind (Some 255) True Unset,
       col ''confirmation_token'' TextKind (Some 64) True Unset, col ''confirmation_sent_at'' MomentKind None True Unset,
       col ''reconciled_at'' MomentKind None True Unset, col ''last_login_at'' MomentKind None True Unset,
       col ''failed_sign_ins'' WholeKind None False (Scalar (Whole 0)),
       col ''sign_in_blocked_until'' MomentKind None True Unset,
       col ''session_epoch'' WholeKind None False (Scalar (Whole 0)), col ''erased_at'' MomentKind None True Unset,
       col ''meta'' DocKind None False Drawn, col ''created_at'' MomentKind None False Drawn,
       col ''updated_at'' MomentKind None False Drawn]\<rparr>"

definition user_address_model :: model where
  "user_address_model = \<lparr>mo_name = ''user_address'',
     mo_uniques = [Plain [''user_id'', ''type'']],
     mo_columns = [points ''user_id'' False User Cascade,
       col ''type'' (ChoiceKind [''main'', ''billing'', ''shipping'']) None False (Scalar (Text ''main'')),
       col ''line1'' TextKind (Some 255) False Unset, col ''street_number'' TextKind (Some 32) True Unset,
       col ''complement'' TextKind (Some 255) True Unset, col ''district'' TextKind (Some 128) True Unset,
       col ''city'' TextKind (Some 128) False Unset, col ''state'' TextKind (Some 128) False Unset,
       col ''postal_code'' TextKind (Some 32) False Unset, col ''country_code'' TextKind (Some 2) False Unset,
       col ''meta'' DocKind None False Drawn, col ''created_at'' MomentKind None False Drawn,
       col ''updated_at'' MomentKind None False Drawn]\<rparr>"

definition user_balance_model :: model where
  "user_balance_model = \<lparr>mo_name = ''user_balance'',
     mo_uniques = [Plain [''user_id'', ''currency_id'']],
     mo_columns = [points ''user_id'' False User Cascade, points ''currency_id'' False Currency Restrict,
       col ''amount'' WholeKind None False (Scalar (Whole 0)), col ''created_at'' MomentKind None False Drawn,
       col ''updated_at'' MomentKind None False Drawn]\<rparr>"

definition user_entitlement_model :: model where
  "user_entitlement_model = \<lparr>mo_name = ''subscription_user_entitlement'',
     mo_uniques = [Plain [''subscription_id'', ''entitlement_id'']],
     mo_columns = [points ''subscription_id'' False Subscription Cascade, points ''entitlement_id'' False Entitlement Restrict,
       col ''status'' (ChoiceKind [''active'', ''expired'']) None False (Scalar (Text ''active'')),
       col ''started_at'' MomentKind None True Unset, col ''expires_at'' MomentKind None True Unset,
       col ''revoked_at'' MomentKind None True Unset, col ''meta'' DocKind None False Drawn,
       col ''created_at'' MomentKind None False Drawn, col ''updated_at'' MomentKind None False Drawn]\<rparr>"

definition user_product_model :: model where
  "user_product_model = \<lparr>mo_name = ''user_product'',
     mo_uniques = [Plain [''user_id'', ''product_id'']],
     mo_columns = [points ''user_id'' False User Cascade, points ''product_id'' False Product Restrict,
       points ''purchase_id'' True Purchase SetNull, points ''subscription_id'' True Subscription SetNull,
       points ''benefit_grant_id'' True BenefitGrant SetNull, col ''granted_at'' MomentKind None False Drawn,
       col ''meta'' DocKind None False Drawn, col ''created_at'' MomentKind None False Drawn,
       col ''updated_at'' MomentKind None False Drawn]\<rparr>"

definition webhook_event_model :: model where
  "webhook_event_model = \<lparr>mo_name = ''integration_webhook_event'',
     mo_uniques = [Plain [''integration_id'', ''external_event_id'']],
     mo_columns = [points ''tenant_id'' True Tenant Cascade, points ''integration_id'' False Integration Cascade,
       points ''user_id'' True User SetNull, points ''subscription_id'' True Subscription SetNull,
       col ''external_event_id'' TextKind (Some 191) False Unset, col ''payload_hash'' TextKind (Some 64) False Unset,
       col ''action'' (ChoiceKind [''activate'', ''renew'', ''cancel-at-period-end'', ''suspend'', ''resume'', ''expire'', ''refund'', ''change-plan'', ''enter-grace'', ''extend'']) None True Unset,
       col ''payload'' DocKind None False Drawn, col ''amount'' MoneyKind None True Unset,
       col ''currency'' TextKind (Some 3) True Unset, col ''occurred_at'' MomentKind None True Unset,
       col ''processed_at'' MomentKind None True Unset,
       col ''status'' (ChoiceKind [''received'', ''processing'', ''completed'', ''ignored'', ''failed'']) None False (Scalar (Text ''received'')),
       col ''error_code'' TextKind (Some 64) True Unset, col ''error_message'' TextKind None True Unset,
       col ''attempts'' WholeKind None False (Scalar (Whole 0)), col ''meta'' DocKind None False Drawn,
       col ''created_at'' MomentKind None False Drawn, col ''updated_at'' MomentKind None False Drawn]\<rparr>"

fun model_of :: "table \<Rightarrow> model" where
  "model_of AppEvent = app_event_model"
| "model_of Banner = banner_model"
| "model_of BannerImpression = banner_impression_model"
| "model_of Benefit = benefit_model"
| "model_of BenefitGrant = benefit_grant_model"
| "model_of ClientRequest = client_request_model"
| "model_of Content = content_model"
| "model_of ContentCategory = content_category_model"
| "model_of Country = country_model"
| "model_of CreditTransaction = credit_transaction_model"
| "model_of Currency = currency_model"
| "model_of EmailLoginChallenge = email_login_challenge_model"
| "model_of Entitlement = entitlement_model"
| "model_of ExternalProduct = external_product_model"
| "model_of Gallery = gallery_model"
| "model_of GalleryPhoto = gallery_photo_model"
| "model_of Integration = integration_model"
| "model_of Language = language_model"
| "model_of LoginTicket = login_ticket_model"
| "model_of NewsletterSubscription = newsletter_subscription_model"
| "model_of OutboundEmail = outbound_email_model"
| "model_of Plan = plan_model"
| "model_of PlanEntitlement = plan_entitlement_model"
| "model_of Product = product_model"
| "model_of Purchase = purchase_model"
| "model_of SocialIdentity = social_identity_model"
| "model_of SocialLoginAttempt = social_login_attempt_model"
| "model_of StoredFile = stored_file_model"
| "model_of StoredFileMention = stored_file_mention_model"
| "model_of Subscription = subscription_model"
| "model_of SubscriptionBenefit = subscription_benefit_model"
| "model_of SuppressedAddress = suppressed_address_model"
| "model_of SystemLog = system_log_model"
| "model_of Tenant = tenant_model"
| "model_of User = user_model"
| "model_of UserAddress = user_address_model"
| "model_of UserBalance = user_balance_model"
| "model_of UserEntitlement = user_entitlement_model"
| "model_of UserProduct = user_product_model"
| "model_of WebhookEvent = webhook_event_model"

definition tables :: "table list" where
  "tables = [AppEvent, Banner, BannerImpression, Benefit, BenefitGrant, ClientRequest, Content, ContentCategory,
     Country, CreditTransaction, Currency, EmailLoginChallenge, Entitlement, ExternalProduct, Gallery, GalleryPhoto,
     Integration, Language, LoginTicket, NewsletterSubscription, OutboundEmail, Plan, PlanEntitlement, Product,
     Purchase, SocialIdentity, SocialLoginAttempt, StoredFile, StoredFileMention, Subscription, SubscriptionBenefit, SuppressedAddress,
     SystemLog, Tenant, User, UserAddress, UserBalance, UserEntitlement, UserProduct, WebhookEvent]"

lemmas models = app_event_model_def banner_model_def banner_impression_model_def benefit_model_def
  benefit_grant_model_def client_request_model_def content_model_def content_category_model_def
  country_model_def credit_transaction_model_def currency_model_def email_login_challenge_model_def
  entitlement_model_def external_product_model_def gallery_model_def gallery_photo_model_def
  integration_model_def language_model_def login_ticket_model_def newsletter_subscription_model_def
  outbound_email_model_def plan_model_def plan_entitlement_model_def product_model_def
  purchase_model_def social_identity_model_def social_login_attempt_model_def stored_file_model_def
  stored_file_mention_model_def subscription_model_def subscription_benefit_model_def suppressed_address_model_def
  system_log_model_def tenant_model_def user_model_def user_address_model_def
  user_balance_model_def user_entitlement_model_def user_product_model_def webhook_event_model_def

lemma all_tables: "t \<in> set tables"
  by (cases t) (simp_all add: tables_def)

section \<open>Reading the schema\<close>

definition columns :: "table \<Rightarrow> column list" where
  "columns t = mo_columns (model_of t)"

definition column_of :: "table \<Rightarrow> string \<Rightarrow> column option" where
  "column_of t name = List.find (\<lambda>c. co_name c = name) (columns t)"

definition has_column :: "table \<Rightarrow> string \<Rightarrow> bool" where
  "has_column t name \<longleftrightarrow> column_of t name \<noteq> None"

definition has_tenant :: "table \<Rightarrow> bool" where
  "has_tenant t \<longleftrightarrow> has_column t ''tenant_id''"

text \<open>\<open>referenced(model)\<close>: every column that points at another row, by the model it points at.\<close>

definition referenced :: "table \<Rightarrow> (string \<times> table) list" where
  "referenced t = List.map_filter (\<lambda>c. map_option (\<lambda>p. (co_name c, fst p)) (co_points c)) (columns t)"

text \<open>Every column of the schema that points at a table, and what happens to its row when the row it points at goes.\<close>

definition pointing :: "table \<Rightarrow> (table \<times> string \<times> on_delete) list" where
  "pointing t = concat (map (\<lambda>u. List.map_filter (\<lambda>c. case co_points c of
       Some (target, gone) \<Rightarrow> if target = t then Some (u, co_name c, gone) else None | None \<Rightarrow> None) (columns u)) tables)"

end
