(* ===== verification/Panel.thy ===== *)
theory Panel
  imports Registry
begin

text \<open>
  The database as the generic services of the panel see it: every table of the schema as the list of its rows in the order of
  their keys, and a row as its key and a value per column. A session holds the rows its transaction sees, those last committed, the
  moment, and the keys the storage was asked to delete. A statement is refused the way the schema refuses it: a value that
  may not be null, a key that names no row, a unique key held twice, and a deletion of a row a RESTRICT still points at.
\<close>

section \<open>Rows and sessions\<close>

record item = row +
  cells :: "string \<Rightarrow> cell"

type_synonym shelves = "table \<Rightarrow> item list"

record panel =
  open_rows :: shelves
  committed :: shelves
  moment :: datetime
  discarded :: "string list"

type_synonym 'a desk = "(panel, 'a) svc"

text \<open>A key column names a row by its number.\<close>

definition key_to :: "nat \<Rightarrow> cell" where
  "key_to i = Whole (int i)"

definition names_one :: "item list \<Rightarrow> cell \<Rightarrow> bool" where
  "names_one t v \<longleftrightarrow> list_ex (\<lambda>r. key_to (rid r) = v) t"

definition setattr :: "string \<Rightarrow> cell \<Rightarrow> item \<Rightarrow> item" where
  "setattr name v r = r\<lparr>cells := (cells r)(name := v)\<rparr>"

section \<open>What the schema refuses\<close>

definition whole_row :: "table \<Rightarrow> item \<Rightarrow> bool" where
  "whole_row t r \<longleftrightarrow> list_all (\<lambda>c. co_nullable c \<or> cells r (co_name c) \<noteq> Null) (columns t)"

definition anchored :: "shelves \<Rightarrow> table \<Rightarrow> item \<Rightarrow> bool" where
  "anchored sh t r \<longleftrightarrow> list_all (\<lambda>(name, target). cells r name = Null \<or> names_one (sh target) (cells r name)) (referenced t)"

text \<open>What a unique key compares, where a null is equal to nothing and a row of no tenant sits in a scope of its own.\<close>

definition coalesced :: "cell \<Rightarrow> cell" where
  "coalesced v = (if v = Null then Whole 0 else v)"

definition no_nulls :: "cell list \<Rightarrow> cell list option" where
  "no_nulls vs = (if Null \<in> set vs then None else Some vs)"

fun unique_key :: "unique \<Rightarrow> item \<Rightarrow> cell list option" where
  "unique_key (Plain names) r = no_nulls (map (cells r) names)"
| "unique_key (InTenant names) r = no_nulls (coalesced (cells r ''tenant_id'') # map (cells r) names)"
| "unique_key (InLanguage name) r =
     no_nulls [coalesced (cells r ''tenant_id''), cells r name, coalesced (cells r ''language_id'')]"

definition alone :: "table \<Rightarrow> item list \<Rightarrow> item \<Rightarrow> bool" where
  "alone t others r \<longleftrightarrow> list_all (\<lambda>u. free_of (unique_key u) others r) (mo_uniques (model_of t))"

definition fits :: "shelves \<Rightarrow> table \<Rightarrow> item \<Rightarrow> bool" where
  "fits sh t r \<longleftrightarrow> whole_row t r \<and> anchored sh t r \<and> alone t (filter (\<lambda>q. rid q \<noteq> rid r) (sh t)) r"

section \<open>Reading and writing\<close>

definition look :: "(shelves \<Rightarrow> 'a) \<Rightarrow> 'a desk" where
  "look f = reads (\<lambda>s. f (open_rows s))"

definition hour :: "datetime desk" where
  "hour = reads moment"

definition settle_rows :: "unit desk" where
  "settle_rows = writes (\<lambda>s. s\<lparr>committed := open_rows s\<rparr>)"

definition undo_rows :: "unit desk" where
  "undo_rows = writes (\<lambda>s. s\<lparr>open_rows := committed s\<rparr>)"

definition put_rows :: "table \<Rightarrow> item list \<Rightarrow> unit desk" where
  "put_rows t rows = writes (\<lambda>s. s\<lparr>open_rows := (open_rows s)(t := rows)\<rparr>)"

text \<open>INSERT: the row under the next key of its table.\<close>

definition insert_row :: "table \<Rightarrow> item \<Rightarrow> item desk" where
  "insert_row t r =
     andThen (look (\<lambda>sh. sh)) (\<lambda>sh.
     let new = r\<lparr>rid := next_id (sh t)\<rparr>
     in if fits sh t new then andThen (put_rows t (append_row r (sh t))) (\<lambda>_. ret new) else throw IntegrityError)"

text \<open>UPDATE of one row, which becomes the one it is given.\<close>

definition write_row :: "table \<Rightarrow> item \<Rightarrow> unit desk" where
  "write_row t r =
     andThen (look (\<lambda>sh. sh)) (\<lambda>sh.
     if fits sh t r then put_rows t (amend (\<lambda>q. rid q = rid r) (\<lambda>_. r) (sh t)) else throw IntegrityError)"

text \<open>
  UPDATE of the columns no key and no constraint is about, which answers its rowcount. Every mapped table stamps \<open>updated_at\<close> as it is
  written.
\<close>

definition marked :: "datetime \<Rightarrow> string \<Rightarrow> cell \<Rightarrow> item \<Rightarrow> item" where
  "marked t name v r = setattr ''updated_at'' (Moment t) (setattr name v r)"

definition mark_rows :: "table \<Rightarrow> (item \<Rightarrow> bool) \<Rightarrow> string \<Rightarrow> cell \<Rightarrow> nat desk" where
  "mark_rows t p name v =
     andThen (look (\<lambda>sh. sh t)) (\<lambda>rows.
     andThen hour (\<lambda>now.
     andThen (put_rows t (amend p (marked now name v) rows)) (\<lambda>_. ret (hits p rows))))"

section \<open>What goes with a row\<close>

text \<open>How far what a row takes with it, or lets go of, reaches below its table.\<close>

fun height :: "table \<Rightarrow> nat" where
  "height Tenant = 6"
| "height User = 5"
| "height Subscription = 4"
| "height UserEntitlement = 3"
| "height SubscriptionBenefit = 2"
| "height BenefitGrant = 1"
| "height Purchase = 1"
| "height Banner = 1"
| "height Entitlement = 1"
| "height Gallery = 1"
| "height Integration = 1"
| "height Plan = 1"
| "height StoredFile = 1"
| "height _ = 0"

definition pointing_rows :: "shelves \<Rightarrow> table \<Rightarrow> string \<Rightarrow> nat list \<Rightarrow> nat list" where
  "pointing_rows sh u name ids = map rid (filter (\<lambda>r. list_ex (\<lambda>i. cells r name = key_to i) ids) (sh u))"

text \<open>The rows that go with these: themselves, and whatever a CASCADE takes with them.\<close>

fun doomed :: "nat \<Rightarrow> shelves \<Rightarrow> table \<Rightarrow> nat list \<Rightarrow> (table \<times> nat) list" where
  "doomed 0 sh t ids = []"
| "doomed (Suc n) sh t ids =
     (if ids = [] then [] else
      map (Pair t) ids @ concat (map (\<lambda>(u, name, gone).
        if gone = Cascade then doomed n sh u (pointing_rows sh u name ids) else []) (pointing t)))"

definition gone_with :: "shelves \<Rightarrow> table \<Rightarrow> nat list \<Rightarrow> (table \<times> nat) list" where
  "gone_with sh t ids = doomed (Suc (height t)) sh t ids"

text \<open>The rows a RESTRICT keeps: any that one still standing when the statement began points at, whatever else goes with it.\<close>

definition restricted :: "shelves \<Rightarrow> (table \<times> nat) list \<Rightarrow> bool" where
  "restricted sh going \<longleftrightarrow>
     list_ex (\<lambda>(t, i). list_ex (\<lambda>(u, name, gone). gone = Restrict \<and> pointing_rows sh u name [i] \<noteq> []) (pointing t)) going"

definition let_go :: "(table \<times> nat) list \<Rightarrow> table \<Rightarrow> item \<Rightarrow> item" where
  "let_go going u r = r\<lparr>cells := \<lambda>name. if list_ex (\<lambda>c. co_name c = name \<and> (case co_points c of
         Some (t, SetNull) \<Rightarrow> list_ex (\<lambda>(v, i). v = t \<and> cells r name = key_to i) going | _ \<Rightarrow> False)) (columns u)
       then Null else cells r name\<rparr>"

definition struck :: "(table \<times> nat) list \<Rightarrow> shelves \<Rightarrow> shelves" where
  "struck going sh = (\<lambda>u. map (let_go going u) (filter (\<lambda>r. (u, rid r) \<notin> set going) (sh u)))"

text \<open>DELETE, which answers its rowcount.\<close>

definition delete_rows :: "table \<Rightarrow> (item \<Rightarrow> bool) \<Rightarrow> nat desk" where
  "delete_rows t p =
     andThen (look (\<lambda>sh. sh)) (\<lambda>sh.
     let ids = map rid (filter p (sh t)); going = gone_with sh t ids
     in if restricted sh going then throw IntegrityError
        else andThen (writes (\<lambda>s. s\<lparr>open_rows := struck going sh\<rparr>)) (\<lambda>_. ret (length ids)))"

section \<open>What settles a race, and what refuses\<close>

text \<open>\<open>insert_or_read\<close> of \<^verbatim>\<open>helpers/db.py\<close>: the row that answers the read, or the one it wrote, or nothing.\<close>

definition written_or_read :: "table \<Rightarrow> (item \<Rightarrow> bool) \<Rightarrow> item \<Rightarrow> item option desk" where
  "written_or_read t q r =
     andThen (look (\<lambda>sh. List.find q (sh t))) (\<lambda>found. case found of
       Some settled \<Rightarrow> ret (Some settled)
     | None \<Rightarrow> handle (andThen (insert_row t r) (\<lambda>new. ret (Some new))) (\<lambda>e. case e of
           IntegrityError \<Rightarrow> look (\<lambda>sh. List.find q (sh t))
         | _ \<Rightarrow> throw e))"

definition refusing_rows :: "string \<Rightarrow> 'a desk \<Rightarrow> 'a desk" where
  "refusing_rows code m = handle m (\<lambda>e. case e of
       IntegrityError \<Rightarrow> andThen undo_rows (\<lambda>_. throw (ConflictError code))
     | _ \<Rightarrow> throw e)"

text \<open>\<open>commit\<close> of \<^verbatim>\<open>helpers/db.py\<close>: by then every key was already refused where its statement ran.\<close>

definition persist :: "unit desk" where
  "persist = refusing_rows ''error.duplicated-record'' settle_rows"

end
