(* ===== verification/Files.thy ===== *)
theory Files
  imports Panel Text
begin

text \<open>
  Which stored files the rows name: \<^verbatim>\<open>services/upload_service.py\<close> over the tables \<open>stored_file\<close> and \<open>stored_file_mention\<close>, the
  uuids \<^verbatim>\<open>helpers/storage.py\<close> finds in a value, and the place \<^verbatim>\<open>helpers/filesystem_storage.py\<close> resolves a key to. The storage itself
  is outside: what it was asked to delete is written down in the session, whether it did or not, since a refusal is only logged.
\<close>

section \<open>The files a value names\<close>

definition is_hex :: "char \<Rightarrow> bool" where
  "is_hex c \<longleftrightarrow> is_digit c \<or> 97 \<le> code_of (lower_char c) \<and> code_of (lower_char c) \<le> 102"

text \<open>\<open>NAMED\<close>: eight hexadecimal digits, three groups of four and one of twelve.\<close>

definition NAMED :: "bool list" where
  "NAMED = replicate 8 True @ [False] @ replicate 4 True @ [False] @ replicate 4 True @ [False] @ replicate 4 True @ [False] @ replicate 12 True"

definition names_uuid :: "string \<Rightarrow> bool" where
  "names_uuid t \<longleftrightarrow> length NAMED \<le> length t \<and> list_all2 (\<lambda>hex c. if hex then is_hex c else c = CHR ''-'') NAMED (take (length NAMED) t)"

lemma length_NAMED [simp]: "length NAMED = 36"
  by (simp add: NAMED_def)

text \<open>\<open>NAMED.finditer(t)\<close>, each read in lower case.\<close>

function uuids_in :: "string \<Rightarrow> string list" where
  "uuids_in [] = []"
| "uuids_in (c # t) = (if names_uuid (c # t) then lower (take 36 (c # t)) # uuids_in (drop 36 (c # t)) else uuids_in t)"
  by pat_completeness auto

termination
  by (relation "measure length") auto

definition printed :: "cell \<Rightarrow> string option" where
  "printed v = (case v of Null \<Rightarrow> None | Text t \<Rightarrow> Some t | Doc t \<Rightarrow> Some t | _ \<Rightarrow> Some '''')"

text \<open>\<open>named_in\<close>: a set, held as the list of what is in it.\<close>

definition named_in :: "cell list \<Rightarrow> string list" where
  "named_in values = remdups (concat (map (\<lambda>v. case printed v of None \<Rightarrow> [] | Some t \<Rightarrow> uuids_in t) values))"

definition owner_of :: "table \<Rightarrow> nat \<Rightarrow> string" where
  "owner_of t i = mo_name (model_of t) @ '':'' @ decimal i"

section \<open>What a row names\<close>

text \<open>The mentions of some owners, joined with the files they name.\<close>

definition mentions_of :: "(cell \<Rightarrow> bool) \<Rightarrow> shelves \<Rightarrow> (string \<times> nat) list" where
  "mentions_of owned sh = concat (map (\<lambda>f. List.map_filter (\<lambda>m.
     if cells m ''stored_file_id'' = key_to (rid f) \<and> owned (cells m ''owner'')
     then Some (case cells f ''uuid'' of Text u \<Rightarrow> u | _ \<Rightarrow> '''', rid m) else None) (sh StoredFileMention)) (sh StoredFile))"

definition has_uuid :: "string list \<Rightarrow> item \<Rightarrow> bool" where
  "has_uuid uuids f \<longleftrightarrow> (case cells f ''uuid'' of Text u \<Rightarrow> u \<in> set uuids | _ \<Rightarrow> False)"

definition no_cells :: "string \<Rightarrow> cell" where
  "no_cells = (\<lambda>_. Null)"

definition new_mention :: "datetime \<Rightarrow> nat \<Rightarrow> string \<Rightarrow> item" where
  "new_mention t file owner = \<lparr>rid = 0, cells = no_cells(''stored_file_id'' := key_to file, ''owner'' := Text owner,
     ''created_at'' := Moment t, ''updated_at'' := Moment t)\<rparr>"

text \<open>Writes which stored files a row names now, and answers the ones it stopped naming.\<close>

definition mention :: "string \<Rightarrow> cell list \<Rightarrow> string list \<Rightarrow> string list desk" where
  "mention owner values keys =
     andThen (look (mentions_of (\<lambda>v. v = Text owner))) (\<lambda>held.
     let named = named_in values;
         dropped = filter (\<lambda>u. u \<notin> set named) (map fst held);
         added = filter (\<lambda>u. u \<notin> set (map fst held)) named
     in andThen (if dropped = [] then ret 0
          else delete_rows StoredFileMention (\<lambda>m. \<exists>(u, i)\<in>set held. u \<in> set dropped \<and> i = rid m)) (\<lambda>_.
     if added = [] then ret dropped else
     andThen hour (\<lambda>t.
     andThen (mark_rows StoredFile (has_uuid added) ''claimed_at'' (Moment t)) (\<lambda>_.
     andThen (look (\<lambda>sh. map rid (filter (has_uuid added) (sh StoredFile)))) (\<lambda>found.
     let fresh = filter (\<lambda>k. list_ex (\<lambda>u. u \<in> set added) (uuids_in k)) keys
     in andThen (look (\<lambda>sh. list_all (\<lambda>k. list_ex (\<lambda>f. cells f ''key'' = Text k) (sh StoredFile)) fresh)) (\<lambda>there.
     if \<not> there then throw (ConflictError ''error.file-gone'') else
     andThen (each (\<lambda>i. andThen (written_or_read StoredFileMention
            (\<lambda>m. cells m ''stored_file_id'' = key_to i \<and> cells m ''owner'' = Text owner) (new_mention t i owner)) (\<lambda>written.
          if written = None then throw (ConflictError ''error.file-gone'') else ret ())) found) (\<lambda>_.
     ret dropped)))))))"

text \<open>Drops what the owners named, and answers those files.\<close>

definition forget :: "(cell \<Rightarrow> bool) \<Rightarrow> string list desk" where
  "forget owned =
     andThen (look (mentions_of owned)) (\<lambda>written.
     andThen (if written = [] then ret 0
       else delete_rows StoredFileMention (\<lambda>m. rid m \<in> snd ` set written)) (\<lambda>_.
     ret (map fst written)))"

text \<open>The storage is asked, and what it refuses is logged and left over.\<close>

definition discard :: "string list \<Rightarrow> unit desk" where
  "discard keys = writes (\<lambda>s. s\<lparr>discarded := discarded s @ keys\<rparr>)"

definition unnamed :: "shelves \<Rightarrow> item \<Rightarrow> bool" where
  "unnamed sh f \<longleftrightarrow> \<not> list_ex (\<lambda>m. cells m ''stored_file_id'' = key_to (rid f)) (sh StoredFileMention)"

definition key_text :: "item \<Rightarrow> string" where
  "key_text f = (case cells f ''key'' of Text k \<Rightarrow> k | _ \<Rightarrow> '''')"

text \<open>The row goes before the file, and only while nothing names it and its stamp is the one that was read.\<close>

definition release_one :: "item \<Rightarrow> string list desk" where
  "release_one f =
     andThen (look (\<lambda>sh. sh)) (\<lambda>sh.
     andThen (delete_rows StoredFile (\<lambda>g. rid g = rid f \<and> cells g ''claimed_at'' = cells f ''claimed_at'' \<and> unnamed sh g)) (\<lambda>rowcount.
     ret (if rowcount = 1 then [key_text f] else [])))"

definition release :: "string list \<Rightarrow> unit desk" where
  "release uuids =
     (if uuids = [] then ret () else
      andThen (look (\<lambda>sh. filter (has_uuid uuids) (sh StoredFile))) (\<lambda>found.
      andThen (each release_one found) (\<lambda>gone.
      andThen settle_rows (\<lambda>_. discard (concat gone)))))"

section \<open>Where a key points\<close>

text \<open>Whether a key stays where it says it is.\<close>

definition settled_key :: "string \<Rightarrow> bool" where
  "settled_key key \<longleftrightarrow> \<not> sublist ''..'' key \<and> CHR 0x5C \<notin> set key \<and> \<not> prefix ''/'' key \<and> \<not> sublist ''//'' key"

text \<open>
  \<open>(root / key).resolve()\<close>, with no symbolic link on the way: an absolute key replaces the root, an empty segment
  and a dot are nothing, two dots climb to the parent, and the parent of the root of the disk is itself.
\<close>

fun walked :: "string list \<Rightarrow> string list \<Rightarrow> string list" where
  "walked here [] = here"
| "walked here (seg # rest) =
     (if seg = '''' \<or> seg = ''.'' then walked here rest
      else if seg = ''..'' then walked (butlast here) rest
      else walked (here @ [seg]) rest)"

definition resolved :: "string list \<Rightarrow> string \<Rightarrow> string list" where
  "resolved root key = walked (if prefix ''/'' key then [] else root) (split_on (CHR ''/'') key)"

definition path_for :: "string list \<Rightarrow> string \<Rightarrow> string list outcome" where
  "path_for root key = (if prefix root (resolved root key) then Ok (resolved root key) else Err ValueError)"

end
