(* ===== verification/Crud.thy ===== *)
theory Crud
  imports Files
begin

text \<open>
  \<^verbatim>\<open>services/crud_service.py\<close>: the read and write path every resource of the panel shares. A resource is what its service
  declares; the resources serving the other tables, how the API spells a column, how the database compares two values, what a default
  draws and where a purpose keeps its files are parameters of the operations.
\<close>

section \<open>What a service declares\<close>

datatype upload_purpose = IMAGE | AVATAR | BANNER | GALLERY_PHOTO | PRODUCT_IMAGE | PRODUCT_FILE | PLAN_IMAGE

text \<open>How a resource with no tenant of its own is confined: the key it points with, the table it points at, and how that one reaches a tenant.\<close>

datatype reach = Reach (re_column: string) (re_parent: table) (re_through: "reach option")

text \<open>A table that must go before its parent.\<close>

datatype dependent = Dependent table string "dependent list"

text \<open>A filter whose column lives on another table, and the condition a value of it narrows the listing to.\<close>

record elsewhere =
  el_column :: "table \<times> string"
  el_narrows :: "shelves \<Rightarrow> cell \<Rightarrow> item \<Rightarrow> bool"

type_synonym sheet = "string \<Rightarrow> cell option"

record operator =
  op_id :: nat
  op_tenant :: "nat option"
  op_reaches_shared :: bool
  op_role :: user_role

record resource =
  rs_table :: table
  rs_search :: "string list"
  rs_text_search :: "string list"
  rs_filter :: "string list"
  rs_elsewhere :: "(string \<times> elsewhere) list"
  rs_ordering :: "string list"
  rs_default_ordering :: string
  rs_label :: "string list"
  rs_roles :: "user_role list"
  rs_lookup_roles :: "user_role list"
  rs_files :: "(string \<times> upload_purpose) list"
  rs_markup :: "string list"
  rs_dependents :: "dependent list"
  rs_position :: "string option"
  rs_reach :: "reach option"
  rs_system_wide :: bool
  rs_shared :: bool
  rs_stamp :: "operator option \<Rightarrow> sheet \<Rightarrow> sheet"
  rs_prepare :: "sheet \<Rightarrow> item option \<Rightarrow> sheet"
  rs_validate :: "sheet \<Rightarrow> item option \<Rightarrow> unit desk"
  rs_named :: "(shelves \<Rightarrow> item \<Rightarrow> string) option"
  rs_called :: "(item \<Rightarrow> cell) option"

text \<open>What is outside: the aliases of the API, the collation, the accents, the drawn defaults and the folders.\<close>

record office =
  of_camel :: "string \<Rightarrow> string"
  of_collate :: "cell \<Rightarrow> cell \<Rightarrow> bool"
  of_nfkd :: "string \<Rightarrow> string"
  of_drawn :: "table \<Rightarrow> nat \<Rightarrow> string \<Rightarrow> cell"
  of_folder :: "upload_purpose \<Rightarrow> string"
  of_served :: "table \<Rightarrow> resource option"

record page_params =
  pp_limit :: nat
  pp_offset :: nat
  pp_search :: "string option"
  pp_ordering :: "string option"

section \<open>Who reaches what\<close>

definition reaches_tenant :: "nat \<Rightarrow> cell \<Rightarrow> bool" where
  "reaches_tenant tenant v \<longleftrightarrow> v = key_to tenant \<or> v = Null"

definition belongs_to :: "nat \<Rightarrow> cell \<Rightarrow> bool" where
  "belongs_to tenant v \<longleftrightarrow> v = key_to tenant"

text \<open>
  \<open>through\<close>: a child is confined by the row it belongs to. A parent that carries no tenant and belongs to nothing has
  no attribute to go on by.
\<close>

fun through :: "(cell \<Rightarrow> bool) \<Rightarrow> reach \<Rightarrow> (shelves \<Rightarrow> item \<Rightarrow> bool) outcome" where
  "through wanted (Reach name parent further) =
     (if has_tenant parent
      then Ok (\<lambda>sh r. list_ex (\<lambda>p. cells r name = key_to (rid p) \<and> wanted (cells p ''tenant_id'')) (sh parent))
      else case further of
        None \<Rightarrow> Err AttributeError
      | Some onward \<Rightarrow> (case through wanted onward of
          Ok kept_by \<Rightarrow> Ok (\<lambda>sh r. list_ex (\<lambda>p. cells r name = key_to (rid p) \<and> kept_by sh p) (sh parent))
        | Err e \<Rightarrow> Err e
        | Hangs \<Rightarrow> Hangs))"

text \<open>What narrows a statement to the operator asking for it, which is nothing at all where that operator belongs to no tenant.\<close>

definition confinement :: "resource \<Rightarrow> operator option \<Rightarrow> bool \<Rightarrow> (shelves \<Rightarrow> item \<Rightarrow> bool) outcome" where
  "confinement rs operator writing =
     (case operator of
        None \<Rightarrow> Ok (\<lambda>_ _. True)
      | Some o' \<Rightarrow> (case op_tenant o' of
          None \<Rightarrow> Ok (\<lambda>_ _. True)
        | Some tenant \<Rightarrow>
            if rs_system_wide rs then Ok (\<lambda>_ _. True) else
            let wanted = (if op_reaches_shared o' \<and> rs_shared rs \<and> \<not> writing then reaches_tenant tenant else belongs_to tenant)
            in if has_tenant (rs_table rs) then Ok (\<lambda>_ r. wanted (cells r ''tenant_id''))
               else case rs_reach rs of None \<Rightarrow> Err AttributeError | Some road \<Rightarrow> through wanted road))"

section \<open>Listings\<close>

definition text_cell :: "cell \<Rightarrow> string" where
  "text_cell v = (case v of Text t \<Rightarrow> t | _ \<Rightarrow> '''')"

text \<open>A null matches no pattern, and in the document of a search it is nothing.\<close>

definition contained :: "string \<Rightarrow> cell \<Rightarrow> bool" where
  "contained term v \<longleftrightarrow> (case v of Text t \<Rightarrow> contains term t | _ \<Rightarrow> False)"

definition document_of :: "resource \<Rightarrow> item \<Rightarrow> string" where
  "document_of rs r = join '' '' (map (\<lambda>n. text_cell (cells r n)) (rs_text_search rs))"

definition text_match :: "string list \<Rightarrow> string \<Rightarrow> bool" where
  "text_match tokens document \<longleftrightarrow> list_all (\<lambda>token. ilike (token @ ''%'') document \<or> ilike (''% '' @ token @ ''%'') document) tokens"

definition text_rank :: "string \<Rightarrow> string \<Rightarrow> nat" where
  "text_rank phrase document = (if ilike (''%'' @ phrase @ ''%'') document then 1 else 0)"

definition searched :: "resource \<Rightarrow> string option \<Rightarrow> item \<Rightarrow> bool" where
  "searched rs search r \<longleftrightarrow>
     (let term = strip (case search of None \<Rightarrow> '''' | Some t \<Rightarrow> t);
          tokens = tokens_of term;
          conditions = map (\<lambda>n. contained term (cells r n)) (rs_search rs)
            @ (if rs_text_search rs \<noteq> [] \<and> tokens \<noteq> [] then [text_match tokens (document_of rs r)] else [])
      in term = '''' \<or> conditions = [] \<or> True \<in> set conditions)"

definition filtered :: "resource \<Rightarrow> shelves \<Rightarrow> (string \<times> cell) list \<Rightarrow> item \<Rightarrow> bool" where
  "filtered rs sh filters r \<longleftrightarrow> list_all (\<lambda>(name, v). name \<notin> set (rs_filter rs) \<or> v = Null \<or>
     (case map_of (rs_elsewhere rs) name of
        Some e \<Rightarrow> el_narrows e sh v r
      | None \<Rightarrow> cells r name = v)) filters"

text \<open>
  An order is read as the API spells it, and one the resource does not offer is refused; the key breaks every tie. A phrase
  that was typed outranks the order the resource would have by itself.
\<close>

definition ordering_name :: "office \<Rightarrow> resource \<Rightarrow> string option \<Rightarrow> string option" where
  "ordering_name w rs asked =
     (case asked of
        None \<Rightarrow> Some (dropWhile (\<lambda>c. c = CHR ''-'') (rs_default_ordering rs))
      | Some o' \<Rightarrow> map_of (rev (map (\<lambda>f. (of_camel w f, f)) (rs_ordering rs))) (dropWhile (\<lambda>c. c = CHR ''-'') o'))"

definition expression_of :: "resource \<Rightarrow> string option \<Rightarrow> string" where
  "expression_of rs asked = (case asked of Some (c # t) \<Rightarrow> c # t | _ \<Rightarrow> rs_default_ordering rs)"

definition ranked :: "resource \<Rightarrow> page_params \<Rightarrow> bool" where
  "ranked rs page \<longleftrightarrow> (pp_ordering page = None \<or> pp_ordering page = Some '''')
     \<and> phrase_of (case pp_search page of None \<Rightarrow> '''' | Some t \<Rightarrow> t) \<noteq> '''' \<and> rs_text_search rs \<noteq> []"

definition field_of :: "string \<Rightarrow> item \<Rightarrow> cell" where
  "field_of name r = (if name = ''id'' then key_to (rid r) else cells r name)"

text \<open>Whether one row is listed before another: by rank, by the column and then by the key, the last two both ways round together.\<close>

definition listed_before :: "office \<Rightarrow> resource \<Rightarrow> page_params \<Rightarrow> string \<Rightarrow> item \<Rightarrow> item \<Rightarrow> bool" where
  "listed_before w rs page name a b =
     (let rank = (\<lambda>r. text_rank (phrase_of (case pp_search page of None \<Rightarrow> '''' | Some t \<Rightarrow> t)) (document_of rs r));
          down = prefix ''-'' (expression_of rs (pp_ordering page));
          before = (\<lambda>a b. let x = field_of name a; y = field_of name b
            in of_collate w x y \<and> (\<not> of_collate w y x \<or> rid a \<le> rid b))
      in if ranked rs page \<and> rank a \<noteq> rank b then rank b < rank a
         else if down then before b a else before a b)"

fun insort_by :: "('a \<Rightarrow> 'a \<Rightarrow> bool) \<Rightarrow> 'a \<Rightarrow> 'a list \<Rightarrow> 'a list" where
  "insort_by before x [] = [x]"
| "insort_by before x (y # ys) = (if before x y then x # y # ys else y # insort_by before x ys)"

definition sort_by :: "('a \<Rightarrow> 'a \<Rightarrow> bool) \<Rightarrow> 'a list \<Rightarrow> 'a list" where
  "sort_by before xs = foldr (insort_by before) xs []"

definition matching :: "resource \<Rightarrow> string option \<Rightarrow> (string \<times> cell) list \<Rightarrow> (shelves \<Rightarrow> item \<Rightarrow> bool) \<Rightarrow> shelves \<Rightarrow> item list" where
  "matching rs search filters narrowed sh = filter (\<lambda>r. searched rs search r \<and> filtered rs sh filters r \<and> narrowed sh r) (sh (rs_table rs))"

definition paginate :: "office \<Rightarrow> resource \<Rightarrow> page_params \<Rightarrow> (string \<times> cell) list \<Rightarrow> operator option \<Rightarrow> (nat \<times> item list) desk" where
  "paginate w rs page filters operator =
     andThen (lift (confinement rs operator False)) (\<lambda>narrowed.
     andThen (look (matching rs (pp_search page) filters narrowed)) (\<lambda>rows.
     case ordering_name w rs (pp_ordering page) of
       None \<Rightarrow> throw (ValidationError ''error.ordering-not-allowed'' ''ordering'')
     | Some name \<Rightarrow>
         if name \<notin> set (rs_ordering rs) then throw (ValidationError ''error.ordering-not-allowed'' ''ordering'') else
         ret (length rows, take (pp_limit page) (drop (pp_offset page) (sort_by (listed_before w rs page name) rows)))))"

definition find_row :: "resource \<Rightarrow> nat \<Rightarrow> operator option \<Rightarrow> bool \<Rightarrow> item option desk" where
  "find_row rs record_id operator writing =
     andThen (lift (confinement rs operator writing)) (\<lambda>narrowed.
     look (\<lambda>sh. List.find (\<lambda>r. narrowed sh r \<and> rid r = record_id) (sh (rs_table rs))))"

definition get_row :: "resource \<Rightarrow> nat \<Rightarrow> operator option \<Rightarrow> bool \<Rightarrow> item desk" where
  "get_row rs record_id operator writing =
     andThen (find_row rs record_id operator writing) (\<lambda>found. case found of None \<Rightarrow> throw NotFoundError | Some r \<Rightarrow> ret r)"

section \<open>Options of somebody else's form\<close>

definition truthy_cell :: "cell \<Rightarrow> bool" where
  "truthy_cell v \<longleftrightarrow> v \<notin> {Null, Text '''', Whole 0, Price 0, Flag False}"

definition shown_cell :: "cell \<Rightarrow> string" where
  "shown_cell v = (case v of Text t \<Rightarrow> t | Whole n \<Rightarrow> signed_decimal n | _ \<Rightarrow> '''')"

definition build_label :: "resource \<Rightarrow> shelves \<Rightarrow> item \<Rightarrow> string" where
  "build_label rs sh r = (case rs_named rs of
       Some f \<Rightarrow> f sh r
     | None \<Rightarrow>
         let parts = map shown_cell (filter truthy_cell (map (\<lambda>n. field_of n r) (rs_label rs)))
         in if join '' - '' parts = '''' then ''#'' @ decimal (rid r) else join '' - '' parts)"

text \<open>A column with no value is last, and the key breaks every tie.\<close>

fun label_before :: "office \<Rightarrow> (item \<Rightarrow> cell) list \<Rightarrow> item \<Rightarrow> item \<Rightarrow> bool" where
  "label_before w [] a b \<longleftrightarrow> rid a \<le> rid b"
| "label_before w (f # fs) a b \<longleftrightarrow>
     (if f a = Null \<or> f b = Null then (if f a = Null \<and> f b = Null then label_before w fs a b else f b = Null)
      else of_collate w (f a) (f b) \<and> (\<not> of_collate w (f b) (f a) \<or> label_before w fs a b))"

definition label_ordering :: "resource \<Rightarrow> (item \<Rightarrow> cell) list" where
  "label_ordering rs = (case rs_called rs of Some f \<Rightarrow> [f] | None \<Rightarrow> map field_of (rs_label rs))"

text \<open>\<open>alphabetical\<close>: accents and case ignored, and a run of digits read as a number.\<close>

datatype piece = Number nat | Word string

fun pieces :: "string \<Rightarrow> piece list" where
  "pieces [] = []"
| "pieces (c # t) = (if is_digit c then
       (case pieces t of Number n # rest \<Rightarrow>
            Number (read_digits 0 (takeWhile is_digit (c # t))) # rest
        | rest \<Rightarrow> Number (read_digits 0 [c]) # rest)
     else (case pieces t of Word w # rest \<Rightarrow> Word (c # w) # rest | rest \<Rightarrow> Word [c] # rest))"

fun text_before :: "string \<Rightarrow> string \<Rightarrow> bool" where
  "text_before [] v \<longleftrightarrow> True"
| "text_before (c # t) [] \<longleftrightarrow> False"
| "text_before (c # t) (d # v) \<longleftrightarrow> code_of c < code_of d \<or> c = d \<and> text_before t v"

fun pieces_before :: "piece list \<Rightarrow> piece list \<Rightarrow> bool" where
  "pieces_before [] ys \<longleftrightarrow> True"
| "pieces_before (x # xs) [] \<longleftrightarrow> False"
| "pieces_before (Number m # xs) (Number n # ys) \<longleftrightarrow> m < n \<or> m = n \<and> pieces_before xs ys"
| "pieces_before (Number m # xs) (Word w # ys) \<longleftrightarrow> True"
| "pieces_before (Word v # xs) (Number n # ys) \<longleftrightarrow> False"
| "pieces_before (Word v # xs) (Word w # ys) \<longleftrightarrow> v \<noteq> w \<and> text_before v w \<or> v = w \<and> pieces_before xs ys"

definition alphabetical :: "(string \<Rightarrow> string) \<Rightarrow> string \<Rightarrow> piece list" where
  "alphabetical nfkd v = pieces (plain nfkd (Some v))"

definition lookup :: "office \<Rightarrow> resource \<Rightarrow> string option \<Rightarrow> nat \<Rightarrow> (string \<times> cell) list \<Rightarrow> operator option \<Rightarrow> (nat \<times> string) list desk" where
  "lookup w rs search limit filters operator =
     andThen (lift (confinement rs operator False)) (\<lambda>narrowed.
     andThen (look (\<lambda>sh. sh)) (\<lambda>sh.
     let rows = matching rs search filters narrowed sh;
         options = map (\<lambda>r. (rid r, build_label rs sh r)) (take limit (sort_by (label_before w (label_ordering rs)) rows))
     in ret (sort_by (\<lambda>a b. pieces_before (alphabetical (of_nfkd w) (snd a)) (alphabetical (of_nfkd w) (snd b))) options)))"

section \<open>What is refused before a row is written\<close>

definition given :: "sheet \<Rightarrow> string \<Rightarrow> cell" where
  "given sheet name = (case sheet name of Some v \<Rightarrow> v | None \<Rightarrow> Null)"

text \<open>A file column is the target of the next deletion, so a key of another folder is refused.\<close>

definition ensure_files_are_of_their_purpose :: "office \<Rightarrow> resource \<Rightarrow> sheet \<Rightarrow> unit desk" where
  "ensure_files_are_of_their_purpose w rs sheet =
     andThen (each (\<lambda>(name, purpose).
       let key = text_cell (given sheet name) in
       if key = '''' then ret ()
       else if \<not> prefix (of_folder w purpose @ ''/'') key \<or> \<not> settled_key key
       then throw (ValidationError ''error.upload-key-out-of-purpose'' name) else ret ()) (rs_files rs)) (\<lambda>_. ret ())"

text \<open>A key naming no row, or a row the panel would never have offered, is refused here.\<close>

definition ensure_references_are_reachable :: "office \<Rightarrow> resource \<Rightarrow> sheet \<Rightarrow> operator option \<Rightarrow> item option \<Rightarrow> unit desk" where
  "ensure_references_are_reachable w rs sheet operator instance' =
     andThen (each (\<lambda>(name, target).
       if given sheet name = Null then ret ()
       else if (case instance' of None \<Rightarrow> False | Some r \<Rightarrow> given sheet name = cells r name) then ret ()
       else case of_served w target of
         None \<Rightarrow> throw KeyError
       | Some s \<Rightarrow>
           andThen (lift (confinement s operator (map_option re_column (rs_reach rs) = Some name))) (\<lambda>narrowed.
           andThen (look (\<lambda>sh. list_ex (\<lambda>r. key_to (rid r) = given sheet name \<and> narrowed sh r) (sh target))) (\<lambda>there.
           if there then ret () else throw (ValidationError ''error.related-not-found'' name))))
       (referenced (rs_table rs))) (\<lambda>_. ret ())"

text \<open>\<open>data.get("tenant_id", instance.tenant_id)\<close>.\<close>

definition tenant_wanted :: "sheet \<Rightarrow> item \<Rightarrow> cell" where
  "tenant_wanted sheet r = (case sheet ''tenant_id'' of Some v \<Rightarrow> v | None \<Rightarrow> cells r ''tenant_id'')"

definition referrers :: "table \<Rightarrow> (table \<times> string) list" where
  "referrers t = concat (map (\<lambda>u. List.map_filter (\<lambda>(name, target). if target = t then Some (u, name) else None) (referenced u)) tables)"

definition ensure_referrers_still_reach :: "resource \<Rightarrow> sheet \<Rightarrow> item \<Rightarrow> unit desk" where
  "ensure_referrers_still_reach rs sheet r =
     (if \<not> has_tenant (rs_table rs) \<or> tenant_wanted sheet r \<in> {Null, cells r ''tenant_id''} then ret () else
      andThen (look (\<lambda>sh. list_ex (\<lambda>(u, name). pointing_rows sh u name [rid r] \<noteq> []) (referrers (rs_table rs)))) (\<lambda>pointed.
      if pointed then throw (ValidationError ''error.record-still-referenced'' ''tenant_id'') else ret ()))"

definition branded_children :: "office \<Rightarrow> resource \<Rightarrow> item \<Rightarrow> shelves \<Rightarrow> bool" where
  "branded_children w rs r sh \<longleftrightarrow> list_ex (\<lambda>t. case of_served w t of
       None \<Rightarrow> False
     | Some child \<Rightarrow> (case rs_reach child of
         None \<Rightarrow> False
       | Some road \<Rightarrow> re_parent road = rs_table rs \<and> list_ex (\<lambda>(name, target).
           name \<noteq> re_column road \<and> has_tenant target \<and>
           list_ex (\<lambda>q. cells q (re_column road) = key_to (rid r) \<and>
             list_ex (\<lambda>b. cells b ''tenant_id'' \<noteq> Null \<and> cells q name = key_to (rid b)) (sh target)) (sh (rs_table child)))
           (referenced (rs_table child)))) tables"

definition ensure_children_stay_shared :: "office \<Rightarrow> resource \<Rightarrow> sheet \<Rightarrow> item \<Rightarrow> unit desk" where
  "ensure_children_stay_shared w rs sheet r =
     (if \<not> has_tenant (rs_table rs) \<or> cells r ''tenant_id'' = Null \<or> tenant_wanted sheet r \<noteq> Null then ret () else
      andThen (look (branded_children w rs r)) (\<lambda>branded.
      if branded then throw (ValidationError ''error.children-of-a-brand'' ''tenant_id'') else ret ()))"

text \<open>What an operator of one brand writes belongs to that brand.\<close>

definition stamped :: "table \<Rightarrow> operator option \<Rightarrow> sheet \<Rightarrow> sheet" where
  "stamped t operator sheet =
     (case operator of
        None \<Rightarrow> sheet
      | Some o' \<Rightarrow> (case op_tenant o' of
          None \<Rightarrow> sheet
        | Some tenant \<Rightarrow> if has_tenant t then sheet(''tenant_id'' \<mapsto> key_to tenant) else sheet))"

section \<open>Writing a row\<close>

definition mentions :: "resource \<Rightarrow> string list" where
  "mentions rs = map fst (rs_files rs) @ rs_markup rs @ (if has_column (rs_table rs) ''meta'' then [''meta''] else [])"

definition keys_of :: "resource \<Rightarrow> item \<Rightarrow> string list" where
  "keys_of rs r = filter (\<lambda>k. k \<noteq> '''') (map (\<lambda>(name, _). text_cell (cells r name)) (rs_files rs))"

definition mentioned :: "resource \<Rightarrow> item \<Rightarrow> string list" where
  "mentioned rs r = named_in (map (cells r) (mentions rs))"

definition born :: "office \<Rightarrow> table \<Rightarrow> nat \<Rightarrow> sheet \<Rightarrow> item" where
  "born w t i sheet = \<lparr>rid = i, cells = \<lambda>name. case column_of t name of
       None \<Rightarrow> Null
     | Some c \<Rightarrow> (case sheet name of
         Some v \<Rightarrow> v
       | None \<Rightarrow> (case co_default c of Unset \<Rightarrow> Null | Scalar v \<Rightarrow> v | Drawn \<Rightarrow> of_drawn w t i name))\<rparr>"

text \<open>The attributes the edit set, and the stamp of a row that changed.\<close>

definition edited :: "table \<Rightarrow> datetime \<Rightarrow> sheet \<Rightarrow> item \<Rightarrow> item" where
  "edited t stamp sheet r =
     (let written = r\<lparr>cells := \<lambda>name. case column_of t name of None \<Rightarrow> cells r name | Some _ \<Rightarrow> (case sheet name of Some v \<Rightarrow> v | None \<Rightarrow> cells r name)\<rparr>
      in if list_ex (\<lambda>c. cells written (co_name c) \<noteq> cells r (co_name c)) (columns t) \<and> has_column t ''updated_at'' \<and> sheet ''updated_at'' = None
         then setattr ''updated_at'' (Moment stamp) written else written)"

definition named_by :: "resource \<Rightarrow> item \<Rightarrow> string list desk" where
  "named_by rs r = mention (owner_of (rs_table rs) (rid r)) (map Text (mentioned rs r)) (keys_of rs r)"

definition create :: "office \<Rightarrow> resource \<Rightarrow> sheet \<Rightarrow> operator option \<Rightarrow> item desk" where
  "create w rs payload operator =
     (let sheet = rs_stamp rs operator payload in
      andThen (ensure_references_are_reachable w rs sheet operator None) (\<lambda>_.
      andThen (ensure_files_are_of_their_purpose w rs sheet) (\<lambda>_.
      andThen (rs_validate rs sheet None) (\<lambda>_.
      andThen (look (\<lambda>sh. next_id (sh (rs_table rs)))) (\<lambda>i.
      andThen (refusing_rows ''error.duplicated-record'' (insert_row (rs_table rs) (born w (rs_table rs) i (rs_prepare rs sheet None)))) (\<lambda>r.
      andThen (named_by rs r) (\<lambda>_.
      andThen persist (\<lambda>_.
      get_row rs (rid r) operator False))))))))"

text \<open>Once it was validated, the instance of the session is the row as it stands.\<close>

definition update_one :: "office \<Rightarrow> resource \<Rightarrow> nat \<Rightarrow> sheet \<Rightarrow> operator option \<Rightarrow> item desk" where
  "update_one w rs record_id payload operator =
     andThen (get_row rs record_id operator True) (\<lambda>r.
     let sheet = rs_stamp rs operator payload in
     andThen (ensure_references_are_reachable w rs sheet operator (Some r)) (\<lambda>_.
     andThen (ensure_referrers_still_reach rs sheet r) (\<lambda>_.
     andThen (ensure_children_stay_shared w rs sheet r) (\<lambda>_.
     andThen (ensure_files_are_of_their_purpose w rs sheet) (\<lambda>_.
     andThen (rs_validate rs sheet (Some r)) (\<lambda>_.
     andThen (look (\<lambda>sh. fetch record_id (sh (rs_table rs)))) (\<lambda>refreshed.
     let r = (case refreshed of None \<Rightarrow> r | Some q \<Rightarrow> q) in
     andThen hour (\<lambda>stamp.
     let written = edited (rs_table rs) stamp (rs_prepare rs sheet (Some r)) r in
     andThen (refusing_rows ''error.duplicated-record'' (write_row (rs_table rs) written)) (\<lambda>_.
     andThen (named_by rs written) (\<lambda>dropped.
     andThen persist (\<lambda>_.
     andThen (release (filter (\<lambda>u. u \<notin> set (mentioned rs written)) (mentioned rs r) @ dropped)) (\<lambda>_.
     get_row rs record_id operator False))))))))))))"

text \<open>Children go first, deepest branch first, and every file they named is answered.\<close>

fun delete_dependents :: "office \<Rightarrow> dependent list \<Rightarrow> (shelves \<Rightarrow> nat list) \<Rightarrow> string list desk" where
  "delete_dependents w [] parents = ret []"
| "delete_dependents w (Dependent t name below # rest) parents =
     andThen (if below = [] then ret [] else delete_dependents w below (\<lambda>sh. pointing_rows sh t name (parents sh))) (\<lambda>deeper.
     andThen (case of_served w t of
         None \<Rightarrow> throw KeyError
       | Some s \<Rightarrow>
           if mentions s = [] then ret [] else
           andThen (look (\<lambda>sh. pointing_rows sh t name (parents sh))) (\<lambda>ids.
           forget (\<lambda>v. v \<in> set (map (\<lambda>i. Text (owner_of t i)) ids)))) (\<lambda>named.
     andThen (look parents) (\<lambda>ids.
     andThen (delete_rows t (\<lambda>r. list_ex (\<lambda>i. cells r name = key_to i) ids)) (\<lambda>_.
     andThen (delete_dependents w rest parents) (\<lambda>others. ret (deeper @ named @ others))))))"

definition delete_one :: "office \<Rightarrow> resource \<Rightarrow> nat \<Rightarrow> operator option \<Rightarrow> unit desk" where
  "delete_one w rs record_id operator =
     andThen (get_row rs record_id operator True) (\<lambda>r.
     andThen (forget (\<lambda>v. v = Text (owner_of (rs_table rs) (rid r)))) (\<lambda>named.
     andThen (refusing_rows ''error.record-still-referenced''
        (andThen (delete_dependents w (rs_dependents rs) (\<lambda>_. [record_id])) (\<lambda>orphaned.
         andThen (delete_rows (rs_table rs) (\<lambda>q. rid q = record_id)) (\<lambda>_.
         andThen settle_rows (\<lambda>_. ret orphaned))))) (\<lambda>orphaned.
     release (remdups (mentioned rs r @ named @ orphaned)))))"

text \<open>The order the operator dragged into place, written in one go.\<close>

definition reorder :: "resource \<Rightarrow> nat list \<Rightarrow> operator option \<Rightarrow> item list desk" where
  "reorder rs ids operator =
     (case rs_position rs of
        None \<Rightarrow> throw TypeError
      | Some position \<Rightarrow>
          andThen (lift (confinement rs operator True)) (\<lambda>narrowed.
          andThen (look (\<lambda>sh. filter (\<lambda>r. narrowed sh r \<and> rid r \<in> set ids) (sh (rs_table rs)))) (\<lambda>rows.
          if length rows \<noteq> length ids then throw NotFoundError else
          andThen hour (\<lambda>stamp.
          andThen (each (\<lambda>(index, i). case fetch i rows of
              None \<Rightarrow> throw KeyError
            | Some r \<Rightarrow> refusing_rows ''error.duplicated-record''
                (write_row (rs_table rs) (edited (rs_table rs) stamp [position \<mapsto> Whole (int index)] r))) (enumerate 0 ids)) (\<lambda>_.
          andThen persist (\<lambda>_.
          look (\<lambda>sh. sort_by (\<lambda>a b. case (cells a position, cells b position) of
               (Whole m, Whole n) \<Rightarrow> m < n \<or> m = n \<and> rid a \<le> rid b | _ \<Rightarrow> rid a \<le> rid b)
             (filter (\<lambda>r. rid r \<in> set ids) (sh (rs_table rs))))))))))"

section \<open>What the hooks of a service use\<close>

definition column_length :: "table \<Rightarrow> string \<Rightarrow> nat option" where
  "column_length t name = (case column_of t name of None \<Rightarrow> None | Some c \<Rightarrow> co_length c)"

definition column_default :: "table \<Rightarrow> string \<Rightarrow> cell" where
  "column_default t name = (case column_of t name of None \<Rightarrow> Null | Some c \<Rightarrow> (case co_default c of Scalar v \<Rightarrow> v | _ \<Rightarrow> Null))"

definition declared :: "table \<Rightarrow> sheet \<Rightarrow> item option \<Rightarrow> string \<Rightarrow> cell" where
  "declared t prepared instance' name =
     (case prepared name of
        Some v \<Rightarrow> v
      | None \<Rightarrow> (case instance' of Some r \<Rightarrow> cells r name | None \<Rightarrow> column_default t name))"

definition either :: "cell \<Rightarrow> cell \<Rightarrow> cell" where
  "either a b = (if truthy_cell a then a else b)"

definition instance_cell :: "item option \<Rightarrow> string \<Rightarrow> cell" where
  "instance_cell instance' name = (case instance' of None \<Rightarrow> Null | Some r \<Rightarrow> cells r name)"

text \<open>The value a record is addressed by, which is a slug whether it was typed or derived.\<close>

definition apply_slug :: "(string \<Rightarrow> string) \<Rightarrow> table \<Rightarrow> sheet \<Rightarrow> item option \<Rightarrow> string \<Rightarrow> string list \<Rightarrow> string \<Rightarrow> sheet" where
  "apply_slug nfkd t prepared instance' target sources fallback =
     (if instance' \<noteq> None \<and> prepared target = None then prepared else
      let derived = foldr (\<lambda>name found. either (either (given prepared name) (instance_cell instance' name)) found) sources Null;
          chosen = either (given prepared target) derived
      in prepared(target \<mapsto> Text (if truthy_cell chosen then slugify nfkd (shown_cell chosen) fallback (column_length t target) else fallback)))"

definition ensure_reaches :: "table \<Rightarrow> cell \<Rightarrow> cell \<Rightarrow> string \<Rightarrow> string \<Rightarrow> unit desk" where
  "ensure_reaches target target_id tenant_id name code =
     (if target_id = Null then ret () else
      andThen (look (\<lambda>sh. List.find (\<lambda>r. key_to (rid r) = target_id) (sh target))) (\<lambda>found. case found of
        None \<Rightarrow> throw (ValidationError code name)
      | Some r \<Rightarrow> if cells r ''tenant_id'' \<in> {Null, tenant_id} then ret () else throw (ValidationError code name)))"

definition ensure_unique :: "table \<Rightarrow> string \<Rightarrow> cell \<Rightarrow> string \<Rightarrow> item option \<Rightarrow> (item \<Rightarrow> bool) \<Rightarrow> unit desk" where
  "ensure_unique t name v code instance' scope =
     (if v \<in> {Null, Text ''''} then ret () else
      andThen (look (\<lambda>sh. list_ex (\<lambda>r. cells r name = v \<and> scope r \<and> (case instance' of None \<Rightarrow> True | Some q \<Rightarrow> rid r \<noteq> rid q)) (sh t))) (\<lambda>held.
      if held then throw (ConflictError code) else ret ()))"

end
