(* ===== verification/Catalogue.thy ===== *)
theory Catalogue
  imports Crud
begin

text \<open>
  The resources of the catalogue and of the pages: what each service of \<^verbatim>\<open>services/\<close> declares, how it prepares what was sent, and what it
  refuses. What is outside the code is one record: the tables of unicode, the hash of a password, the cipher, the token drawn for a
  new integration, the words of a locale, the document an audit prints as, and the configuration the services read.
\<close>

section \<open>What the services are given\<close>

record house =
  ho_name :: string
  ho_nfkd :: "string \<Rightarrow> string"
  ho_hash :: "string \<Rightarrow> string"
  ho_encrypt :: "string \<Rightarrow> string"
  ho_token :: string
  ho_translate :: "string \<Rightarrow> string"
  ho_dumps :: "string \<Rightarrow> string \<Rightarrow> nat list \<Rightarrow> string"
  ho_languages :: "string list"
  ho_social :: "(string \<times> bool \<times> bool \<times> bool) list"

text \<open>What a service that says nothing else declares.\<close>

definition plain_service :: "table \<Rightarrow> resource" where
  "plain_service t = \<lparr>rs_table = t, rs_search = [], rs_text_search = [], rs_filter = [], rs_elsewhere = [], rs_ordering = [''id''],
     rs_default_ordering = ''-id'', rs_label = [''name''], rs_roles = [ADMINISTRATOR], rs_lookup_roles = [], rs_files = [], rs_markup = [],
     rs_dependents = [], rs_position = None, rs_reach = None, rs_system_wide = False, rs_shared = False, rs_stamp = stamped t,
     rs_prepare = (\<lambda>sheet _. sheet), rs_validate = (\<lambda>_ _. ret ()), rs_named = None, rs_called = None\<rparr>"

definition EDITING :: "user_role list" where
  "EDITING = [ADMINISTRATOR, EDITOR]"

definition whole_of :: "cell \<Rightarrow> int" where
  "whole_of v = (case v of Whole n \<Rightarrow> n | _ \<Rightarrow> 0)"

definition recased :: "(string \<Rightarrow> string) \<Rightarrow> string \<Rightarrow> sheet \<Rightarrow> sheet" where
  "recased f name sheet = (if truthy_cell (given sheet name) then sheet(name \<mapsto> Text (f (text_cell (given sheet name)))) else sheet)"

text \<open>A filter that reads another row's tenant: a row that names nothing narrows the listing to nothing.\<close>

definition reached_from :: "table \<Rightarrow> shelves \<Rightarrow> cell \<Rightarrow> item \<Rightarrow> bool" where
  "reached_from t sh v r \<longleftrightarrow> list_ex (\<lambda>q. key_to (rid q) = v
     \<and> (cells r ''tenant_id'' = Null \<or> cells r ''tenant_id'' = cells q ''tenant_id'')) (sh t)"

definition branded_as :: "sheet \<Rightarrow> item option \<Rightarrow> table \<Rightarrow> item \<Rightarrow> bool" where
  "branded_as prepared instance' t r \<longleftrightarrow> cells r ''tenant_id'' = declared t prepared instance' ''tenant_id''"

section \<open>Languages, countries and brands\<close>

definition language_prepare :: "sheet \<Rightarrow> item option \<Rightarrow> sheet" where
  "language_prepare sheet _ = recased lower ''code_iso_language'' (recased lower ''code_iso_639_1'' sheet)"

definition language_validate :: "sheet \<Rightarrow> item option \<Rightarrow> unit desk" where
  "language_validate sheet instance' =
     (let code = given sheet ''code_iso_639_1'' in
      if truthy_cell code then ensure_unique Language ''code_iso_639_1'' (Text (lower (text_cell code))) ''error.code-already-used'' instance' (\<lambda>_. True)
      else ret ())"

definition language_service :: resource where
  "language_service = (plain_service Language)\<lparr>rs_system_wide := True, rs_search := [''code_iso_639_1'', ''code_iso_language''],
     rs_text_search := [''name'', ''native_name''], rs_filter := [''active''],
     rs_ordering := [''id'', ''name'', ''code_iso_639_1'', ''created_at''], rs_default_ordering := ''name'', rs_label := [''name''],
     rs_prepare := language_prepare, rs_validate := language_validate\<rparr>"

text \<open>The rows behind the languages this instance offers, in the order the configuration names them.\<close>

definition offered :: "house \<Rightarrow> shelves \<Rightarrow> item list" where
  "offered h sh = List.map_filter (\<lambda>code. List.find (\<lambda>r. cells r ''code_iso_639_1'' = Text code \<and> cells r ''active'' = Flag True) (rev (sh Language)))
     (ho_languages h)"

definition country_prepare :: "sheet \<Rightarrow> item option \<Rightarrow> sheet" where
  "country_prepare sheet _ = recased upper ''code_iso_3166_1'' sheet"

definition country_validate :: "sheet \<Rightarrow> item option \<Rightarrow> unit desk" where
  "country_validate sheet instance' =
     (let code = given sheet ''code_iso_3166_1'' in
      if truthy_cell code then ensure_unique Country ''code_iso_3166_1'' (Text (upper (text_cell code))) ''error.code-already-used'' instance' (\<lambda>_. True)
      else ret ())"

definition country_service :: resource where
  "country_service = (plain_service Country)\<lparr>rs_system_wide := True, rs_search := [''code_iso_3166_1''],
     rs_text_search := [''name''], rs_filter := [''active'', ''postal_code_provider''],
     rs_ordering := [''id'', ''name'', ''code_iso_3166_1'', ''created_at''], rs_default_ordering := ''name'', rs_label := [''name''],
     rs_prepare := country_prepare, rs_validate := country_validate\<rparr>"

definition country_by_code :: "string \<Rightarrow> shelves \<Rightarrow> item option" where
  "country_by_code code sh = List.find (\<lambda>r. cells r ''code_iso_3166_1'' = Text (upper code) \<and> cells r ''active'' = Flag True) (sh Country)"

definition tenant_prepare :: "house \<Rightarrow> sheet \<Rightarrow> item option \<Rightarrow> sheet" where
  "tenant_prepare h sheet instance' = apply_slug (ho_nfkd h) Tenant sheet instance' ''code'' [''name'', ''domain''] ''tenant''"

definition tenant_validate :: "house \<Rightarrow> sheet \<Rightarrow> item option \<Rightarrow> unit desk" where
  "tenant_validate h sheet instance' =
     (let prepared = tenant_prepare h sheet instance' in
      andThen (ensure_unique Tenant ''code'' (given prepared ''code'') ''error.code-already-used'' instance' (\<lambda>_. True)) (\<lambda>_.
      ensure_unique Tenant ''domain'' (given prepared ''domain'') ''error.domain-already-used'' instance' (\<lambda>_. True)))"

definition subscription_dependents :: "dependent list" where
  "subscription_dependents = [Dependent SubscriptionBenefit ''subscription_id'' [Dependent BenefitGrant ''subscription_benefit_id'' []],
     Dependent UserEntitlement ''subscription_id'' []]"

definition USER_DEPENDENTS :: "dependent list" where
  "USER_DEPENDENTS = [Dependent UserAddress ''user_id'' [], Dependent UserProduct ''user_id'' [], Dependent Purchase ''user_id'' [],
     Dependent CreditTransaction ''user_id'' [], Dependent UserBalance ''user_id'' [], Dependent AppEvent ''user_id'' []]"

text \<open>This order keeps a restricted reference from firing before the row holding it is gone.\<close>

definition TENANT_DEPENDENTS :: "dependent list" where
  "TENANT_DEPENDENTS =
    [Dependent Subscription ''tenant_id'' subscription_dependents,
     Dependent User ''tenant_id'' USER_DEPENDENTS,
     Dependent Integration ''tenant_id'' [Dependent WebhookEvent ''integration_id'' [], Dependent ExternalProduct ''integration_id'' []],
     Dependent Entitlement ''tenant_id'' [Dependent Benefit ''entitlement_id'' [], Dependent PlanEntitlement ''entitlement_id'' []],
     Dependent Plan ''tenant_id'' [Dependent PlanEntitlement ''plan_id'' []],
     Dependent Product ''tenant_id'' [],
     Dependent Currency ''tenant_id'' [],
     Dependent Gallery ''tenant_id'' [Dependent GalleryPhoto ''gallery_id'' []],
     Dependent Content ''tenant_id'' [],
     Dependent Banner ''tenant_id'' [],
     Dependent AppEvent ''tenant_id'' [],
     Dependent SystemLog ''tenant_id'' []]"

definition tenant_service :: "house \<Rightarrow> resource" where
  "tenant_service h = (plain_service Tenant)\<lparr>rs_system_wide := True, rs_lookup_roles := PANEL_ROLES, rs_search := [''code'', ''domain''],
     rs_text_search := [''name''], rs_filter := [''active''], rs_ordering := [''id'', ''code'', ''name'', ''domain'', ''created_at''],
     rs_default_ordering := ''name'', rs_label := [''name'', ''code''], rs_dependents := TENANT_DEPENDENTS,
     rs_prepare := tenant_prepare h, rs_validate := tenant_validate h\<rparr>"

section \<open>What is sold\<close>

definition currency_prepare :: "house \<Rightarrow> sheet \<Rightarrow> item option \<Rightarrow> sheet" where
  "currency_prepare h sheet instance' = apply_slug (ho_nfkd h) Currency sheet instance' ''code'' [''name''] ''currency''"

definition currency_validate :: "house \<Rightarrow> sheet \<Rightarrow> item option \<Rightarrow> unit desk" where
  "currency_validate h sheet instance' =
     (let prepared = currency_prepare h sheet instance' in
      ensure_unique Currency ''code'' (given prepared ''code'') ''error.code-already-used'' instance' (branded_as prepared instance' Currency))"

definition currency_service :: "house \<Rightarrow> resource" where
  "currency_service h = (plain_service Currency)\<lparr>rs_shared := True, rs_search := [''code''], rs_text_search := [''name''],
     rs_filter := [''tenant_id'', ''entitlement_id'', ''active''],
     rs_elsewhere := [(''entitlement_id'', \<lparr>el_column = (Entitlement, ''id''), el_narrows = reached_from Entitlement\<rparr>)],
     rs_ordering := [''id'', ''code'', ''name'', ''position'', ''created_at''], rs_default_ordering := ''position'', rs_label := [''name''],
     rs_position := Some ''position'', rs_prepare := currency_prepare h, rs_validate := currency_validate h\<rparr>"

definition product_prepare :: "house \<Rightarrow> sheet \<Rightarrow> item option \<Rightarrow> sheet" where
  "product_prepare h sheet instance' = recased upper ''currency'' (apply_slug (ho_nfkd h) Product sheet instance' ''slug'' [''name''] ''product'')"

definition product_validate :: "house \<Rightarrow> sheet \<Rightarrow> item option \<Rightarrow> unit desk" where
  "product_validate h sheet instance' =
     (let prepared = product_prepare h sheet instance';
          tenant_id = declared Product prepared instance' ''tenant_id'';
          credits = declared Product prepared instance' ''credits'';
          currency_id = declared Product prepared instance' ''credits_currency_id''
      in andThen (ensure_unique Product ''slug'' (given prepared ''slug'') ''error.slug-already-used'' instance' (branded_as prepared instance' Product)) (\<lambda>_.
         if truthy_cell credits \<noteq> (currency_id \<noteq> Null) then throw (ValidationError ''error.product-credits-require-currency'' ''credits_currency_id'')
         else ensure_reaches Currency currency_id tenant_id ''credits_currency_id'' ''error.related-not-found''))"

definition product_service :: "house \<Rightarrow> resource" where
  "product_service h = (plain_service Product)\<lparr>rs_shared := True, rs_search := [''slug''], rs_text_search := [''name''],
     rs_filter := [''tenant_id'', ''entitlement_id'', ''featured'', ''active''],
     rs_elsewhere := [(''entitlement_id'', \<lparr>el_column = (Entitlement, ''id''), el_narrows = reached_from Entitlement\<rparr>)],
     rs_ordering := [''id'', ''name'', ''slug'', ''price'', ''position'', ''created_at''], rs_default_ordering := ''position'',
     rs_label := [''name''], rs_files := [(''image'', PRODUCT_IMAGE), (''file'', PRODUCT_FILE)], rs_markup := [''description''],
     rs_position := Some ''position'', rs_prepare := product_prepare h, rs_validate := product_validate h\<rparr>"

definition entitlement_service :: resource where
  "entitlement_service = (plain_service Entitlement)\<lparr>rs_shared := True, rs_markup := [''description''], rs_text_search := [''name''],
     rs_filter := [''tenant_id'', ''active''], rs_ordering := [''id'', ''name'', ''created_at''], rs_default_ordering := ''name'',
     rs_label := [''name''], rs_dependents := [Dependent Benefit ''entitlement_id'' [], Dependent PlanEntitlement ''entitlement_id'' []]\<rparr>"

definition plan_prepare :: "house \<Rightarrow> sheet \<Rightarrow> item option \<Rightarrow> sheet" where
  "plan_prepare h sheet instance' = apply_slug (ho_nfkd h) Plan sheet instance' ''code'' [''name''] ''plan''"

definition validate_billing_interval :: "cell \<Rightarrow> cell \<Rightarrow> unit desk" where
  "validate_billing_interval unit amount =
     (if truthy_cell unit = truthy_cell amount then ret () else
      throw (ValidationError ''error.plan-billing-interval-incomplete''
        (if truthy_cell unit then ''billing_interval_value'' else ''billing_interval_unit'')))"

definition plan_validate :: "house \<Rightarrow> sheet \<Rightarrow> item option \<Rightarrow> unit desk" where
  "plan_validate h sheet instance' =
     (let prepared = plan_prepare h sheet instance';
          tenant_id = declared Plan prepared instance' ''tenant_id'';
          code = given prepared ''code'';
          language_id = declared Plan prepared instance' ''language_id''
      in andThen (validate_billing_interval (declared Plan prepared instance' ''billing_interval_unit'')
           (declared Plan prepared instance' ''billing_interval_value'')) (\<lambda>_.
         if \<not> truthy_cell code then ret () else
         andThen (look (\<lambda>sh. list_ex (\<lambda>r. cells r ''tenant_id'' = tenant_id \<and> cells r ''code'' = code \<and> cells r ''language_id'' = language_id
           \<and> (case instance' of None \<Rightarrow> True | Some q \<Rightarrow> rid r \<noteq> rid q)) (sh Plan))) (\<lambda>taken.
         if taken then throw (ValidationError ''error.code-already-used'' ''code'') else ret ())))"

definition plan_service :: "house \<Rightarrow> resource" where
  "plan_service h = (plain_service Plan)\<lparr>rs_shared := True, rs_search := [''code''], rs_text_search := [''name''],
     rs_filter := [''tenant_id'', ''language_id'', ''integration_id'', ''featured'', ''active''],
     rs_elsewhere := [(''integration_id'', \<lparr>el_column = (Integration, ''id''), el_narrows = reached_from Integration\<rparr>)],
     rs_ordering := [''id'', ''code'', ''name'', ''price'', ''position'', ''created_at''], rs_default_ordering := ''position'',
     rs_label := [''name''], rs_files := [(''image'', PLAN_IMAGE)], rs_markup := [''description''],
     rs_dependents := [Dependent PlanEntitlement ''plan_id'' []], rs_prepare := plan_prepare h, rs_validate := plan_validate h\<rparr>"

text \<open>\<open>db.get\<close> of a row the declared key names, whose tenant is read off it.\<close>

definition tenant_of :: "table \<Rightarrow> cell \<Rightarrow> cell desk" where
  "tenant_of t v =
     andThen (look (\<lambda>sh. List.find (\<lambda>r. key_to (rid r) = v) (sh t))) (\<lambda>found.
     case found of None \<Rightarrow> throw AttributeError | Some r \<Rightarrow> ret (cells r ''tenant_id''))"

definition plan_entitlement_validate :: "sheet \<Rightarrow> item option \<Rightarrow> unit desk" where
  "plan_entitlement_validate sheet instance' =
     andThen (tenant_of Plan (declared PlanEntitlement sheet instance' ''plan_id'')) (\<lambda>tenant_id.
     ensure_reaches Entitlement (declared PlanEntitlement sheet instance' ''entitlement_id'') tenant_id ''entitlement_id'' ''error.related-not-found'')"

definition plan_entitlement_service :: resource where
  "plan_entitlement_service = (plain_service PlanEntitlement)\<lparr>rs_shared := True, rs_reach := Some (Reach ''plan_id'' Plan None),
     rs_filter := [''plan_id'', ''entitlement_id''], rs_ordering := [''id'', ''created_at''], rs_label := [''id''],
     rs_validate := plan_entitlement_validate\<rparr>"

definition INTERVAL_CEILING_YEARS :: int where
  "INTERVAL_CEILING_YEARS = 100"

definition interval_unit_named :: "cell \<Rightarrow> interval_unit option" where
  "interval_unit_named v = map_of [(Text ''day'', DAY), (Text ''week'', WEEK), (Text ''month'', MONTH), (Text ''year'', YEAR)] v"

text \<open>The step of every activation, which is refused where the calendar cannot hold it.\<close>

definition validate_interval :: "cell \<Rightarrow> cell \<Rightarrow> cell \<Rightarrow> unit desk" where
  "validate_interval cadence unit amount =
     (if cadence = Text ''recurring'' then
        if \<not> truthy_cell unit \<or> \<not> truthy_cell amount then throw (ValidationError ''error.benefit-recurring-requires-interval'' ''interval_unit'') else
        if whole_of amount < 1 then throw (ValidationError ''error.benefit-interval-value-min'' ''interval_value'') else
        andThen hour (\<lambda>now.
        andThen (handle (lift (add_interval now (interval_unit_named unit) (Some (whole_of amount)))) (\<lambda>e. case e of
            OverflowError \<Rightarrow> throw (ValidationError ''error.benefit-interval-too-long'' ''interval_value'')
          | ValueError \<Rightarrow> throw (ValidationError ''error.benefit-interval-too-long'' ''interval_value'')
          | _ \<Rightarrow> throw e)) (\<lambda>step.
        andThen (lift (add_interval now (Some YEAR) (Some INTERVAL_CEILING_YEARS))) (\<lambda>ceiling.
        if ceiling < step then throw (ValidationError ''error.benefit-interval-too-long'' ''interval_value'') else ret ())))
      else if truthy_cell unit \<or> truthy_cell amount then throw (ValidationError ''error.benefit-non-recurring-no-interval'' ''interval_unit'')
      else ret ())"

definition validate_payload :: "cell \<Rightarrow> cell \<Rightarrow> cell \<Rightarrow> cell \<Rightarrow> unit desk" where
  "validate_payload what quantity product_id currency_id =
     (if what \<in> {Text ''credit'', Text ''product''} \<and> (quantity = Null \<or> whole_of quantity \<le> 0)
      then throw (ValidationError ''error.benefit-quantity-must-be-positive'' ''quantity'')
      else if what = Text ''credit'' \<and> currency_id = Null then throw (ValidationError ''error.benefit-credit-requires-currency'' ''currency_id'')
      else if what \<noteq> Text ''credit'' \<and> currency_id \<noteq> Null
      then throw (ValidationError ''error.benefit-currency-only-on-a-credit-benefit'' ''currency_id'')
      else if what = Text ''product'' \<and> product_id = Null then throw (ValidationError ''error.benefit-product-requires-product'' ''product_id'')
      else if what \<noteq> Text ''product'' \<and> product_id \<noteq> Null
      then throw (ValidationError ''error.benefit-product-only-on-a-product-benefit'' ''product_id'')
      else ret ())"

definition benefit_validate :: "sheet \<Rightarrow> item option \<Rightarrow> unit desk" where
  "benefit_validate sheet instance' =
     (let its = declared Benefit sheet instance' in
      andThen (validate_interval (its ''cadence'') (its ''interval_unit'') (its ''interval_value'')) (\<lambda>_.
      andThen (validate_payload (its ''type'') (its ''quantity'') (its ''product_id'') (its ''currency_id'')) (\<lambda>_.
      andThen (tenant_of Entitlement (its ''entitlement_id'')) (\<lambda>tenant_id.
      andThen (ensure_reaches Product (its ''product_id'') tenant_id ''product_id'' ''error.product-out-of-tenant'') (\<lambda>_.
      ensure_reaches Currency (its ''currency_id'') tenant_id ''currency_id'' ''error.related-not-found'')))))"

definition benefit_service :: resource where
  "benefit_service = (plain_service Benefit)\<lparr>rs_shared := True, rs_reach := Some (Reach ''entitlement_id'' Entitlement None),
     rs_search := [''target''], rs_filter := [''entitlement_id'', ''product_id'', ''currency_id'', ''type'', ''cadence'', ''active''],
     rs_ordering := [''id'', ''type'', ''created_at''], rs_label := [''target''], rs_validate := benefit_validate\<rparr>"

section \<open>Gateways\<close>

definition CREDENTIALS :: "string list" where
  "CREDENTIALS = [''revenuecat_api_key'', ''revenuecat_webhook_secret'', ''stripe_api_key'', ''stripe_webhook_secret'']"

definition encrypt :: "house \<Rightarrow> cell \<Rightarrow> cell" where
  "encrypt h v = (if v \<in> {Null, Text ''''} then Null else Text (ho_encrypt h (text_cell v)))"

text \<open>Secrets arrive in the clear, and leave as the column that keeps them encrypted.\<close>

definition encrypt_one :: "house \<Rightarrow> sheet \<Rightarrow> string \<Rightarrow> sheet" where
  "encrypt_one h prepared name = (case prepared name of None \<Rightarrow> prepared
     | Some v \<Rightarrow> (prepared(name := None))(name @ ''_encrypted'' \<mapsto> encrypt h v))"

definition integration_prepare :: "house \<Rightarrow> sheet \<Rightarrow> item option \<Rightarrow> sheet" where
  "integration_prepare h sheet instance' =
     (let born = (if instance' = None then sheet(''webhook_key'' \<mapsto> Text (ho_token h)) else sheet)
      in foldl (encrypt_one h) born CREDENTIALS)"

definition integration_label :: "house \<Rightarrow> shelves \<Rightarrow> item \<Rightarrow> string" where
  "integration_label h sh r =
     (let owner = (case List.find (\<lambda>t. key_to (rid t) = cells r ''tenant_id'') (sh Tenant) of None \<Rightarrow> ho_name h | Some t \<Rightarrow> text_cell (cells t ''name''))
      in owner @ '' - '' @ ho_translate h (''enum.provider.'' @ text_cell (cells r ''provider'')))"

definition integration_service :: "house \<Rightarrow> resource" where
  "integration_service h = (plain_service Integration)\<lparr>rs_shared := True, rs_search := [''webhook_key''],
     rs_filter := [''tenant_id'', ''provider'', ''environment'', ''active''], rs_ordering := [''id'', ''provider'', ''environment'', ''created_at''],
     rs_label := [''provider''], rs_dependents := [Dependent WebhookEvent ''integration_id'' [], Dependent ExternalProduct ''integration_id'' []],
     rs_prepare := integration_prepare h, rs_named := Some (integration_label h)\<rparr>"

definition external_product_prepare :: "sheet \<Rightarrow> item option \<Rightarrow> sheet" where
  "external_product_prepare sheet _ = recased upper ''reference_currency'' sheet"

definition external_product_validate :: "sheet \<Rightarrow> item option \<Rightarrow> unit desk" where
  "external_product_validate sheet instance' =
     andThen (tenant_of Integration (declared ExternalProduct sheet instance' ''integration_id'')) (\<lambda>tenant_id.
     ensure_reaches Plan (declared ExternalProduct sheet instance' ''plan_id'') tenant_id ''plan_id'' ''error.related-not-found'')"

definition external_product_service :: resource where
  "external_product_service = (plain_service ExternalProduct)\<lparr>rs_shared := True, rs_reach := Some (Reach ''integration_id'' Integration None),
     rs_search := [''external_id'', ''notes''], rs_text_search := [''display_name''], rs_filter := [''integration_id'', ''plan_id'', ''active''],
     rs_ordering := [''id'', ''external_id'', ''display_name'', ''created_at''], rs_label := [''display_name'', ''external_id''],
     rs_prepare := external_product_prepare, rs_validate := external_product_validate\<rparr>"

section \<open>Pages\<close>

definition content_category_prepare :: "house \<Rightarrow> sheet \<Rightarrow> item option \<Rightarrow> sheet" where
  "content_category_prepare h sheet instance' = apply_slug (ho_nfkd h) ContentCategory sheet instance' ''tag'' [''name''] ''category''"

definition content_category_validate :: "house \<Rightarrow> sheet \<Rightarrow> item option \<Rightarrow> unit desk" where
  "content_category_validate h sheet instance' =
     (let prepared = content_category_prepare h sheet instance' in
      ensure_unique ContentCategory ''tag'' (given prepared ''tag'') ''error.tag-already-used'' instance' (branded_as prepared instance' ContentCategory))"

definition content_category_service :: "house \<Rightarrow> resource" where
  "content_category_service h = (plain_service ContentCategory)\<lparr>rs_shared := True, rs_roles := EDITING, rs_search := [''tag''],
     rs_text_search := [''name''], rs_filter := [''tenant_id'', ''active''], rs_ordering := [''id'', ''name'', ''tag'', ''created_at''],
     rs_default_ordering := ''name'', rs_label := [''name''],
     rs_prepare := content_category_prepare h, rs_validate := content_category_validate h\<rparr>"

definition content_prepare :: "house \<Rightarrow> sheet \<Rightarrow> item option \<Rightarrow> sheet" where
  "content_prepare h sheet instance' = apply_slug (ho_nfkd h) Content sheet instance' ''tag'' [''title''] ''content''"

definition content_validate :: "sheet \<Rightarrow> item option \<Rightarrow> unit desk" where
  "content_validate sheet instance' =
     ensure_reaches ContentCategory (declared Content sheet instance' ''category_id'') (declared Content sheet instance' ''tenant_id'')
       ''category_id'' ''error.related-not-found''"

definition content_service :: "house \<Rightarrow> resource" where
  "content_service h = (plain_service Content)\<lparr>rs_shared := True, rs_markup := [''content''], rs_roles := EDITING, rs_search := [''tag''],
     rs_text_search := [''title''], rs_filter := [''tenant_id'', ''category_id'', ''language_id'', ''active''],
     rs_ordering := [''id'', ''title'', ''tag'', ''published_at'', ''created_at''], rs_label := [''title''],
     rs_prepare := content_prepare h, rs_validate := content_validate\<rparr>"

definition gallery_prepare :: "house \<Rightarrow> sheet \<Rightarrow> item option \<Rightarrow> sheet" where
  "gallery_prepare h sheet instance' = apply_slug (ho_nfkd h) Gallery sheet instance' ''tag'' [''title''] ''gallery''"

definition gallery_service :: "house \<Rightarrow> resource" where
  "gallery_service h = (plain_service Gallery)\<lparr>rs_shared := True, rs_roles := EDITING, rs_search := [''tag''], rs_text_search := [''title''],
     rs_filter := [''tenant_id'', ''language_id'', ''active''], rs_ordering := [''id'', ''title'', ''tag'', ''position'', ''published_at'', ''created_at''],
     rs_default_ordering := ''position'', rs_label := [''title''], rs_position := Some ''position'',
     rs_dependents := [Dependent GalleryPhoto ''gallery_id'' []], rs_prepare := gallery_prepare h\<rparr>"

definition gallery_photo_service :: resource where
  "gallery_photo_service = (plain_service GalleryPhoto)\<lparr>rs_shared := True, rs_reach := Some (Reach ''gallery_id'' Gallery None),
     rs_roles := EDITING, rs_search := [''caption''], rs_filter := [''gallery_id''], rs_ordering := [''id'', ''position'', ''created_at''],
     rs_default_ordering := ''position'', rs_label := [''caption''], rs_files := [(''image'', upload_purpose.GALLERY_PHOTO)],
     rs_position := Some ''position''\<rparr>"

definition banner_validate :: "sheet \<Rightarrow> item option \<Rightarrow> unit desk" where
  "banner_validate sheet instance' =
     (case (declared Banner sheet instance' ''starts_at'', declared Banner sheet instance' ''ends_at'') of
        (Moment starts_at, Moment ends_at) \<Rightarrow>
          if ends_at < starts_at then throw (ValidationError ''error.availability-window-inverted'' ''ends_at'') else ret ()
      | _ \<Rightarrow> ret ())"

definition banner_service :: resource where
  "banner_service = (plain_service Banner)\<lparr>rs_shared := True, rs_roles := EDITING, rs_search := [''url''], rs_text_search := [''title''],
     rs_filter := [''tenant_id'', ''language_id'', ''placement'', ''active''],
     rs_ordering := [''id'', ''title'', ''placement'', ''position'', ''starts_at'', ''ends_at'', ''created_at''],
     rs_default_ordering := ''position'', rs_label := [''title''], rs_files := [(''image'', upload_purpose.BANNER)], rs_validate := banner_validate\<rparr>"

end
