(* ===== verification/Services.thy ===== *)
theory Services
  imports Catalogue
begin

text \<open>
  The resources of the accounts, of what was bought and delivered, and of what the system records, and the list of all of them:
  \<^verbatim>\<open>services_by_model\<close>, whose declarations name columns of the schema and tables that are served.
\<close>

section \<open>Accounts\<close>

definition IDENTITY_FIELDS :: "string list" where
  "IDENTITY_FIELDS = [''username'', ''email'', ''document'', ''mobile_phone'']"

definition LOGIN_UNIQUE_FIELDS :: "(string \<times> string) list" where
  "LOGIN_UNIQUE_FIELDS = [(''username'', ''error.username-already-used''), (''email'', ''error.email-already-used''),
     (''document'', ''error.document-already-used''), (''mobile_phone'', ''error.mobile-phone-already-used'')]"

text \<open>Reaching the shared rows is granted by an operator of no brand.\<close>

definition user_stamped :: "operator option \<Rightarrow> sheet \<Rightarrow> sheet" where
  "user_stamped operator sheet =
     (case operator of
        None \<Rightarrow> stamped User operator sheet
      | Some o' \<Rightarrow> if op_tenant o' = None then stamped User operator sheet else (stamped User operator sheet)(''reaches_shared'' := None))"

definition blanked :: "string \<Rightarrow> sheet \<Rightarrow> sheet" where
  "blanked name sheet = (case sheet name of None \<Rightarrow> sheet | Some v \<Rightarrow> if truthy_cell v then sheet else sheet(name \<mapsto> Null))"

definition normalize :: "sheet \<Rightarrow> sheet" where
  "normalize sheet = foldl (\<lambda>s name. blanked name s) (recased lower ''email'' sheet) IDENTITY_FIELDS"

definition user_prepare :: "house \<Rightarrow> sheet \<Rightarrow> item option \<Rightarrow> sheet" where
  "user_prepare h sheet instance' =
     (let prepared = (normalize sheet)(''password'' := None);
          password = given (normalize sheet) ''password'';
          waited = (case instance' of None \<Rightarrow> prepared
            | Some r \<Rightarrow> (case prepared ''email'' of None \<Rightarrow> prepared
              | Some e \<Rightarrow> if e = cells r ''email'' then prepared
                  else prepared(''pending_email'' \<mapsto> Null, ''confirmation_token'' \<mapsto> Null, ''confirmation_sent_at'' \<mapsto> Null,
                    ''recovery_token'' \<mapsto> Null, ''recovery_token_created_at'' \<mapsto> Null)))
      in if \<not> truthy_cell password then waited
         else let hashed = waited(''password_hash'' \<mapsto> Text (ho_hash h (text_cell password)))
         in case instance' of None \<Rightarrow> hashed
            | Some r \<Rightarrow> hashed(''session_epoch'' \<mapsto> Whole (whole_of (cells r ''session_epoch'') + 1),
                ''recovery_token'' \<mapsto> Null, ''recovery_token_created_at'' \<mapsto> Null))"

definition hold_row :: "nat \<Rightarrow> unit desk" where
  "hold_row user_id =
     andThen hour (\<lambda>now.
     andThen (mark_rows User (\<lambda>r. rid r = user_id \<and> cells r ''status'' \<noteq> Text ''erased'') ''updated_at'' (Moment now)) (\<lambda>rowcount.
     if rowcount \<noteq> 1 then throw (ConflictError ''error.account-erased'') else ret ()))"

definition answers_to :: "string \<Rightarrow> item \<Rightarrow> bool" where
  "answers_to login r \<longleftrightarrow>
     (if list_ex is_alpha login then cells r ''username'' = Text login \<or> cells r ''email'' = Text (lower login)
      else cells r ''document'' = Text (only_digits (Some login)) \<or> cells r ''mobile_phone'' = Text (only_digits (Some login)))"

definition ensure_identity_free :: "string \<Rightarrow> string \<Rightarrow> cell \<Rightarrow> item option \<Rightarrow> unit desk" where
  "ensure_identity_free name v tenant_id instance' =
     andThen (look (\<lambda>sh. list_ex (\<lambda>r. answers_to v r \<and> cells r ''tenant_id'' = tenant_id
       \<and> (case instance' of None \<Rightarrow> True | Some q \<Rightarrow> rid r \<noteq> rid q)) (sh User))) (\<lambda>taken.
     if taken then throw (ConflictError (case map_of LOGIN_UNIQUE_FIELDS name of None \<Rightarrow> '''' | Some code \<Rightarrow> code)) else ret ())"

definition ensure_identity :: "sheet \<Rightarrow> item option \<Rightarrow> unit desk" where
  "ensure_identity sheet instance' =
     (if list_ex (\<lambda>name. truthy_cell (declared User sheet instance' name)) IDENTITY_FIELDS then ret ()
      else throw (ValidationError ''error.at-least-one-identity'' ''email''))"

text \<open>The social providers an account still signs in by, on the site or, for who works in it, on the panel.\<close>

definition ways_of :: "house \<Rightarrow> item \<Rightarrow> string list" where
  "ways_of h r = List.map_filter (\<lambda>(provider, enabled, site, admin).
     if enabled \<and> (site \<or> admin \<and> cells r ''role'' \<in> {Text ''editor'', Text ''administrator''}) then Some provider else None) (ho_social h)"

definition repoint_identities :: "nat \<Rightarrow> cell \<Rightarrow> unit desk" where
  "repoint_identities user_id tenant_id =
     andThen hour (\<lambda>now.
     andThen (look (\<lambda>sh. filter (\<lambda>q. cells q ''user_id'' = key_to user_id) (sh SocialIdentity))) (\<lambda>rows.
     andThen (each (\<lambda>q. write_row SocialIdentity (marked now ''tenant_id'' tenant_id q)) rows) (\<lambda>_. ret ())))"

definition user_validate :: "house \<Rightarrow> sheet \<Rightarrow> item option \<Rightarrow> unit desk" where
  "user_validate h sheet instance' =
     andThen (case instance' of None \<Rightarrow> ret () | Some r \<Rightarrow> hold_row (rid r)) (\<lambda>_.
     andThen (case instance' of None \<Rightarrow> ret None | Some r \<Rightarrow> look (\<lambda>sh. fetch (rid r) (sh User))) (\<lambda>refreshed.
     let normalized = normalize sheet;
         tenant_id = declared User normalized refreshed ''tenant_id''
     in andThen (each (\<lambda>name. if truthy_cell (given normalized name)
          then ensure_identity_free name (text_cell (given normalized name)) tenant_id refreshed else ret ()) IDENTITY_FIELDS) (\<lambda>_.
     andThen (ensure_identity normalized refreshed) (\<lambda>_.
     andThen (case refreshed of None \<Rightarrow> ret ()
       | Some r \<Rightarrow>
           if truthy_cell (cells r ''password_hash'') \<or> truthy_cell (given normalized ''password'')
             \<or> truthy_cell (declared User normalized refreshed ''email'') then ret () else
           andThen (look (\<lambda>sh. list_ex (\<lambda>q. cells q ''user_id'' = key_to (rid r) \<and> text_cell (cells q ''provider'') \<in> set (ways_of h r)) (sh SocialIdentity))) (\<lambda>connected.
           if connected then ret () else throw (ValidationError ''error.last-sign-in-method'' ''email''))) (\<lambda>_.
     andThen (if given normalized ''language_id'' = Null then ret () else
         andThen (look (\<lambda>sh. list_ex (\<lambda>l. key_to (rid l) = given normalized ''language_id'') (offered h sh))) (\<lambda>there.
         if there then ret () else throw (ValidationError ''error.language-not-offered'' ''language_id''))) (\<lambda>_.
     case refreshed of None \<Rightarrow> ret ()
     | Some r \<Rightarrow>
         if tenant_id = cells r ''tenant_id'' then ret () else
         refusing_rows ''error.social-identity-in-use'' (repoint_identities (rid r) tenant_id)))))))"

definition user_label :: "shelves \<Rightarrow> item \<Rightarrow> string" where
  "user_label sh r =
     (let stripped = (\<lambda>name. strip (text_cell (cells r name)));
          full = join '' '' (filter (\<lambda>part. part \<noteq> '''') [stripped ''first_name'', stripped ''last_name'']);
          local = fst (split_once (CHR ''@'') (text_cell (cells r ''email'')))
      in if stripped ''nickname'' \<noteq> '''' then stripped ''nickname''
         else if full \<noteq> '''' then full
         else if text_cell (cells r ''username'') \<noteq> '''' then text_cell (cells r ''username'')
         else if local \<noteq> '''' then local else ''#'' @ decimal (rid r))"

text \<open>What an account is called, as the database coalesces it.\<close>

definition user_called :: "item \<Rightarrow> cell" where
  "user_called r = (case filter (\<lambda>v. v \<noteq> Null) (map (cells r) [''nickname'', ''first_name'', ''username'', ''email'']) of [] \<Rightarrow> Null | v # _ \<Rightarrow> v)"

definition user_service :: "house \<Rightarrow> resource" where
  "user_service h = (plain_service User)\<lparr>rs_search := [''username'', ''email'', ''document'', ''mobile_phone''],
     rs_text_search := [''first_name'', ''last_name'', ''nickname''], rs_filter := [''tenant_id'', ''role'', ''status'', ''language_id''],
     rs_ordering := [''id'', ''username'', ''email'', ''first_name'', ''last_name'', ''role'', ''status'', ''created_at''],
     rs_label := [''username''], rs_files := [(''avatar'', AVATAR)], rs_markup := [''notes''], rs_dependents := USER_DEPENDENTS,
     rs_stamp := user_stamped, rs_prepare := user_prepare h, rs_validate := user_validate h,
     rs_named := Some user_label, rs_called := Some user_called\<rparr>"

definition user_address_prepare :: "sheet \<Rightarrow> item option \<Rightarrow> sheet" where
  "user_address_prepare sheet _ = recased upper ''country_code'' sheet"

definition user_address_validate :: "sheet \<Rightarrow> item option \<Rightarrow> unit desk" where
  "user_address_validate sheet instance' =
     (let prepared = user_address_prepare sheet instance';
          user_id = declared UserAddress prepared instance' ''user_id'';
          country_code = declared UserAddress prepared instance' ''country_code''
      in andThen (hold_row (nat (whole_of user_id))) (\<lambda>_.
         andThen (ensure_unique UserAddress ''type'' (declared UserAddress prepared instance' ''type'') ''error.address-type-already-used'' instance'
           (\<lambda>r. cells r ''user_id'' = user_id)) (\<lambda>_.
         if \<not> truthy_cell country_code then ret () else
         andThen (look (country_by_code (text_cell country_code))) (\<lambda>found.
         if found = None then throw (ValidationError ''error.country-not-offered'' ''country_code'') else ret ()))))"

definition user_address_service :: resource where
  "user_address_service = (plain_service UserAddress)\<lparr>rs_reach := Some (Reach ''user_id'' User None), rs_search := [''postal_code'', ''city''],
     rs_filter := [''user_id'', ''type'', ''country_code''], rs_ordering := [''id'', ''type'', ''city'', ''created_at''], rs_label := [''line1''],
     rs_prepare := user_address_prepare, rs_validate := user_address_validate\<rparr>"

section \<open>What was bought and delivered\<close>

text \<open>The account of a row is the account of the subscription it came from.\<close>

definition subscribed_by :: "shelves \<Rightarrow> cell \<Rightarrow> cell \<Rightarrow> bool" where
  "subscribed_by sh user_id v \<longleftrightarrow> list_ex (\<lambda>s. v = key_to (rid s) \<and> cells s ''user_id'' = user_id) (sh Subscription)"

definition of_subscriber :: "shelves \<Rightarrow> cell \<Rightarrow> item \<Rightarrow> bool" where
  "of_subscriber sh user_id r \<longleftrightarrow> subscribed_by sh user_id (cells r ''subscription_id'')"

definition grant_of_subscriber :: "shelves \<Rightarrow> cell \<Rightarrow> item \<Rightarrow> bool" where
  "grant_of_subscriber sh user_id r \<longleftrightarrow>
     list_ex (\<lambda>b. cells r ''subscription_benefit_id'' = key_to (rid b) \<and> of_subscriber sh user_id b) (sh SubscriptionBenefit)"

definition benefit_grant_service :: resource where
  "benefit_grant_service = (plain_service BenefitGrant)\<lparr>
     rs_reach := Some (Reach ''subscription_benefit_id'' SubscriptionBenefit (Some (Reach ''subscription_id'' Subscription None))),
     rs_search := [''grant_key'', ''cycle_key''], rs_filter := [''user_id'', ''status''],
     rs_elsewhere := [(''user_id'', \<lparr>el_column = (Subscription, ''user_id''), el_narrows = grant_of_subscriber\<rparr>)],
     rs_ordering := [''id'', ''scheduled_at'', ''status'', ''created_at''], rs_label := [''grant_key'']\<rparr>"

definition subscription_benefit_service :: resource where
  "subscription_benefit_service = (plain_service SubscriptionBenefit)\<lparr>rs_reach := Some (Reach ''subscription_id'' Subscription None),
     rs_search := [''target''], rs_filter := [''user_id'', ''benefit_id'', ''status'', ''benefit_type''],
     rs_elsewhere := [(''user_id'', \<lparr>el_column = (Subscription, ''user_id''), el_narrows = of_subscriber\<rparr>)],
     rs_ordering := [''id'', ''next_grant_at'', ''last_grant_at'', ''created_at''], rs_label := [''target''],
     rs_dependents := [Dependent BenefitGrant ''subscription_benefit_id'' []]\<rparr>"

definition subscription_service :: resource where
  "subscription_service = (plain_service Subscription)\<lparr>rs_search := [''external_id''],
     rs_filter := [''tenant_id'', ''user_id'', ''plan_id'', ''integration_id'', ''status'', ''benefit_status''],
     rs_ordering := [''id'', ''status'', ''started_at'', ''current_period_ends_at'', ''created_at''], rs_label := [''id''],
     rs_dependents := subscription_dependents\<rparr>"

definition user_entitlement_service :: resource where
  "user_entitlement_service = (plain_service UserEntitlement)\<lparr>rs_reach := Some (Reach ''subscription_id'' Subscription None),
     rs_filter := [''user_id'', ''entitlement_id'', ''status''],
     rs_elsewhere := [(''user_id'', \<lparr>el_column = (Subscription, ''user_id''), el_narrows = of_subscriber\<rparr>)],
     rs_ordering := [''id'', ''status'', ''expires_at'', ''created_at''], rs_label := [''id'']\<rparr>"

definition user_product_service :: resource where
  "user_product_service = (plain_service UserProduct)\<lparr>rs_reach := Some (Reach ''user_id'' User None),
     rs_filter := [''user_id'', ''product_id'', ''subscription_id''], rs_ordering := [''id'', ''granted_at'', ''created_at''], rs_label := [''id'']\<rparr>"

definition user_balance_service :: resource where
  "user_balance_service = (plain_service UserBalance)\<lparr>rs_reach := Some (Reach ''user_id'' User None),
     rs_filter := [''user_id'', ''currency_id''], rs_ordering := [''id'', ''amount'', ''created_at''], rs_label := [''id'']\<rparr>"

definition credit_transaction_service :: resource where
  "credit_transaction_service = (plain_service CreditTransaction)\<lparr>rs_reach := Some (Reach ''user_id'' User None),
     rs_search := [''idempotency_key''], rs_text_search := [''description''],
     rs_filter := [''user_id'', ''currency_id'', ''type'', ''benefit_grant_id''], rs_ordering := [''id'', ''amount'', ''created_at''],
     rs_label := [''idempotency_key'']\<rparr>"

definition purchase_service :: resource where
  "purchase_service = (plain_service Purchase)\<lparr>rs_search := [''reference'', ''external_id''],
     rs_filter := [''tenant_id'', ''user_id'', ''product_id'', ''integration_id'', ''status''],
     rs_ordering := [''id'', ''status'', ''price'', ''paid_at'', ''created_at''], rs_label := [''reference'']\<rparr>"

section \<open>What the system records\<close>

definition app_event_service :: resource where
  "app_event_service = (plain_service AppEvent)\<lparr>rs_search := [''uuid'', ''name''], rs_filter := [''tenant_id'', ''user_id'', ''status'', ''name''],
     rs_ordering := [''id'', ''name'', ''status'', ''occurred_at'', ''created_at''], rs_label := [''name'']\<rparr>"

definition newsletter_subscription_service :: resource where
  "newsletter_subscription_service = (plain_service NewsletterSubscription)\<lparr>rs_search := [''email''],
     rs_filter := [''tenant_id'', ''status'', ''locale''], rs_ordering := [''id'', ''email'', ''status'', ''settled_at'', ''created_at''],
     rs_label := [''email'']\<rparr>"

definition outbound_email_service :: resource where
  "outbound_email_service = (plain_service OutboundEmail)\<lparr>rs_search := [''to_address'', ''template''],
     rs_filter := [''tenant_id'', ''status'', ''template''], rs_ordering := [''id'', ''status'', ''attempts'', ''sent_at'', ''created_at''],
     rs_label := [''subject'']\<rparr>"

definition system_log_service :: resource where
  "system_log_service = (plain_service SystemLog)\<lparr>rs_search := [''category'', ''description''],
     rs_filter := [''tenant_id'', ''user_id'', ''level'', ''category''], rs_ordering := [''id'', ''level'', ''category'', ''created_at''],
     rs_label := [''category'']\<rparr>"

definition webhook_event_service :: resource where
  "webhook_event_service = (plain_service WebhookEvent)\<lparr>
     rs_filter := [''tenant_id'', ''integration_id'', ''status'', ''action'', ''user_id'', ''subscription_id''],
     rs_ordering := [''id'', ''action'', ''status'', ''occurred_at'', ''created_at''], rs_label := [''external_event_id'']\<rparr>"

section \<open>Every service\<close>

definition services :: "house \<Rightarrow> resource list" where
  "services h =
    [app_event_service, banner_service, benefit_grant_service, benefit_service, content_category_service h, content_service h,
     country_service, credit_transaction_service, currency_service h, entitlement_service, external_product_service, gallery_photo_service,
     gallery_service h, integration_service h, language_service, newsletter_subscription_service, outbound_email_service,
     plan_entitlement_service, plan_service h, product_service h, purchase_service, subscription_benefit_service, subscription_service,
     system_log_service, tenant_service h, user_address_service, user_balance_service, user_entitlement_service, user_product_service,
     user_service h, webhook_event_service]"

definition served :: "house \<Rightarrow> table \<Rightarrow> resource option" where
  "served h t = List.find (\<lambda>rs. rs_table rs = t) (services h)"

text \<open>Who may put a file of a purpose into storage: whoever may write a record that keeps one, or the markup an image is embedded in.\<close>

definition roles_storing :: "house \<Rightarrow> upload_purpose \<Rightarrow> user_role list" where
  "roles_storing h purpose = remdups (concat (map rs_roles (filter (\<lambda>rs. purpose \<in> snd ` set (rs_files rs)
     \<or> purpose = upload_purpose.IMAGE \<and> rs_markup rs \<noteq> []) (services h))))"

end
