(* ===== verification/Panel_Routes.thy ===== *)
theory Panel_Routes
  imports Services Ledger
begin

text \<open>
  The routes every resource of the panel answers: \<^verbatim>\<open>helpers/crud.py\<close> bound to the services of \<^verbatim>\<open>routes/\<close>. A request is
  guarded, served, written down in the log of the system, and its session is closed, which gives back whatever was not committed.
\<close>

section \<open>Filters of the query string\<close>

definition TRUE_VALUES :: "string list" where
  "TRUE_VALUES = [''true'', ''1'', ''yes'']"

definition FALSE_VALUES :: "string list" where
  "FALSE_VALUES = [''false'', ''0'', ''no'']"

text \<open>\<open>int(raw)\<close> of a text that is digits behind any number of signs, of which it takes one.\<close>

definition whole_named :: "string \<Rightarrow> cell outcome" where
  "whole_named raw =
     (let digits = dropWhile (\<lambda>c. c = CHR ''-'') raw; n = int (read_digits 0 digits)
      in if digits = '''' \<or> \<not> list_all is_digit digits \<or> length raw > length digits + 1 then Err ValueError
         else if n > BIG_INTEGER_MAX then Err ValueError
         else Ok (Whole (if raw = digits then n else - n)))"

text \<open>Filters arrive as text, and are read through the column they target.\<close>

definition coerce :: "kind \<Rightarrow> string \<Rightarrow> cell outcome" where
  "coerce what raw =
     (if raw = '''' then Ok Null else case what of
        FlagKind \<Rightarrow> if lower raw \<in> set TRUE_VALUES then Ok (Flag True)
          else if lower raw \<in> set FALSE_VALUES then Ok (Flag False) else Err ValueError
      | WholeKind \<Rightarrow> whole_named raw
      | ChoiceKind members \<Rightarrow> if raw \<in> set members then Ok (Text raw) else Err ValueError
      | _ \<Rightarrow> Ok (Text raw))"

definition filter_kind :: "resource \<Rightarrow> string \<Rightarrow> kind" where
  "filter_kind rs name =
     (let column = (case map_of (rs_elsewhere rs) name of None \<Rightarrow> (rs_table rs, name) | Some e \<Rightarrow> el_column e)
      in case column_of (fst column) (snd column) of None \<Rightarrow> WholeKind | Some c \<Rightarrow> co_kind c)"

text \<open>A filter nobody applies, and a value the column cannot read, are refused: dropped, each would answer the whole list.\<close>

fun read_filters :: "office \<Rightarrow> resource \<Rightarrow> (string \<times> string) list \<Rightarrow> string list \<Rightarrow> (string \<times> cell) list outcome" where
  "read_filters w rs params [] = Ok []"
| "read_filters w rs params (name # rest) =
     (case map_of (rev params) (of_camel w name) of
        None \<Rightarrow> read_filters w rs params rest
      | Some raw \<Rightarrow> (case coerce (filter_kind rs name) raw of
          Ok v \<Rightarrow> (case read_filters w rs params rest of
              Ok others \<Rightarrow> Ok (if v = Null then others else (name, v) # others)
            | Err e \<Rightarrow> Err e | Hangs \<Rightarrow> Hangs)
        | Err e \<Rightarrow> Err (ValidationError ''error.invalid-query-parameter'' '''')
        | Hangs \<Rightarrow> Hangs))"

definition parse_filters :: "office \<Rightarrow> resource \<Rightarrow> (string \<times> string) list \<Rightarrow> string list \<Rightarrow> (string \<times> cell) list outcome" where
  "parse_filters w rs params reserved =
     (if list_ex (\<lambda>(sent, _). sent \<notin> set (map (of_camel w) (rs_filter rs)) \<and> sent \<notin> set reserved) params
      then Err (ValidationError ''error.unknown-query-parameter'' '''')
      else read_filters w rs params (rs_filter rs))"

definition PAGE_PARAMS :: "string list" where
  "PAGE_PARAMS = [''limit'', ''offset'', ''search'', ''ordering'']"

definition LOOKUP_PARAMS :: "string list" where
  "LOOKUP_PARAMS = [''limit'', ''search'']"

section \<open>Who is let in\<close>

definition let_in :: "user_role list \<Rightarrow> operator \<Rightarrow> unit desk" where
  "let_in roles author = (if op_role author \<notin> set roles then throw (PermissionError ''error.role-not-allowed'') else ret ())"

text \<open>A catalogue of the system is reached by an operator that belongs to no brand either.\<close>

definition operator_of :: "resource \<Rightarrow> operator \<Rightarrow> unit desk" where
  "operator_of rs author = (if rs_system_wide rs \<and> op_tenant author \<noteq> None then throw (PermissionError ''error.forbidden'') else ret ())"

definition resolving :: "resource \<Rightarrow> operator \<Rightarrow> unit desk" where
  "resolving rs author = andThen (let_in (if rs_lookup_roles rs = [] then rs_roles rs else rs_lookup_roles rs) author) (\<lambda>_. operator_of rs author)"

definition managing :: "resource \<Rightarrow> operator \<Rightarrow> unit desk" where
  "managing rs author = andThen (resolving rs author) (\<lambda>_. let_in (rs_roles rs) author)"

section \<open>Reading\<close>

definition list_records :: "office \<Rightarrow> resource \<Rightarrow> operator \<Rightarrow> page_params \<Rightarrow> (string \<times> string) list \<Rightarrow> (nat \<times> item list) desk" where
  "list_records w rs author page params =
     andThen (managing rs author) (\<lambda>_.
     andThen (lift (parse_filters w rs params PAGE_PARAMS)) (\<lambda>filters.
     paginate w rs page filters (Some author)))"

definition lookup_records :: "office \<Rightarrow> resource \<Rightarrow> operator \<Rightarrow> string option \<Rightarrow> nat \<Rightarrow> (string \<times> string) list \<Rightarrow> (nat \<times> string) list desk" where
  "lookup_records w rs author search limit params =
     andThen (resolving rs author) (\<lambda>_.
     andThen (lift (parse_filters w rs params LOOKUP_PARAMS)) (\<lambda>filters.
     lookup w rs search limit filters (Some author)))"

definition lookup_record :: "resource \<Rightarrow> operator \<Rightarrow> nat \<Rightarrow> (nat \<times> string) desk" where
  "lookup_record rs author record_id =
     andThen (resolving rs author) (\<lambda>_.
     andThen (get_row rs record_id (Some author) False) (\<lambda>r.
     look (\<lambda>sh. (rid r, build_label rs sh r))))"

definition read_record :: "resource \<Rightarrow> operator \<Rightarrow> nat \<Rightarrow> item desk" where
  "read_record rs author record_id =
     andThen (managing rs author) (\<lambda>_. get_row rs record_id (Some author) False)"

section \<open>Writing\<close>

text \<open>What an operator did: the account, the action and what it reached, and never the body.\<close>

definition new_log :: "house \<Rightarrow> datetime \<Rightarrow> operator \<Rightarrow> item option \<Rightarrow> string \<Rightarrow> string \<Rightarrow> nat list \<Rightarrow> item" where
  "new_log h stamp author who action tag records =
     (let called = (case who of None \<Rightarrow> '''' | Some u \<Rightarrow>
        if text_cell (cells u ''username'') \<noteq> '''' then text_cell (cells u ''username'') else text_cell (cells u ''token''))
      in \<lparr>rid = 0, cells = no_cells(''tenant_id'' := case op_tenant author of None \<Rightarrow> Null | Some t \<Rightarrow> key_to t, ''user_id'' := key_to (op_id author),
        ''level'' := Text ''info'', ''category'' := Text ''admin'',
        ''description'' := Text (called @ '' '' @ action @ '' '' @ tag @ '' '' @ join '', '' (map decimal records)),
        ''meta'' := Doc (ho_dumps h action tag records), ''created_at'' := Moment stamp, ''updated_at'' := Moment stamp)\<rparr>)"

definition audit_written :: "house \<Rightarrow> operator \<Rightarrow> string \<Rightarrow> string \<Rightarrow> nat list \<Rightarrow> unit desk" where
  "audit_written h author action tag records =
     andThen hour (\<lambda>stamp.
     andThen (look (\<lambda>sh. fetch (op_id author) (sh User))) (\<lambda>who.
     andThen (refusing_rows ''error.duplicated-record'' (insert_row SystemLog (new_log h stamp author who action tag records))) (\<lambda>_. persist)))"

datatype call = Creating sheet | Editing nat sheet | Deleting nat | Ordering "nat list"

fun write_record :: "house \<Rightarrow> office \<Rightarrow> resource \<Rightarrow> string \<Rightarrow> operator \<Rightarrow> call \<Rightarrow> unit desk" where
  "write_record h w rs tag author (Creating payload) =
     andThen (create w rs payload (Some author)) (\<lambda>r. audit_written h author ''created'' tag [rid r])"
| "write_record h w rs tag author (Editing record_id payload) =
     andThen (update_one w rs record_id payload (Some author)) (\<lambda>_. audit_written h author ''edited'' tag [record_id])"
| "write_record h w rs tag author (Deleting record_id) =
     (if rs_table rs = User \<and> record_id = op_id author then throw (ValidationError ''error.cannot-delete-yourself'' '''') else
      andThen (delete_one w rs record_id (Some author)) (\<lambda>_. audit_written h author ''deleted'' tag [record_id]))"
| "write_record h w rs tag author (Ordering ids) =
     (if rs_position rs = None then throw NotFoundError else
      andThen (reorder rs ids (Some author)) (\<lambda>_. audit_written h author ''reordered'' tag ids))"

text \<open>The resources the panel writes, by the table and the tag of their router. Every other one is only read.\<close>

definition WRITTEN :: "(table \<times> string) list" where
  "WRITTEN = [(Banner, ''banners''), (Product, ''products''), (Content, ''contents''), (ContentCategory, ''content categories''),
     (Country, ''countries''), (Currency, ''currencies''), (Gallery, ''galleries''), (GalleryPhoto, ''gallery photos''),
     (Integration, ''integrations''), (ExternalProduct, ''external products''), (Language, ''languages''), (Plan, ''plans''),
     (Entitlement, ''entitlements''), (PlanEntitlement, ''plan entitlements''), (Benefit, ''benefits''), (Tenant, ''tenants''),
     (User, ''users''), (UserAddress, ''user addresses'')]"

text \<open>A session is closed with its request, and what it had not committed is given back.\<close>

definition closed :: "'a desk \<Rightarrow> 'a desk" where
  "closed m = (\<lambda>s. case m s of (r, t) \<Rightarrow> (r, t\<lparr>open_rows := committed t\<rparr>))"

definition panel_request :: "house \<Rightarrow> office \<Rightarrow> table \<Rightarrow> operator \<Rightarrow> call \<Rightarrow> unit desk" where
  "panel_request h w t author c =
     closed (case (served h t, map_of WRITTEN t) of
        (Some rs, Some tag) \<Rightarrow> andThen (managing rs author) (\<lambda>_. write_record h w rs tag author c)
      | _ \<Rightarrow> throw NotFoundError)"

text \<open>Requests, each at its moment.\<close>

fun panel_day :: "house \<Rightarrow> office \<Rightarrow> (datetime \<times> table \<times> operator \<times> call) list \<Rightarrow> panel \<Rightarrow> panel" where
  "panel_day h w [] s = s"
| "panel_day h w ((hour_of_it, t, author, c) # rest) s = panel_day h w rest (snd (panel_request h w t author c (s\<lparr>moment := hour_of_it\<rparr>)))"

end
