(* ===== verification/Panel_Facts.thy ===== *)
theory Panel_Facts
  imports Panel
begin

text \<open>
  What the statements of the panel do: the invariants both the open and the committed rows keep through them, what a service answers,
  and what a deletion takes with it.
\<close>

section \<open>The schema\<close>

definition descends :: bool where
  "descends \<longleftrightarrow> list_all (\<lambda>u. list_all (\<lambda>c. case co_points c of
     None \<Rightarrow> True | Some (t, gone) \<Rightarrow> gone = Restrict \<or> height u < height t) (columns u)) tables"

lemma descends: descends
  by code_simp

lemma set_map_filter: "set (List.map_filter f xs) = {y. \<exists>x\<in>set xs. f x = Some y}"
  by (induction xs) (auto simp: List.map_filter_simps split: option.splits)

definition points_to :: "table \<Rightarrow> table \<Rightarrow> column \<Rightarrow> (table \<times> string \<times> on_delete) option" where
  "points_to t u c = (case co_points c of Some (target, gone) \<Rightarrow> if target = t then Some (u, co_name c, gone) else None | None \<Rightarrow> None)"

lemma points_to_iff: "points_to t v c = Some (u, name, gone) \<longleftrightarrow> co_points c = Some (t, gone) \<and> v = u \<and> co_name c = name"
  by (auto simp: points_to_def split: option.splits if_splits)

lemma in_pointing: "(u, name, gone) \<in> set (pointing t) \<longleftrightarrow> (\<exists>c\<in>set (columns u). co_name c = name \<and> co_points c = Some (t, gone))"
proof -
  have "pointing t = concat (map (\<lambda>u. List.map_filter (points_to t u) (columns u)) tables)"
    by (simp add: pointing_def points_to_def [abs_def])
  then have "(u, name, gone) \<in> set (pointing t) \<longleftrightarrow> (\<exists>v\<in>set tables. \<exists>c\<in>set (columns v). co_points c = Some (t, gone) \<and> v = u \<and> co_name c = name)"
    by (simp add: set_map_filter points_to_iff)
  also have "\<dots> \<longleftrightarrow> (\<exists>c\<in>set (columns u). co_name c = name \<and> co_points c = Some (t, gone))"
    using all_tables [of u] by blast
  finally show ?thesis .
qed

lemma pointing_lower: "(u, name, gone) \<in> set (pointing t) \<Longrightarrow> gone \<noteq> Restrict \<Longrightarrow> height u < height t"
  using descends all_tables [of u] by (fastforce simp: in_pointing descends_def list_all_iff)

lemma in_referenced: "(name, t) \<in> set (referenced u) \<longleftrightarrow> (\<exists>c\<in>set (columns u). co_name c = name \<and> (\<exists>gone. co_points c = Some (t, gone)))"
  by (auto simp: referenced_def set_map_filter)

section \<open>What goes with a row\<close>

lemma doomed_lower: "(v, i) \<in> set (doomed n sh t ids) \<Longrightarrow> v = t \<and> i \<in> set ids \<or> height v < height t"
proof (induction n arbitrary: t ids)
  case (Suc n)
  show ?case
  proof (cases "v = t \<and> i \<in> set ids")
    case False
    with Suc.prems obtain u name where p: "(u, name, Cascade) \<in> set (pointing t)"
        and d: "(v, i) \<in> set (doomed n sh u (pointing_rows sh u name ids))"
      by (auto split: if_splits)
    from pointing_lower [OF p] have "height u < height t" by simp
    with Suc.IH [OF d] show ?thesis by auto
  qed simp
qed simp

text \<open>The fuel is enough: whatever a CASCADE ties to a row that goes, goes too.\<close>

lemma doomed_ids: "n \<noteq> 0 \<Longrightarrow> i \<in> set ids \<Longrightarrow> (t, i) \<in> set (doomed n sh t ids)"
  by (cases n) auto

lemma doomed_closed:
  assumes "height t < n" and "(v, i) \<in> set (doomed n sh t ids)" and "(u, name, Cascade) \<in> set (pointing v)"
    and "r \<in> set (sh u)" and "cells r name = key_to i"
  shows "(u, rid r) \<in> set (doomed n sh t ids)"
  using assms(1,2)
proof (induction n arbitrary: t ids)
  case (Suc n)
  have ids: "ids \<noteq> []" using Suc.prems(2) by auto
  show ?case
  proof (cases "v = t \<and> i \<in> set ids")
    case True
    have "height u < height t" using assms(3) True pointing_lower [of u name Cascade t] by simp
    then have "n \<noteq> 0" using Suc.prems(1) by auto
    moreover have "rid r \<in> set (pointing_rows sh u name ids)"
      using assms(4,5) True by (auto simp: pointing_rows_def list_ex_iff)
    ultimately have "(u, rid r) \<in> set (doomed n sh u (pointing_rows sh u name ids))" by (rule doomed_ids)
    with ids True assms(3) show ?thesis by (auto intro!: bexI [of _ "(u, name, Cascade)"])
  next
    case False
    with Suc.prems(2) obtain w which where w: "(w, which, Cascade) \<in> set (pointing t)"
        and d: "(v, i) \<in> set (doomed n sh w (pointing_rows sh w which ids))"
      by (auto split: if_splits)
    have "height w < n" using Suc.prems(1) pointing_lower [OF w] by simp
    from Suc.IH [OF this d] w ids show ?thesis by (auto intro!: bexI [of _ "(w, which, Cascade)"])
  qed
qed simp

lemma let_go_id:
  assumes "\<And>name t. (u, name, SetNull) \<in> set (pointing t) \<Longrightarrow> \<forall>(v, i)\<in>set going. v \<noteq> t"
  shows "let_go going u r = r"
proof -
  have tied: "\<not> (case co_points c of Some (t, SetNull) \<Rightarrow> list_ex (\<lambda>(v, i). v = t \<and> cells r name = key_to i) going | _ \<Rightarrow> False)"
    if c: "c \<in> set (columns u)" for c name
  proof (cases "\<exists>t. co_points c = Some (t, SetNull)")
    case True
    then obtain t where t: "co_points c = Some (t, SetNull)" ..
    with c have "(u, co_name c, SetNull) \<in> set (pointing t)" by (auto simp: in_pointing)
    from assms [OF this] t show ?thesis by (auto simp: list_ex_iff)
  next
    case False
    then show ?thesis by (auto split: option.splits on_delete.splits)
  qed
  have "\<not> list_ex (\<lambda>c. co_name c = name \<and> (case co_points c of
         Some (t, SetNull) \<Rightarrow> list_ex (\<lambda>(v, i). v = t \<and> cells r name = key_to i) going | _ \<Rightarrow> False)) (columns u)"
      (is "\<not> list_ex ?tied _") for name
  proof
    assume "list_ex ?tied (columns u)"
    then obtain c where "c \<in> set (columns u)" "?tied c" unfolding list_ex_iff [of ?tied] by blast
    with tied show False by blast
  qed
  then show ?thesis by (simp add: let_go_def)
qed

lemma rid_let_go [simp]: "rid (let_go going u r) = rid r"
  by (simp add: let_go_def)

lemma struck_nothing: "struck (gone_with sh u []) sh = sh"
proof -
  have "let_go [] t = (\<lambda>r. r)" for t
    by (rule ext, rule let_go_id) simp
  then show ?thesis by (simp add: gone_with_def struck_def)
qed

text \<open>A table above what goes keeps its rows as they are, but for those that go themselves.\<close>

lemma struck_above:
  assumes "t = u \<or> height t < height u"
  shows "struck (gone_with sh t ids) sh u = (if t = u then filter (\<lambda>r. rid r \<notin> set ids) (sh u) else sh u)"
proof -
  let ?going = "gone_with sh t ids"
  have lower: "v = t \<and> i \<in> set ids \<or> height v < height t" if "(v, i) \<in> set ?going" for v i
    using doomed_lower that unfolding gone_with_def .
  have "let_go ?going u = (\<lambda>r. r)"
  proof (rule ext, rule let_go_id)
    fix name v assume p: "(u, name, SetNull) \<in> set (pointing v)"
    from pointing_lower [OF p] have "height u < height v" by simp
    then show "\<forall>(w, i)\<in>set ?going. w \<noteq> v" using lower assms by fastforce
  qed
  moreover have "(u, rid r) \<in> set ?going \<longleftrightarrow> t = u \<and> rid r \<in> set ids" for r :: item
    using lower [of u "rid r"] assms doomed_ids [of "Suc (height t)" "rid r" ids t sh] by (auto simp: gone_with_def simp del: doomed.simps)
  ultimately have "struck ?going sh u = filter (\<lambda>r. \<not> (t = u \<and> rid r \<in> set ids)) (sh u)"
    by (simp add: struck_def del: doomed.simps)
  then show ?thesis by simp
qed

section \<open>What both sets of rows keep\<close>

text \<open>
  An invariant is over the rows and the keys the storage was asked to delete by then. It stands in a session where the open rows and the
  committed ones both satisfy it, so neither a commit nor a rollback loses it.
\<close>

definition standing :: "(string list \<Rightarrow> shelves \<Rightarrow> bool) \<Rightarrow> panel \<Rightarrow> bool" where
  "standing I s \<longleftrightarrow> I (discarded s) (open_rows s) \<and> I (discarded s) (committed s)"

lemma standing_settle: "effect (keeps (standing I)) settle_rows"
  by (simp add: effect_def settle_rows_def writes_def keeps_def standing_def)

lemma standing_undo: "effect (keeps (standing I)) undo_rows"
  by (simp add: effect_def undo_rows_def writes_def keeps_def standing_def)

lemma standing_look: "effect (keeps (standing I)) (look f)"
  unfolding look_def by (rule keeps_order.reads_ok)

lemma standing_hour: "effect (keeps (standing I)) hour"
  unfolding hour_def by (rule keeps_order.reads_ok)

lemma look_apply [simp]: "look f s = (Ok (f (open_rows s)), s)"
  by (simp add: look_def reads_def)

lemma hour_apply [simp]: "hour s = (Ok (moment s), s)"
  by (simp add: hour_def reads_def)

lemma settle_rows_apply [simp]: "settle_rows s = (Ok (), s\<lparr>committed := open_rows s\<rparr>)"
  by (simp add: settle_rows_def writes_def)

lemma undo_rows_apply [simp]: "undo_rows s = (Ok (), s\<lparr>open_rows := committed s\<rparr>)"
  by (simp add: undo_rows_def writes_def)

lemma andThen_look [simp]: "andThen (look f) k s = k (f (open_rows s)) s"
  by (simp add: andThen_def)

lemma andThen_hour [simp]: "andThen hour k s = k (moment s) s"
  by (simp add: andThen_def)

lemma insert_row_apply: "insert_row t r s = (let new = r\<lparr>rid := next_id (open_rows s t)\<rparr> in
    if fits (open_rows s) t new
    then (Ok new, s\<lparr>open_rows := (open_rows s)(t := append_row r (open_rows s t))\<rparr>) else (Err IntegrityError, s))"
  by (simp add: insert_row_def Let_def put_rows_def)

lemma write_row_apply: "write_row t r s = (if fits (open_rows s) t r
    then (Ok (), s\<lparr>open_rows := (open_rows s)(t := amend (\<lambda>q. rid q = rid r) (\<lambda>_. r) (open_rows s t))\<rparr>) else (Err IntegrityError, s))"
  by (simp add: write_row_def put_rows_def writes_def)

lemma mark_rows_apply: "mark_rows t p name v s =
    (Ok (hits p (open_rows s t)), s\<lparr>open_rows := (open_rows s)(t := amend p (marked (moment s) name v) (open_rows s t))\<rparr>)"
  by (simp add: mark_rows_def put_rows_def)

lemma rid_marked [simp]: "rid (marked now name v r) = rid r"
  by (simp add: marked_def setattr_def)

lemma delete_rows_apply: "delete_rows t p s = (let ids = map rid (filter p (open_rows s t)); going = gone_with (open_rows s) t ids in
    if restricted (open_rows s) going then (Err IntegrityError, s) else (Ok (length ids), s\<lparr>open_rows := struck going (open_rows s)\<rparr>))"
  by (simp add: delete_rows_def Let_def)

lemmas statement_apply = insert_row_apply write_row_apply mark_rows_apply delete_rows_apply

lemma standing_insert:
  assumes "\<And>g sh. I g sh \<Longrightarrow> fits sh t (r\<lparr>rid := next_id (sh t)\<rparr>) \<Longrightarrow> I g (sh(t := append_row r (sh t)))"
  shows "effect (keeps (standing I)) (insert_row t r)"
  using assms by (auto simp: effect_def keeps_def standing_def insert_row_apply Let_def)

lemma standing_write:
  assumes "\<And>g sh. I g sh \<Longrightarrow> fits sh t r \<Longrightarrow> I g (sh(t := amend (\<lambda>q. rid q = rid r) (\<lambda>_. r) (sh t)))"
  shows "effect (keeps (standing I)) (write_row t r)"
  using assms by (auto simp: effect_def keeps_def standing_def write_row_apply)

lemma standing_mark:
  assumes "\<And>g sh now. I g sh \<Longrightarrow> I g (sh(t := amend p (marked now name v) (sh t)))"
  shows "effect (keeps (standing I)) (mark_rows t p name v)"
  using assms by (auto simp: effect_def keeps_def standing_def mark_rows_apply)

lemma standing_delete:
  assumes "\<And>g sh ids. I g sh \<Longrightarrow> ids = map rid (filter p (sh t)) \<Longrightarrow> I g (struck (gone_with sh t ids) sh)"
  shows "effect (keeps (standing I)) (delete_rows t p)"
  using assms by (auto simp: effect_def keeps_def standing_def delete_rows_apply Let_def)

lemma standing_refusing:
  assumes "effect (keeps (standing I)) m"
  shows "effect (keeps (standing I)) (refusing_rows code m)"
  unfolding refusing_rows_def
proof (rule keeps_order.handle_ok [OF assms])
  fix e
  show "effect (keeps (standing I)) (case e of IntegrityError \<Rightarrow> andThen undo_rows (\<lambda>_. throw (ConflictError code)) | _ \<Rightarrow> throw e)"
    by (cases e) (auto intro: keeps_order.andThen_ok keeps_order.throw_ok standing_undo)
qed

lemma standing_written_or_read:
  assumes "effect (keeps (standing I)) (insert_row t r)"
  shows "effect (keeps (standing I)) (written_or_read t q r)"
proof -
  have "effect (keeps (standing I)) (case e of IntegrityError \<Rightarrow> look (\<lambda>sh. List.find q (sh t)) | _ \<Rightarrow> throw e)" for e
    by (cases e) (auto intro: keeps_order.throw_ok standing_look)
  then show ?thesis
    unfolding written_or_read_def by (intro keeps_order.steps standing_look assms) auto
qed

lemma standing_persist: "effect (keeps (standing I)) persist"
  unfolding persist_def by (intro standing_refusing standing_settle)

lemmas standing_steps = keeps_order.steps standing_settle standing_undo standing_look standing_hour standing_refusing standing_persist

text \<open>What a service does after a reading it decides by.\<close>

lemma standing_then:
  assumes "J s" and "snd (m s) = s" and "\<And>x. m s = (Ok x, s) \<Longrightarrow> J (snd (k x s))"
  shows "J (snd (andThen m k s))"
proof -
  obtain r where m: "m s = (r, s)" using assms(2) by (metis prod.collapse)
  show ?thesis
  proof (cases r)
    case (Ok x)
    with m assms(3) show ?thesis by (simp add: andThen_def)
  qed (simp_all add: andThen_def m assms(1))
qed

lemma standing_after:
  assumes "J s" and "snd (m s) = s" and "\<And>x. m s = (Ok x, s) \<Longrightarrow> effect (keeps J) (k x)"
  shows "J (snd (andThen m k s))"
  using assms(1,2) by (rule standing_then) (rule effect_keepsD [OF assms(3) assms(1)])

end
