(* ===== verification/Files_Facts.thy ===== *)
theory Files_Facts
  imports Files Panel_Facts
begin

text \<open>
  What naming and releasing files does: it writes nowhere but on the two tables of files, and whatever a row is written down as naming is a
  file that is there and was never discarded. A key that a form may write resolves inside the folder of its purpose.
\<close>

section \<open>The two tables of files\<close>

abbreviation "file_tables \<equiv> {StoredFile, StoredFileMention}"

lemma pointing_files:
  "pointing StoredFile = [(StoredFileMention, ''stored_file_id'', Cascade)]" "pointing StoredFileMention = []"
  by code_simp+

definition files_point_nowhere :: bool where
  "files_point_nowhere \<longleftrightarrow> list_all (\<lambda>c. co_points c = None) (columns StoredFile)
     \<and> list_all (\<lambda>c. co_points c = None \<or> co_points c = Some (StoredFile, Cascade)) (columns StoredFileMention)"

lemma files_point_nowhere: files_point_nowhere
  by code_simp

lemma pointing_not_files: "t \<notin> file_tables \<Longrightarrow> (u, name, gone) \<in> set (pointing t) \<Longrightarrow> u \<notin> file_tables"
  using files_point_nowhere by (fastforce simp: in_pointing files_point_nowhere_def list_all_iff)

lemma doomed_not_files: "t \<notin> file_tables \<Longrightarrow> (v, i) \<in> set (doomed n sh t ids) \<Longrightarrow> v \<notin> file_tables"
proof (induction n arbitrary: t ids)
  case (Suc n)
  show ?case
  proof (cases "v = t")
    case False
    with Suc.prems(2) obtain u name where p: "(u, name, Cascade) \<in> set (pointing t)"
        and d: "(v, i) \<in> set (doomed n sh u (pointing_rows sh u name ids))"
      by (auto split: if_splits)
    from pointing_not_files [OF Suc.prems(1) p] have "u \<notin> file_tables" .
    with d show ?thesis using Suc.IH by blast
  qed (use Suc.prems(1) in simp)
qed simp

lemma doomed_files: "t \<in> file_tables \<Longrightarrow> (v, i) \<in> set (doomed n sh t ids) \<Longrightarrow> v \<in> file_tables"
proof (induction n arbitrary: t ids)
  case (Suc n)
  show ?case
  proof (cases "v = t")
    case False
    with Suc.prems(2) obtain u name where p: "(u, name, Cascade) \<in> set (pointing t)"
        and d: "(v, i) \<in> set (doomed n sh u (pointing_rows sh u name ids))"
      by (auto split: if_splits)
    from p Suc.prems(1) have "u \<in> file_tables" by (auto simp: pointing_files)
    with d show ?thesis using Suc.IH by blast
  qed (use Suc.prems(1) in simp)
qed simp

text \<open>Nothing lets go of a file by a null, so no deletion rewrites a row of the two tables.\<close>

lemma let_go_files: "u \<in> file_tables \<Longrightarrow> let_go going u r = r"
  using files_point_nowhere by (intro let_go_id) (fastforce simp: in_pointing files_point_nowhere_def list_all_iff)

lemma struck_not_files: "t \<notin> file_tables \<Longrightarrow> u \<in> file_tables \<Longrightarrow> struck (gone_with sh t ids) sh u = sh u"
proof -
  assume t: "t \<notin> file_tables" and u: "u \<in> file_tables"
  have "(u, rid r) \<notin> set (gone_with sh t ids)" for r :: item
    using doomed_not_files [OF t] u unfolding gone_with_def by blast
  then show ?thesis using let_go_files [OF u] by (simp add: struck_def map_idI)
qed

lemma struck_files: "t \<in> file_tables \<Longrightarrow> u \<notin> file_tables \<Longrightarrow> struck (gone_with sh t ids) sh u = sh u"
proof -
  assume t: "t \<in> file_tables" and u: "u \<notin> file_tables"
  have "(u, rid r) \<notin> set (gone_with sh t ids)" for r :: item
    using doomed_files [OF t] u unfolding gone_with_def by blast
  moreover have "let_go (gone_with sh t ids) u = (\<lambda>r. r)"
  proof (rule ext, rule let_go_id)
    fix name v assume "(u, name, SetNull) \<in> set (pointing v)"
    then have "v \<notin> file_tables" by (auto simp: pointing_files)
    then show "\<forall>(w, i)\<in>set (gone_with sh t ids). w \<noteq> v"
      using doomed_files [OF t] unfolding gone_with_def by blast
  qed
  ultimately show ?thesis by (simp add: struck_def)
qed

section \<open>Whatever is not about files\<close>

definition off_files :: "(string list \<Rightarrow> shelves \<Rightarrow> bool) \<Rightarrow> bool" where
  "off_files I \<longleftrightarrow> (\<forall>g h sh sh'. I g sh \<longrightarrow> (\<forall>u. u \<notin> file_tables \<longrightarrow> sh' u = sh u) \<longrightarrow> I h sh')"

lemma off_filesD: "off_files I \<Longrightarrow> I g sh \<Longrightarrow> (\<And>u. u \<notin> file_tables \<Longrightarrow> sh' u = sh u) \<Longrightarrow> I h sh'"
  unfolding off_files_def by blast

lemma off_delete: "off_files I \<Longrightarrow> t \<in> file_tables \<Longrightarrow> effect (keeps (standing I)) (delete_rows t p)"
  by (rule standing_delete) (erule (1) off_filesD, simp add: struck_files)

lemma off_mark: "off_files I \<Longrightarrow> t \<in> file_tables \<Longrightarrow> effect (keeps (standing I)) (mark_rows t p name v)"
  by (rule standing_mark) (erule (1) off_filesD, auto)

lemma off_mention_row: "off_files I \<Longrightarrow> effect (keeps (standing I)) (written_or_read StoredFileMention q r)"
  by (rule standing_written_or_read, rule standing_insert) (erule (1) off_filesD, auto)

lemma off_discard: "off_files I \<Longrightarrow> effect (keeps (standing I)) (discard keys)"
  unfolding effect_def keeps_def standing_def discard_def writes_def by (auto elim: off_filesD)

lemma off_mention: "off_files I \<Longrightarrow> effect (keeps (standing I)) (mention owner values keys)"
  unfolding mention_def Let_def by (intro standing_steps off_delete off_mark off_mention_row) simp_all

lemma off_forget: "off_files I \<Longrightarrow> effect (keeps (standing I)) (forget owned)"
  unfolding forget_def by (intro standing_steps off_delete) simp_all

lemma off_release: "off_files I \<Longrightarrow> effect (keeps (standing I)) (release uuids)"
  unfolding release_def release_one_def by (intro standing_steps off_delete off_discard) simp_all

section \<open>A file that is named is there\<close>

text \<open>
  Every file a mention names is a row of the table, no two rows are the same file, and the storage was never asked to delete the file of a
  row that is there.
\<close>

definition named_files_stay :: "string list \<Rightarrow> shelves \<Rightarrow> bool" where
  "named_files_stay g sh \<longleftrightarrow>
     (\<forall>m\<in>set (sh StoredFileMention). \<exists>f\<in>set (sh StoredFile). cells m ''stored_file_id'' = key_to (rid f))
     \<and> distinct (map rid (sh StoredFile)) \<and> distinct (map key_text (sh StoredFile)) \<and> (\<forall>f\<in>set (sh StoredFile). key_text f \<notin> set g)"

lemma stay_frame:
  "named_files_stay g sh \<Longrightarrow> sh' StoredFile = sh StoredFile \<Longrightarrow> sh' StoredFileMention = sh StoredFileMention \<Longrightarrow> named_files_stay g sh'"
  by (simp add: named_files_stay_def)

lemma stay_insert: "t \<noteq> StoredFile \<Longrightarrow> effect (keeps (standing named_files_stay)) (insert_row t r)"
proof (rule standing_insert)
  fix g sh
  assume t: "t \<noteq> StoredFile" and i: "named_files_stay g sh" and f: "fits sh t (r\<lparr>rid := next_id (sh t)\<rparr>)"
  show "named_files_stay g (sh(t := append_row r (sh t)))"
  proof (cases "t = StoredFileMention")
    case True
    have "(''stored_file_id'', StoredFile) \<in> set (referenced StoredFileMention)" by code_simp
    with f True have "cells r ''stored_file_id'' = Null \<or> names_one (sh StoredFile) (cells r ''stored_file_id'')"
      by (fastforce simp: fits_def anchored_def list_all_iff)
    moreover have "\<exists>c\<in>set (columns StoredFileMention). co_name c = ''stored_file_id'' \<and> \<not> co_nullable c" by code_simp
    with f True have "cells r ''stored_file_id'' \<noteq> Null"
      by (auto simp: fits_def whole_row_def list_all_iff)
    ultimately have "names_one (sh StoredFile) (cells r ''stored_file_id'')" by simp
    then obtain f where "f \<in> set (sh StoredFile)" "cells r ''stored_file_id'' = key_to (rid f)"
      unfolding names_one_def list_ex_iff by metis
    with i True show ?thesis by (auto simp: named_files_stay_def set_append_row)
  next
    case False
    with t i show ?thesis by (elim stay_frame) simp_all
  qed
qed

lemma stay_write: "t \<notin> file_tables \<Longrightarrow> effect (keeps (standing named_files_stay)) (write_row t r)"
  by (rule standing_write) (erule stay_frame, auto)

lemma stay_mark: "t = StoredFile \<Longrightarrow> name \<noteq> ''key'' \<Longrightarrow> effect (keeps (standing named_files_stay)) (mark_rows t p name v)"
proof (rule standing_mark)
  fix g sh now
  assume a: "t = StoredFile" "name \<noteq> ''key''" "named_files_stay g sh"
  have k: "key_text (marked now name v r) = key_text r" "rid (marked now name v r) = rid r" for r
    using a(2) by (simp_all add: key_text_def marked_def setattr_def)
  have "map rid (amend p (marked now name v) (sh StoredFile)) = map rid (sh StoredFile)"
    "map key_text (amend p (marked now name v) (sh StoredFile)) = map key_text (sh StoredFile)"
    using k by (simp_all add: map_amend)
  moreover have "\<exists>f\<in>set (amend p (marked now name v) (sh StoredFile)). cells m ''stored_file_id'' = key_to (rid f)"
    if "\<exists>f\<in>set (sh StoredFile). cells m ''stored_file_id'' = key_to (rid f)" for m
  proof -
    from that obtain f where "f \<in> set (sh StoredFile)" "cells m ''stored_file_id'' = key_to (rid f)" by blast
    then show ?thesis using k(2) by (intro bexI [of _ "if p f then marked now name v f else f"]) (auto simp: amend_def)
  qed
  moreover have "key_text f \<notin> set g" if "f \<in> set (amend p (marked now name v) (sh StoredFile))" for f
    using that a(3) k(1) by (auto simp: amend_def named_files_stay_def split: if_splits)
  ultimately show "named_files_stay g (sh(t := amend p (marked now name v) (sh t)))"
    using a by (simp add: named_files_stay_def) blast
qed

lemma struck_file_rows:
  "set (struck going sh StoredFile) = {f \<in> set (sh StoredFile). (StoredFile, rid f) \<notin> set going}"
  "set (struck going sh StoredFileMention) = {f \<in> set (sh StoredFileMention). (StoredFileMention, rid f) \<notin> set going}"
  "struck going sh StoredFile = filter (\<lambda>f. (StoredFile, rid f) \<notin> set going) (sh StoredFile)"
  by (auto simp: struck_def let_go_files map_idI)

lemma stay_struck: "named_files_stay g sh \<Longrightarrow> named_files_stay g (struck (gone_with sh t ids) sh)"
proof -
  assume i: "named_files_stay g sh"
  let ?going = "gone_with sh t ids"
  have "\<exists>f\<in>set (struck ?going sh StoredFile). cells m ''stored_file_id'' = key_to (rid f)"
    if m: "m \<in> set (struck ?going sh StoredFileMention)" for m
  proof -
    from m have m': "m \<in> set (sh StoredFileMention)" and n: "(StoredFileMention, rid m) \<notin> set ?going"
      by (simp_all add: struck_file_rows)
    from m' i obtain f where f: "f \<in> set (sh StoredFile)" "cells m ''stored_file_id'' = key_to (rid f)"
      by (auto simp: named_files_stay_def)
    have "(StoredFile, rid f) \<notin> set ?going"
      using doomed_closed [of t "Suc (height t)" StoredFile "rid f" sh ids StoredFileMention "''stored_file_id''" m] m' f(2) n
      by (auto simp: gone_with_def pointing_files simp del: doomed.simps)
    with f show ?thesis by (auto simp: struck_file_rows)
  qed
  with i show ?thesis by (auto simp: named_files_stay_def struck_file_rows distinct_map_filter)
qed

lemma stay_delete: "effect (keeps (standing named_files_stay)) (delete_rows t p)"
  by (rule standing_delete) (rule stay_struck)

lemmas stay_steps = standing_steps stay_delete stay_mark stay_insert stay_write standing_written_or_read

lemma stay_mention: "effect (keeps (standing named_files_stay)) (mention owner values keys)"
  unfolding mention_def Let_def by (intro stay_steps) simp_all

lemma stay_forget: "effect (keeps (standing named_files_stay)) (forget owned)"
  unfolding forget_def by (intro stay_steps)

text \<open>What a release asks the storage to delete are the keys of rows it deleted.\<close>

lemma release_one_drops:
  assumes "release_one f s = (Ok keys, t)"
  shows "set (open_rows t StoredFile) \<subseteq> set (open_rows s StoredFile)"
    and "k \<in> set keys \<Longrightarrow> k = key_text f \<and> (\<forall>q\<in>set (open_rows t StoredFile). rid q \<noteq> rid f)"
    and "discarded t = discarded s" and "committed t = committed s"
proof -
  let ?ids = "map rid (filter (\<lambda>g. rid g = rid f \<and> cells g ''claimed_at'' = cells f ''claimed_at'' \<and> unnamed (open_rows s) g)
    (open_rows s StoredFile))"
  from assms have t: "t = s\<lparr>open_rows := struck (gone_with (open_rows s) StoredFile ?ids) (open_rows s)\<rparr>"
    and keys: "keys = (if length ?ids = 1 then [key_text f] else [])"
    by (auto simp: release_one_def delete_rows_apply andThen_def Let_def split: if_splits)
  have rows: "struck (gone_with sh StoredFile ids) sh StoredFile = filter (\<lambda>r. rid r \<notin> set ids) (sh StoredFile)" for sh ids
    using struck_above [of StoredFile StoredFile sh ids] by simp
  show "set (open_rows t StoredFile) \<subseteq> set (open_rows s StoredFile)" "discarded t = discarded s" "committed t = committed s"
    using rows [of "open_rows s" ?ids] by (simp_all add: t)
  assume "k \<in> set keys"
  then have "k = key_text f" and "length ?ids = 1" using keys by (auto split: if_splits)
  moreover from \<open>length ?ids = 1\<close> have "rid f \<in> set ?ids" by (auto simp: length_Suc_conv map_eq_Cons_conv filter_eq_Cons_iff)
  ultimately show "k = key_text f \<and> (\<forall>q\<in>set (open_rows t StoredFile). rid q \<noteq> rid f)"
    using rows [of "open_rows s" ?ids] by (auto simp: t)
qed

lemma releasing_drops:
  assumes "each release_one fs s = (Ok kss, t)" and "set fs \<subseteq> S" and "set (open_rows s StoredFile) \<subseteq> S" and "inj_on key_text S"
  shows "set (open_rows t StoredFile) \<subseteq> set (open_rows s StoredFile) \<and> discarded t = discarded s \<and> committed t = committed s
    \<and> (\<forall>k\<in>set (concat kss). k \<notin> key_text ` set (open_rows t StoredFile))"
  using assms
proof (induction fs arbitrary: s kss)
  case (Cons f fs)
  from Cons.prems(1) obtain ks u rest where
    u: "release_one f s = (Ok ks, u)" and r: "each release_one fs u = (Ok rest, t)" and kss: "kss = ks # rest"
    by (auto elim!: andThen_OkD)
  note one = release_one_drops [OF u]
  from Cons.IH [OF r] Cons.prems(2-4) one(1)
  have later: "set (open_rows t StoredFile) \<subseteq> set (open_rows u StoredFile)" "discarded t = discarded u" "committed t = committed u"
      "\<forall>k\<in>set (concat rest). k \<notin> key_text ` set (open_rows t StoredFile)" by auto
  have now: "k \<notin> key_text ` set (open_rows t StoredFile)" if k: "k \<in> set ks" for k
  proof
    assume "k \<in> key_text ` set (open_rows t StoredFile)"
    then obtain q where q: "q \<in> set (open_rows t StoredFile)" "key_text q = key_text f"
      using one(2) [OF k] by auto
    then have "q \<in> S" using later(1) one(1) Cons.prems(3) by auto
    then have "q = f" using q(2) Cons.prems(2,4) by (auto simp: inj_on_def)
    with one(2) [OF k] q(1) later(1) show False by auto
  qed
  have "set (concat kss) = set ks \<union> set (concat rest)" using kss by simp
  with now later(4) have "\<forall>k\<in>set (concat kss). k \<notin> key_text ` set (open_rows t StoredFile)" by blast
  moreover have "set (open_rows t StoredFile) \<subseteq> set (open_rows s StoredFile)" using one(1) later(1) by simp
  ultimately show ?case using one(3,4) later(2,3) by simp
qed simp

lemma stay_release: "effect (keeps (standing named_files_stay)) (release uuids)"
proof (rule effectI, rule keepsI)
  fix s
  assume i: "standing named_files_stay s"
  let ?found = "filter (has_uuid uuids) (open_rows s StoredFile)"
  have one: "effect (keeps (standing named_files_stay)) (each release_one fs)" for fs
    unfolding release_one_def by (intro stay_steps)
  obtain r t where t: "each release_one ?found s = (r, t)" by fastforce
  from effect_keepsD [OF one i] t have j: "standing named_files_stay t" by (metis snd_conv)
  show "standing named_files_stay (snd (release uuids s))"
  proof (cases r)
    case (Ok kss)
    have "inj_on key_text (set (open_rows s StoredFile))"
      using i by (simp add: standing_def named_files_stay_def distinct_map)
    from releasing_drops [OF t [unfolded Ok] _ _ this] have
      "\<forall>k\<in>set (concat kss). k \<notin> key_text ` set (open_rows t StoredFile)" by auto
    then have "named_files_stay (discarded t @ concat kss) (open_rows t)"
      using j by (fastforce simp: standing_def named_files_stay_def)
    then show ?thesis using i t Ok
      by (auto simp: release_def andThen_def discard_def writes_def standing_def simp del: set_concat)
  qed (use i t j in \<open>auto simp: release_def andThen_def\<close>)
qed

section \<open>Where an accepted key points\<close>

lemma walked_plain: "\<forall>seg\<in>set segs. seg \<noteq> '''' \<and> seg \<noteq> ''.'' \<and> seg \<noteq> ''..'' \<Longrightarrow> walked here segs = here @ segs"
  by (induction segs arbitrary: here) auto

end
