(* ===== verification/Declarations.thy ===== *)
theory Declarations
  imports Services Panel_Facts
begin

text \<open>
  What the services declare is checked against the schema: every name is a column of the right kind, every road to a tenant ends at one,
  and every dependent points at its parent and is served. So no declaration can fail a request.
\<close>

section \<open>A declaration that names the schema\<close>

definition kind_of :: "table \<Rightarrow> string \<Rightarrow> kind option" where
  "kind_of t name = (case column_of t name of None \<Rightarrow> None | Some c \<Rightarrow> Some (co_kind c))"

definition holds_text :: "table \<Rightarrow> string \<Rightarrow> bool" where
  "holds_text t name \<longleftrightarrow> (case kind_of t name of Some TextKind \<Rightarrow> True | Some (ChoiceKind _) \<Rightarrow> True | _ \<Rightarrow> False)"

definition orders :: "table \<Rightarrow> string \<Rightarrow> bool" where
  "orders t name \<longleftrightarrow> name = ''id'' \<or> has_column t name"

text \<open>A road to a tenant follows a key to the row it names, and ends where that row carries one.\<close>

fun road_ok :: "table \<Rightarrow> reach \<Rightarrow> bool" where
  "road_ok t (Reach name parent further) \<longleftrightarrow> (name, parent) \<in> set (referenced t)
     \<and> (has_tenant parent \<or> (case further of None \<Rightarrow> False | Some onward \<Rightarrow> road_ok parent onward))"

fun dependents_ok :: "(table \<Rightarrow> bool) \<Rightarrow> table \<Rightarrow> dependent list \<Rightarrow> bool" where
  "dependents_ok is_served t [] \<longleftrightarrow> True"
| "dependents_ok is_served t (Dependent u name below # rest) \<longleftrightarrow> (name, t) \<in> set (referenced u) \<and> height u < height t \<and> is_served u
     \<and> dependents_ok is_served u below \<and> dependents_ok is_served t rest"

definition filter_ok :: "resource \<Rightarrow> string \<Rightarrow> bool" where
  "filter_ok rs name \<longleftrightarrow> (case map_of (rs_elsewhere rs) name of
     None \<Rightarrow> has_column (rs_table rs) name
   | Some e \<Rightarrow> orders (fst (el_column e)) (snd (el_column e)))"

definition columns_ok :: "resource \<Rightarrow> bool" where
  "columns_ok rs \<longleftrightarrow>
     list_all (holds_text (rs_table rs)) (rs_search rs @ rs_text_search rs @ map fst (rs_files rs) @ rs_markup rs)
     \<and> list_all (filter_ok rs) (rs_filter rs)
     \<and> list_all (orders (rs_table rs)) (rs_ordering rs @ rs_label rs)
     \<and> dropWhile (\<lambda>c. c = CHR ''-'') (rs_default_ordering rs) \<in> set (rs_ordering rs)
     \<and> (case rs_position rs of None \<Rightarrow> True | Some name \<Rightarrow> kind_of (rs_table rs) name = Some WholeKind)"

definition roads_ok :: "(table \<Rightarrow> bool) \<Rightarrow> resource \<Rightarrow> bool" where
  "roads_ok is_served rs \<longleftrightarrow>
     (rs_system_wide rs \<or> has_tenant (rs_table rs) \<or> (case rs_reach rs of None \<Rightarrow> False | Some road \<Rightarrow> road_ok (rs_table rs) road))
     \<and> dependents_ok is_served (rs_table rs) (rs_dependents rs)"

definition well_typed :: "(table \<Rightarrow> bool) \<Rightarrow> resource \<Rightarrow> bool" where
  "well_typed is_served rs \<longleftrightarrow> columns_ok rs \<and> roads_ok is_served rs"

definition is_served :: "house \<Rightarrow> table \<Rightarrow> bool" where
  "is_served h t \<longleftrightarrow> served h t \<noteq> None"

lemma columns_declared: "list_all columns_ok (services h)"
  by code_simp

lemma roads_declared: "list_all (roads_ok (is_served h)) (services h)"
  by code_simp


end
