(* ===== verification/Crud_Facts.thy ===== *)
theory Crud_Facts
  imports Panel_Routes Files_Facts Declarations
begin

text \<open>
  What a write of the panel may do. An invariant over the rows and the permissions it grants, which rows may be inserted, rewritten,
  stamped and dropped, are an interface: whatever keeps it through the statements keeps it through every operation of every service.
\<close>

section \<open>What only reads\<close>

abbreviation only_reads :: "'a desk \<Rightarrow> bool" where
  "only_reads m \<equiv> effect (same (\<lambda>s. s)) m"

lemma only_readsD: "only_reads m \<Longrightarrow> snd (m s) = s"
  by (drule effect_sameD)

lemma reads_look: "only_reads (look f)"
  unfolding look_def by (rule same_order.reads_ok)

lemmas reading_steps = same_order.steps reads_look

lemma ensure_references_reads: "only_reads (ensure_references_are_reachable w rs sheet operator instance')"
  unfolding ensure_references_are_reachable_def by (intro reading_steps)

lemma get_row_reads: "only_reads (get_row rs record_id operator writing)"
  unfolding get_row_def find_row_def by (intro reading_steps)

lemma purpose_reads: "only_reads (ensure_files_are_of_their_purpose w rs sheet)"
  unfolding ensure_files_are_of_their_purpose_def Let_def by (intro reading_steps)

lemma referrers_reads: "only_reads (ensure_referrers_still_reach rs sheet r)"
  unfolding ensure_referrers_still_reach_def by (intro reading_steps)

lemma children_reads: "only_reads (ensure_children_stay_shared w rs sheet r)"
  unfolding ensure_children_stay_shared_def by (intro reading_steps)

lemma ensure_unique_reads: "only_reads (ensure_unique t name v code instance' scope)"
  unfolding ensure_unique_def by (intro reading_steps)

lemma ensure_reaches_reads: "only_reads (ensure_reaches target target_id tenant_id name code)"
  unfolding ensure_reaches_def by (intro reading_steps)

lemma reads_keep: "only_reads m \<Longrightarrow> effect (keeps J) m"
  by (simp add: effect_def same_def keeps_def)

lemmas crud_reads = ensure_references_reads get_row_reads purpose_reads referrers_reads children_reads ensure_unique_reads ensure_reaches_reads

lemma get_row_Ok:
  assumes "get_row rs i operator writing s = (Ok r, t)"
  obtains narrowed where "confinement rs operator writing = Ok narrowed" "r \<in> set (open_rows s (rs_table rs))" "narrowed (open_rows s) r" "rid r = i"
  using assms by (auto simp: get_row_def find_row_def andThen_def lift_def dest!: find_Some_in split: outcome.splits option.splits)

section \<open>What the services read before they refuse\<close>

lemma served_in: "served h t = Some rs \<Longrightarrow> rs \<in> set (services h) \<and> rs_table rs = t"
  unfolding served_def by (drule find_Some_in) simp

lemma service_off_files: "rs \<in> set (services h) \<Longrightarrow> rs_table rs \<notin> file_tables"
proof -
  have "list_all (\<lambda>rs. rs_table rs \<notin> file_tables) (services h)" by code_simp
  then show "rs \<in> set (services h) \<Longrightarrow> ?thesis" by (simp add: list_all_iff)
qed

lemma service_dependents: "rs \<in> set (services h) \<Longrightarrow> dependents_ok (is_served h) (rs_table rs) (rs_dependents rs)"
  using roads_declared [of h] by (simp add: list_all_iff roads_ok_def)

lemma tenant_of_reads: "only_reads (tenant_of t v)"
  unfolding tenant_of_def by (intro reading_steps)

lemma validate_interval_reads: "only_reads (validate_interval cadence unit amount)"
proof -
  have "only_reads (case e of OverflowError \<Rightarrow> throw (ValidationError a b) | ValueError \<Rightarrow> throw (ValidationError a b) | _ \<Rightarrow> throw e)"
    for e a b by (cases e) (auto intro: same_order.throw_ok)
  then show ?thesis unfolding validate_interval_def hour_def by (intro reading_steps)
qed

lemma validate_reads:
  "only_reads (language_validate sheet i)" "only_reads (country_validate sheet i)" "only_reads (tenant_validate h sheet i)"
  "only_reads (currency_validate h sheet i)" "only_reads (product_validate h sheet i)" "only_reads (plan_validate h sheet i)"
  "only_reads (plan_entitlement_validate sheet i)" "only_reads (benefit_validate sheet i)" "only_reads (external_product_validate sheet i)"
  "only_reads (content_category_validate h sheet i)" "only_reads (content_validate sheet i)"
  unfolding language_validate_def country_validate_def tenant_validate_def currency_validate_def product_validate_def plan_validate_def
    plan_entitlement_validate_def benefit_validate_def external_product_validate_def content_category_validate_def content_validate_def
    validate_billing_interval_def validate_payload_def Let_def
  by (intro reading_steps crud_reads tenant_of_reads validate_interval_reads)+

lemma banner_validate_reads: "only_reads (banner_validate sheet i)"
  unfolding banner_validate_def
  by (cases "declared Banner sheet i ''starts_at''"; cases "declared Banner sheet i ''ends_at''") (auto intro: same_order.ret_ok same_order.throw_ok simp del: ret_apply)

lemmas catalogue_services = language_service_def country_service_def tenant_service_def currency_service_def product_service_def
  entitlement_service_def plan_service_def plan_entitlement_service_def benefit_service_def integration_service_def
  external_product_service_def content_category_service_def content_service_def gallery_service_def gallery_photo_service_def banner_service_def

lemmas account_services = benefit_grant_service_def subscription_benefit_service_def subscription_service_def user_entitlement_service_def
  user_product_service_def user_balance_service_def credit_transaction_service_def purchase_service_def app_event_service_def
  newsletter_subscription_service_def outbound_email_service_def system_log_service_def webhook_event_service_def

lemma quiet_services: "rs \<in> set (services h) \<Longrightarrow> rs_table rs \<notin> {User, UserAddress} \<Longrightarrow> only_reads (rs_validate rs sheet instance')"
  unfolding services_def
  by (auto simp: catalogue_services account_services plain_service_def user_service_def user_address_service_def
      intro: validate_reads banner_validate_reads same_order.ret_ok)

section \<open>The interface\<close>

locale panel_law =
  fixes I :: "string list \<Rightarrow> shelves \<Rightarrow> bool"
    and admits :: "table \<Rightarrow> item \<Rightarrow> bool"
    and edits :: "table \<Rightarrow> item \<Rightarrow> bool"
    and touches :: "table \<Rightarrow> nat \<Rightarrow> bool"
    and drops :: "table \<Rightarrow> nat \<Rightarrow> bool"
  assumes insert_kept: "I g sh \<Longrightarrow> t \<notin> file_tables \<Longrightarrow> admits t r \<Longrightarrow> fits sh t (r\<lparr>rid := next_id (sh t)\<rparr>)
      \<Longrightarrow> I g (sh(t := append_row r (sh t)))"
    and write_kept: "I g sh \<Longrightarrow> t \<notin> file_tables \<Longrightarrow> edits t r \<Longrightarrow> fits sh t r \<Longrightarrow> I g (sh(t := amend (\<lambda>q. rid q = rid r) (\<lambda>_. r) (sh t)))"
    and stamp_kept: "I g sh \<Longrightarrow> t \<notin> file_tables \<Longrightarrow> (\<And>q. p q \<Longrightarrow> touches t (rid q))
      \<Longrightarrow> I g (sh(t := amend p (marked stamp ''updated_at'' v) (sh t)))"
    and drop_kept: "I g sh \<Longrightarrow> (\<forall>i\<in>set ids. drops t i) \<Longrightarrow> I g (struck (gone_with sh t ids) sh)"
    and mention_kept: "effect (keeps (standing I)) (mention owner values keys)"
    and forget_kept: "effect (keeps (standing I)) (forget owned)"
    and release_kept: "effect (keeps (standing I)) (release uuids)"
begin

lemma inserting: "t \<notin> file_tables \<Longrightarrow> admits t r \<Longrightarrow> effect (keeps (standing I)) (insert_row t r)"
  by (rule standing_insert) (rule insert_kept)

lemma writing: "t \<notin> file_tables \<Longrightarrow> edits t r \<Longrightarrow> effect (keeps (standing I)) (write_row t r)"
  by (rule standing_write) (rule write_kept)

lemma stamping:
  "t \<notin> file_tables \<Longrightarrow> (\<And>q. p q \<Longrightarrow> touches t (rid q)) \<Longrightarrow> effect (keeps (standing I)) (mark_rows t p ''updated_at'' v)"
  by (rule standing_mark) (rule stamp_kept)

lemma dropping: "(\<And>q. p q \<Longrightarrow> drops t (rid q)) \<Longrightarrow> effect (keeps (standing I)) (delete_rows t p)"
  by (rule standing_delete, rule drop_kept) auto

lemma holding: "(\<And>i. touches User i) \<Longrightarrow> effect (keeps (standing I)) (hold_row user_id)"
  unfolding hold_row_def by (intro standing_steps stamping) auto

lemma naming: "effect (keeps (standing I)) (named_by rs r)"
  unfolding named_by_def by (rule mention_kept)

lemmas law_steps = standing_steps inserting writing dropping mention_kept forget_kept release_kept naming crud_reads [THEN reads_keep]

lemma auditing: "(\<And>r. admits SystemLog r) \<Longrightarrow> effect (keeps (standing I)) (audit_written h author action tag records)"
  unfolding audit_written_def by (intro law_steps) simp_all

text \<open>What goes below a table goes whatever row it hangs from.\<close>

lemma dependents_kept:
  assumes "dependents_ok is_served' t deps" and "\<And>u i. height u < height t \<Longrightarrow> drops u i"
  shows "effect (keeps (standing I)) (delete_dependents w deps parents)"
  using assms
proof (induction w deps parents arbitrary: t rule: delete_dependents.induct)
  case (2 w u name below rest parents)
  have d: "\<And>i. drops u i" and low: "\<And>v i. height v < height u \<Longrightarrow> drops v i"
    using 2(3,4) by auto
  have below: "effect (keeps (standing I)) (if below = [] then ret [] else delete_dependents w below (\<lambda>sh. pointing_rows sh u name (parents sh)))"
    using 2(1) [OF _ _ low] 2(3) by (auto intro: law_steps)
  have rest: "effect (keeps (standing I)) (delete_dependents w rest parents)" 
    by (rule 2(2) [of t]) (use 2(3,4) in auto)
  show ?case
    unfolding delete_dependents.simps(2)
    by (intro law_steps below rest) (use d in auto)
qed (auto intro: law_steps)

text \<open>The four writes of a service. What they write is settled by what they read before they write anything.\<close>

lemma created:
  assumes "standing I s" and t: "rs_table rs \<notin> file_tables"
    and valid: "\<And>sheet. effect (keeps (standing I)) (rs_validate rs sheet None)"
    and new: "ensure_references_are_reachable w rs (rs_stamp rs operator payload) operator None s = (Ok (), s)
      \<Longrightarrow> \<forall>i. admits (rs_table rs) (born w (rs_table rs) i (rs_prepare rs (rs_stamp rs operator payload) None))"
  shows "standing I (snd (create w rs payload operator s))"
  unfolding create_def Let_def
  by (rule standing_after [where J = "standing I"], fact, rule only_readsD [OF ensure_references_reads], intro law_steps valid t)
    (use new in simp)

text \<open>A row that is edited was found where its operator reaches, and is read again once it was validated.\<close>

lemma rereading:
  assumes "\<And>g sh. I g sh \<Longrightarrow> effect (keeps (standing I)) (k (f sh))"
  shows "effect (keeps (standing I)) (andThen (look f) k)"
proof (rule effectI, rule keepsI)
  fix s
  assume s: "standing I s"
  then have "I (discarded s) (open_rows s)" by (simp add: standing_def)
  from effect_keepsD [OF assms [OF this] s] show "standing I (snd (andThen (look f) k s))" by simp
qed

lemma updated:
  assumes "standing I s" and t: "rs_table rs \<notin> file_tables"
    and valid: "\<And>r. get_row rs record_id operator True s = (Ok r, s) \<Longrightarrow>
      effect (keeps (standing I)) (rs_validate rs (rs_stamp rs operator payload) (Some r))"
    and new: "\<And>r q g sh stamp. get_row rs record_id operator True s = (Ok r, s) \<Longrightarrow>
      ensure_references_are_reachable w rs (rs_stamp rs operator payload) operator (Some r) s = (Ok (), s) \<Longrightarrow>
      I g sh \<Longrightarrow> q \<in> set (sh (rs_table rs)) \<Longrightarrow> rid q = record_id \<Longrightarrow>
      edits (rs_table rs) (edited (rs_table rs) stamp (rs_prepare rs (rs_stamp rs operator payload) (Some q)) q)"
  shows "standing I (snd (update_one w rs record_id payload operator s))"
  unfolding update_one_def
proof (rule standing_then [where J = "standing I", OF assms(1)], rule only_readsD [OF get_row_reads], unfold Let_def,
    rule standing_after [where J = "standing I", OF assms(1)], rule only_readsD [OF ensure_references_reads],
    intro rereading keeps_order.andThen_ok crud_reads [THEN reads_keep] valid standing_settle standing_hour standing_persist naming
      release_kept standing_refusing writing t)
  fix r x g sh stamp
  assume r: "get_row rs record_id operator True s = (Ok r, s)"
    and ok: "ensure_references_are_reachable w rs (rs_stamp rs operator payload) operator (Some r) s = (Ok x, s)"
    and i: "I g sh"
  let ?q = "case fetch record_id (sh (rs_table rs)) of None \<Rightarrow> r | Some q \<Rightarrow> q"
  have j: "I (discarded s) (open_rows s)" using assms(1) by (simp add: standing_def)
  have "r \<in> set (open_rows s (rs_table rs))" "rid r = record_id" using r by (auto elim: get_row_Ok)
  then have "\<exists>g sh. I g sh \<and> ?q \<in> set (sh (rs_table rs)) \<and> rid ?q = record_id"
    using i j by (auto dest!: fetch_Some_in split: option.splits)
  then show "edits (rs_table rs) (edited (rs_table rs) stamp (rs_prepare rs (rs_stamp rs operator payload) (Some ?q)) ?q)"
    using new [OF r] ok by auto
qed

lemma deleted:
  assumes "standing I s" and deps: "dependents_ok is_served' (rs_table rs) (rs_dependents rs)"
    and lower: "\<And>u i. height u < height (rs_table rs) \<Longrightarrow> drops u i"
    and gone: "\<And>r. get_row rs record_id operator True s = (Ok r, s) \<Longrightarrow> drops (rs_table rs) record_id"
  shows "standing I (snd (delete_one w rs record_id operator s))"
  unfolding delete_one_def
proof (rule standing_after [where J = "standing I", OF assms(1)], rule only_readsD [OF get_row_reads],
    intro keeps_order.andThen_ok keeps_order.ret_ok standing_settle release_kept forget_kept standing_refusing dropping dependents_kept [OF deps lower])
  fix r and q :: item
  assume "get_row rs record_id operator True s = (Ok r, s)" and "rid q = record_id"
  then show "drops (rs_table rs) (rid q)" using gone by simp
qed

lemma reordered:
  assumes "standing I s" and t: "rs_table rs \<notin> file_tables"
    and rewritten: "\<And>narrowed position r stamp n. confinement rs operator True = Ok narrowed \<Longrightarrow> rs_position rs = Some position \<Longrightarrow>
      r \<in> set (open_rows s (rs_table rs)) \<Longrightarrow> narrowed (open_rows s) r \<Longrightarrow>
      edits (rs_table rs) (edited (rs_table rs) stamp [position \<mapsto> Whole n] r)"
  shows "standing I (snd (reorder rs ids operator s))"
proof (cases "rs_position rs")
  case (Some position)
  have step: "effect (keeps (standing I)) (case fetch i rows of None \<Rightarrow> throw KeyError
      | Some r \<Rightarrow> refusing_rows ''error.duplicated-record'' (write_row (rs_table rs) (edited (rs_table rs) stamp [position \<mapsto> Whole n] r)))"
    if "rows = filter (\<lambda>r. narrowed (open_rows s) r \<and> rid r \<in> set ids) (open_rows s (rs_table rs))" "confinement rs operator True = Ok narrowed"
    for narrowed i rows stamp n
    using rewritten [OF that(2) Some] that(1) t
    by (auto intro!: keeps_order.throw_ok standing_refusing writing dest!: fetch_Some_in split: option.splits)
  show ?thesis
  proof (cases "confinement rs operator True")
    case (Ok narrowed)
    show ?thesis
      unfolding reorder_def Some option.case Ok andThen_lift_Ok
      by (rule standing_after [where J = "standing I", OF assms(1)], simp, intro standing_steps step [OF _ Ok]) auto
  qed (simp_all add: reorder_def Some andThen_def lift_def assms(1))
qed (simp add: reorder_def throw_def assms(1))

lemma user_validated:
  assumes "\<And>r. edits SocialIdentity r" and "\<And>r. instance' = Some r \<Longrightarrow> touches User (rid r)"
  shows "effect (keeps (standing I)) (user_validate h sheet instance')"
proof -
  have "effect (keeps (standing I)) (hold_row (rid r))" if "instance' = Some r" for r
    unfolding hold_row_def by (intro standing_steps stamping) (use assms(2) [OF that] in auto)
  then have first: "effect (keeps (standing I)) (case instance' of None \<Rightarrow> ret () | Some r \<Rightarrow> hold_row (rid r))"
    by (cases instance') (auto intro: law_steps)
  show ?thesis
    unfolding user_validate_def Let_def ensure_identity_free_def ensure_identity_def repoint_identities_def
    by (intro keeps_order.andThen_ok first law_steps assms(1)) auto
qed

lemma validated:
  assumes rs: "rs \<in> set (services h)" and identities: "\<And>r. edits SocialIdentity r"
    and users: "\<And>i. rs_table rs \<noteq> User \<Longrightarrow> touches User i"
    and self: "\<And>r. instance' = Some r \<Longrightarrow> rs_table rs = User \<Longrightarrow> touches User (rid r)"
  shows "effect (keeps (standing I)) (rs_validate rs sheet instance')"
proof (cases "rs_table rs \<in> {User, UserAddress}")
  case True
  with rs have "rs = user_service h \<or> rs = user_address_service"
    unfolding services_def by (auto simp: catalogue_services account_services plain_service_def)
  then show ?thesis
  proof
    assume "rs = user_service h"
    then show ?thesis using user_validated [OF identities] self by (simp add: user_service_def plain_service_def)
  next
    assume r: "rs = user_address_service"
    then have "\<And>i. touches User i" using users by (simp add: user_address_service_def plain_service_def)
    then have "effect (keeps (standing I)) (user_address_validate sheet instance')"
      unfolding user_address_validate_def Let_def by (intro law_steps holding)
    with r show ?thesis by (simp add: user_address_service_def plain_service_def)
  qed
qed (rule reads_keep [OF quiet_services [OF rs]])

text \<open>What it takes for an operator to be allowed a resource, as the session stands.\<close>

definition allowed :: "house \<Rightarrow> office \<Rightarrow> resource \<Rightarrow> operator option \<Rightarrow> panel \<Rightarrow> bool" where
  "allowed h w rs operator s \<longleftrightarrow>
     (\<forall>payload. fst (ensure_references_are_reachable w rs (rs_stamp rs operator payload) operator None s) = Ok () \<longrightarrow>
        (\<forall>i. admits (rs_table rs) (born w (rs_table rs) i (rs_prepare rs (rs_stamp rs operator payload) None)))) \<and>
     (\<forall>record_id r. fst (get_row rs record_id operator True s) = Ok r \<longrightarrow> touches (rs_table rs) record_id \<and> drops (rs_table rs) record_id) \<and>
     (\<forall>record_id r payload g sh q stamp. fst (get_row rs record_id operator True s) = Ok r \<longrightarrow>
        fst (ensure_references_are_reachable w rs (rs_stamp rs operator payload) operator (Some r) s) = Ok () \<longrightarrow>
        I g sh \<longrightarrow> q \<in> set (sh (rs_table rs)) \<longrightarrow> rid q = record_id \<longrightarrow>
        edits (rs_table rs) (edited (rs_table rs) stamp (rs_prepare rs (rs_stamp rs operator payload) (Some q)) q)) \<and>
     (\<forall>narrowed position r stamp n. confinement rs operator True = Ok narrowed \<longrightarrow> rs_position rs = Some position \<longrightarrow>
        r \<in> set (open_rows s (rs_table rs)) \<longrightarrow> narrowed (open_rows s) r \<longrightarrow>
        edits (rs_table rs) (edited (rs_table rs) stamp [position \<mapsto> Whole n] r)) \<and>
     (\<forall>u i. height u < height (rs_table rs) \<longrightarrow> drops u i) \<and>
     (\<forall>r. edits SocialIdentity r) \<and> (\<forall>r. admits SystemLog r) \<and> (rs_table rs \<noteq> User \<longrightarrow> (\<forall>i. touches User i))"

lemma followed:
  assumes "standing I (snd (m s))" and "\<And>x. effect (keeps (standing I)) (k x)"
  shows "standing I (snd (andThen m k s))"
  using assms(1) effect_keepsD [OF assms(2)] by (auto simp: andThen_def split: prod.splits outcome.splits)

lemma written_record:
  assumes s: "standing I s" and rs: "rs \<in> set (services h)" and a: "allowed h w rs (Some author) s"
  shows "standing I (snd (write_record h w rs tag author c s))"
proof -
  note off = service_off_files [OF rs]
  have log: "effect (keeps (standing I)) (audit_written h author action tag records)" for action records
    using a by (intro auditing) (simp add: allowed_def)
  have valid: "effect (keeps (standing I)) (rs_validate rs sheet instance')"
    if "\<And>r. instance' = Some r \<Longrightarrow> rs_table rs = User \<Longrightarrow> touches User (rid r)" for sheet instance'
    using a that by (intro validated [OF rs]) (auto simp: allowed_def)
  show ?thesis
  proof (cases c)
    case (Creating payload)
    have "standing I (snd (create w rs payload (Some author) s))"
      by (rule created [OF s off valid]) (use a in \<open>auto simp: allowed_def\<close>)
    then show ?thesis unfolding Creating write_record.simps by (rule followed) (rule log)
  next
    case (Editing record_id payload)
    have own: "touches (rs_table rs) (rid r)" if "get_row rs record_id (Some author) True s = (Ok r, s)" for r
    proof -
      have "rid r = record_id" using that by (auto elim: get_row_Ok)
      moreover have "fst (get_row rs record_id (Some author) True s) = Ok r" using that by simp
      ultimately show ?thesis using a unfolding allowed_def by blast
    qed
    have "standing I (snd (update_one w rs record_id payload (Some author) s))"
    proof (rule updated [OF s off])
      fix r assume r: "get_row rs record_id (Some author) True s = (Ok r, s)"
      show "effect (keeps (standing I)) (rs_validate rs (rs_stamp rs (Some author) payload) (Some r))"
        by (rule valid) (use own [OF r] in auto)
    next
      fix r q g sh stamp
      assume "get_row rs record_id (Some author) True s = (Ok r, s)"
        and "ensure_references_are_reachable w rs (rs_stamp rs (Some author) payload) (Some author) (Some r) s = (Ok (), s)"
        and "I g sh" "q \<in> set (sh (rs_table rs))" "rid q = record_id"
      then show "edits (rs_table rs) (edited (rs_table rs) stamp (rs_prepare rs (rs_stamp rs (Some author) payload) (Some q)) q)"
        using a unfolding allowed_def by (metis fst_conv)
    qed
    then show ?thesis unfolding Editing write_record.simps by (rule followed) (rule log)
  next
    case (Deleting record_id)
    have "standing I (snd (delete_one w rs record_id (Some author) s))"
    proof (rule deleted [OF s service_dependents [OF rs]])
      show "\<And>u i. height u < height (rs_table rs) \<Longrightarrow> drops u i" using a by (simp add: allowed_def)
      fix r assume "get_row rs record_id (Some author) True s = (Ok r, s)"
      then show "drops (rs_table rs) record_id" using a unfolding allowed_def by (metis fst_conv)
    qed
    then have "standing I (snd (andThen (delete_one w rs record_id (Some author)) (\<lambda>_. audit_written h author ''deleted'' tag [record_id]) s))"
      by (rule followed) (rule log)
    with s show ?thesis by (simp add: Deleting throw_def)
  next
    case (Ordering ids)
    have "standing I (snd (reorder rs ids (Some author) s))"
      by (rule reordered [OF s off]) (use a in \<open>auto simp: allowed_def\<close>)
    then have "standing I (snd (andThen (reorder rs ids (Some author)) (\<lambda>_. audit_written h author ''reordered'' tag ids) s))"
      by (rule followed) (rule log)
    with s show ?thesis by (simp add: Ordering throw_def)
  qed
qed

lemma requested:
  assumes s: "standing I s" and a: "\<And>rs. served h t = Some rs \<Longrightarrow> allowed h w rs (Some author) s"
  shows "standing I (snd (panel_request h w t author c s))"
proof -
  have closing: "standing I (snd (m s)) \<Longrightarrow> standing I (snd (closed m s))" for m :: "unit desk"
    by (auto simp: closed_def standing_def split: prod.splits)
  have guard: "only_reads (managing rs author)" for rs
    unfolding managing_def resolving_def let_in_def operator_of_def by (intro reading_steps)
  have "standing I (snd (andThen (managing rs author) (\<lambda>_. write_record h w rs tag author c) s))" if "served h t = Some rs" for rs tag
    using s by (rule standing_then, intro only_readsD guard, intro written_record [OF s _ a [OF that]]) (use served_in that in blast)
  with s show ?thesis
    unfolding panel_request_def by (intro closing) (auto simp: throw_def split: option.splits)
qed

end

end
