(* ===== verification/Brands.thy ===== *)
theory Brands
  imports Crud_Facts Sample
begin

text \<open>
  What the panel promises a brand, and the files its rows name. Both are invariants of the interface of \<open>Crud_Facts\<close>, interpreted on the
  statements of the model: that a named file is there, and that the rows of a table that an operator does not reach stay as they are.
\<close>

section \<open>Files\<close>

interpretation named: panel_law named_files_stay "\<lambda>_ _. True" "\<lambda>_ _. True" "\<lambda>_ _. True" "\<lambda>_ _. True"
proof unfold_locales
  show "named_files_stay g (struck (gone_with sh t ids) sh)" if "named_files_stay g sh" for g sh t ids
    using that by (rule stay_struck)
qed (auto intro: stay_frame stay_mention stay_forget stay_release)

lemma named_files_allow: "named.allowed h w rs operator s"
  by (simp add: named.allowed_def)

text \<open>
  Whatever the panel is asked over a day, by whoever it lets in and on whichever resource, a file a committed row names is a row of the
  table of files and one the storage was never asked to delete.
\<close>

theorem named_files_are_kept:
  assumes "standing named_files_stay s"
  shows "standing named_files_stay (panel_day h w requests s)"
  using assms
proof (induction requests arbitrary: s)
  case (Cons request requests)
  obtain hour_of_it t author c where request: "request = (hour_of_it, t, author, c)" by (cases request) auto
  have "standing named_files_stay (s\<lparr>moment := hour_of_it\<rparr>)" using Cons.prems by (simp add: standing_def)
  from named.requested [OF this named_files_allow] Cons.IH show ?case by (simp add: request)
qed simp

section \<open>The rows of a brand\<close>

text \<open>
  The rows of one table an operator does not reach are \<open>foreign\<close>, and every other row of it belongs by the value of one column: the tenant,
  or the key a row is confined through.
\<close>

definition stays :: "table \<Rightarrow> string \<Rightarrow> item list \<Rightarrow> (cell \<Rightarrow> bool) \<Rightarrow> string list \<Rightarrow> shelves \<Rightarrow> bool" where
  "stays t column foreign belongs g sh \<longleftrightarrow> t \<notin> file_tables \<and> column \<noteq> ''updated_at''
     \<and> filter (\<lambda>r. rid r \<in> rid ` set foreign) (sh t) = foreign
     \<and> (\<forall>r\<in>set (sh t). rid r \<notin> rid ` set foreign \<longrightarrow> belongs (cells r column))"

lemma stays_off_files: "off_files (stays t column foreign belongs)"
  unfolding off_files_def stays_def by metis

lemma stays_other: "stays t column foreign belongs g sh \<Longrightarrow> sh' t = sh t \<Longrightarrow> stays t column foreign belongs g sh'"
  by (simp add: stays_def)

lemma filter_amend_apart:
  assumes "\<And>q. p q \<Longrightarrow> \<not> keep q \<and> \<not> keep (f q)"
  shows "filter keep (amend p f rows) = filter keep rows"
  using assms by (induction rows) (auto simp: amend_def)

interpretation brands: panel_law "stays t column foreign belongs"
    "\<lambda>u r. u = t \<longrightarrow> whole_row t r \<longrightarrow> belongs (cells r column)"
    "\<lambda>u r. u = t \<longrightarrow> rid r \<notin> rid ` set foreign \<and> (whole_row t r \<longrightarrow> belongs (cells r column))"
    "\<lambda>u i. u = t \<longrightarrow> i \<notin> rid ` set foreign"
    "\<lambda>u i. u = t \<and> i \<notin> rid ` set foreign \<or> height u < height t"
  for t column foreign belongs
proof unfold_locales
  fix g sh u r
  assume i: "stays t column foreign belongs g sh" and a: "u = t \<longrightarrow> whole_row t r \<longrightarrow> belongs (cells r column)"
    and f: "fits sh u (r\<lparr>rid := next_id (sh u)\<rparr>)"
  show "stays t column foreign belongs g (sh(u := append_row r (sh u)))"
  proof (cases "u = t")
    case True
    have "next_id (sh t) \<notin> rid ` set foreign"
    proof
      assume "next_id (sh t) \<in> rid ` set foreign"
      then obtain q where q: "q \<in> set foreign" "rid q = next_id (sh t)" by auto
      with i have "q \<in> set (filter (\<lambda>r. rid r \<in> rid ` set foreign) (sh t))" by (simp only: stays_def)
      then have "q \<in> set (sh t)" by simp
      with q rid_less_next [of q "sh t"] show False by simp
    qed
    moreover have "whole_row t r" using f True by (simp add: fits_def whole_row_def)
    ultimately show ?thesis using i a True by (auto simp: stays_def append_row_def)
  qed (use i in \<open>simp add: stays_def\<close>)
next
  fix g sh u r
  assume i: "stays t column foreign belongs g sh" and f: "fits sh u r"
    and a: "u = t \<longrightarrow> rid r \<notin> rid ` set foreign \<and> (whole_row t r \<longrightarrow> belongs (cells r column))"
  have "filter (\<lambda>q. rid q \<in> rid ` set foreign) (amend (\<lambda>q. rid q = rid r) (\<lambda>_. r) (sh t)) = filter (\<lambda>q. rid q \<in> rid ` set foreign) (sh t)" if "u = t"
    using a that by (intro filter_amend_apart) auto
  with i a f show "stays t column foreign belongs g (sh(u := amend (\<lambda>q. rid q = rid r) (\<lambda>_. r) (sh u)))"
    by (auto simp: stays_def set_amend fits_def)
next
  fix g sh u p stamp v
  assume i: "stays t column foreign belongs g sh" and a: "\<And>q :: item. p q \<Longrightarrow> u = t \<longrightarrow> rid q \<notin> rid ` set foreign"
  have "filter (\<lambda>q. rid q \<in> rid ` set foreign) (amend p (marked stamp ''updated_at'' v) (sh t)) = filter (\<lambda>q. rid q \<in> rid ` set foreign) (sh t)" if "u = t"
    using a that by (intro filter_amend_apart) auto
  moreover have "cells (marked stamp ''updated_at'' v q) column = cells q column" for q
    using i by (simp add: stays_def marked_def setattr_def)
  ultimately show "stays t column foreign belongs g (sh(u := amend p (marked stamp ''updated_at'' v) (sh u)))"
    using i by (auto simp: stays_def set_amend split: if_splits)
next
  fix g sh u ids
  assume i: "stays t column foreign belongs g sh" and a: "\<forall>i\<in>set ids. u = t \<and> i \<notin> rid ` set foreign \<or> height u < height t"
  show "stays t column foreign belongs g (struck (gone_with sh u ids) sh)"
  proof (cases "ids = []")
    case True
    then show ?thesis using i by (simp add: struck_nothing)
  next
    case False
    then have "u = t \<and> (\<forall>i\<in>set ids. i \<notin> rid ` set foreign) \<or> height u < height t" using a by (cases ids) auto
    then have "struck (gone_with sh u ids) sh t = (if u = t then filter (\<lambda>r. rid r \<notin> set ids) (sh t) else sh t)"
      by (intro struck_above) auto
    moreover have "filter (\<lambda>r. rid r \<notin> set ids \<and> rid r \<in> rid ` set foreign) (sh t) = filter (\<lambda>r. rid r \<in> rid ` set foreign) (sh t)" if "u = t"
      by (rule filter_cong) (use a that in auto)
    ultimately show ?thesis using i by (auto simp: stays_def)
  qed
qed (rule off_mention off_forget off_release, rule stays_off_files)+

section \<open>Who a row belongs to\<close>

text \<open>The one column a resource is confined by.\<close>

definition confining :: "resource \<Rightarrow> string" where
  "confining rs = (if has_tenant (rs_table rs) then ''tenant_id'' else case rs_reach rs of None \<Rightarrow> ''tenant_id'' | Some road \<Rightarrow> re_column road)"

definition bearing :: "cell \<Rightarrow> item" where
  "bearing v = \<lparr>rid = 0, cells = \<lambda>_. v\<rparr>"

lemma confined_by:
  assumes "confinement rs (Some author) writing = Ok own" and "op_tenant author = Some tenant" and "\<not> rs_system_wide rs"
  shows "own sh r \<longleftrightarrow> own sh (bearing (cells r (confining rs)))"
proof (cases "has_tenant (rs_table rs)")
  case True
  with assms show ?thesis by (auto simp: confinement_def confining_def bearing_def Let_def)
next
  case False
  with assms obtain name parent further where road: "rs_reach rs = Some (Reach name parent further)"
    by (cases "rs_reach rs") (auto simp: confinement_def Let_def intro: reach.exhaust)
  with assms False show ?thesis
    by (auto simp: confinement_def confining_def bearing_def Let_def split: if_splits option.splits outcome.splits)
qed

lemma tenant_confined:
  assumes "has_tenant (rs_table rs)" and "op_tenant author = Some tenant" and "\<not> rs_system_wide rs"
  shows "confinement rs (Some author) True = Ok (\<lambda>_ r. cells r ''tenant_id'' = key_to tenant)"
  using assms by (auto simp: confinement_def belongs_to_def Let_def)

lemma road_confined:
  assumes "\<not> has_tenant (rs_table rs)" and "rs_reach rs = Some (Reach name parent None)" and "has_tenant parent"
    and "op_tenant author = Some tenant" and "\<not> rs_system_wide rs"
  shows "confinement rs (Some author) True =
    Ok (\<lambda>sh r. list_ex (\<lambda>p. cells r name = key_to (rid p) \<and> cells p ''tenant_id'' = key_to tenant) (sh parent))"
  using assms by (auto simp: confinement_def belongs_to_def Let_def)

text \<open>What the resources the panel writes declare about it: a column that may not be left out, of a row that carries a tenant.\<close>

definition rooted :: "house \<Rightarrow> resource \<Rightarrow> bool" where
  "rooted h rs \<longleftrightarrow> map_of WRITTEN (rs_table rs) = None \<or> rs_system_wide rs \<or> has_tenant (rs_table rs) \<or> (case rs_reach rs of
     Some (Reach name parent None) \<Rightarrow> has_tenant parent \<and> (name, parent) \<in> set (referenced (rs_table rs))
       \<and> (case column_of (rs_table rs) name of None \<Rightarrow> False | Some c \<Rightarrow> \<not> co_nullable c \<and> co_default c = Unset)
       \<and> (case served h parent of None \<Rightarrow> False | Some q \<Rightarrow> \<not> rs_system_wide q)
   | _ \<Rightarrow> False)"

lemma services_rooted: "list_all (rooted h) (services h)"
  by code_simp
lemma apply_slug_other: "name \<noteq> target \<Longrightarrow> apply_slug nfkd t sheet instance' target sources fallback name = sheet name"
  by (simp add: apply_slug_def Let_def)

lemma recased_other: "name \<noteq> other \<Longrightarrow> recased f other sheet name = sheet name"
  by (simp add: recased_def)

lemma blanked_other: "name \<noteq> other \<Longrightarrow> blanked other sheet name = sheet name"
  by (simp add: blanked_def split: option.splits)

lemma normalize_other: "name \<notin> set IDENTITY_FIELDS \<Longrightarrow> normalize sheet name = sheet name"
  by (simp add: normalize_def IDENTITY_FIELDS_def blanked_other recased_other)

lemma encrypt_one_other: "name \<noteq> other \<Longrightarrow> name \<noteq> other @ ''_encrypted'' \<Longrightarrow> encrypt_one h sheet other name = sheet name"
  by (simp add: encrypt_one_def split: option.splits)

lemma integration_prepare_tenant: "integration_prepare h sheet instance' ''tenant_id'' = sheet ''tenant_id''"
  by (simp add: integration_prepare_def CREDENTIALS_def Let_def encrypt_one_other)

lemma user_prepare_tenant: "user_prepare h sheet instance' ''tenant_id'' = sheet ''tenant_id''"
  by (simp add: user_prepare_def normalize_other IDENTITY_FIELDS_def Let_def split: option.splits)

lemmas prepares = language_prepare_def country_prepare_def tenant_prepare_def currency_prepare_def product_prepare_def plan_prepare_def
  external_product_prepare_def content_category_prepare_def content_prepare_def gallery_prepare_def user_address_prepare_def
  apply_slug_other recased_other integration_prepare_tenant user_prepare_tenant

lemma with_tenant:
  "has_tenant Currency" "has_tenant Product" "has_tenant Entitlement" "has_tenant Plan" "has_tenant Integration" "has_tenant ContentCategory"
  "has_tenant Content" "has_tenant Gallery" "has_tenant Banner" "has_tenant User" "has_tenant Subscription" "has_tenant Purchase"
  "has_tenant AppEvent" "has_tenant NewsletterSubscription" "has_tenant OutboundEmail" "has_tenant SystemLog" "has_tenant WebhookEvent"
  by code_simp+

lemma without_tenant:
  "\<not> has_tenant PlanEntitlement" "\<not> has_tenant Benefit" "\<not> has_tenant ExternalProduct" "\<not> has_tenant GalleryPhoto" "\<not> has_tenant UserAddress"
  "\<not> has_tenant BenefitGrant" "\<not> has_tenant SubscriptionBenefit" "\<not> has_tenant UserEntitlement" "\<not> has_tenant UserProduct"
  "\<not> has_tenant UserBalance" "\<not> has_tenant CreditTransaction" "\<not> has_tenant Language" "\<not> has_tenant Country" "\<not> has_tenant Tenant"
  by code_simp+

text \<open>No service prepares the column it is confined by into anything else, and every one stamps the tenant of its operator.\<close>

lemma prepare_confined:
  assumes "rs \<in> set (services h)"
  shows "rs_prepare rs sheet instance' (confining rs) = sheet (confining rs)"
  using assms unfolding services_def
  by (auto simp: catalogue_services account_services user_service_def user_address_service_def plain_service_def confining_def with_tenant
      without_tenant prepares)

lemma stamped_tenant:
  assumes "rs \<in> set (services h)" and "has_tenant (rs_table rs)" and "op_tenant author = Some tenant"
  shows "rs_stamp rs (Some author) sheet ''tenant_id'' = Some (key_to tenant)"
  using assms unfolding services_def
  by (auto simp: catalogue_services account_services user_service_def user_address_service_def plain_service_def without_tenant stamped_def
      user_stamped_def)

section \<open>What was checked before a row is written\<close>

lemma each_checked:
  assumes "each f xs s = (Ok ys, t)" and "\<And>x. only_reads (f x)" and "x \<in> set xs"
  shows "\<exists>y. f x s = (Ok y, s)"
  using assms(1,3)
proof (induction xs arbitrary: ys)
  case (Cons z zs)
  from Cons.prems(1) obtain y u vs where z: "f z s = (Ok y, u)" and rest: "each f zs u = (Ok vs, t)"
    by (auto elim!: andThen_OkD)
  have "u = s" using only_readsD [OF assms(2), of z s] z by simp
  with z rest Cons show ?case by auto
qed simp

lemma references_checked:
  assumes "fst (ensure_references_are_reachable w rs sheet operator instance' s) = Ok ()" and "(name, target) \<in> set (referenced (rs_table rs))"
    and "given sheet name \<noteq> Null" and "\<And>r. instance' = Some r \<Longrightarrow> given sheet name \<noteq> cells r name" and "of_served w target = Some q"
    and "confinement q operator (map_option re_column (rs_reach rs) = Some name) = Ok narrowed"
  shows "\<exists>p\<in>set (open_rows s target). key_to (rid p) = given sheet name \<and> narrowed (open_rows s) p"
proof -
  let ?check = "\<lambda>(name, target). if given sheet name = Null then ret ()
       else if (case instance' of None \<Rightarrow> False | Some r \<Rightarrow> given sheet name = cells r name) then ret ()
       else case of_served w target of
         None \<Rightarrow> throw KeyError
       | Some s \<Rightarrow>
           andThen (lift (confinement s operator (map_option re_column (rs_reach rs) = Some name))) (\<lambda>narrowed.
           andThen (look (\<lambda>sh. list_ex (\<lambda>r. key_to (rid r) = given sheet name \<and> narrowed sh r) (sh target))) (\<lambda>there.
           if there then ret () else throw (ValidationError ''error.related-not-found'' name)))"
  have "only_reads (?check x)" for x
    by (intro reading_steps)
  moreover obtain ys t where "each ?check (referenced (rs_table rs)) s = (Ok ys, t)"
    using assms(1) unfolding ensure_references_are_reachable_def by (auto simp: andThen_def split: prod.splits outcome.splits)
  ultimately obtain y where "?check (name, target) s = (Ok y, s)"
    using each_checked [of ?check] assms(2) by blast
  then show ?thesis
    using assms(3-6) by (auto simp: list_ex_iff throw_def split: option.splits if_splits)
qed

text \<open>The column a row is confined by, once the references of what was sent were checked.\<close>

lemma confined_value:
  assumes rs: "served h t = Some rs" "map_of WRITTEN t \<noteq> None" "\<not> rs_system_wide rs" and author: "op_tenant author = Some tenant"
    and w: "of_served w = served h" and own: "confinement rs (Some author) True = Ok own"
    and checked: "fst (ensure_references_are_reachable w rs (rs_stamp rs (Some author) payload) (Some author) instance' s) = Ok ()"
    and sent: "rs_stamp rs (Some author) payload (confining rs) = Some v" and "v \<noteq> Null"
    and kept: "\<And>r. instance' = Some r \<Longrightarrow> own (open_rows s) (bearing (cells r (confining rs)))"
  shows "own (open_rows s) (bearing v)"
proof (cases "has_tenant (rs_table rs)")
  case True
  then have "v = key_to tenant" using stamped_tenant [OF _ True author] served_in [OF rs(1)] sent by (auto simp: confining_def)
  then show ?thesis using own tenant_confined [OF True author rs(3)] by (auto simp: bearing_def)
next
  case False
  from services_rooted have "rooted h rs" using served_in [OF rs(1)] by (auto simp: list_all_iff)
  with False rs obtain name parent q where road: "rs_reach rs = Some (Reach name parent None)" "has_tenant parent"
      "(name, parent) \<in> set (referenced (rs_table rs))" "served h parent = Some q" "\<not> rs_system_wide q"
    using served_in [OF rs(1)] by (auto simp: rooted_def split: option.splits reach.splits)
  have name: "confining rs = name" using False road(1) by (simp add: confining_def)
  have same: "own = (\<lambda>sh r. list_ex (\<lambda>p. cells r name = key_to (rid p) \<and> cells p ''tenant_id'' = key_to tenant) (sh parent))"
    using own road_confined [OF False road(1,2) author rs(3)] by simp
  show ?thesis
  proof (cases "\<exists>r. instance' = Some r \<and> v = cells r name")
    case True
    with kept name show ?thesis by auto
  next
    case new: False
    have parent: "rs_table q = parent" using served_in [OF road(4)] by simp
    have "confinement q (Some author) (map_option re_column (rs_reach rs) = Some name) = Ok (\<lambda>_ r. cells r ''tenant_id'' = key_to tenant)"
      using tenant_confined [OF _ author road(5)] road(1,2) parent by simp
    from references_checked [OF checked road(3) _ _ _ this] new sent assms(9) name road(4) w
    obtain p where "p \<in> set (open_rows s parent)" "key_to (rid p) = v" "cells p ''tenant_id'' = key_to tenant" by (auto simp: given_def)
    then show ?thesis by (auto simp: same list_ex_iff bearing_def)
  qed
qed

lemma referenced_column: "(name, target) \<in> set (referenced t) \<Longrightarrow> has_column t name"
  by (auto simp: in_referenced has_column_def column_of_def find_None_iff_all dest!: sym [of None])

lemma rid_edited [simp]: "rid (edited t stamp sheet q) = rid q"
  by (simp add: edited_def setattr_def Let_def)

lemma edited_cell:
  assumes "column_of t name = Some c" and "name \<noteq> ''updated_at''"
  shows "cells (edited t stamp sheet q) name = (case sheet name of Some v \<Rightarrow> v | None \<Rightarrow> cells q name)"
  using assms by (simp add: edited_def setattr_def Let_def)

lemma whole_cell: "whole_row t r \<Longrightarrow> column_of t name = Some c \<Longrightarrow> \<not> co_nullable c \<Longrightarrow> cells r name \<noteq> Null"
  unfolding column_of_def by (drule find_Some_in) (auto simp: whole_row_def list_all_iff)

text \<open>The column is one of the table, and where it is not the tenant it may not be left out.\<close>

definition confined_well :: "resource \<Rightarrow> bool" where
  "confined_well rs \<longleftrightarrow> map_of WRITTEN (rs_table rs) = None \<or> rs_table rs \<notin> {SocialIdentity, SystemLog} \<and> confining rs \<noteq> ''updated_at'' \<and> rs_position rs \<noteq> Some (confining rs)"

lemma services_confined_well: "list_all confined_well (services h)"
  by code_simp

lemma confining_column:
  assumes rs: "served h t = Some rs" "map_of WRITTEN t \<noteq> None" "\<not> rs_system_wide rs"
  obtains c where "column_of t (confining rs) = Some c" "has_tenant t \<or> \<not> co_nullable c \<and> co_default c = Unset"
proof (cases "has_tenant t")
  case True
  then show thesis using that served_in [OF rs(1)] by (auto simp: confining_def has_tenant_def has_column_def)
next
  case False
  have "rooted h rs" using services_rooted served_in [OF rs(1)] by (auto simp: list_all_iff)
  with False rs that show thesis
    using served_in [OF rs(1)] by (auto simp: rooted_def confining_def split: option.splits reach.splits)
qed

lemma brand_allows:
  assumes rs: "served h t = Some rs" "map_of WRITTEN t \<noteq> None" "\<not> rs_system_wide rs" and author: "op_tenant author = Some tenant"
    and w: "of_served w = served h" and own: "confinement rs (Some author) True = Ok own"
    and distinct: "distinct (map rid (open_rows s t))"
  defines "foreign \<equiv> filter (\<lambda>r. \<not> own (open_rows s) r) (open_rows s t)"
    and "belongs \<equiv> \<lambda>v. own (open_rows s) (bearing v)"
  shows "brands.allowed t (confining rs) foreign belongs h w rs (Some author) s"
proof -
  have t: "rs_table rs = t" and mem: "rs \<in> set (services h)" using served_in [OF rs(1)] by simp_all
  have well: "t \<noteq> SocialIdentity" "t \<noteq> SystemLog" "confining rs \<noteq> ''updated_at''" "rs_position rs \<noteq> Some (confining rs)"
    using services_confined_well [of h] mem t rs(2) by (auto simp: list_all_iff confined_well_def)
  obtain c where c: "column_of t (confining rs) = Some c" "has_tenant t \<or> \<not> co_nullable c \<and> co_default c = Unset"
    by (rule confining_column [OF rs])
  have owned: "own (open_rows s) r \<longleftrightarrow> belongs (cells r (confining rs))" for r
    unfolding belongs_def using confined_by [OF own author rs(3)] .
  have apart: "rid r \<notin> rid ` set foreign" if "r \<in> set (open_rows s t)" "own (open_rows s) r" for r
    using that distinct by (auto simp: foreign_def distinct_map inj_on_def)
  have mine: "i \<notin> rid ` set foreign \<and> own (open_rows s) r" if read: "fst (get_row rs i (Some author) True s) = Ok r" for i r
  proof -
    obtain u where "get_row rs i (Some author) True s = (Ok r, u)" using read by (cases "get_row rs i (Some author) True s") auto
    then obtain narrowed where "confinement rs (Some author) True = Ok narrowed" "r \<in> set (open_rows s t)" "narrowed (open_rows s) r" "rid r = i"
      using t by (auto elim: get_row_Ok)
    with own apart show ?thesis by auto
  qed
  let ?sheet = "\<lambda>payload. rs_stamp rs (Some author) payload"
  have sent: "belongs v"
    if "fst (ensure_references_are_reachable w rs (?sheet payload) (Some author) instance' s) = Ok ()" "?sheet payload (confining rs) = Some v"
      "v \<noteq> Null" "\<And>r. instance' = Some r \<Longrightarrow> own (open_rows s) r" for payload instance' v
    unfolding belongs_def
    by (rule confined_value [OF rs author w own that(1-3)]) (use that(4) owned [unfolded belongs_def] in blast)
  have tenant: "\<exists>v. ?sheet payload (confining rs) = Some v \<and> v \<noteq> Null" if "has_tenant t" for payload
    using stamped_tenant [OF mem _ author] that t by (simp add: confining_def key_to_def)
  have whole: "cells r (confining rs) \<noteq> Null" if "whole_row t r" "\<not> has_tenant t" for r
    using whole_cell [OF that(1) c(1)] c(2) that(2) by simp
  have new: "whole_row t r \<longrightarrow> belongs (cells r (confining rs))"
    if "r = born w t i (rs_prepare rs (?sheet payload) None)" "fst (ensure_references_are_reachable w rs (?sheet payload) (Some author) None s) = Ok ()"
    for r i payload
  proof
    assume r: "whole_row t r"
    have cell: "cells r (confining rs) = (case ?sheet payload (confining rs) of Some v \<Rightarrow> v
        | None \<Rightarrow> (case co_default c of Unset \<Rightarrow> Null | Scalar v \<Rightarrow> v | Drawn \<Rightarrow> of_drawn w t i (confining rs)))"
      using that(1) c(1) prepare_confined [OF mem, of "?sheet payload" None] by (simp add: born_def)
    have "\<exists>v. ?sheet payload (confining rs) = Some v \<and> v \<noteq> Null"
    proof (cases "has_tenant t")
      case False
      from whole [OF r this] cell c(2) False show ?thesis by (auto split: option.splits)
    qed (rule tenant)
    with cell sent [OF that(2)] show "belongs (cells r (confining rs))" by auto
  qed
  have rewritten: "rid q \<notin> rid ` set foreign \<and> (whole_row t (edited t stamp (rs_prepare rs (?sheet payload) (Some q)) q) \<longrightarrow>
      belongs (cells (edited t stamp (rs_prepare rs (?sheet payload) (Some q)) q) (confining rs)))"
    if "fst (get_row rs (rid q) (Some author) True s) = Ok r" "stays t (confining rs) foreign belongs g sh" "q \<in> set (sh t)"
      "fst (ensure_references_are_reachable w rs (?sheet payload) (Some author) (Some r) s) = Ok ()" for r q g sh stamp payload
    using mine [OF that(1)] sent [OF that(4)] that(2,3) edited_cell [OF c(1) well(3)] prepare_confined [OF mem, of "?sheet payload" "Some q"]
      whole [of "edited t stamp (rs_prepare rs (?sheet payload) (Some q)) q"] tenant [of payload]
    by (cases "has_tenant t") (auto simp: stays_def split: option.splits)
  have moved: "rid r \<notin> rid ` set foreign \<and> belongs (cells (edited t stamp [position \<mapsto> v] r) (confining rs))"
    if "rs_position rs = Some position" "r \<in> set (open_rows s t)" "own (open_rows s) r" for position r stamp v
    using apart [OF that(2,3)] owned that(1,3) edited_cell [OF c(1) well(3)] well(4) by auto
  show ?thesis
    unfolding brands.allowed_def t
  proof (intro conjI allI impI)
    fix narrowed position r stamp n
    assume "confinement rs (Some author) True = Ok narrowed" "rs_position rs = Some position" "r \<in> set (open_rows s t)" "narrowed (open_rows s) r"
    then have "rid r \<notin> rid ` set foreign \<and> belongs (cells (edited t stamp [position \<mapsto> Whole n] r) (confining rs))"
      using own by (intro moved) auto
    then show "rid (edited t stamp [position \<mapsto> Whole n] r) \<notin> rid ` set foreign"
      and "belongs (cells (edited t stamp [position \<mapsto> Whole n] r) (confining rs))" by simp_all
  qed (use new mine rewritten well in \<open>simp_all\<close>)
qed

section \<open>Writes stay in the brand\<close>

definition after_request :: "house \<Rightarrow> office \<Rightarrow> table \<Rightarrow> operator \<Rightarrow> call \<Rightarrow> panel \<Rightarrow> panel" where
  "after_request h w t author c s = snd (panel_request h w t author c s)"

lemma request_stays:
  assumes rs: "served h t = Some rs" "\<not> rs_system_wide rs" and author: "op_tenant author = Some tenant" and w: "of_served w = served h"
    and own: "confinement rs (Some author) True = Ok own" and clean: "open_rows s = committed s" and distinct: "distinct (map rid (committed s t))"
    and written: "map_of WRITTEN t \<noteq> None"
  shows "stays t (confining rs) (filter (\<lambda>r. \<not> own (committed s) r) (committed s t)) (\<lambda>v. own (committed s) (bearing v))
    (discarded (after_request h w t author c s)) (committed (after_request h w t author c s))"
proof -
  have mem: "rs \<in> set (services h)" "rs_table rs = t" using served_in [OF rs(1)] by simp_all
  have "t \<notin> file_tables" using service_off_files [OF mem(1)] mem(2) by simp
  moreover have "confining rs \<noteq> ''updated_at''"
    using services_confined_well [of h] mem written by (auto simp: list_all_iff confined_well_def)
  ultimately have inv: "standing (stays t (confining rs) (filter (\<lambda>r. \<not> own (committed s) r) (committed s t)) (\<lambda>v. own (committed s) (bearing v))) s"
    using clean confined_by [OF own author rs(2)] distinct
    by (auto simp: standing_def stays_def distinct_map inj_on_def intro!: filter_cong)
  have "distinct (map rid (open_rows s t))" using clean distinct by simp
  note allows = brand_allows [OF rs(1) written rs(2) author w own this, unfolded clean]
  have "standing (stays t (confining rs) (filter (\<lambda>r. \<not> own (committed s) r) (committed s t)) (\<lambda>v. own (committed s) (bearing v)))
      (snd (panel_request h w t author c s))"
    by (rule brands.requested [OF inv]) (use allows rs(1) in simp)
  then show ?thesis by (simp add: standing_def after_request_def)
qed


section \<open>A small panel\<close>

text \<open>Two brands with a product each, and a cover the second one names, under an operator of the first.\<close>

definition plain_house :: house where
  "plain_house = \<lparr>ho_name = ''fastkit'', ho_nfkd = (\<lambda>t. t), ho_hash = (\<lambda>t. ''h:'' @ t), ho_encrypt = (\<lambda>t. ''e:'' @ t), ho_token = ''token'',
     ho_translate = (\<lambda>t. t), ho_dumps = (\<lambda>a t _. a @ t), ho_languages = [''en''], ho_social = []\<rparr>"

definition plain_office :: office where
  "plain_office = \<lparr>of_camel = (\<lambda>t. t), of_collate = (\<lambda>_ _. True), of_nfkd = (\<lambda>t. t), of_drawn = (\<lambda>_ _ _. Text ''drawn''),
     of_folder = (\<lambda>_. ''images''), of_served = served plain_house\<rparr>"

definition product_row :: "nat \<Rightarrow> nat \<Rightarrow> string \<Rightarrow> item" where
  "product_row i tenant picture = \<lparr>rid = i, cells = no_cells(''tenant_id'' := key_to tenant, ''image'' := Text picture)\<rparr>"

definition cover :: string where
  "cover = ''images/00000000-0000-0000-0000-000000000001.webp''"

definition small_shelves :: shelves where
  "small_shelves = (\<lambda>_. [])(
     Tenant := [\<lparr>rid = 1, cells = no_cells\<rparr>, \<lparr>rid = 2, cells = no_cells\<rparr>],
     Product := [product_row 1 1 '''', product_row 2 2 cover],
     StoredFile := [\<lparr>rid = 1, cells = no_cells(''uuid'' := Text ''00000000-0000-0000-0000-000000000001'', ''key'' := Text cover)\<rparr>],
     StoredFileMention := [\<lparr>rid = 1, cells = no_cells(''stored_file_id'' := key_to 1, ''owner'' := Text ''product:2'')\<rparr>])"

definition small_panel :: panel where
  "small_panel = \<lparr>open_rows = small_shelves, committed = small_shelves, moment = (on_day 2026 1 1), discarded = []\<rparr>"

definition first_brand :: operator where
  "first_brand = \<lparr>op_id = 1, op_tenant = Some 1, op_reaches_shared = False, op_role = ADMINISTRATOR\<rparr>"

lemma small_panel_stands: "standing named_files_stay small_panel"
  by (simp add: standing_def small_panel_def small_shelves_def named_files_stay_def)

lemma named_files_are_kept_witness:
  "standing named_files_stay (panel_day plain_house plain_office [((on_day 2026 1 1), Product, first_brand, Deleting 1), ((on_day 2026 1 1), Product, first_brand, Deleting 2)] small_panel)"
  by (rule named_files_are_kept [OF small_panel_stands])

lemma product_served: "served plain_house Product = Some (product_service plain_house)"
  by (simp add: served_def services_def catalogue_services account_services plain_service_def)


end
