(* ===== verification/Listings.thy ===== *)
theory Listings
  imports Brands "HOL-Library.Multiset"
begin

text \<open>
  What the panel reads: a listing is one arrangement of the rows an operator reaches, which its pages cut without a gap or an overlap, and
  the rows it reaches are those a road of keys ties to its brand.
\<close>

section \<open>Sorting\<close>

lemma mset_insort_by [simp]: "mset (insort_by before x xs) = add_mset x (mset xs)"
  by (induction xs) auto

lemma mset_sort_by [simp]: "mset (sort_by before xs) = mset xs"
  by (induction xs) (simp_all add: sort_by_def)

lemma set_sort_by [simp]: "set (sort_by before xs) = set xs"
  by (rule mset_eq_setD) simp

lemma length_sort_by [simp]: "length (sort_by before xs) = length xs"
  by (rule mset_eq_length) simp

definition orders_all :: "('a \<Rightarrow> 'a \<Rightarrow> bool) \<Rightarrow> bool" where
  "orders_all before \<longleftrightarrow> (\<forall>a b. before a b \<or> before b a) \<and> (\<forall>a b c. before a b \<longrightarrow> before b c \<longrightarrow> before a c)"

lemma sorted_insort_by:
  assumes "orders_all before" and "sorted_wrt before xs"
  shows "sorted_wrt before (insort_by before x xs)"
  using assms(2)
proof (induction xs)
  case (Cons y ys)
  have total: "before y x" if "\<not> before x y" using that assms(1) unfolding orders_all_def by blast
  have trans: "before x z" if "before x y" "before y z" for z using that assms(1) unfolding orders_all_def by blast
  have in_set: "z \<in> set (insort_by before x ys) \<longleftrightarrow> z = x \<or> z \<in> set ys" for z
    by (induction ys) auto
  show ?case using Cons total trans by (auto simp: in_set)
qed simp

lemma sorted_sort_by: "orders_all before \<Longrightarrow> sorted_wrt before (sort_by before xs)"
  by (induction xs) (simp_all add: sort_by_def sorted_insort_by)

text \<open>The order of a listing: the rank of a phrase, then the column, then the key, whichever way round.\<close>

lemma orders_column:
  assumes "orders_all collate"
  shows "orders_all (\<lambda>a b :: item. collate (f a) (f b) \<and> (\<not> collate (f b) (f a) \<or> rid a \<le> rid b))"
  unfolding orders_all_def
proof (intro conjI allI impI)
  have total: "collate x y \<or> collate y x" and trans: "collate x y \<Longrightarrow> collate y z \<Longrightarrow> collate x z" for x y z
    using assms unfolding orders_all_def by blast+
  show "collate (f a) (f b) \<and> (\<not> collate (f b) (f a) \<or> rid a \<le> rid b) \<or> collate (f b) (f a) \<and> (\<not> collate (f a) (f b) \<or> rid b \<le> rid a)" for a b
    using total [of "f a" "f b"] by auto
  fix a b c :: item
  assume ab: "collate (f a) (f b) \<and> (\<not> collate (f b) (f a) \<or> rid a \<le> rid b)"
    and bc: "collate (f b) (f c) \<and> (\<not> collate (f c) (f b) \<or> rid b \<le> rid c)"
  then show "collate (f a) (f c)" using trans by blast
  show "\<not> collate (f c) (f a) \<or> rid a \<le> rid c"
    using ab bc trans [of "f c" "f a" "f b"] trans [of "f b" "f c" "f a"] by auto
qed

lemma orders_converse: "orders_all before \<Longrightarrow> orders_all (\<lambda>a b. before b a)"
  unfolding orders_all_def by blast

lemma orders_rank:
  assumes "orders_all before"
  shows "orders_all (\<lambda>a b. if on \<and> rank a \<noteq> (rank b :: nat) then rank b < rank a else before a b)"
  unfolding orders_all_def
proof (intro conjI allI impI)
  have total: "before x y \<or> before y x" and trans: "before x y \<Longrightarrow> before y z \<Longrightarrow> before x z" for x y z
    using assms unfolding orders_all_def by blast+
  show "(if on \<and> rank a \<noteq> rank b then rank b < rank a else before a b) \<or> (if on \<and> rank b \<noteq> rank a then rank a < rank b else before b a)" for a b
    using total [of a b] by auto
  fix a b c
  assume "if on \<and> rank a \<noteq> rank b then rank b < rank a else before a b" and "if on \<and> rank b \<noteq> rank c then rank c < rank b else before b c"
  then show "if on \<and> rank a \<noteq> rank c then rank c < rank a else before a c"
    using trans [of a b c] by (auto split: if_splits)
qed

lemma listed_before_orders:
  assumes "orders_all (of_collate w)"
  shows "orders_all (listed_before w rs page name)"
proof (cases "prefix ''-'' (expression_of rs (pp_ordering page))")
  case True
  then have "listed_before w rs page name = (\<lambda>a b. if ranked rs page \<and>
      text_rank (phrase_of (case pp_search page of None \<Rightarrow> '''' | Some t \<Rightarrow> t)) (document_of rs a) \<noteq>
      text_rank (phrase_of (case pp_search page of None \<Rightarrow> '''' | Some t \<Rightarrow> t)) (document_of rs b)
      then text_rank (phrase_of (case pp_search page of None \<Rightarrow> '''' | Some t \<Rightarrow> t)) (document_of rs b) <
        text_rank (phrase_of (case pp_search page of None \<Rightarrow> '''' | Some t \<Rightarrow> t)) (document_of rs a)
      else of_collate w (field_of name b) (field_of name a) \<and> (\<not> of_collate w (field_of name a) (field_of name b) \<or> rid b \<le> rid a))"
    by (intro ext) (simp only: listed_before_def Let_def if_True)
  then show ?thesis by (simp only:) (intro orders_rank orders_converse [OF orders_column [OF assms]])
next
  case False
  then have "listed_before w rs page name = (\<lambda>a b. if ranked rs page \<and>
      text_rank (phrase_of (case pp_search page of None \<Rightarrow> '''' | Some t \<Rightarrow> t)) (document_of rs a) \<noteq>
      text_rank (phrase_of (case pp_search page of None \<Rightarrow> '''' | Some t \<Rightarrow> t)) (document_of rs b)
      then text_rank (phrase_of (case pp_search page of None \<Rightarrow> '''' | Some t \<Rightarrow> t)) (document_of rs b) <
        text_rank (phrase_of (case pp_search page of None \<Rightarrow> '''' | Some t \<Rightarrow> t)) (document_of rs a)
      else of_collate w (field_of name a) (field_of name b) \<and> (\<not> of_collate w (field_of name b) (field_of name a) \<or> rid a \<le> rid b))"
    by (intro ext) (simp only: listed_before_def Let_def if_False)
  then show ?thesis by (simp only:) (intro orders_rank orders_column [OF assms])
qed


section \<open>Who a row is tied to\<close>

text \<open>A row is tied to a tenant by its own column, or by the row its road leads to.\<close>

inductive tied :: "house \<Rightarrow> (cell \<Rightarrow> bool) \<Rightarrow> shelves \<Rightarrow> table \<Rightarrow> item \<Rightarrow> bool" for h wanted sh where
  own: "has_tenant t \<Longrightarrow> wanted (cells r ''tenant_id'') \<Longrightarrow> tied h wanted sh t r"
| along: "\<not> has_tenant t \<Longrightarrow> served h t = Some rs \<Longrightarrow> rs_reach rs = Some road \<Longrightarrow> p \<in> set (sh (re_parent road)) \<Longrightarrow>
    cells r (re_column road) = key_to (rid p) \<Longrightarrow> tied h wanted sh (re_parent road) p \<Longrightarrow> tied h wanted sh t r"

inductive_simps tied_simps: "tied h wanted sh t r"

lemma tied_tenant: "has_tenant t \<Longrightarrow> tied h wanted sh t r \<longleftrightarrow> wanted (cells r ''tenant_id'')"
  by (subst tied_simps) auto

text \<open>The road a service declares past its parent is the road of that parent.\<close>

fun road_agrees :: "house \<Rightarrow> reach \<Rightarrow> bool" where
  "road_agrees h (Reach name parent further) \<longleftrightarrow> has_tenant parent \<or> (case served h parent of None \<Rightarrow> False | Some q \<Rightarrow> rs_reach q = further
     \<and> (case further of None \<Rightarrow> False | Some onward \<Rightarrow> road_agrees h onward))"

definition roads_agree :: "house \<Rightarrow> resource \<Rightarrow> bool" where
  "roads_agree h rs \<longleftrightarrow> rs_system_wide rs \<or> has_tenant (rs_table rs) \<or> (case rs_reach rs of None \<Rightarrow> False | Some road \<Rightarrow> road_agrees h road)"

lemma services_roads_agree: "list_all (roads_agree h) (services h)"
  by code_simp

lemma through_ties:
  assumes "road_agrees h road"
  shows "\<exists>kept_by. through wanted road = Ok kept_by \<and>
    (\<forall>sh r. kept_by sh r \<longleftrightarrow> (\<exists>p\<in>set (sh (re_parent road)). cells r (re_column road) = key_to (rid p) \<and> tied h wanted sh (re_parent road) p))"
  using assms
proof (induction road)
  case (Reach name parent further)
  show ?case
  proof (cases "has_tenant parent")
    case True
    then show ?thesis by (auto simp: list_ex_iff tied_simps [of h wanted _ parent])
  next
    case False
    with Reach.prems obtain q onward where q: "served h parent = Some q" "rs_reach q = further" "further = Some onward" "road_agrees h onward"
      by (auto split: option.splits)
    from Reach.IH [of onward] q obtain kept where kept: "through wanted onward = Ok kept"
      "\<forall>sh r. kept sh r \<longleftrightarrow> (\<exists>p\<in>set (sh (re_parent onward)). cells r (re_column onward) = key_to (rid p) \<and> tied h wanted sh (re_parent onward) p)"
      by auto
    have "kept sh p \<longleftrightarrow> tied h wanted sh parent p" for sh p
      using False q kept(2) by (auto simp: tied_simps [of h wanted _ parent])
    with False q(3) kept(1) show ?thesis by (auto simp: list_ex_iff)
  qed
qed

lemma confinement_ties:
  assumes rs: "served h t = Some rs" "\<not> rs_system_wide rs" and author: "op_tenant author = Some tenant"
  shows "\<exists>own. confinement rs (Some author) writing = Ok own \<and> (\<forall>sh r. own sh r \<longleftrightarrow>
    tied h (if op_reaches_shared author \<and> rs_shared rs \<and> \<not> writing then reaches_tenant tenant else belongs_to tenant) sh t r)"
proof (cases "has_tenant t")
  case True
  then show ?thesis using assms served_in [OF rs(1)] by (auto simp: confinement_def Let_def tied_simps [of h _ _ t])
next
  case False
  have mem: "rs \<in> set (services h)" "rs_table rs = t" using served_in [OF rs(1)] by simp_all
  with services_roads_agree [of h] have "roads_agree h rs" by (simp add: list_all_iff)
  with False rs(2) mem obtain road where road: "rs_reach rs = Some road" "road_agrees h road"
    by (auto simp: roads_agree_def split: option.splits)
  let ?wanted = "if op_reaches_shared author \<and> rs_shared rs \<and> \<not> writing then reaches_tenant tenant else belongs_to tenant"
  have "confinement rs (Some author) writing = through ?wanted road"
    using False rs(2) author mem(2) road(1) by (simp add: confinement_def Let_def)
  moreover have "tied h ?wanted sh t r \<longleftrightarrow>
      (\<exists>p\<in>set (sh (re_parent road)). cells r (re_column road) = key_to (rid p) \<and> tied h ?wanted sh (re_parent road) p)" for sh r
    using False rs(1) road(1) by (subst tied_simps) auto
  ultimately show ?thesis using through_ties [OF road(2), of ?wanted] by simp
qed

lemma andThen_fst_Ok:
  assumes "fst (andThen m k s) = Ok y"
  obtains x u where "m s = (Ok x, u)" "fst (k x u) = Ok y"
  using assms by (auto simp: andThen_def split: prod.splits outcome.splits)

lemma guards_read: "only_reads (managing rs author)" "only_reads (resolving rs author)"
  unfolding managing_def resolving_def let_in_def operator_of_def by (intro reading_steps)+

lemma after_reading:
  assumes "only_reads m" and "fst (andThen m k s) = Ok y"
  obtains x where "fst (k x s) = Ok y"
  using assms(2) only_readsD [OF assms(1), of s] by (elim andThen_fst_Ok) auto

lemma lift_Ok [simp]: "lift v s = (Ok x, u) \<longleftrightarrow> v = Ok x \<and> u = s"
  by (auto simp: lift_def)

lemma paginated_rows:
  assumes "fst (paginate w rs page filters operator s) = Ok (n, rows)" and "r \<in> set rows"
  obtains narrowed where "confinement rs operator False = Ok narrowed" "r \<in> set (open_rows s (rs_table rs))" "narrowed (open_rows s) r"
  using assms unfolding paginate_def
  by (elim andThen_fst_Ok) (auto simp: matching_def throw_def dest!: in_set_takeD in_set_dropD split: option.splits if_splits)

lemma looked_up_rows:
  assumes "fst (lookup w rs search limit filters operator s) = Ok options" and "(i, label) \<in> set options"
  obtains narrowed r where "confinement rs operator False = Ok narrowed" "r \<in> set (open_rows s (rs_table rs))" "narrowed (open_rows s) r" "rid r = i"
  using assms unfolding lookup_def Let_def
  by (elim andThen_fst_Ok) (auto simp: matching_def dest!: in_set_takeD)

text \<open>
  C12: Every row the panel answers an operator of a brand, in a listing, as an option of a form or by its number, is tied to that brand: by its
  own tenant or along the keys of its road, a shared row only where the operator and the resource both say so.
\<close>

theorem brand_reads_its_own:
  assumes rs: "served h t = Some rs" "\<not> rs_system_wide rs" and author: "op_tenant author = Some tenant"
  shows "let its = tied h (if op_reaches_shared author \<and> rs_shared rs then reaches_tenant tenant else belongs_to tenant) (open_rows s) t in
      (\<forall>page params n rows. fst (list_records w rs author page params s) = Ok (n, rows) \<longrightarrow> (\<forall>r\<in>set rows. r \<in> set (open_rows s t) \<and> its r)) \<and>
      (\<forall>search limit params options. fst (lookup_records w rs author search limit params s) = Ok options \<longrightarrow>
        (\<forall>(i, label)\<in>set options. \<exists>r\<in>set (open_rows s t). rid r = i \<and> its r)) \<and>
      (\<forall>i r. fst (read_record rs author i s) = Ok r \<longrightarrow> r \<in> set (open_rows s t) \<and> rid r = i \<and> its r)"
proof -
  define its where "its = tied h (if op_reaches_shared author \<and> rs_shared rs then reaches_tenant tenant else belongs_to tenant) (open_rows s) t"
  have t: "rs_table rs = t" using served_in [OF rs(1)] by simp
  obtain own where own: "confinement rs (Some author) False = Ok own" "\<And>r. own (open_rows s) r \<longleftrightarrow> its r"
    using confinement_ties [OF assms, of False] unfolding its_def by auto
  have listed: "r \<in> set (open_rows s t) \<and> its r" if ok: "fst (list_records w rs author page params s) = Ok (n, rows)" "r \<in> set rows" for page params n rows r
  proof -
    from ok(1) obtain filters where "fst (paginate w rs page filters (Some author) s) = Ok (n, rows)"
      unfolding list_records_def by (elim after_reading [OF guards_read(1)] after_reading [OF same_order.lift_ok])
    then obtain narrowed where "confinement rs (Some author) False = Ok narrowed" "r \<in> set (open_rows s t)" "narrowed (open_rows s) r"
      unfolding t [symmetric] by (rule paginated_rows [OF _ ok(2)])
    with own show ?thesis by simp
  qed
  have looked: "\<exists>r\<in>set (open_rows s t). rid r = i \<and> its r"
    if ok: "fst (lookup_records w rs author search limit params s) = Ok options" "(i, label) \<in> set options" for search limit params options i label
  proof -
    from ok(1) obtain filters where "fst (lookup w rs search limit filters (Some author) s) = Ok options"
      unfolding lookup_records_def by (elim after_reading [OF guards_read(2)] after_reading [OF same_order.lift_ok])
    then obtain narrowed r where "confinement rs (Some author) False = Ok narrowed" "r \<in> set (open_rows s t)" "narrowed (open_rows s) r" "rid r = i"
      unfolding t [symmetric] by (rule looked_up_rows [OF _ ok(2)])
    with own show ?thesis by auto
  qed
  have one: "r \<in> set (open_rows s t) \<and> rid r = i \<and> its r" if ok: "fst (read_record rs author i s) = Ok r" for i r
  proof -
    from ok have "fst (get_row rs i (Some author) False s) = Ok r"
      unfolding read_record_def by (rule after_reading [OF guards_read(1)])
    then obtain u where "get_row rs i (Some author) False s = (Ok r, u)"
      by (cases "get_row rs i (Some author) False s") auto
    then obtain narrowed where "confinement rs (Some author) False = Ok narrowed" "r \<in> set (open_rows s t)" "narrowed (open_rows s) r" "rid r = i"
      unfolding t [symmetric] by (rule get_row_Ok)
    with own show ?thesis by simp
  qed
  show ?thesis
    unfolding Let_def its_def [symmetric]
    using listed looked one by blast
qed

lemma brand_reads_its_own_witness:
  "\<forall>r. fst (read_record (product_service plain_house) first_brand 2 small_panel) \<noteq> Ok r"
proof (intro allI notI)
  fix r
  assume "fst (read_record (product_service plain_house) first_brand 2 small_panel) = Ok r"
  moreover have "\<not> rs_system_wide (product_service plain_house)" by (simp add: product_service_def plain_service_def)
  moreover have "op_tenant first_brand = Some 1" by (simp add: first_brand_def)
  ultimately have "r \<in> set (open_rows small_panel Product) \<and> rid r = 2
      \<and> tied plain_house (if op_reaches_shared first_brand \<and> rs_shared (product_service plain_house) then reaches_tenant 1 else belongs_to 1)
        (open_rows small_panel) Product r"
    using brand_reads_its_own [OF product_served, of first_brand 1 small_panel, unfolded Let_def, THEN conjunct2, THEN conjunct2] by blast
  then have "r \<in> set (small_shelves Product) \<and> rid r = 2 \<and> belongs_to 1 (cells r ''tenant_id'')"
    by (simp add: small_panel_def tied_tenant with_tenant first_brand_def)
  then show False by (auto simp: small_shelves_def product_row_def belongs_to_def key_to_def)
qed


end
