(* ===== verification/Removal.thy ===== *)
theory Removal
  imports Brands
begin

text \<open>
  A deletion of the panel: either the row is gone with whatever the schema ties to it and nothing points at it any more, or it was refused
  and nothing that was committed changed.
\<close>

section \<open>What commits\<close>

text \<open>Before its one commit a deletion only writes the rows of its own transaction.\<close>

abbreviation uncommitted :: "'a desk \<Rightarrow> bool" where
  "uncommitted m \<equiv> effect (same committed) m"

lemma uncommitted_delete: "uncommitted (delete_rows t p)"
  by (simp add: effect_def same_def delete_rows_apply Let_def)

lemma uncommitted_look: "uncommitted (look f)"
  unfolding look_def by (rule same_order.reads_ok)

lemma uncommitted_undo: "uncommitted undo_rows"
  by (simp add: effect_def same_def)

lemmas uncommitted_steps = same_order.steps uncommitted_delete uncommitted_look uncommitted_undo

lemma uncommitted_forget: "uncommitted (forget owned)"
  unfolding forget_def by (intro uncommitted_steps)

lemma uncommitted_dependents: "uncommitted (delete_dependents w deps parents)"
proof (induction w deps parents rule: delete_dependents.induct)
  case (2 w u name below rest parents)
  have below: "uncommitted (if below = [] then ret [] else delete_dependents w below (\<lambda>sh. pointing_rows sh u name (parents sh)))"
    using 2(1) by (auto intro: uncommitted_steps)
  have rest: "uncommitted (delete_dependents w rest parents)" using 2(2) by simp
  show ?case
    unfolding delete_dependents.simps(2) by (intro same_order.andThen_ok below rest uncommitted_steps uncommitted_forget)
qed (auto intro: uncommitted_steps simp del: ret_apply)

section \<open>What never fails\<close>

text \<open>Nothing a RESTRICT keeps ever points at a file, so a release never fails.\<close>

lemma files_unrestricted: "t \<in> file_tables \<Longrightarrow> \<not> restricted sh (gone_with sh t ids)"
proof -
  assume t: "t \<in> file_tables"
  have "(u, name, Restrict) \<notin> set (pointing v)" if "(v, i) \<in> set (gone_with sh t ids)" for u name v i
    using doomed_files [OF t that [unfolded gone_with_def]] by (auto simp: pointing_files)
  then show ?thesis unfolding restricted_def list_ex_iff by fastforce
qed

lemma release_one_Ok: "\<exists>keys u. release_one f s = (Ok keys, u)"
  by (simp add: release_one_def delete_rows_apply files_unrestricted andThen_def Let_def)

lemma releasing_Ok: "\<exists>kss u. each release_one fs s = (Ok kss, u)"
proof (induction fs arbitrary: s)
  case (Cons f fs)
  obtain keys u where "release_one f s = (Ok keys, u)" using release_one_Ok by blast
  moreover obtain kss v where "each release_one fs u = (Ok kss, v)" using Cons.IH by blast
  ultimately show ?case by (simp add: andThen_def)
qed simp

lemma release_Ok: "fst (release uuids s) = Ok ()"
proof (cases "uuids = []")
  case False
  obtain kss u where "each release_one (filter (has_uuid uuids) (open_rows s StoredFile)) s = (Ok kss, u)" using releasing_Ok by blast
  with False show ?thesis by (simp add: release_def andThen_def discard_def writes_def)
qed (simp add: release_def)

section \<open>What a deletion leaves\<close>

definition clear_of :: "table \<Rightarrow> nat \<Rightarrow> shelves \<Rightarrow> bool" where
  "clear_of t i sh \<longleftrightarrow> (\<forall>r\<in>set (sh t). rid r \<noteq> i)
     \<and> (\<forall>(u, name, gone)\<in>set (pointing t). \<forall>r\<in>set (sh u). cells r name \<noteq> key_to i)"

lemma key_to_Null [simp]: "key_to i \<noteq> Null" "Null \<noteq> key_to i"
  by (simp_all add: key_to_def)

lemma key_to_inject [simp]: "key_to i = key_to j \<longleftrightarrow> i = j"
  by (simp add: key_to_def)

lemma let_go_cell:
  assumes "cells (let_go going u r) name = key_to i"
  shows "cells r name = key_to i \<and> \<not> list_ex (\<lambda>c. co_name c = name \<and> (case co_points c of
     Some (t, SetNull) \<Rightarrow> list_ex (\<lambda>(v, i). v = t \<and> cells r name = key_to i) going | _ \<Rightarrow> False)) (columns u)"
  using assms unfolding let_go_def by (auto split: if_splits)

lemma struck_clear:
  assumes "i \<in> set ids" and "\<not> restricted sh (gone_with sh t ids)"
  shows "clear_of t i (struck (gone_with sh t ids) sh)"
proof -
  let ?going = "gone_with sh t ids"
  have going: "(t, i) \<in> set ?going" using doomed_ids [of "Suc (height t)" i ids t sh] assms(1) by (simp add: gone_with_def del: doomed.simps)
  have "cells q name \<noteq> key_to i" if p: "(u, name, gone) \<in> set (pointing t)" and q: "q \<in> set (struck ?going sh u)" for u name gone q
  proof
    assume "cells q name = key_to i"
    with q obtain b where b: "b \<in> set (sh u)" "(u, rid b) \<notin> set ?going" "q = let_go ?going u b" "cells b name = key_to i"
        and kept: "\<not> list_ex (\<lambda>c. co_name c = name \<and> (case co_points c of
          Some (t, SetNull) \<Rightarrow> list_ex (\<lambda>(v, i). v = t \<and> cells b name = key_to i) ?going | _ \<Rightarrow> False)) (columns u)"
      by (auto simp: struck_def dest!: let_go_cell)
    show False
    proof (cases gone)
      case Cascade
      then show False using doomed_closed [of t "Suc (height t)" t i sh ids u name b] going p b(1,2,4) by (simp add: gone_with_def del: doomed.simps)
    next
      case SetNull
      with p obtain c where c: "c \<in> set (columns u)" "co_name c = name" "co_points c = Some (t, SetNull)" by (auto simp: in_pointing)
      have "list_ex (\<lambda>(v, i). v = t \<and> cells b name = key_to i) ?going" using going b(4) by (auto simp: list_ex_iff)
      with c have "list_ex (\<lambda>c. co_name c = name \<and> (case co_points c of
          Some (t, SetNull) \<Rightarrow> list_ex (\<lambda>(v, i). v = t \<and> cells b name = key_to i) ?going | _ \<Rightarrow> False)) (columns u)"
        unfolding list_ex_iff [of _ "columns u"] by (intro bexI [of _ c]) simp_all
      with kept show False ..
    next
      case Restrict
      have "rid b \<in> set (pointing_rows sh u name [i])" using b(1,4) by (simp add: pointing_rows_def)
      then have "pointing_rows sh u name [i] \<noteq> []" by auto
      with going p Restrict have "restricted sh ?going" unfolding restricted_def list_ex_iff by fastforce
      with assms(2) show False by simp
    qed
  qed
  moreover have "rid q \<noteq> i" if "q \<in> set (struck ?going sh t)" for q
    using that struck_above [of t t sh ids] assms(1) by auto
  ultimately show ?thesis by (auto simp: clear_of_def)
qed

lemma off_clear_of: "t \<notin> file_tables \<Longrightarrow> off_files (\<lambda>_. clear_of t i)"
proof -
  assume t: "t \<notin> file_tables"
  have "clear_of t i sh'" if "clear_of t i sh" "\<And>u. u \<notin> file_tables \<Longrightarrow> sh' u = sh u" for sh sh' :: shelves
  proof -
    have "sh' u = sh u" if "(u, name, gone) \<in> set (pointing t)" for u name gone
      using pointing_not_files [OF t that] that(1) \<open>\<And>u. u \<notin> file_tables \<Longrightarrow> sh' u = sh u\<close> by blast
    with that(1) that(2) [OF t] show ?thesis unfolding clear_of_def by fastforce
  qed
  then show ?thesis by (auto simp: off_files_def)
qed

definition holds_row :: "table \<Rightarrow> nat \<Rightarrow> string list \<Rightarrow> shelves \<Rightarrow> bool" where
  "holds_row t i g sh \<longleftrightarrow> t \<notin> file_tables \<and> i \<in> set (map rid (sh t))"

lemma off_holds_row: "off_files (holds_row t i)"
  by (auto simp: off_files_def holds_row_def)

interpretation there: panel_law "holds_row t i" "\<lambda>_ _. True" "\<lambda>_ _. True" "\<lambda>_ _. True" "\<lambda>u _. height u < height t"
  for t i
proof unfold_locales
  fix g sh u and ids :: "nat list"
  assume a: "holds_row t i g sh" and d: "\<forall>j\<in>set ids. height u < height t"
  have "struck (gone_with sh u ids) sh t = sh t"
  proof (cases "ids = []")
    case False
    with d have "height u < height t" by (cases ids) auto
    with struck_above [of u t sh ids] show ?thesis by auto
  qed (simp add: struck_nothing)
  with a show "holds_row t i g (struck (gone_with sh u ids) sh)" by (simp add: holds_row_def)
next
  fix g sh u r
  assume "holds_row t i g sh"
  then show "holds_row t i g (sh(u := amend (\<lambda>q. rid q = rid r) (\<lambda>_. r) (sh u)))"
    using amend_rid [of "\<lambda>q. rid q = rid r" "\<lambda>_. r" "sh u"] by (cases "u = t") (simp_all add: holds_row_def del: set_map)
next
  fix g sh u p stamp v
  assume "holds_row t i g sh"
  then show "holds_row t i g (sh(u := amend p (marked stamp ''updated_at'' v) (sh u)))"
    using amend_rid [of p "marked stamp ''updated_at'' v" "sh u"] by (cases "u = t") (simp_all add: holds_row_def del: set_map)
qed (auto simp: holds_row_def set_append_row intro: off_mention off_forget off_release off_holds_row)

lemma refusing_result:
  "case refusing_rows code m s of (Ok x, v) \<Rightarrow> m s = (Ok x, v) | (_, v) \<Rightarrow> committed v = committed (snd (m s)) \<and> (\<forall>x. fst (m s) \<noteq> Ok x)"
proof (cases "m s")
  case (Pair r v)
  show ?thesis
  proof (cases r)
    case (Err e)
    then show ?thesis by (cases e) (simp_all add: refusing_rows_def handle_def Pair throw_def andThen_def)
  qed (simp_all add: refusing_rows_def handle_def Pair)
qed

section \<open>A deletion is whole\<close>

text \<open>What a deletion does to the rows before its commit, where the row is there: its children, itself, and the commit.\<close>

abbreviation taken_out :: "office \<Rightarrow> resource \<Rightarrow> nat \<Rightarrow> string list desk" where
  "taken_out w rs record_id \<equiv> andThen (delete_dependents w (rs_dependents rs) (\<lambda>_. [record_id])) (\<lambda>orphaned.
     andThen (delete_rows (rs_table rs) (\<lambda>q. rid q = record_id)) (\<lambda>_. andThen settle_rows (\<lambda>_. ret orphaned)))"

lemma taken_out_clears:
  assumes rs: "rs \<in> set (services h)" and "standing (holds_row (rs_table rs) i) s"
  shows "case taken_out w rs i s of (Ok x, t) \<Rightarrow> committed t = open_rows t \<and> clear_of (rs_table rs) i (open_rows t)
    | (_, t) \<Rightarrow> committed t = committed s"
proof -
  let ?deps = "delete_dependents w (rs_dependents rs) (\<lambda>_. [i])"
  obtain r u where u: "?deps s = (r, u)" by fastforce
  have c: "committed u = committed s" using effect_sameD [OF uncommitted_dependents, of w "rs_dependents rs" "\<lambda>_. [i]" s] u by simp
  have "effect (keeps (standing (holds_row (rs_table rs) i))) ?deps"
    by (rule there.dependents_kept [OF service_dependents [OF rs]])
  from effect_keepsD [OF this assms(2)] u have "i \<in> set (map rid (filter (\<lambda>q. rid q = i) (open_rows u (rs_table rs))))"
    by (auto simp: standing_def holds_row_def)
  from struck_clear [OF this] u c show ?thesis by (cases r) (auto simp: andThen_def delete_rows_apply Let_def)
qed

text \<open>What is left once the commit was translated, and the files were released.\<close>

lemma taken_out_released:
  assumes rs: "rs \<in> set (services h)" and "standing (holds_row (rs_table rs) i) s"
  shows "case andThen (refusing_rows code (taken_out w rs i)) (\<lambda>orphaned. release (uuids orphaned)) s of
      (Ok _, t) \<Rightarrow> clear_of (rs_table rs) i (committed t) | (_, t) \<Rightarrow> committed t = committed s"
proof -
  obtain q x where q: "taken_out w rs i s = (q, x)" by fastforce
  obtain r v where v: "refusing_rows code (taken_out w rs i) s = (r, v)" by fastforce
  note all = taken_out_clears [OF assms, of w, unfolded q]
  note result = refusing_result [where code = code and m = "taken_out w rs i" and s = s, unfolded v q, simplified]
  have one: "andThen (refusing_rows code (taken_out w rs i)) (\<lambda>orphaned. release (uuids orphaned)) s =
      (case r of Ok orphaned \<Rightarrow> release (uuids orphaned) v | Err e \<Rightarrow> (Err e, v) | Hangs \<Rightarrow> (Hangs, v))"
    by (simp add: andThen_def [of "refusing_rows code (taken_out w rs i)"] v)
  show ?thesis
  proof (cases r)
    case (Ok orphaned)
    from result Ok all have "standing (\<lambda>_. clear_of (rs_table rs) i) v" by (simp add: standing_def)
    from effect_keepsD [OF off_release [OF off_clear_of [OF service_off_files [OF rs]]] this, of "uuids orphaned"]
    have "clear_of (rs_table rs) i (committed (snd (release (uuids orphaned) v)))" by (simp add: standing_def)
    with one Ok release_Ok [of "uuids orphaned" v] show ?thesis by (cases "release (uuids orphaned) v") simp
  qed (use one result all in \<open>cases q; simp\<close>)+
qed


lemma small_panel_deletes: "fst (delete_one plain_office (product_service plain_house) 1 (Some first_brand) small_panel) = Ok ()"
  by code_simp


end
