(* ===== verification/Uploads.thy ===== *)
theory Uploads
  imports Brands
begin

text \<open>
  A file on its way in: what each purpose takes, the key a file is kept under, and \<open>UploadService.store\<close>. The decoder of images, the
  storage and the drawn uuid are outside.
\<close>

section \<open>What each purpose takes\<close>

datatype naming = UUID | ORIGINAL

datatype image_format = JPEG | PNG | WEBP

datatype kept_as = processed | original

record image_settings =
  is_width :: "nat option"
  is_height :: "nat option"
  is_crop :: bool
  is_format :: image_format
  is_quality :: nat
  is_store :: kept_as

record upload_settings =
  us_folder :: string
  us_extensions :: "string list"
  us_max_bytes :: nat
  us_image :: "image_settings option"
  us_naming :: naming

definition MEGABYTE :: nat where
  "MEGABYTE = 1024 * 1024"

definition IMAGE_EXTENSIONS :: "string list" where
  "IMAGE_EXTENSIONS = [''.jpg'', ''.jpeg'', ''.png'', ''.webp'', ''.gif'']"

definition DOCUMENT_EXTENSIONS :: "string list" where
  "DOCUMENT_EXTENSIONS = [''.pdf'', ''.epub'', ''.zip'', ''.mp3'', ''.mp4'']"

definition image_upload :: "string \<Rightarrow> nat \<Rightarrow> image_settings \<Rightarrow> upload_settings" where
  "image_upload folder max_bytes picture = \<lparr>us_folder = folder, us_extensions = IMAGE_EXTENSIONS, us_max_bytes = max_bytes,
     us_image = Some picture, us_naming = UUID\<rparr>"

definition webp :: "nat \<Rightarrow> nat option \<Rightarrow> bool \<Rightarrow> nat \<Rightarrow> image_settings" where
  "webp wide tall crop quality = \<lparr>is_width = Some wide, is_height = tall, is_crop = crop, is_format = WEBP, is_quality = quality,
     is_store = processed\<rparr>"

fun default_uploads :: "upload_purpose \<Rightarrow> upload_settings" where
  "default_uploads IMAGE = image_upload ''images/content'' (10 * MEGABYTE) (webp 1600 None False 82)"
| "default_uploads AVATAR = image_upload ''images/user/avatar'' (5 * MEGABYTE) (webp 256 (Some 256) True 85)"
| "default_uploads BANNER = image_upload ''images/banner'' (10 * MEGABYTE) (webp 1920 (Some 1080) True 82)"
| "default_uploads GALLERY_PHOTO = image_upload ''images/gallery'' (10 * MEGABYTE) (webp 1600 (Some 900) True 82)"
| "default_uploads PRODUCT_IMAGE = image_upload ''images/product'' (10 * MEGABYTE) (webp 1280 (Some 720) True 85)"
| "default_uploads PLAN_IMAGE = image_upload ''images/plan'' (10 * MEGABYTE) (webp 1280 (Some 720) True 85)"
| "default_uploads PRODUCT_FILE = \<lparr>us_folder = ''files/product'', us_extensions = DOCUMENT_EXTENSIONS, us_max_bytes = 512 * MEGABYTE,
     us_image = None, us_naming = ORIGINAL\<rparr>"

section \<open>The key of a file\<close>

text \<open>\<open>os.path.splitext\<close>: the last dot of the last component, unless every character before it there is a dot too.\<close>

definition splitext :: "string \<Rightarrow> string \<times> string" where
  "splitext p =
     (let base = rev (takeWhile (\<lambda>c. c \<noteq> CHR ''/'') (rev p));
          tail = rev (takeWhile (\<lambda>c. c \<noteq> CHR ''.'') (rev base));
          stem = take (length p - length tail - 1) p
      in if CHR ''.'' \<in> set base \<and> list_ex (\<lambda>c. c \<noteq> CHR ''.'') (take (length base - length tail - 1) base)
         then (stem, CHR ''.'' # tail) else (p, []))"

text \<open>\<open>NAMED.sub("-", t)\<close>.\<close>

function without_uuids :: "string \<Rightarrow> string" where
  "without_uuids [] = []"
| "without_uuids (c # t) = (if names_uuid (c # t) then CHR ''-'' # without_uuids (drop 36 (c # t)) else c # without_uuids t)"
  by pat_completeness auto

termination
  by (relation "measure length") auto

definition NAME_LIMIT :: nat where
  "NAME_LIMIT = 80"

definition readable_name :: "(string \<Rightarrow> string) \<Rightarrow> string \<Rightarrow> string" where
  "readable_name nfkd filename = slugify nfkd (without_uuids (fst (splitext filename))) ''file'' (Some NAME_LIMIT)"

definition dated :: "datetime \<Rightarrow> string" where
  "dated today = padded 4 (nat (year today)) @ ''/'' @ padded 2 (nat (month today)) @ ''/'' @ padded 2 (nat (day today))"

definition build_key :: "(string \<Rightarrow> string) \<Rightarrow> string \<Rightarrow> string \<Rightarrow> naming \<Rightarrow> datetime \<Rightarrow> string \<Rightarrow> string" where
  "build_key nfkd folder filename naming today token =
     (let extension = lower (snd (splitext filename)) in
      if naming = ORIGINAL then folder @ ''/'' @ dated today @ ''/'' @ token @ ''/'' @ readable_name nfkd filename @ extension
      else folder @ ''/'' @ dated today @ ''/'' @ token @ extension)"

section \<open>What an image becomes\<close>

text \<open>The decoder of images is outside: what it reads of a canvas, how it shrinks one, and the bytes it writes.\<close>

record picture =
  pi_width :: nat
  pi_height :: nat
  pi_rgb :: bool
  pi_pixels :: string

record codec =
  cd_header :: "string \<Rightarrow> picture option"
  cd_upright :: "string \<Rightarrow> picture option"
  cd_fit :: "nat \<times> nat \<Rightarrow> picture \<Rightarrow> picture"
  cd_thumbnail :: "nat \<times> nat \<Rightarrow> picture \<Rightarrow> picture"
  cd_as_rgb :: "picture \<Rightarrow> picture"
  cd_save :: "image_format \<Rightarrow> nat option \<Rightarrow> picture \<Rightarrow> string"

text \<open>The header alone is read first, so a canvas too large is refused before a pixel of it is.\<close>

definition open_image :: "codec \<Rightarrow> nat \<Rightarrow> string \<Rightarrow> picture outcome" where
  "open_image decoder image_max_pixels content =
     (case cd_header decoder content of
        None \<Rightarrow> Err (ValidationError ''error.upload-not-an-image'' ''file'')
      | Some canvas \<Rightarrow>
          if image_max_pixels < pi_width canvas * pi_height canvas then Err (ValidationError ''error.upload-image-too-large'' ''file'') else
          (case cd_upright decoder content of
             None \<Rightarrow> Err (ValidationError ''error.upload-not-an-image'' ''file'')
           | Some picture \<Rightarrow> Ok picture))"

definition sized :: "nat option \<Rightarrow> nat \<Rightarrow> nat" where
  "sized side its = (case side of None \<Rightarrow> its | Some n \<Rightarrow> if n = 0 then its else n)"

definition resize :: "codec \<Rightarrow> picture \<Rightarrow> image_settings \<Rightarrow> picture" where
  "resize decoder picture rule =
     (if is_width rule = None \<and> is_height rule = None then picture
      else if is_crop rule \<and> is_width rule \<notin> {None, Some 0} \<and> is_height rule \<notin> {None, Some 0}
      then cd_fit decoder (the (is_width rule), the (is_height rule)) picture
      else cd_thumbnail decoder (sized (is_width rule) (pi_width picture), sized (is_height rule) (pi_height picture)) picture)"

definition IMAGE_FORMAT_EXTENSIONS :: "image_format \<Rightarrow> string" where
  "IMAGE_FORMAT_EXTENSIONS f = (case f of JPEG \<Rightarrow> ''.jpg'' | PNG \<Rightarrow> ''.png'' | WEBP \<Rightarrow> ''.webp'')"

definition process_image :: "codec \<Rightarrow> picture \<Rightarrow> image_settings \<Rightarrow> string \<times> string" where
  "process_image decoder picture rule =
     (let resized = resize decoder picture rule;
          flat = (if is_format rule = JPEG \<and> \<not> pi_rgb resized then cd_as_rgb decoder resized else resized)
      in (cd_save decoder (is_format rule) (if is_format rule \<in> {JPEG, WEBP} then Some (is_quality rule) else None) flat,
          IMAGE_FORMAT_EXTENSIONS (is_format rule)))"

definition settle_image :: "codec \<Rightarrow> nat \<Rightarrow> string \<Rightarrow> image_settings \<Rightarrow> string \<Rightarrow> (string \<times> string \<times> nat) outcome" where
  "settle_image decoder image_max_pixels content rule filename =
     (case open_image decoder image_max_pixels content of
        Ok picture \<Rightarrow>
          if is_store rule = original then Ok (content, filename, length content)
          else let (bytes, extension) = process_image decoder picture rule in Ok (bytes, fst (splitext filename) @ extension, length bytes)
      | Err e \<Rightarrow> Err e | Hangs \<Rightarrow> Hangs)"

section \<open>Storing a file\<close>

text \<open>A file, as the pieces it is read in. Reading stops at an empty one.\<close>

record incoming_file =
  if_filename :: "string option"
  if_chunks :: "string list"

fun spool_within :: "string \<Rightarrow> string list \<Rightarrow> nat \<Rightarrow> string outcome" where
  "spool_within body [] limit = Ok body"
| "spool_within body (chunk # chunks) limit =
     (if chunk = [] then Ok body
      else if limit < length body + length chunk then Err (ValidationError ''error.upload-too-large'' ''file'')
      else spool_within (body @ chunk) chunks limit)"

text \<open>
  What is outside: the largest file and canvas the environment holds, the decoder, the uuid drawn, which of a set is popped, and
  whether the storage takes a key and its bytes.
\<close>

record store_room =
  sr_max_bytes :: nat
  sr_max_pixels :: nat
  sr_codec :: codec
  sr_nfkd :: "string \<Rightarrow> string"
  sr_token :: string
  sr_pop :: "string list \<Rightarrow> string"
  sr_save :: "string \<Rightarrow> string \<Rightarrow> unit outcome"

definition purpose_name :: "upload_purpose \<Rightarrow> string" where
  "purpose_name p = (case p of IMAGE \<Rightarrow> ''image'' | AVATAR \<Rightarrow> ''avatar'' | BANNER \<Rightarrow> ''banner'' | GALLERY_PHOTO \<Rightarrow> ''gallery-photo''
     | PRODUCT_IMAGE \<Rightarrow> ''product-image'' | PRODUCT_FILE \<Rightarrow> ''product-file'' | PLAN_IMAGE \<Rightarrow> ''plan-image'')"

definition new_stored :: "datetime \<Rightarrow> string \<Rightarrow> string \<Rightarrow> upload_purpose \<Rightarrow> nat \<Rightarrow> item" where
  "new_stored t uuid key purpose bytes = \<lparr>rid = 0, cells = no_cells(''uuid'' := Text uuid, ''key'' := Text key, ''purpose'' := Text (purpose_name purpose),
     ''size'' := Whole (int bytes), ''created_at'' := Moment t, ''updated_at'' := Moment t)\<rparr>"

text \<open>The file is written down before it is written.\<close>

definition keep :: "store_room \<Rightarrow> upload_purpose \<Rightarrow> upload_settings \<Rightarrow> string \<Rightarrow> string \<Rightarrow> (string \<times> nat) desk" where
  "keep room purpose rule filename body =
     andThen (case us_image rule of None \<Rightarrow> ret (body, filename, length body)
       | Some picture \<Rightarrow> lift (settle_image (sr_codec room) (sr_max_pixels room) body picture filename)) (\<lambda>(payload, name, bytes).
     andThen hour (\<lambda>today.
     let key = build_key (sr_nfkd room) (us_folder rule) name (us_naming rule) today (sr_token room) in
     andThen (insert_row StoredFile (new_stored today (sr_pop room (remdups (uuids_in key))) key purpose bytes)) (\<lambda>_.
     andThen settle_rows (\<lambda>_.
     andThen (lift (sr_save room key payload)) (\<lambda>_. ret (key, bytes))))))"

definition store_upload :: "store_room \<Rightarrow> upload_purpose \<Rightarrow> incoming_file \<Rightarrow> (string \<times> nat) desk" where
  "store_upload room purpose upload =
     (let rule = default_uploads purpose;
          filename = (case if_filename upload of None \<Rightarrow> '''' | Some name \<Rightarrow> name)
      in if lower (snd (splitext filename)) \<notin> set (us_extensions rule) then throw (ValidationError ''error.upload-type-not-allowed'' ''file'') else
      andThen (lift (spool_within '''' (if_chunks upload) (min (us_max_bytes rule) (sr_max_bytes room)))) (\<lambda>body.
      if body = '''' then throw (ValidationError ''error.upload-empty'' ''file'') else keep room purpose rule filename body))"

section \<open>A key names its own file\<close>

lemma not_hex_slash: "\<not> is_hex (CHR ''/'')"
  by code_simp

text \<open>No uuid reaches over a slash, so a key is searched segment by segment.\<close>

lemma names_uuid_chars:
  assumes "names_uuid t" and "i < 36"
  shows "is_hex (t ! i) \<or> t ! i = CHR ''-''"
  using assms by (auto simp: names_uuid_def list_all2_conv_all_nth split: if_splits)

lemma names_uuid_slash: "names_uuid (a @ CHR ''/'' # b) \<longleftrightarrow> 36 \<le> length a \<and> names_uuid a"
proof (cases "36 \<le> length a")
  case True
  then show ?thesis by (simp add: names_uuid_def)
next
  case False
  have "is_hex (CHR ''/'') \<or> CHR ''/'' = CHR ''-''" if "names_uuid (a @ CHR ''/'' # b)"
    using names_uuid_chars [OF that, of "length a"] False by (simp add: nth_append)
  with False show ?thesis using not_hex_slash by auto
qed

lemma uuids_in_slash: "uuids_in (a @ CHR ''/'' # b) = uuids_in a @ uuids_in b"
proof (induction a rule: uuids_in.induct)
  case 1
  have "\<not> names_uuid (CHR ''/'' # b)" using names_uuid_slash [of "[]" b] by simp
  then show ?case by simp
next
  case (2 c t)
  have long: "36 \<le> length (c # t)" if "names_uuid (c # t)" using that by (simp add: names_uuid_def)
  show ?case
  proof (cases "names_uuid (c # t)")
    case True
    with long have "drop 36 ((c # t) @ CHR ''/'' # b) = drop 36 (c # t) @ CHR ''/'' # b" "take 36 ((c # t) @ CHR ''/'' # b) = take 36 (c # t)" by auto
    with True names_uuid_slash [of "c # t" b] long 2(1) show ?thesis by simp
  next
    case False
    with names_uuid_slash [of "c # t" b] 2(2) show ?thesis by simp
  qed
qed

lemma uuids_in_short: "length t < 36 \<Longrightarrow> uuids_in t = []"
  by (induction t) (auto simp: names_uuid_def)

lemma uuids_in_token:
  assumes "names_uuid token" and "length token = 36"
  shows "uuids_in (token @ rest) = lower token # uuids_in rest"
proof (cases token)
  case (Cons c t)
  have "names_uuid (token @ rest)" using assms by (simp add: names_uuid_def)
  then show ?thesis using assms by (simp add: Cons)
qed (use assms in simp)

lemma uuids_in_unbroken: "CHR ''-'' \<notin> set t \<Longrightarrow> uuids_in t = []"
proof (induction t)
  case (Cons c t)
  have "(c # t) ! 8 = CHR ''-''" if "names_uuid (c # t)"
  proof -
    have "\<not> NAMED ! 8" by code_simp
    with that show ?thesis
      by (auto simp: names_uuid_def list_all2_conv_all_nth dest!: spec [of _ 8])
  qed
  moreover have "length (c # t) > 8" if "names_uuid (c # t)" using that by (simp add: names_uuid_def)
  ultimately have "\<not> names_uuid (c # t)" using Cons.prems nth_mem [of 8 "c # t"] by metis
  with Cons show ?case by simp
qed simp

lemma dated_unbroken: "CHR ''-'' \<notin> set (dated today)"
proof -
  have "\<not> is_digit (CHR ''-'')" by code_simp
  then show ?thesis using padded_digits by (auto simp: dated_def)
qed

text \<open>
  The key a file is stored under names that file: the uuids read out of it are the one drawn for it, after any its folder names and
  before any the readable part of its name does, which is nothing at all for a purpose that names its files by their uuid.
\<close>

theorem built_key_names_its_file:
  assumes "names_uuid token" and "length token = 36" and "length (snd (splitext filename)) < 36"
  shows "uuids_in (build_key nfkd folder filename naming today token) = uuids_in folder @ lower token #
    (if naming = ORIGINAL then uuids_in (readable_name nfkd filename @ lower (snd (splitext filename))) else [])"
proof -
  have "uuids_in (lower (snd (splitext filename))) = []"
    using assms(3) uuids_in_short [of "lower (snd (splitext filename))"] by (simp add: lower_def)
  then show ?thesis
    using uuids_in_unbroken [OF dated_unbroken [of today]] uuids_in_token [OF assms(1,2)] uuids_in_token [OF assms(1,2), of "[]"]
    by (simp add: build_key_def Let_def uuids_in_slash)
qed

definition a_token :: string where
  "a_token = ''01234567-89AB-cdef-0123-456789abcdef''"

lemma built_key_names_its_file_witness:
  "uuids_in (build_key (\<lambda>t. t) ''images/banner'' ''My cover.PNG'' UUID (DateTime 2024 5 17 0) a_token) = [lower a_token]"
proof -
  have "names_uuid a_token" "length a_token = 36" "length (snd (splitext ''My cover.PNG'')) < 36" "uuids_in ''images/banner'' = []"
    by code_simp+
  with built_key_names_its_file [of a_token "''My cover.PNG''" "\<lambda>t. t" "''images/banner''" UUID] show ?thesis by simp
qed

text \<open>
  \<open>readable_name\<close> says it carries no uuid of its own, and takes those with hyphens out before the slug is cut. A slug turns every other
  mark into a hyphen too, so a name with underlines becomes one, and the key of a product file names two files.
\<close>

lemma readable_name_may_be_a_uuid:
  "without_uuids ''aaaaaaaa_bbbb_cccc_dddd_eeeeeeeeeeee'' = ''aaaaaaaa_bbbb_cccc_dddd_eeeeeeeeeeee''"
  "uuids_in (readable_name (\<lambda>t. t) ''aaaaaaaa_bbbb_cccc_dddd_eeeeeeeeeeee.pdf'') = [''aaaaaaaa-bbbb-cccc-dddd-eeeeeeeeeeee'']"
  by code_simp+

lemma product_key_names_two_files:
  "uuids_in (build_key (\<lambda>t. t) ''files/product'' ''aaaaaaaa_bbbb_cccc_dddd_eeeeeeeeeeee.pdf'' ORIGINAL (DateTime 2024 5 17 0) a_token)
    = [lower a_token, ''aaaaaaaa-bbbb-cccc-dddd-eeeeeeeeeeee'']"
  by code_simp

section \<open>Where an accepted key points\<close>

definition plain_segments :: "string \<Rightarrow> string list" where
  "plain_segments key = filter (\<lambda>seg. seg \<noteq> '''' \<and> seg \<noteq> ''.'') (split_on (CHR ''/'') key)"

lemma split_on_some [simp]: "split_on c t \<noteq> []"
  by (induction t) (auto split: list.splits)

lemma split_on_joined: "split_on c (a @ c # b) = split_on c a @ split_on c b"
  by (induction a) (auto split: list.splits)

lemma hd_split_on: "\<exists>rest. t = hd (split_on c t) @ rest"
  by (induction t) (auto split: list.splits)

lemma segment_is_a_piece: "seg \<in> set (split_on c t) \<Longrightarrow> sublist seg t"
proof (induction t arbitrary: seg)
  case (Cons x t)
  obtain rest where rest: "t = hd (split_on c t) @ rest" using hd_split_on by blast
  from Cons.prems consider "seg = []" | "seg \<in> set (split_on c t)" | "seg = x # hd (split_on c t)"
    by (auto split: if_splits list.splits)
  then show ?case
  proof cases
    case 3
    with rest have "x # t = [] @ seg @ rest" by (metis append_Cons append_Nil)
    then show ?thesis unfolding sublist_def by blast
  qed (use Cons.IH in \<open>auto intro: sublist_order.order.trans sublist_Cons_right [THEN iffD2]\<close>)
qed simp

lemma walked_down: "''..'' \<notin> set segs \<Longrightarrow> walked here segs = here @ filter (\<lambda>seg. seg \<noteq> '''' \<and> seg \<noteq> ''.'') segs"
  by (induction segs arbitrary: here) auto

lemma settled_key_resolved: "settled_key key \<Longrightarrow> resolved root key = root @ plain_segments key"
  using segment_is_a_piece [of "''..''" "CHR ''/''" key] by (auto simp: settled_key_def resolved_def plain_segments_def intro: walked_down)

lemma each_read_Ok:
  assumes "each f xs s = (Ok ys, t)" and "\<And>x. only_reads (f x)" and "x \<in> set xs"
  shows "\<exists>y. f x s = (Ok y, s)"
  using assms(1,3)
proof (induction xs arbitrary: ys)
  case (Cons z xs)
  from Cons.prems(1) obtain y zs u where f: "f z s = (Ok y, u)" and rest: "each f xs u = (Ok zs, t)"
    by (auto elim!: andThen_OkD)
  from f only_readsD [OF assms(2), of z s] have "u = s" by simp
  with f rest Cons show ?case by auto
qed simp

definition purpose_checked :: "office \<Rightarrow> sheet \<Rightarrow> string \<times> upload_purpose \<Rightarrow> unit desk" where
  "purpose_checked w sheet = (\<lambda>(name, purpose).
     let key = text_cell (given sheet name) in
     if key = [] then ret ()
     else if \<not> prefix (of_folder w purpose @ ''/'') key \<or> \<not> settled_key key
     then throw (ValidationError ''error.upload-key-out-of-purpose'' name) else ret ())"

lemma ensure_files_are_of_their_purpose_each:
  "ensure_files_are_of_their_purpose w rs sheet = andThen (each (purpose_checked w sheet) (rs_files rs)) (\<lambda>_. ret ())"
  by (simp add: ensure_files_are_of_their_purpose_def purpose_checked_def)

lemma purpose_checked_reads: "only_reads (purpose_checked w sheet x)"
  unfolding purpose_checked_def Let_def by (intro reading_steps)

text \<open>
  C34: A key a form may write into a file column resolves, wherever the storage keeps its files, to a place under the folder its purpose
  keeps them in, which is under the root: what a later edit or deletion releases is never a file of another purpose or out of the storage.
\<close>

theorem accepted_key_stays_in_its_folder:
  assumes "ensure_files_are_of_their_purpose w rs sheet s = (Ok (), t)" and "(name, purpose) \<in> set (rs_files rs)"
    and "given sheet name = Text key" and "key \<noteq> ''''"
  shows "\<exists>below. path_for root key = Ok (root @ plain_segments (of_folder w purpose) @ below) \<and> ''..'' \<notin> set below"
proof -
  from assms(1) obtain xs u where "each (purpose_checked w sheet) (rs_files rs) s = (Ok xs, u)"
    by (auto simp: ensure_files_are_of_their_purpose_each elim!: andThen_OkD)
  then obtain y where "purpose_checked w sheet (name, purpose) s = (Ok y, s)"
    using each_read_Ok [OF _ _ assms(2)] purpose_checked_reads by metis
  with assms(3,4) have settled: "settled_key key" and "prefix (of_folder w purpose @ ''/'') key"
    by (auto simp: purpose_checked_def text_cell_def throw_def Let_def split: if_splits)
  then obtain rest where key: "key = of_folder w purpose @ CHR ''/'' # rest" by (auto simp: prefix_def)
  have "''..'' \<notin> set (plain_segments rest)"
    using settled segment_is_a_piece [of "''..''" "CHR ''/''" rest] sublist_order.order.trans [of "''..''" rest "of_folder w purpose @ CHR ''/'' # rest"] sublist_appendI [of rest "of_folder w purpose @ ''/''" "[]"]
    by (auto simp: settled_key_def plain_segments_def key)
  moreover have "plain_segments key = plain_segments (of_folder w purpose) @ plain_segments rest"
    by (simp add: key plain_segments_def split_on_joined)
  ultimately show ?thesis using settled_key_resolved [OF settled, of root] by (auto simp: path_for_def)
qed

lemma accepted_key_stays_in_its_folder_witness:
  "\<exists>below. path_for [''srv'', ''media''] ''images/product/2024/a.webp''
    = Ok ([''srv'', ''media''] @ plain_segments (of_folder plain_office PRODUCT_IMAGE) @ below) \<and> ''..'' \<notin> set below"
proof -
  have "ensure_files_are_of_their_purpose plain_office (product_service plain_house) [''image'' \<mapsto> Text ''images/product/2024/a.webp''] small_panel
      = (Ok (), small_panel)"
    by (simp add: ensure_files_are_of_their_purpose_each purpose_checked_def product_service_def plain_service_def given_def text_cell_def
        plain_office_def settled_key_def sublist_code andThen_def)
  moreover have "(''image'', PRODUCT_IMAGE) \<in> set (rs_files (product_service plain_house))"
    by (simp add: product_service_def plain_service_def)
  ultimately show ?thesis by (rule accepted_key_stays_in_its_folder) (simp_all add: given_def)
qed

section \<open>A file is written down before it is written\<close>

definition stored_as :: "store_room \<Rightarrow> upload_purpose \<Rightarrow> string \<Rightarrow> nat \<Rightarrow> panel \<Rightarrow> panel \<Rightarrow> bool" where
  "stored_as room purpose key bytes s t \<longleftrightarrow>
     (\<exists>uuid rows. uuid \<in> set (uuids_in key) \<and> lower (sr_token room) \<in> set (uuids_in key)
       \<and> rows = (open_rows s)(StoredFile := append_row (new_stored (moment s) uuid key purpose bytes) (open_rows s StoredFile))
       \<and> t = s\<lparr>open_rows := rows, committed := rows\<rparr>)"

lemma built_key_names_token:
  assumes "names_uuid token" and "length token = 36"
  shows "lower token \<in> set (uuids_in (build_key nfkd folder filename naming today token))"
  using uuids_in_unbroken [OF dated_unbroken [of today]] uuids_in_token [OF assms] uuids_in_token [OF assms, of "[]"]
  by (simp add: build_key_def Let_def uuids_in_slash)

lemma spooled: "spool_within body chunks limit = Ok content \<Longrightarrow> length body \<le> limit \<Longrightarrow>
    content = body @ concat (takeWhile (\<lambda>c. c \<noteq> []) chunks) \<and> length content \<le> limit"
  by (induction body chunks limit rule: spool_within.induct) (auto split: if_splits)

lemma keep_writes_down_first:
  assumes "names_uuid (sr_token room)" and "length (sr_token room) = 36"
    and pop: "\<And>xs. xs \<noteq> [] \<Longrightarrow> sr_pop room xs \<in> set xs" and save: "\<And>key payload. sr_save room key payload \<noteq> Hangs"
  shows "case keep room purpose rule filename body s of
      (Ok (key, bytes), t) \<Rightarrow> stored_as room purpose key bytes s t \<and> prefix (us_folder rule @ ''/'') key \<and> (us_image rule = None \<longrightarrow> bytes = length body)
    | (Err e, t) \<Rightarrow> t = s \<or> (\<exists>key bytes payload. sr_save room key payload = Err e \<and> stored_as room purpose key bytes s t)
    | (Hangs, _) \<Rightarrow> False"
proof -
  define settled where "settled = (case us_image rule of None \<Rightarrow> Ok (body, filename, length body)
    | Some picture \<Rightarrow> settle_image (sr_codec room) (sr_max_pixels room) body picture filename)"
  have settled': "(case us_image rule of None \<Rightarrow> ret (body, filename, length body)
     | Some picture \<Rightarrow> lift (settle_image (sr_codec room) (sr_max_pixels room) body picture filename)) = (lift settled :: _ desk)"
    by (auto simp: settled_def lift_def split: option.splits)
  show ?thesis
  proof (cases settled)
    case (Ok triple)
    obtain payload name bytes where triple: "triple = (payload, name, bytes)" by (cases triple) auto
    define key where "key = build_key (sr_nfkd room) (us_folder rule) name (us_naming rule) (moment s) (sr_token room)"
    define uuid where "uuid = sr_pop room (remdups (uuids_in key))"
    have token: "lower (sr_token room) \<in> set (uuids_in key)" unfolding key_def by (rule built_key_names_token [OF assms(1,2)])
    then have "remdups (uuids_in key) \<noteq> []" by auto
    from pop [OF this] have uuid: "uuid \<in> set (uuids_in key)" by (simp add: uuid_def)
    have prefix: "prefix (us_folder rule @ ''/'') key" by (simp add: key_def build_key_def Let_def)
    have size: "us_image rule = None \<longrightarrow> bytes = length body" using Ok triple by (auto simp: settled_def)
    show ?thesis
      using Ok token uuid prefix size save [of key payload]
      by (auto simp: keep_def settled' triple insert_row_apply Let_def andThen_def lift_def stored_as_def
          key_def [symmetric] uuid_def [symmetric] split: outcome.splits)
  next
    case Hangs
    then have False by (auto simp: settled_def settle_image_def open_image_def split: option.splits outcome.splits if_splits prod.splits)
    then show ?thesis ..
  qed (simp add: keep_def settled')
qed

lemma spool_ends: "spool_within body chunks limit \<noteq> Hangs"
  by (induction body chunks limit rule: spool_within.induct) auto


definition small_room :: store_room where
  "small_room = \<lparr>sr_max_bytes = 100, sr_max_pixels = 100,
     sr_codec = \<lparr>cd_header = (\<lambda>_. None), cd_upright = (\<lambda>_. None), cd_fit = (\<lambda>_ p. p), cd_thumbnail = (\<lambda>_ p. p), cd_as_rgb = (\<lambda>p. p),
       cd_save = (\<lambda>_ _ p. pi_pixels p)\<rparr>,
     sr_nfkd = (\<lambda>t. t), sr_token = a_token, sr_pop = hd,
     sr_save = (\<lambda>key _. case path_for [''srv''] key of Ok _ \<Rightarrow> Ok () | _ \<Rightarrow> Err ValueError)\<rparr>"


end
