(* ===== verification/File_Life.thy ===== *)
theory File_Life
  imports Uploads
begin

text \<open>
  The life of a stored file: uploaded under a row nothing claims, claimed as a row names it, released once none does, and swept when
  nothing ever claimed it (\<^verbatim>\<open>services/sweep_service.py\<close>). No file a row names is ever taken, and every file nothing claimed is.
\<close>

section \<open>The sweep\<close>

definition BATCH :: nat where
  "BATCH = 1000"

definition past_grace :: "int \<Rightarrow> datetime \<Rightarrow> item \<Rightarrow> bool" where
  "past_grace orphan_grace_hours stamp f \<longleftrightarrow> cells f ''claimed_at'' = Null
     \<and> (case cells f ''created_at'' of Moment c \<Rightarrow> before_by stamp (minutes (60 * orphan_grace_hours)) c | _ \<Rightarrow> False)"

definition waiting_files :: "int \<Rightarrow> datetime \<Rightarrow> nat \<Rightarrow> shelves \<Rightarrow> item list" where
  "waiting_files orphan_grace_hours stamp after sh =
     take BATCH (sort_key rid (filter (\<lambda>f. past_grace orphan_grace_hours stamp f \<and> after < rid f) (sh StoredFile)))"

text \<open>The pages of a listing, to the last: the fuel counts the pages.\<close>

fun find_orphans :: "nat \<Rightarrow> int \<Rightarrow> nat \<Rightarrow> string list desk" where
  "find_orphans 0 orphan_grace_hours after = hang"
| "find_orphans (Suc fuel) orphan_grace_hours after =
     andThen hour (\<lambda>stamp.
     andThen (look (waiting_files orphan_grace_hours stamp after)) (\<lambda>page.
     if page = [] then ret [] else
     andThen (find_orphans fuel orphan_grace_hours (rid (last page))) (\<lambda>others. ret (map key_text page @ others))))"

text \<open>A row is taken only while nothing has named it yet.\<close>

definition take_orphan :: "item \<Rightarrow> string list desk" where
  "take_orphan f =
     andThen (delete_rows StoredFile (\<lambda>g. rid g = rid f \<and> cells g ''claimed_at'' = Null)) (\<lambda>rowcount.
     ret (if rowcount = 1 then [key_text f] else []))"

fun discard_orphans :: "nat \<Rightarrow> int \<Rightarrow> string list desk" where
  "discard_orphans 0 orphan_grace_hours = hang"
| "discard_orphans (Suc fuel) orphan_grace_hours =
     andThen hour (\<lambda>stamp.
     andThen (look (waiting_files orphan_grace_hours stamp 0)) (\<lambda>waiting.
     if waiting = [] then ret [] else
     andThen (each take_orphan waiting) (\<lambda>batch.
     andThen settle_rows (\<lambda>_.
     andThen (discard (concat batch)) (\<lambda>_.
     andThen (discard_orphans fuel orphan_grace_hours) (\<lambda>others. ret (concat batch @ others)))))))"

section \<open>What is named is claimed\<close>

definition claims_hold :: "string list \<Rightarrow> shelves \<Rightarrow> bool" where
  "claims_hold g sh \<longleftrightarrow> named_files_stay g sh
     \<and> (\<forall>m\<in>set (sh StoredFileMention). \<forall>f\<in>set (sh StoredFile). cells m ''stored_file_id'' = key_to (rid f) \<longrightarrow> cells f ''claimed_at'' \<noteq> Null)"

lemma claims_stay: "claims_hold g sh \<Longrightarrow> named_files_stay g sh"
  by (simp add: claims_hold_def)

lemma claims_frame:
  "claims_hold g sh \<Longrightarrow> sh' StoredFile = sh StoredFile \<Longrightarrow> sh' StoredFileMention = sh StoredFileMention \<Longrightarrow> claims_hold g sh'"
  by (simp add: claims_hold_def named_files_stay_def)

lemma claims_struck: "claims_hold g sh \<Longrightarrow> claims_hold g (struck (gone_with sh t ids) sh)"
  unfolding claims_hold_def by (auto intro: stay_struck simp: struck_file_rows)

lemma claims_delete: "effect (keeps (standing claims_hold)) (delete_rows t p)"
  by (rule standing_delete) (rule claims_struck)

lemmas claims_steps = standing_steps claims_delete

lemma key_to_inj [simp]: "key_to i = key_to j \<longleftrightarrow> i = j"
  by (simp add: key_to_def)

text \<open>A claim is a stamp, and a stamped file may be named.\<close>

lemma claims_mark:
  assumes "claims_hold g sh"
  shows "claims_hold g (sh(StoredFile := amend p (marked stamp ''claimed_at'' (Moment t)) (sh StoredFile)))"
proof -
  have "named_files_stay g (sh(StoredFile := amend p (marked stamp ''claimed_at'' (Moment t)) (sh StoredFile)))"
  proof -
    let ?s = "\<lparr>open_rows = sh, committed = sh, moment = stamp, discarded = g\<rparr>"
    have "standing named_files_stay ?s" using assms by (simp add: standing_def claims_stay)
    from effect_keepsD [OF stay_mark [of StoredFile "''claimed_at''" p "Moment t"] this] show ?thesis
      by (simp add: mark_rows_apply standing_def)
  qed
  with assms show ?thesis
    by (auto simp: claims_hold_def amend_def marked_def setattr_def)
qed

definition claimed_all :: "string list \<Rightarrow> nat list \<Rightarrow> panel \<Rightarrow> bool" where
  "claimed_all added found s \<longleftrightarrow> standing claims_hold s \<and> (\<forall>f\<in>set (open_rows s StoredFile). rid f \<in> set found \<longrightarrow> cells f ''claimed_at'' \<noteq> Null)"

lemma claims_insert:
  assumes "claims_hold g sh" and "\<forall>f\<in>set (sh StoredFile). rid f = i \<longrightarrow> cells f ''claimed_at'' \<noteq> Null"
    and "fits sh StoredFileMention ((new_mention t i owner)\<lparr>rid := next_id (sh StoredFileMention)\<rparr>)"
  shows "claims_hold g (sh(StoredFileMention := append_row (new_mention t i owner) (sh StoredFileMention)))"
proof -
  let ?s = "\<lparr>open_rows = sh, committed = sh, moment = t, discarded = g\<rparr>"
  have "standing named_files_stay ?s" using assms(1) by (simp add: standing_def claims_stay)
  from effect_keepsD [OF stay_insert [of StoredFileMention "new_mention t i owner"] this] assms(3)
  have "named_files_stay g (sh(StoredFileMention := append_row (new_mention t i owner) (sh StoredFileMention)))"
    by (simp add: insert_row_apply standing_def Let_def)
  with assms(1,2) show ?thesis by (auto simp: claims_hold_def set_append_row new_mention_def no_cells_def)
qed

lemma mention_one_claimed:
  assumes "claimed_all added found s" and "i \<in> set found"
  shows "claimed_all added found (snd (written_or_read StoredFileMention q (new_mention t i owner) s))"
proof -
  have "claimed_all added found (snd (insert_row StoredFileMention (new_mention t i owner) s))"
    using assms claims_insert [of "discarded s" "open_rows s" i t owner]
    by (auto simp: insert_row_apply Let_def claimed_all_def standing_def)
  then show ?thesis
    using assms(1) by (auto simp: written_or_read_def flow look_def reads_def split: option.splits outcome.splits exc.splits prod.splits)
qed

lemma mentioning_claimed:
  assumes "claimed_all added found s" and "set ids \<subseteq> set found"
  shows "claimed_all added found (snd (each (\<lambda>i. andThen (written_or_read StoredFileMention (q i) (new_mention t i owner)) (\<lambda>written.
      if written = None then throw e else ret ())) ids s))"
  using assms
proof (induction ids arbitrary: s)
  case (Cons i ids)
  obtain r u where u: "written_or_read StoredFileMention (q i) (new_mention t i owner) s = (r, u)" by fastforce
  with mention_one_claimed [OF Cons.prems(1), of i "q i" t owner] Cons.prems(2) have "claimed_all added found u" by simp
  with Cons.IH [OF this] Cons.prems(2) u show ?case
    by (cases r) (auto simp: andThen_def throw_def split: prod.splits outcome.splits)
qed simp

lemma andThen_mark: "andThen (mark_rows t p name v) k s =
    k (hits p (open_rows s t)) (s\<lparr>open_rows := (open_rows s)(t := amend p (marked (moment s) name v) (open_rows s t))\<rparr>)"
  by (simp add: andThen_def mark_rows_apply)

lemma claims_mention: "effect (keeps (standing claims_hold)) (mention owner values keys)"
proof (rule effectI, rule keepsI)
  fix s
  assume i: "standing claims_hold s"
  define held where "held = mentions_of (\<lambda>v. v = Text owner) (open_rows s)"
  define added where "added = filter (\<lambda>u. u \<notin> set (map fst held)) (named_in values)"
  define dropped where "dropped = filter (\<lambda>u. u \<notin> set (named_in values)) (map fst held)"
  let ?drop = "if dropped = [] then ret 0 else delete_rows StoredFileMention (\<lambda>m. \<exists>(u, i)\<in>set held. u \<in> set dropped \<and> i = rid m)"
  obtain r u where u: "?drop s = (r, u)" by fastforce
  have "effect (keeps (standing claims_hold)) ?drop" by (intro claims_steps)
  from effect_keepsD [OF this i] u have j: "standing claims_hold u" by simp
  define v where "v = u\<lparr>open_rows := (open_rows u)(StoredFile := amend (has_uuid added) (marked (moment u) ''claimed_at'' (Moment (moment u)))
      (open_rows u StoredFile))\<rparr>"
  define found where "found = map rid (filter (has_uuid added) (open_rows v StoredFile))"
  have k: "standing claims_hold v"
    using j claims_mark [of "discarded u" "open_rows u"] by (simp add: v_def standing_def)
  have "cells f ''claimed_at'' \<noteq> Null" if f: "f \<in> set (open_rows v StoredFile)" "rid f \<in> set found" for f
  proof -
    from f(2) obtain f' where f': "f' \<in> set (open_rows v StoredFile)" "has_uuid added f'" "rid f' = rid f" by (auto simp: found_def)
    have "distinct (map rid (open_rows v StoredFile))" using k by (simp add: standing_def claims_hold_def named_files_stay_def)
    with f(1) f' have "f' = f" by (metis distinct_map inj_onD)
    with f' show ?thesis by (auto simp: v_def amend_def marked_def setattr_def has_uuid_def)
  qed
  with k have l: "claimed_all added found v" by (simp add: claimed_all_def)
  obtain K where K: "mention owner values keys s = andThen ?drop K s"
    unfolding mention_def andThen_look Let_def held_def [symmetric] added_def [symmetric] dropped_def [symmetric] by blast
  show "standing claims_hold (snd (mention owner values keys s))"
  proof (cases r)
    case (Ok n)
    let ?each = "each (\<lambda>i. andThen (written_or_read StoredFileMention
        (\<lambda>m. cells m ''stored_file_id'' = key_to i \<and> cells m ''owner'' = Text owner) (new_mention (moment u) i owner)) (\<lambda>written.
          if written = None then throw (ConflictError ''error.file-gone'') else ret ())) found"
    define there where "there = list_all (\<lambda>k. list_ex (\<lambda>f. cells f ''key'' = Text k) (open_rows v StoredFile))
      (filter (\<lambda>k. list_ex (\<lambda>u. u \<in> set added) (uuids_in k)) keys)"
    have dropping: "andThen ?drop k s = k n u" for k :: "nat \<Rightarrow> string list desk"
      using andThen_Ok [where m = ?drop, OF u [unfolded Ok]] .
    have "mention owner values keys s = (if added = [] then ret dropped else if \<not> there then andThen (writes (\<lambda>_. v)) (\<lambda>_. throw (ConflictError ''error.file-gone''))
        else andThen (writes (\<lambda>_. v)) (\<lambda>_. andThen ?each (\<lambda>_. ret dropped))) u"
      unfolding mention_def andThen_look Let_def held_def [symmetric] added_def [symmetric] dropped_def [symmetric] dropping
      by (simp add: andThen_mark andThen_writes found_def v_def there_def)
    moreover have "snd (andThen ?each (\<lambda>_. ret dropped) v) = snd (?each v)"
      by (simp add: andThen_def split: prod.splits outcome.splits)
    ultimately show ?thesis using j k mentioning_claimed [OF l order_refl]
      by (auto simp: claimed_all_def andThen_writes throw_def)
  qed (use u j in \<open>simp_all add: K andThen_def\<close>)
qed

lemma claims_forget: "effect (keeps (standing claims_hold)) (forget owned)"
  unfolding forget_def by (intro claims_steps)

text \<open>What a release asks the storage to delete is no longer a row, and it deletes rows only.\<close>

definition claims_only :: "string list \<Rightarrow> shelves \<Rightarrow> bool" where
  "claims_only g sh \<longleftrightarrow>
     (\<forall>m\<in>set (sh StoredFileMention). \<forall>f\<in>set (sh StoredFile). cells m ''stored_file_id'' = key_to (rid f) \<longrightarrow> cells f ''claimed_at'' \<noteq> Null)"

lemma standing_claims: "standing claims_hold s \<longleftrightarrow> standing named_files_stay s \<and> standing claims_only s"
  by (auto simp: standing_def claims_hold_def claims_only_def)

lemma claims_only_delete: "effect (keeps (standing claims_only)) (delete_rows t p)"
  by (rule standing_delete) (auto simp: claims_only_def struck_file_rows)

lemma claims_only_discard: "effect (keeps (standing claims_only)) (discard keys)"
  by (simp add: effect_def keeps_def discard_def writes_def standing_def claims_only_def)

lemma claims_release: "effect (keeps (standing claims_hold)) (release uuids)"
proof -
  have "effect (keeps (standing claims_only)) (release uuids)"
    unfolding release_def release_one_def by (intro standing_steps claims_only_delete claims_only_discard)
  with stay_release [of uuids] show ?thesis by (simp add: effect_def keeps_def standing_claims)
qed

interpretation claimed: panel_law claims_hold "\<lambda>_ _. True" "\<lambda>_ _. True" "\<lambda>_ _. True" "\<lambda>_ _. True"
proof unfold_locales
  show "claims_hold g (struck (gone_with sh t ids) sh)" if "claims_hold g sh" for g sh t ids
    using that by (rule claims_struck)
qed (auto intro: claims_frame claims_mention claims_forget claims_release)

lemma claims_allow: "claimed.allowed h w rs operator s"
  by (simp add: claimed.allowed_def)

section \<open>What a sweep takes\<close>

definition without_files :: "nat set \<Rightarrow> shelves \<Rightarrow> shelves" where
  "without_files gone sh = sh(StoredFile := filter (\<lambda>f. rid f \<notin> gone) (sh StoredFile))"

lemma without_files_none: "without_files {} sh = sh"
  by (simp add: without_files_def)

lemma without_files_twice: "without_files A (without_files B sh) = without_files (A \<union> B) sh"
  by (simp add: without_files_def conj_commute)

text \<open>A file nothing claimed is one nothing names, so it goes alone.\<close>

lemma unclaimed_goes_alone:
  assumes "claims_hold g sh" and "f \<in> set (sh StoredFile)" and "cells f ''claimed_at'' = Null"
  shows "gone_with sh StoredFile [rid f] = [(StoredFile, rid f)]"
    and "struck (gone_with sh StoredFile [rid f]) sh = without_files {rid f} sh"
proof -
  have "pointing_rows sh StoredFileMention ''stored_file_id'' [rid f] = []"
    using assms by (auto simp: pointing_rows_def claims_hold_def filter_empty_conv)
  then show going: "gone_with sh StoredFile [rid f] = [(StoredFile, rid f)]"
    by (simp add: gone_with_def pointing_files)
  show "struck (gone_with sh StoredFile [rid f]) sh = without_files {rid f} sh"
  proof
    fix u
    show "struck (gone_with sh StoredFile [rid f]) sh u = without_files {rid f} sh u"
    proof (cases "u \<in> file_tables")
      case True
      then show ?thesis by (auto simp: struck_def let_go_files map_idI going without_files_def)
    next
      case False
      from struck_files [OF _ this, of StoredFile sh "[rid f]"] False show ?thesis by (auto simp: without_files_def)
    qed
  qed
qed

lemma filter_the_one: "distinct xs \<Longrightarrow> x \<in> set xs \<Longrightarrow> filter (\<lambda>y. y = x) xs = [x]"
  by (induction xs) (auto simp: filter_empty_conv)

lemma take_orphan_apply:
  assumes "claims_hold g (open_rows s)" and "f \<in> set (open_rows s StoredFile)" and "cells f ''claimed_at'' = Null"
  shows "take_orphan f s = (Ok [key_text f], s\<lparr>open_rows := without_files {rid f} (open_rows s)\<rparr>)"
proof -
  let ?p = "\<lambda>q. rid q = rid f \<and> cells q ''claimed_at'' = Null"
  have "distinct (map rid (open_rows s StoredFile))" using assms(1) by (simp add: claims_hold_def named_files_stay_def)
  moreover from this assms(2) have "\<forall>q\<in>set (open_rows s StoredFile). ?p q \<longleftrightarrow> q = f"
    using assms(3) by (auto simp: distinct_map inj_on_def)
  ultimately have "filter ?p (open_rows s StoredFile) = [f]"
    using assms(2) filter_the_one [of "open_rows s StoredFile" f] by (simp add: distinct_map cong: filter_cong)
  moreover have "\<not> restricted (open_rows s) [(StoredFile, rid f)]" by (simp add: restricted_def pointing_files)
  ultimately show ?thesis
    using unclaimed_goes_alone [OF assms] by (simp add: take_orphan_def delete_rows_apply andThen_def Let_def)
qed

lemma claims_without:
  assumes "claims_hold g sh" and "f \<in> set (sh StoredFile)" and "cells f ''claimed_at'' = Null"
  shows "claims_hold g (without_files {rid f} sh)"
  using claims_struck [OF assms(1), of StoredFile "[rid f]"] unclaimed_goes_alone(2) [OF assms] by simp

lemma take_orphans:
  assumes "claims_hold g (open_rows s)" and "distinct (map rid fs)"
    and "\<forall>f\<in>set fs. f \<in> set (open_rows s StoredFile) \<and> cells f ''claimed_at'' = Null"
  shows "each take_orphan fs s = (Ok (map (\<lambda>f. [key_text f]) fs), s\<lparr>open_rows := without_files (rid ` set fs) (open_rows s)\<rparr>)
    \<and> claims_hold g (without_files (rid ` set fs) (open_rows s))"
  using assms
proof (induction fs arbitrary: s)
  case (Cons f fs)
  let ?t = "s\<lparr>open_rows := without_files {rid f} (open_rows s)\<rparr>"
  have f: "f \<in> set (open_rows s StoredFile)" "cells f ''claimed_at'' = Null" using Cons.prems(3) by auto
  have "claims_hold g (open_rows ?t)" using claims_without [OF Cons.prems(1) f] by simp
  moreover have "\<forall>q\<in>set fs. q \<in> set (open_rows ?t StoredFile) \<and> cells q ''claimed_at'' = Null"
    using Cons.prems(2,3) by (auto simp: without_files_def image_iff)
  ultimately have "each take_orphan fs ?t = (Ok (map (\<lambda>f. [key_text f]) fs), s\<lparr>open_rows := without_files (rid ` set (f # fs)) (open_rows s)\<rparr>)
      \<and> claims_hold g (without_files (rid ` set (f # fs)) (open_rows s))"
    using Cons.IH [of ?t] Cons.prems(2) by (simp add: without_files_twice)
  with take_orphan_apply [OF Cons.prems(1) f] show ?case by (simp add: andThen_def)
qed (simp add: without_files_none)

text \<open>All the files past the grace, in the order of their numbers.\<close>

definition orphans :: "int \<Rightarrow> datetime \<Rightarrow> shelves \<Rightarrow> item list" where
  "orphans orphan_grace_hours stamp sh = sort_key rid (filter (past_grace orphan_grace_hours stamp) (sh StoredFile))"

lemma waiting_orphans:
  assumes "\<forall>f\<in>set (sh StoredFile). 0 < rid f"
  shows "waiting_files orphan_grace_hours stamp 0 sh = take BATCH (orphans orphan_grace_hours stamp sh)"
  using assms by (simp add: waiting_files_def orphans_def cong: filter_cong)

lemma filter_not_taken:
  assumes "distinct (map rid xs)"
  shows "filter (\<lambda>f. rid f \<notin> rid ` set (take n xs)) xs = drop n xs"
proof -
  have "distinct (map rid (take n xs @ drop n xs))" using assms by simp
  then have apart: "rid f \<notin> rid ` set (take n xs)" if "f \<in> set (drop n xs)" for f
    using that unfolding map_append distinct_append by fastforce
  have "filter (\<lambda>f. rid f \<notin> rid ` set (take n xs)) (take n xs @ drop n xs) = drop n xs"
    using apart by (auto simp: filter_empty_conv simp del: append_take_drop_id intro!: filter_True)
  then show ?thesis by simp
qed

lemma orphans_distinct: "distinct (map rid (sh StoredFile)) \<Longrightarrow> distinct (map rid (orphans hours stamp sh))"
  by (auto simp: orphans_def distinct_map intro: inj_on_subset)

lemma orphans_left:
  assumes "distinct (map rid (sh StoredFile))"
  shows "orphans hours stamp (without_files (rid ` set (take n (orphans hours stamp sh))) sh) = drop n (orphans hours stamp sh)"
proof -
  let ?all = "orphans hours stamp sh"
  have "orphans hours stamp (without_files (rid ` set (take n ?all)) sh)
      = sort_key rid (filter (\<lambda>f. rid f \<notin> rid ` set (take n ?all)) (filter (past_grace hours stamp) (sh StoredFile)))"
    by (subst orphans_def) (simp add: without_files_def conj_commute)
  also have "\<dots> = filter (\<lambda>f. rid f \<notin> rid ` set (take n ?all)) ?all"
    unfolding orphans_def by (rule filter_sort [symmetric])
  also have "\<dots> = drop n ?all"
    using orphans_distinct [of sh, OF assms, of hours stamp] by (rule filter_not_taken)
  finally show ?thesis .
qed

lemma set_orphans: "set (orphans hours stamp sh) = {f \<in> set (sh StoredFile). past_grace hours stamp f}"
  by (auto simp: orphans_def)

definition swept :: "int \<Rightarrow> panel \<Rightarrow> panel" where
  "swept hours s =
     (let gone = orphans hours (moment s) (open_rows s); rows = without_files (rid ` set gone) (open_rows s)
      in if gone = [] then s else s\<lparr>open_rows := rows, committed := rows, discarded := discarded s @ map key_text gone\<rparr>)"

lemma discard_orphans_apply:
  assumes "claims_hold g (open_rows s)" and "\<forall>f\<in>set (open_rows s StoredFile). 0 < rid f"
    and "length (orphans hours (moment s) (open_rows s)) < fuel"
  shows "discard_orphans fuel hours s = (Ok (map key_text (orphans hours (moment s) (open_rows s))), swept hours s)"
  using assms
proof (induction fuel arbitrary: s)
  case (Suc fuel)
  let ?all = "orphans hours (moment s) (open_rows s)"
  let ?batch = "take BATCH ?all"
  have w: "waiting_files hours (moment s) 0 (open_rows s) = ?batch" using waiting_orphans [where sh = "open_rows s"] Suc.prems(2) by simp
  show ?case
  proof (cases "?all = []")
    case False
    let ?rows = "without_files (rid ` set ?batch) (open_rows s)"
    let ?t = "s\<lparr>open_rows := ?rows, committed := ?rows, discarded := discarded s @ map key_text ?batch\<rparr>"
    have ids: "distinct (map rid (open_rows s StoredFile))" using Suc.prems(1) by (simp add: claims_hold_def named_files_stay_def)
    then have "distinct (map rid ?all)" by (rule orphans_distinct [of "open_rows s"])
    then have "distinct (map rid ?batch)" by (metis distinct_take take_map)
    moreover have "\<forall>f\<in>set ?batch. f \<in> set (open_rows s StoredFile) \<and> cells f ''claimed_at'' = Null"
      using set_take_subset [of BATCH ?all] by (auto simp: set_orphans past_grace_def)
    ultimately have taken: "each take_orphan ?batch s = (Ok (map (\<lambda>f. [key_text f]) ?batch), s\<lparr>open_rows := ?rows\<rparr>)" "claims_hold g ?rows"
      using take_orphans [OF Suc.prems(1)] by blast+
    have left: "orphans hours (moment ?t) (open_rows ?t) = drop BATCH ?all" using orphans_left [of "open_rows s", OF ids] by simp
    have "0 < BATCH" by (simp add: BATCH_def)
    then have "length (drop BATCH ?all) < fuel" using Suc.prems(3) False by (cases ?all) auto
    moreover have "\<forall>f\<in>set (open_rows ?t StoredFile). 0 < rid f" using Suc.prems(2) by (simp add: without_files_def)
    ultimately have "discard_orphans fuel hours ?t = (Ok (map key_text (drop BATCH ?all)), swept hours ?t)"
      using Suc.IH [of ?t] taken(2) left by simp
    moreover have both: "rid ` set (drop BATCH ?all) \<union> rid ` set ?batch = rid ` set ?all" "map key_text ?batch @ map key_text (drop BATCH ?all) = map key_text ?all"
      by (metis Un_commute append_take_drop_id image_Un set_append, metis append_take_drop_id map_append)
    moreover have "drop BATCH ?all = [] \<Longrightarrow> ?batch = ?all" by (metis append_Nil2 append_take_drop_id)
    then have "swept hours ?t = swept hours s"
      using False left both by (auto simp: swept_def Let_def without_files_twice)
    moreover have "concat (map (\<lambda>f. [key_text f]) xs) = map key_text xs" for xs by (induction xs) auto
    moreover have "?batch \<noteq> []" using False \<open>0 < BATCH\<close> by simp
    ultimately show ?thesis
      using taken(1) by (simp add: w andThen_def discard_def writes_def)
  qed (simp add: w swept_def)
qed simp

section \<open>What a sweep lists\<close>

definition after_row :: "nat \<Rightarrow> item list \<Rightarrow> item list" where
  "after_row after xs = filter (\<lambda>f. after < rid f) xs"

lemma after_last:
  assumes "sorted_wrt (\<lambda>f g. rid f < rid g) xs" and "take n xs \<noteq> []"
  shows "after_row (rid (last (take n xs))) xs = drop n xs"
proof -
  let ?a = "rid (last (take n xs))"
  have split: "sorted_wrt (\<lambda>f g. rid f < rid g) (take n xs @ drop n xs)" using assms(1) by simp
  have "\<not> ?a < rid f" if "f \<in> set (take n xs)" for f
  proof -
    from assms(2) have "take n xs = butlast (take n xs) @ [last (take n xs)]" by simp
    moreover have "sorted_wrt (\<lambda>f g. rid f < rid g) (take n xs)" using split by (simp only: sorted_wrt_append)
    ultimately have "sorted_wrt (\<lambda>f g. rid f < rid g) (butlast (take n xs) @ [last (take n xs)])" by simp
    then have "f \<in> set (butlast (take n xs)) \<Longrightarrow> rid f < ?a" by (simp add: sorted_wrt_append)
    moreover from that \<open>take n xs = _\<close> have "f \<in> set (butlast (take n xs)) \<or> f = last (take n xs)"
      by (metis Un_iff empty_iff insert_iff list.set(1,2) set_append)
    ultimately show ?thesis by auto
  qed
  moreover have "?a < rid f" if "f \<in> set (drop n xs)" for f
    using split that last_in_set [OF assms(2)] unfolding sorted_wrt_append by blast
  ultimately have "after_row ?a (take n xs @ drop n xs) = drop n xs"
    by (auto simp: after_row_def filter_empty_conv simp del: append_take_drop_id intro!: filter_True)
  then show ?thesis by simp
qed

lemma orphans_ascend:
  assumes "distinct (map rid (sh StoredFile))"
  shows "sorted_wrt (\<lambda>f g. rid f < rid g) (after_row after (orphans hours stamp sh))"
proof -
  have "distinct (map rid (orphans hours stamp sh))" by (rule orphans_distinct [of sh, OF assms])
  moreover have "sorted (map rid (orphans hours stamp sh))" by (simp add: orphans_def)
  ultimately have "sorted_wrt (<) (map rid (orphans hours stamp sh))" by (simp add: strict_sorted_iff)
  then show ?thesis by (simp add: sorted_wrt_map after_row_def sorted_wrt_filter)
qed

lemma waiting_after: "waiting_files hours stamp after sh = take BATCH (after_row after (orphans hours stamp sh))"
  by (simp add: waiting_files_def orphans_def after_row_def filter_sort conj_commute)

lemma find_orphans_apply:
  assumes "distinct (map rid (open_rows s StoredFile))" and "length (after_row after (orphans hours (moment s) (open_rows s))) < fuel"
  shows "find_orphans fuel hours after s = (Ok (map key_text (after_row after (orphans hours (moment s) (open_rows s)))), s)"
  using assms(2)
proof (induction fuel arbitrary: after)
  case (Suc fuel)
  let ?all = "orphans hours (moment s) (open_rows s)"
  let ?page = "take BATCH (after_row after ?all)"
  have "0 < BATCH" by (simp add: BATCH_def)
  show ?case
  proof (cases "after_row after ?all = []")
    case False
    with \<open>0 < BATCH\<close> have page: "?page \<noteq> []" by simp
    note drops = after_last [OF orphans_ascend [of "open_rows s", OF assms(1)] page]
    have "after < rid (last ?page)" using last_in_set [OF page] by (auto simp: after_row_def dest!: in_set_takeD)
    then have "after_row (rid (last ?page)) ?all = after_row (rid (last ?page)) (after_row after ?all)"
      by (auto simp: after_row_def intro!: filter_cong)
    with drops have next_page: "after_row (rid (last ?page)) ?all = drop BATCH (after_row after ?all)" by simp
    have "length (drop BATCH (after_row after ?all)) < fuel"
      using Suc.prems False \<open>0 < BATCH\<close> by (cases "after_row after ?all") auto
    with Suc.IH [of "rid (last ?page)"] next_page
    have "find_orphans fuel hours (rid (last ?page)) s = (Ok (map key_text (drop BATCH (after_row after ?all))), s)" by simp
    with page show ?thesis by (simp add: waiting_after andThen_def flip: map_append)
  qed (simp add: waiting_after)
qed simp

text \<open>
  C16: A sweep ends, and what it asks the storage to delete is exactly what its listing shows: the files past the grace that no row ever
  claimed, each once. Their rows are gone when it answers and no other row of any table changed, so a file an upload left behind does not
  outlive the first sweep past its grace.
\<close>

theorem sweep_takes_what_it_lists:
  assumes "standing claims_hold s" and "open_rows s = committed s" and "\<forall>f\<in>set (committed s StoredFile). 0 < rid f"
    and "length (committed s StoredFile) < fuel"
  shows "\<exists>keys t. discard_orphans fuel hours s = (Ok keys, t) \<and> fst (find_orphans fuel hours 0 s) = Ok keys
    \<and> set keys = key_text ` {f \<in> set (committed s StoredFile). past_grace hours (moment s) f} \<and> distinct keys
    \<and> discarded t = discarded s @ keys
    \<and> committed t = (committed s)(StoredFile := filter (\<lambda>f. \<not> past_grace hours (moment s) f) (committed s StoredFile))"
proof -
  let ?rows = "committed s StoredFile"
  let ?all = "orphans hours (moment s) (committed s)"
  have c: "claims_hold (discarded s) (open_rows s)" and ids: "distinct (map rid ?rows)" and names: "distinct (map key_text ?rows)"
    using assms(1,2) by (auto simp: standing_def claims_hold_def named_files_stay_def)
  have "length ?all \<le> length ?rows" by (simp add: orphans_def)
  with assms(4) have fuel: "length ?all < fuel" by simp
  have positive: "after_row 0 ?all = ?all" using assms(3) by (auto simp: after_row_def set_orphans intro!: filter_True)
  have sweeping: "discard_orphans fuel hours s = (Ok (map key_text ?all), swept hours s)"
    using discard_orphans_apply [OF c] assms(2,3) fuel by simp
  have listing: "fst (find_orphans fuel hours 0 s) = Ok (map key_text ?all)"
    using find_orphans_apply [of s 0 hours fuel] assms(2) ids fuel positive by simp
  have "(rid f \<in> rid ` set ?all) = past_grace hours (moment s) f" if "f \<in> set ?rows" for f
    using that ids by (force simp: set_orphans distinct_map inj_on_def)
  then have rows: "without_files (rid ` set ?all) (committed s) = (committed s)(StoredFile := filter (\<lambda>f. \<not> past_grace hours (moment s) f) ?rows)"
    by (simp add: without_files_def cong: filter_cong)
  have "distinct (map key_text ?all)"
    using names by (auto simp: orphans_def distinct_map intro: inj_on_subset)
  moreover have "?all = [] \<Longrightarrow> filter (\<lambda>f. \<not> past_grace hours (moment s) f) ?rows = ?rows"
    by (metis (no_types, lifting) empty_iff filter_True list.set(1) mem_Collect_eq set_orphans)
  ultimately show ?thesis
    using sweeping listing assms(2) rows by (auto simp: swept_def Let_def set_orphans fun_upd_idem)
qed

section \<open>The whole life of a file\<close>

text \<open>A drawn uuid is one no key, of a row or of a file already deleted, names.\<close>

definition drawn_afresh :: "store_room \<Rightarrow> panel \<Rightarrow> bool" where
  "drawn_afresh room s \<longleftrightarrow> names_uuid (sr_token room) \<and> length (sr_token room) = 36
     \<and> (\<forall>key\<in>set (discarded s) \<union> key_text ` set (open_rows s StoredFile) \<union> key_text ` set (committed s StoredFile).
          lower (sr_token room) \<notin> set (uuids_in key))"

inductive file_days :: "house \<Rightarrow> office \<Rightarrow> panel \<Rightarrow> panel \<Rightarrow> bool" for h w s where
  opened: "file_days h w s s"
| asked: "file_days h w s t \<Longrightarrow> file_days h w s (snd (panel_request h w u author c (t\<lparr>moment := m\<rparr>)))"
| uploaded: "file_days h w s t \<Longrightarrow> drawn_afresh room t \<Longrightarrow> file_days h w s (snd (closed (store_upload room purpose upload) (t\<lparr>moment := m\<rparr>)))"
| swept: "file_days h w s t \<Longrightarrow> file_days h w s (snd (closed (discard_orphans fuel hours) (t\<lparr>moment := m\<rparr>)))"

lemma standing_closed: "standing I (snd (m s)) \<Longrightarrow> standing I (snd (closed m s))"
  by (auto simp: closed_def standing_def split: prod.splits)

lemma claims_new_file:
  assumes i: "claims_hold g sh" and "key_text r \<notin> set g" "key_text r \<notin> key_text ` set (sh StoredFile)"
  shows "claims_hold g (sh(StoredFile := append_row r (sh StoredFile)))"
proof -
  have k: "key_text (r\<lparr>rid := n\<rparr>) = key_text r" for n by (simp add: key_text_def)
  have low: "rid f < next_id (sh StoredFile)" if "f \<in> set (sh StoredFile)" for f using that by (rule rid_less_next)
  have "cells m ''stored_file_id'' \<noteq> key_to (next_id (sh StoredFile))" if m: "m \<in> set (sh StoredFileMention)" for m
  proof -
    from m i obtain f where "f \<in> set (sh StoredFile)" "cells m ''stored_file_id'' = key_to (rid f)"
      by (auto simp: claims_hold_def named_files_stay_def)
    with low show ?thesis by fastforce
  qed
  with i assms(2,3) show ?thesis
    by (auto simp: claims_hold_def named_files_stay_def set_append_row k distinct_append_row) (auto simp: append_row_def k)
qed

lemma claims_keep:
  assumes i: "standing claims_hold s" and room: "drawn_afresh room s"
  shows "standing claims_hold (snd (keep room purpose rule filename body s))"
proof (cases "case us_image rule of None \<Rightarrow> Ok (body, filename, length body)
    | Some picture \<Rightarrow> settle_image (sr_codec room) (sr_max_pixels room) body picture filename")
  case (Ok triple)
  obtain payload name bytes where triple: "triple = (payload, name, bytes)" by (cases triple) auto
  define key where "key = build_key (sr_nfkd room) (us_folder rule) name (us_naming rule) (moment s) (sr_token room)"
  define r where "r = new_stored (moment s) (sr_pop room (remdups (uuids_in key))) key purpose bytes"
  let ?settled = "case us_image rule of None \<Rightarrow> ret (body, filename, length body)
    | Some picture \<Rightarrow> lift (settle_image (sr_codec room) (sr_max_pixels room) body picture filename)"
  have "?settled s = (Ok triple, s)" using Ok by (auto simp: lift_def split: option.splits)
  then have first: "andThen ?settled k s = k triple s" for k :: "_ \<Rightarrow> (string \<times> nat) desk"
    by (rule andThen_Ok [where m = ?settled])
  have "lower (sr_token room) \<in> set (uuids_in key)"
    unfolding key_def using room by (intro built_key_names_token) (simp_all add: drawn_afresh_def)
  then have "key \<notin> set (discarded s)" "key \<notin> key_text ` set (open_rows s StoredFile)" using room by (auto simp: drawn_afresh_def)
  moreover have "key_text r = key" by (simp add: r_def new_stored_def key_text_def)
  ultimately have "claims_hold (discarded s) ((open_rows s)(StoredFile := append_row r (open_rows s StoredFile)))"
    using i by (intro claims_new_file) (simp_all add: standing_def)
  then show ?thesis using i
    unfolding keep_def first
    by (auto simp: triple Let_def key_def [symmetric] r_def [symmetric] insert_row_apply andThen_def
        standing_def lift_def split: outcome.splits)
qed (use i in \<open>auto simp: keep_def andThen_def lift_def split: option.splits\<close>)

lemma claims_upload:
  assumes "standing claims_hold s" and "drawn_afresh room s"
  shows "standing claims_hold (snd (store_upload room purpose upload s))"
proof -
  have "snd (store_upload room purpose upload s) = s
    \<or> (\<exists>filename body. snd (store_upload room purpose upload s) = snd (keep room purpose (default_uploads purpose) filename body s))"
    by (auto simp: store_upload_def Let_def andThen_def lift_def throw_def split: outcome.splits)
  with claims_keep [OF assms] assms(1) show ?thesis by auto
qed

lemma claims_sweep: "standing claims_hold s \<Longrightarrow> standing claims_hold (snd (discard_orphans fuel hours s))"
proof (induction fuel arbitrary: s)
  case (Suc fuel)
  let ?waiting = "waiting_files hours (moment s) 0 (open_rows s)"
  have open_claims: "claims_hold (discarded s) (open_rows s)" using Suc.prems by (simp add: standing_def)
  then have ids: "distinct (map rid (open_rows s StoredFile))" and names: "inj_on key_text (set (open_rows s StoredFile))"
    by (auto simp: claims_hold_def named_files_stay_def distinct_map)
  have in_rows: "\<forall>f\<in>set ?waiting. f \<in> set (open_rows s StoredFile) \<and> cells f ''claimed_at'' = Null"
    by (auto simp: waiting_files_def past_grace_def dest!: in_set_takeD)
  have "distinct (map rid ?waiting)"
    using orphans_ascend [of "open_rows s", OF ids, of 0 hours "moment s"]
    by (metis distinct_map_filter distinct_take orphans_distinct [of "open_rows s", OF ids] take_map waiting_after after_row_def)
  from take_orphans [OF open_claims this in_rows]
  have taken: "each take_orphan ?waiting s = (Ok (map (\<lambda>f. [key_text f]) ?waiting), s\<lparr>open_rows := without_files (rid ` set ?waiting) (open_rows s)\<rparr>)"
    "claims_hold (discarded s) (without_files (rid ` set ?waiting) (open_rows s))" by auto
  have "key_text f \<notin> key_text ` set ?waiting" if "f \<in> set (without_files (rid ` set ?waiting) (open_rows s) StoredFile)" for f
    using that in_rows names by (auto simp: without_files_def inj_on_def)
  then have "claims_hold (discarded s @ map key_text ?waiting) (without_files (rid ` set ?waiting) (open_rows s))"
    using taken(2) by (auto simp: claims_hold_def named_files_stay_def)
  then have "standing claims_hold (s\<lparr>open_rows := without_files (rid ` set ?waiting) (open_rows s), committed := without_files (rid ` set ?waiting) (open_rows s),
      discarded := discarded s @ map key_text ?waiting\<rparr>)" by (simp add: standing_def)
  note rest = Suc.IH [OF this]
  have "concat (map (\<lambda>f. [key_text f]) xs) = map key_text xs" for xs by (induction xs) auto
  then show ?case using Suc.prems rest taken(1)
    by (auto simp: andThen_def discard_def writes_def split: prod.splits outcome.splits)
qed simp


section \<open>A cover and an orphan\<close>

definition orphan_key :: string where
  "orphan_key = ''images/00000000-0000-0000-0000-000000000002.webp''"

definition kept_shelves :: shelves where
  "kept_shelves = small_shelves(StoredFile := [
     \<lparr>rid = 1, cells = no_cells(''uuid'' := Text ''00000000-0000-0000-0000-000000000001'', ''key'' := Text cover,
       ''created_at'' := Moment (on_day 2025 1 1), ''claimed_at'' := Moment (on_day 2025 1 1))\<rparr>,
     \<lparr>rid = 2, cells = no_cells(''uuid'' := Text ''00000000-0000-0000-0000-000000000002'', ''key'' := Text orphan_key,
       ''created_at'' := Moment (on_day 2025 1 1))\<rparr>])"

definition kept_panel :: panel where
  "kept_panel = \<lparr>open_rows = kept_shelves, committed = kept_shelves, moment = on_day 2026 1 1, discarded = []\<rparr>"

lemma kept_panel_stands: "standing claims_hold kept_panel"
proof -
  have "cover \<noteq> orphan_key" by code_simp
  then show ?thesis
    by (simp add: standing_def kept_panel_def kept_shelves_def small_shelves_def claims_hold_def named_files_stay_def key_text_def no_cells_def)
qed

lemma sweep_takes_what_it_lists_witness:
  "\<exists>keys t. discard_orphans 3 24 kept_panel = (Ok keys, t) \<and> fst (find_orphans 3 24 0 kept_panel) = Ok keys \<and> set keys = {orphan_key}"
proof -
  have rows: "committed kept_panel StoredFile = kept_shelves StoredFile" "moment kept_panel = on_day 2026 1 1" by (simp_all add: kept_panel_def)
  have old: "before_by (on_day 2026 1 1) (minutes (60 * 24)) (on_day 2025 1 1)" by code_simp
  have "{f \<in> set (kept_shelves StoredFile). past_grace 24 (on_day 2026 1 1) f} = {kept_shelves StoredFile ! 1}"
    using old by (auto simp: kept_shelves_def past_grace_def no_cells_def)
  then have keys: "key_text ` {f \<in> set (committed kept_panel StoredFile). past_grace 24 (moment kept_panel) f} = {orphan_key}"
    unfolding rows by (simp add: kept_shelves_def key_text_def)
  have "open_rows kept_panel = committed kept_panel" "\<forall>f\<in>set (committed kept_panel StoredFile). 0 < rid f"
    "length (committed kept_panel StoredFile) < 3" by (simp_all add: kept_panel_def kept_shelves_def)
  from sweep_takes_what_it_lists [OF kept_panel_stands this, of 24] keys show ?thesis by auto
qed


end
