(* ===== verification/Upkeep.thy ===== *)
theory Upkeep
  imports File_Life Reports Mail Webhook
begin

text \<open>
  What keeps an instance that runs for years answering: \<^verbatim>\<open>services/retention_service.py\<close>, which drops what nothing will act on again, a page
  at a time, and \<^verbatim>\<open>services/rotation_service.py\<close>, which writes every stored secret again under the first key. The queue of runs and the
  cache are of other libraries: a purge of theirs is how many entries each of its calls answers it deleted.
\<close>

section \<open>Retention\<close>

record retention_settings =
  rt_system_log_days :: int
  rt_app_event_days :: int
  rt_webhook_event_days :: int
  rt_outbound_email_days :: int
  rt_client_request_days :: int
  rt_banner_impression_days :: int
  rt_cron_run_days :: int
  rt_authentication_days :: int
  rt_batch :: nat

definition over :: "string \<Rightarrow> datetime \<Rightarrow> item \<Rightarrow> bool" where
  "over name stamp r \<longleftrightarrow> (case cells r name of Moment t \<Rightarrow> t < stamp | _ \<Rightarrow> False)"

definition one_of :: "string \<Rightarrow> string list \<Rightarrow> item \<Rightarrow> bool" where
  "one_of name members r \<longleftrightarrow> cells r name \<in> Text ` set members"

definition spent :: "nat \<Rightarrow> item \<Rightarrow> bool" where
  "spent limit r \<longleftrightarrow> one_of ''status'' [''failed''] r \<and> (case cells r ''attempts'' of Whole n \<Rightarrow> int limit \<le> n | _ \<Rightarrow> False)"

text \<open>A row is only dropped once nothing will ever act on it again, and a table with no window keeps everything.\<close>

definition settled_rules :: "retention_settings \<Rightarrow> datetime \<Rightarrow> (string \<times> table \<times> int \<times> (item \<Rightarrow> bool)) list" where
  "settled_rules rt stamp =
    [(''email_login_challenge'', EmailLoginChallenge, rt_authentication_days rt, over ''expires_at'' stamp),
     (''social_login_attempt'', SocialLoginAttempt, rt_authentication_days rt, over ''expires_at'' stamp),
     (''login_ticket'', LoginTicket, rt_authentication_days rt, over ''expires_at'' stamp),
     (''system_log'', SystemLog, rt_system_log_days rt, \<lambda>_. True),
     (''app_event'', AppEvent, rt_app_event_days rt, \<lambda>r. one_of ''status'' [''processed'', ''ignored''] r \<or> spent Reports.MAX_ATTEMPTS r),
     (''webhook_event'', WebhookEvent, rt_webhook_event_days rt, \<lambda>r. one_of ''status'' [''completed'', ''ignored''] r \<or> spent Webhook.MAX_ATTEMPTS r),
     (''outbound_email'', OutboundEmail, rt_outbound_email_days rt, \<lambda>r. one_of ''status'' [''sent'', ''refused''] r \<or> spent Mail.MAX_ATTEMPTS r),
     (''client_request'', ClientRequest, rt_client_request_days rt, \<lambda>r. cells r ''answer'' \<noteq> Null),
     (''banner_impression'', BannerImpression, rt_banner_impression_days rt, \<lambda>_. True)]"

text \<open>The delete walks a page at a time. The fuel counts the pages.\<close>

fun trim_where :: "nat \<Rightarrow> nat \<Rightarrow> table \<Rightarrow> (item \<Rightarrow> bool) \<Rightarrow> nat desk" where
  "trim_where 0 batch t condition = hang"
| "trim_where (Suc fuel) batch t condition =
     andThen (look (\<lambda>sh. take batch (sort (map rid (filter condition (sh t)))))) (\<lambda>ids.
     if ids = [] then ret 0 else
     andThen (delete_rows t (\<lambda>r. rid r \<in> set ids)) (\<lambda>rowcount.
     andThen settle_rows (\<lambda>_.
     andThen (trim_where fuel batch t condition) (\<lambda>others. ret (rowcount + others)))))"

definition older_than :: "datetime \<Rightarrow> int \<Rightarrow> item \<Rightarrow> bool" where
  "older_than stamp days r \<longleftrightarrow> (case cells r ''created_at'' of Moment t \<Rightarrow> before_by stamp (minutes (1440 * days)) t | _ \<Rightarrow> False)"

definition trim :: "nat \<Rightarrow> retention_settings \<Rightarrow> table \<Rightarrow> int \<Rightarrow> (item \<Rightarrow> bool) \<Rightarrow> nat desk" where
  "trim fuel rt t days over_with =
     andThen hour (\<lambda>stamp. trim_where fuel (rt_batch rt) t (\<lambda>r. older_than stamp days r \<and> over_with r))"

text \<open>Both libraries delete one batch per call, so a purge is called again until it answers nothing.\<close>

fun drained :: "nat \<Rightarrow> (nat \<Rightarrow> nat) \<Rightarrow> nat \<Rightarrow> nat desk" where
  "drained 0 purge n = hang"
| "drained (Suc fuel) purge n =
     (if purge n = 0 then ret 0 else andThen (drained fuel purge (Suc n)) (\<lambda>others. ret (purge n + others)))"

definition purge_runs :: "nat \<Rightarrow> retention_settings \<Rightarrow> (nat \<Rightarrow> nat) \<Rightarrow> nat desk" where
  "purge_runs fuel rt purge = (if rt_cron_run_days rt \<le> 0 then ret 0 else drained fuel purge 0)"

definition purge_answers :: "nat \<Rightarrow> (nat \<Rightarrow> nat) \<Rightarrow> nat desk" where
  "purge_answers fuel purge = drained fuel purge 0"

definition retain :: "nat \<Rightarrow> retention_settings \<Rightarrow> string \<times> table \<times> int \<times> (item \<Rightarrow> bool) \<Rightarrow> (string \<times> nat) list desk" where
  "retain fuel rt = (\<lambda>(name, t, days, over_with).
     if days \<le> 0 then ret [] else andThen (trim fuel rt t days over_with) (\<lambda>n. ret [(name, n)]))"

definition discard_expired :: "nat \<Rightarrow> retention_settings \<Rightarrow> (nat \<Rightarrow> nat) \<Rightarrow> (nat \<Rightarrow> nat) \<Rightarrow> (string \<times> nat) list desk" where
  "discard_expired fuel rt runs dead =
     andThen hour (\<lambda>stamp.
     andThen (each (retain fuel rt) (settled_rules rt stamp)) (\<lambda>gone.
     andThen (purge_runs fuel rt runs) (\<lambda>cron_run.
     andThen (purge_answers fuel dead) (\<lambda>cache_entry.
     ret (concat gone @ [(''cron_run'', cron_run), (''cache_entry'', cache_entry)])))))"

section \<open>What retention drops\<close>

definition without :: "table \<Rightarrow> (item \<Rightarrow> bool) \<Rightarrow> shelves \<Rightarrow> shelves" where
  "without t p sh = sh(t := filter (\<lambda>r. \<not> p r) (sh t))"

lemma without_none: "\<forall>r\<in>set (sh t). \<not> p r \<Longrightarrow> without t p sh = sh"
  by (auto simp: without_def fun_upd_idem)

lemma unpointed_goes_alone:
  assumes "pointing t = []"
  shows "gone_with sh t ids = map (Pair t) ids" and "struck (gone_with sh t ids) sh = without t (\<lambda>r. rid r \<in> set ids) sh"
proof -
  show going: "gone_with sh t ids = map (Pair t) ids" by (simp add: gone_with_def assms)
  have kept: "let_go (map (Pair t) ids) u = (\<lambda>r. r)" for u
    using assms by (intro ext let_go_id) auto
  show "struck (gone_with sh t ids) sh = without t (\<lambda>r. rid r \<in> set ids) sh"
    by (auto simp: struck_def going kept without_def image_iff)
qed

lemma delete_unpointed:
  assumes "pointing t = []"
  shows "delete_rows t p s = (Ok (hits p (open_rows s t)), s\<lparr>open_rows := without t (\<lambda>r. rid r \<in> rid ` {q \<in> set (open_rows s t). p q}) (open_rows s)\<rparr>)"
  using unpointed_goes_alone [OF assms] by (simp add: delete_rows_apply Let_def restricted_def assms hits_def list_ex_iff)

lemma trim_where_apply:
  assumes t: "pointing t = []" and batch: "0 < batch" and "distinct (map rid (open_rows s t))"
    and "hits condition (open_rows s t) < fuel" and "open_rows s = committed s"
  shows "trim_where fuel batch t condition s =
    (Ok (hits condition (open_rows s t)), s\<lparr>open_rows := without t condition (open_rows s), committed := without t condition (open_rows s)\<rparr>)"
  using assms(3-)
proof (induction fuel arbitrary: s)
  case (Suc fuel)
  let ?rows = "open_rows s t"
  let ?ids = "take batch (sort (map rid (filter condition ?rows)))"
  show ?case
  proof (cases "filter condition ?rows = []")
    case True
    then have "without t condition (open_rows s) = open_rows s" by (intro without_none) (simp add: filter_empty_conv)
    with True Suc.prems(3) show ?thesis by (simp add: hits_def)
  next
    case False
    then have ids: "?ids \<noteq> []" using batch by simp (metis False length_0_conv length_map length_sort)
    define I where "I = set ?ids"
    have chosen: "I \<subseteq> rid ` {r \<in> set ?rows. condition r}" "I \<noteq> {}" using ids by (auto simp: I_def dest!: in_set_takeD)
    let ?p = "\<lambda>r. rid r \<in> I"
    have only: "rid r \<in> I \<Longrightarrow> r \<in> set ?rows \<Longrightarrow> condition r" for r
      using chosen Suc.prems(1) by (auto simp: distinct_map inj_on_def)
    have reach: "rid ` {q \<in> set ?rows. ?p q} = I" using chosen by auto
    let ?sh = "without t ?p (open_rows s)"
    let ?t = "s\<lparr>open_rows := ?sh, committed := ?sh\<rparr>"
    have "hits ?p ?rows + hits condition (?sh t) = hits condition ?rows"
    proof -
      have "hits condition ?rows = length (filter ?p (filter condition ?rows)) + length (filter (\<lambda>r. \<not> ?p r) (filter condition ?rows))"
        unfolding hits_def by (rule sum_length_filter_compl [symmetric])
      moreover have "filter ?p (filter condition ?rows) = filter ?p ?rows" using only by (simp, intro filter_cong) auto
      ultimately show ?thesis by (simp add: hits_def without_def conj_commute)
    qed
    moreover have "0 < hits ?p ?rows"
      using chosen by (auto simp: hits_def filter_empty_conv)
    ultimately have sum: "hits ?p ?rows + hits condition (open_rows ?t t) = hits condition ?rows" "hits condition (open_rows ?t t) < fuel"
      using Suc.prems(2) by auto
    have "filter (\<lambda>x. rid x \<notin> I \<and> \<not> condition x) ?rows = filter (\<lambda>r. \<not> condition r) ?rows"
      using only by (intro filter_cong) auto
    then have "without t condition ?sh = without t condition (open_rows s)" by (simp add: without_def)
    moreover have "distinct (map rid (open_rows ?t t))" using Suc.prems(1) by (simp add: without_def distinct_map_filter)
    ultimately have "trim_where fuel batch t condition ?t = (Ok (hits condition (open_rows ?t t)),
        s\<lparr>open_rows := without t condition (open_rows s), committed := without t condition (open_rows s)\<rparr>)"
      using Suc.IH [of ?t] sum(2) by simp
    with ids sum(1) show ?thesis
      by (simp add: andThen_def delete_unpointed [OF t] I_def [symmetric] reach)
  qed
qed simp

text \<open>The rules a row falls under.\<close>

definition falls :: "datetime \<Rightarrow> table \<Rightarrow> item \<Rightarrow> string \<times> table \<times> int \<times> (item \<Rightarrow> bool) \<Rightarrow> bool" where
  "falls stamp u r = (\<lambda>(name, t, days, over_with). t = u \<and> 0 < days \<and> older_than stamp days r \<and> over_with r)"

definition retained :: "datetime \<Rightarrow> (string \<times> table \<times> int \<times> (item \<Rightarrow> bool)) list \<Rightarrow> shelves \<Rightarrow> shelves" where
  "retained stamp rules sh = (\<lambda>u. filter (\<lambda>r. \<not> list_ex (falls stamp u r) rules) (sh u))"

lemma without_retained:
  "0 < days \<Longrightarrow> without t (\<lambda>r. older_than stamp days r \<and> over_with r) sh = retained stamp [(name, t, days, over_with)] sh"
  by (auto simp: without_def retained_def falls_def fun_eq_iff)

lemma retained_Cons: "retained stamp rules (retained stamp [rule] sh) = retained stamp (rule # rules) sh"
  by (simp add: retained_def conj_commute)

lemma retained_idle: "days \<le> 0 \<Longrightarrow> retained stamp ((name, t, days, over_with) # rules) sh = retained stamp rules sh"
  by (simp add: retained_def falls_def)

lemma retain_apply:
  assumes "\<forall>(name, t, days, over_with)\<in>set rules. pointing t = []" and "0 < rt_batch rt"
    and "\<forall>t. distinct (map rid (open_rows s t)) \<and> length (open_rows s t) < fuel" and "open_rows s = committed s"
  shows "\<exists>counts. each (retain fuel rt) rules s =
    (Ok counts, s\<lparr>open_rows := retained (moment s) rules (open_rows s), committed := retained (moment s) rules (open_rows s)\<rparr>)"
  using assms
proof (induction rules arbitrary: s)
  case Nil
  then show ?case by (simp add: retained_def)
next
  case (Cons rule rules)
  obtain name t days over_with where rule: "rule = (name, t, days, over_with)" by (cases rule) auto
  show ?case
  proof (cases "days \<le> 0")
    case True
    with Cons.IH [of s] Cons.prems show ?thesis
      by (fastforce simp: rule retain_def retained_idle andThen_def)
  next
    case False
    let ?rows = "retained (moment s) [rule] (open_rows s)"
    let ?t = "s\<lparr>open_rows := ?rows, committed := ?rows\<rparr>"
    let ?c = "\<lambda>r. older_than (moment s) days r \<and> over_with r"
    have "hits ?c (open_rows s t) < fuel"
      using Cons.prems(3) length_filter_le [of ?c "open_rows s t"] unfolding hits_def by (meson le_less_trans)
    with Cons.prems(1,3) trim_where_apply [OF _ Cons.prems(2) _ _ Cons.prems(4), of t ?c fuel]
    have "retain fuel rt rule s = (Ok [(name, hits ?c (open_rows s t))], ?t)"
      using False without_retained [of days t "moment s" over_with "open_rows s" name]
      by (simp add: rule retain_def trim_def andThen_def)
    moreover have "\<forall>u. distinct (map rid (open_rows ?t u)) \<and> length (open_rows ?t u) < fuel"
      using Cons.prems(3) by (auto simp: retained_def distinct_map_filter intro: le_less_trans [OF length_filter_le])
    ultimately show ?thesis
      using Cons.IH [of ?t] Cons.prems(1,2) by (fastforce simp: andThen_def retained_Cons)
  qed
qed

lemma drained_apply: "purge (n + k) = 0 \<Longrightarrow> k < fuel \<Longrightarrow> \<exists>m. drained fuel purge n s = (Ok m, s)"
proof (induction fuel arbitrary: n k)
  case (Suc fuel)
  show ?case
  proof (cases k)
    case (Suc l)
    with Suc.prems Suc.IH [of "Suc n" l] show ?thesis by (auto simp: andThen_def)
  qed (use Suc.prems in simp)
qed simp


definition default_retention :: retention_settings where
  "default_retention = \<lparr>rt_system_log_days = 180, rt_app_event_days = 90, rt_webhook_event_days = 90, rt_outbound_email_days = 90,
     rt_client_request_days = 30, rt_banner_impression_days = 90, rt_cron_run_days = 30, rt_authentication_days = 1, rt_batch = 1000\<rparr>"

text \<open>An event processed long ago, and one as old that is still waiting.\<close>

definition logged_shelves :: shelves where
  "logged_shelves = (\<lambda>_. [])(AppEvent := [
     \<lparr>rid = 1, cells = no_cells(''status'' := Text ''processed'', ''created_at'' := Moment (on_day 2024 1 1))\<rparr>,
     \<lparr>rid = 2, cells = no_cells(''status'' := Text ''pending'', ''created_at'' := Moment (on_day 2024 1 1))\<rparr>])"

definition logged_panel :: panel where
  "logged_panel = \<lparr>open_rows = logged_shelves, committed = logged_shelves, moment = on_day 2026 1 1, discarded = []\<rparr>"


end
