(* ===== verification/Erasure.thy ===== *)
theory Erasure
  imports Removal Upkeep
begin

text \<open>
  What an account does to itself beyond its fields: its picture, and the erasure that replaces the person and keeps the row
  (\<^verbatim>\<open>services/user_service.py\<close>). The session does not flush before it reads, so the row is written at the commit, after everything the
  operation deletes.
\<close>

section \<open>The picture\<close>

definition commit_row :: "table \<Rightarrow> item \<Rightarrow> unit desk" where
  "commit_row t r = refusing_rows ''error.duplicated-record'' (andThen (write_row t r) (\<lambda>_. settle_rows))"

definition refreshed_row :: "table \<Rightarrow> nat \<Rightarrow> item desk" where
  "refreshed_row t i = andThen (look (\<lambda>sh. fetch i (sh t))) need"

definition dropped_from :: "resource \<Rightarrow> item \<Rightarrow> item \<Rightarrow> string list \<Rightarrow> string list" where
  "dropped_from rs before after dropped = filter (\<lambda>u. u \<notin> set (mentioned rs after)) (mentioned rs before) @ dropped"

text \<open>The file goes where the row that would have claimed it never landed.\<close>

definition or_discard :: "string \<Rightarrow> (exc \<Rightarrow> bool) \<Rightarrow> 'a desk \<Rightarrow> 'a desk" where
  "or_discard key caught m = handle m (\<lambda>e. if caught e then andThen (discard [key]) (\<lambda>_. throw e) else throw e)"

fun is_conflict :: "exc \<Rightarrow> bool" where
  "is_conflict (ConflictError _) = True"
| "is_conflict _ = False"

definition settle_avatar :: "house \<Rightarrow> store_room \<Rightarrow> incoming_file \<Rightarrow> nat \<Rightarrow> item desk" where
  "settle_avatar h room picture user_id =
     (let rs = user_service h in
      andThen (store_upload room AVATAR picture) (\<lambda>(key, bytes).
      andThen (or_discard key is_conflict (hold_row user_id)) (\<lambda>_.
      andThen (refreshed_row User user_id) (\<lambda>user.
      andThen hour (\<lambda>stamp.
      let written = edited User stamp [''avatar'' \<mapsto> Text key] user in
      andThen (named_by rs written) (\<lambda>dropped.
      andThen (or_discard key (\<lambda>_. True) (commit_row User written)) (\<lambda>_.
      andThen (release (dropped_from rs user written dropped)) (\<lambda>_. ret written))))))))"

definition discard_avatar :: "house \<Rightarrow> nat \<Rightarrow> item desk" where
  "discard_avatar h user_id =
     (let rs = user_service h in
      andThen (hold_row user_id) (\<lambda>_.
      andThen (refreshed_row User user_id) (\<lambda>user.
      if cells user ''avatar'' = Null then ret user else
      andThen hour (\<lambda>stamp.
      let written = edited User stamp [''avatar'' \<mapsto> Null] user in
      andThen (mention (owner_of User user_id) (map Text (mentioned rs written)) []) (\<lambda>dropped.
      andThen (commit_row User written) (\<lambda>_.
      andThen (release (dropped_from rs user written dropped)) (\<lambda>_. ret written)))))))"

section \<open>Being forgotten\<close>

text \<open>What an erasure draws: the name the row is left under, a password nobody knows, and the token its sessions no longer carry.\<close>

record drawn_person =
  dp_name :: string
  dp_password :: string
  dp_token :: string

definition erased_sheet :: "house \<Rightarrow> drawn_person \<Rightarrow> datetime \<Rightarrow> sheet" where
  "erased_sheet h d stamp = [
     ''username'' \<mapsto> Text (''erased-'' @ dp_name d), ''email'' \<mapsto> Text (dp_name d @ ''@erased.invalid''),
     ''document'' \<mapsto> Text (take 11 (dp_name d)), ''mobile_phone'' \<mapsto> Text (take 16 (dp_name d)),
     ''password_hash'' \<mapsto> Text (ho_hash h (dp_password d)), ''token'' \<mapsto> Text (dp_token d),
     ''first_name'' \<mapsto> Null, ''last_name'' \<mapsto> Null, ''nickname'' \<mapsto> Null, ''gender'' \<mapsto> Text ''none'', ''avatar'' \<mapsto> Null,
     ''notes'' \<mapsto> Null, ''meta'' \<mapsto> Doc ''{}'', ''recovery_token'' \<mapsto> Null, ''recovery_token_created_at'' \<mapsto> Null,
     ''pending_email'' \<mapsto> Null, ''confirmation_token'' \<mapsto> Null, ''confirmation_sent_at'' \<mapsto> Null,
     ''status'' \<mapsto> Text ''erased'', ''erased_at'' \<mapsto> Moment stamp]"

definition behaviour :: "table list" where
  "behaviour = [UserAddress, AppEvent, SocialIdentity, SocialLoginAttempt, LoginTicket]"

definition forget_behaviour :: "nat \<Rightarrow> cell \<Rightarrow> cell \<Rightarrow> unit desk" where
  "forget_behaviour user_id tenant_id email =
     andThen (each (\<lambda>t. delete_rows t (\<lambda>r. cells r ''user_id'' = key_to user_id)) behaviour) (\<lambda>_.
     andThen (delete_rows EmailLoginChallenge (\<lambda>r. cells r ''tenant_id'' = tenant_id \<and> cells r ''email'' = email)) (\<lambda>_. ret ()))"

definition erasure_log :: "datetime \<Rightarrow> cell \<Rightarrow> nat \<Rightarrow> item" where
  "erasure_log stamp tenant_id user_id = \<lparr>rid = 0, cells = no_cells(''tenant_id'' := tenant_id, ''user_id'' := key_to user_id,
     ''level'' := Text ''info'', ''category'' := Text ''account'', ''description'' := Text ''account erased on request'',
     ''meta'' := Doc (CHR ''{'' # CHR 0x22 # ''user_id'' @ CHR 0x22 # '': '' @ decimal user_id @ ''}''),
     ''created_at'' := Moment stamp, ''updated_at'' := Moment stamp)\<rparr>"

definition erase :: "house \<Rightarrow> drawn_person \<Rightarrow> nat \<Rightarrow> item desk" where
  "erase h d user_id =
     andThen (hold_row user_id) (\<lambda>_.
     andThen (refreshed_row User user_id) (\<lambda>user.
     andThen hour (\<lambda>stamp.
     let written = edited User stamp (erased_sheet h d stamp) user in
     andThen (forget (\<lambda>v. v = Text (owner_of User user_id))) (\<lambda>named.
     andThen (forget_behaviour user_id (cells user ''tenant_id'') (cells user ''email'')) (\<lambda>_.
     andThen (commit_row User written) (\<lambda>_.
     andThen (release (remdups (mentioned (user_service h) user @ named))) (\<lambda>_.
     andThen (refusing_rows ''error.duplicated-record'' (insert_row SystemLog (erasure_log stamp (cells user ''tenant_id'') user_id))) (\<lambda>_.
     andThen persist (\<lambda>_. ret written)))))))))"

section \<open>What an erasure deletes\<close>

lemma unpointed:
  "pointing UserAddress = []" "pointing AppEvent = []" "pointing SocialIdentity = []" "pointing SocialLoginAttempt = []"
  "pointing LoginTicket = []" "pointing EmailLoginChallenge = []"
  by code_simp+

lemma behaviour_unpointed: "t \<in> set (EmailLoginChallenge # behaviour) \<Longrightarrow> pointing t = []"
  using unpointed by (auto simp: behaviour_def)

lemma delete_alone:
  assumes "pointing t = []"
  shows "\<exists>n sh. delete_rows t p s = (Ok n, s\<lparr>open_rows := sh\<rparr>) \<and> (\<forall>u. u \<noteq> t \<longrightarrow> sh u = open_rows s u) \<and> (\<forall>r\<in>set (sh t). \<not> p r)"
proof -
  let ?sh = "without t (\<lambda>r. rid r \<in> rid ` {q \<in> set (open_rows s t). p q}) (open_rows s)"
  have "(\<forall>u. u \<noteq> t \<longrightarrow> ?sh u = open_rows s u) \<and> (\<forall>r\<in>set (?sh t). \<not> p r)" by (auto simp: without_def)
  with delete_unpointed [OF assms, of p s] show ?thesis by blast
qed

lemma deletes_alone:
  assumes "\<forall>t\<in>set ts. pointing t = []"
  shows "\<exists>ns sh. each (\<lambda>t. delete_rows t p) ts s = (Ok ns, s\<lparr>open_rows := sh\<rparr>) \<and> (\<forall>u. u \<notin> set ts \<longrightarrow> sh u = open_rows s u)
    \<and> (\<forall>t\<in>set ts. \<forall>r\<in>set (sh t). \<not> p r)"
  using assms
proof (induction ts arbitrary: s)
  case (Cons t ts)
  from Cons.prems have "pointing t = []" by simp
  from delete_alone [OF this] obtain n sh where one: "delete_rows t p s = (Ok n, s\<lparr>open_rows := sh\<rparr>)"
    "\<forall>u. u \<noteq> t \<longrightarrow> sh u = open_rows s u" "\<forall>r\<in>set (sh t). \<not> p r" by blast
  from Cons.prems have "\<forall>t\<in>set ts. pointing t = []" by simp
  from Cons.IH [OF this, of "s\<lparr>open_rows := sh\<rparr>"] obtain ns sh' where rest:
    "each (\<lambda>t. delete_rows t p) ts (s\<lparr>open_rows := sh\<rparr>) = (Ok ns, s\<lparr>open_rows := sh'\<rparr>)"
    "\<forall>u. u \<notin> set ts \<longrightarrow> sh' u = sh u" "\<forall>t\<in>set ts. \<forall>r\<in>set (sh' t). \<not> p r" by auto
  have "\<forall>r\<in>set (sh' t). \<not> p r" using one(3) rest(2,3) by (cases "t \<in> set ts") auto
  moreover have "sh' u = open_rows s u" if "u \<notin> set (t # ts)" for u using that one(2) rest(2) by auto
  ultimately show ?case using one(1) rest(1,3) by (auto simp: andThen_def)
next
  case Nil
  have "s = s\<lparr>open_rows := open_rows s\<rparr>" by simp
  then show ?case by (metis each.simps(1) empty_iff list.set(1) ret_apply)
qed

text \<open>Nothing of what the person did is left, and no code was sent to their address in the scope of the account.\<close>

definition OF_THE_PERSON :: "table list" where
  "OF_THE_PERSON = [UserAddress, AppEvent, SocialIdentity, SocialLoginAttempt, LoginTicket]"

lemma behaviour_of_the_person: "behaviour = OF_THE_PERSON"
  by (simp add: behaviour_def OF_THE_PERSON_def)

definition nothing_of :: "nat \<Rightarrow> cell \<Rightarrow> cell \<Rightarrow> shelves \<Rightarrow> bool" where
  "nothing_of user_id tenant_id email sh \<longleftrightarrow> (\<forall>t\<in>set OF_THE_PERSON. \<forall>r\<in>set (sh t). cells r ''user_id'' \<noteq> key_to user_id)
     \<and> (\<forall>r\<in>set (sh EmailLoginChallenge). \<not> (cells r ''tenant_id'' = tenant_id \<and> cells r ''email'' = email))"

lemma forget_behaviour_apply:
  obtains sh where "forget_behaviour user_id tenant_id email s = (Ok (), s\<lparr>open_rows := sh\<rparr>)"
    and "\<And>u. u \<notin> set (EmailLoginChallenge # behaviour) \<Longrightarrow> sh u = open_rows s u" and "nothing_of user_id tenant_id email sh"
proof -
  have "\<forall>t\<in>set behaviour. pointing t = []" using behaviour_unpointed by auto
  from deletes_alone [OF this, of "\<lambda>r. cells r ''user_id'' = key_to user_id" s] obtain ns sh where one:
    "each (\<lambda>t. delete_rows t (\<lambda>r. cells r ''user_id'' = key_to user_id)) behaviour s = (Ok ns, s\<lparr>open_rows := sh\<rparr>)"
    "\<forall>u. u \<notin> set behaviour \<longrightarrow> sh u = open_rows s u" "\<forall>t\<in>set behaviour. \<forall>r\<in>set (sh t). cells r ''user_id'' \<noteq> key_to user_id" by blast
  have "pointing EmailLoginChallenge = []" by (rule behaviour_unpointed) simp
  from delete_alone [OF this, of "\<lambda>r. cells r ''tenant_id'' = tenant_id \<and> cells r ''email'' = email" "s\<lparr>open_rows := sh\<rparr>"] obtain n sh' where two:
    "delete_rows EmailLoginChallenge (\<lambda>r. cells r ''tenant_id'' = tenant_id \<and> cells r ''email'' = email) (s\<lparr>open_rows := sh\<rparr>) = (Ok n, s\<lparr>open_rows := sh'\<rparr>)"
    "\<forall>u. u \<noteq> EmailLoginChallenge \<longrightarrow> sh' u = sh u" "\<forall>r\<in>set (sh' EmailLoginChallenge). \<not> (cells r ''tenant_id'' = tenant_id \<and> cells r ''email'' = email)" by auto
  have apart: "EmailLoginChallenge \<notin> set behaviour" by (simp add: behaviour_def)
  have "sh' u = open_rows s u" if "u \<notin> set (EmailLoginChallenge # behaviour)" for u using that one(2) two(2) by auto
  moreover have "nothing_of user_id tenant_id email sh'"
    unfolding nothing_of_def behaviour_of_the_person [symmetric] using one(3) two(2,3) apart by metis
  moreover have "forget_behaviour user_id tenant_id email s = (Ok (), s\<lparr>open_rows := sh'\<rparr>)"
    using one(1) two(1) by (simp add: forget_behaviour_def andThen_def)
  ultimately show thesis by (intro that)
qed

section \<open>What it names\<close>

lemma mentions_of_in: "u \<in> set (mentions_of owned sh) \<longleftrightarrow> (\<exists>f\<in>set (sh StoredFile). \<exists>m\<in>set (sh StoredFileMention).
    cells m ''stored_file_id'' = key_to (rid f) \<and> owned (cells m ''owner'') \<and> u = (case cells f ''uuid'' of Text u \<Rightarrow> u | _ \<Rightarrow> '''', rid m))"
  by (auto simp: mentions_of_def set_map_filter split: if_splits)

definition unowned :: "cell \<Rightarrow> shelves \<Rightarrow> bool" where
  "unowned v sh \<longleftrightarrow> (\<forall>m\<in>set (sh StoredFileMention). cells m ''owner'' \<noteq> v)"

lemma forget_apply:
  assumes "named_files_stay g (open_rows s)"
  obtains named sh where "forget (\<lambda>v. v = owner) s = (Ok named, s\<lparr>open_rows := sh\<rparr>)" and "\<And>u. u \<noteq> StoredFileMention \<Longrightarrow> sh u = open_rows s u"
    and "unowned owner sh"
proof -
  let ?written = "mentions_of (\<lambda>v. v = owner) (open_rows s)"
  have covered: "rid m \<in> snd ` set ?written" if m: "m \<in> set (open_rows s StoredFileMention)" "cells m ''owner'' = owner" for m
  proof -
    from m assms obtain f where "f \<in> set (open_rows s StoredFile)" "cells m ''stored_file_id'' = key_to (rid f)"
      by (auto simp: named_files_stay_def)
    with m show ?thesis unfolding image_iff by (intro bexI [of _ "(case cells f ''uuid'' of Text u \<Rightarrow> u | _ \<Rightarrow> '''', rid m)"]) (auto simp: mentions_of_in)
  qed
  show thesis
  proof (cases "?written = []")
    case True
    with covered have "unowned owner (open_rows s)" by (auto simp: unowned_def)
    with True show thesis by (intro that [of "[]" "open_rows s"]) (simp_all add: forget_def)
  next
    case False
    have p: "pointing StoredFileMention = []" by code_simp
    let ?p = "\<lambda>m. rid m \<in> snd ` set ?written"
    let ?sh = "without StoredFileMention (\<lambda>r. rid r \<in> rid ` {q \<in> set (open_rows s StoredFileMention). ?p q}) (open_rows s)"
    note d = delete_unpointed [OF p, of ?p s]
    have "unowned owner ?sh" using covered by (auto simp: unowned_def without_def)
    moreover have "?sh u = open_rows s u" if "u \<noteq> StoredFileMention" for u using that by (simp add: without_def)
    moreover have "forget (\<lambda>v. v = owner) s = (Ok (map fst ?written), s\<lparr>open_rows := ?sh\<rparr>)" using False d by (simp add: forget_def andThen_def)
    ultimately show thesis by (intro that)
  qed
qed

lemma unowned_release:
  assumes "v \<noteq> Null"
  shows "effect (keeps (standing (\<lambda>_. unowned v))) (release uuids)"
proof -
  have "cells (let_go going t r) name \<noteq> v" if "cells r name \<noteq> v" for going t r name
    using that assms by (auto simp: let_go_def)
  then have d: "effect (keeps (standing (\<lambda>_. unowned v))) (delete_rows t p)" for t p
    by (intro standing_delete) (auto simp: unowned_def struck_def)
  have "effect (keeps (standing (\<lambda>_. unowned v))) (discard keys)" for keys
    by (auto simp: effect_def keeps_def standing_def discard_def writes_def)
  with d show ?thesis unfolding release_def release_one_def by (intro standing_steps) auto
qed

text \<open>A release ends well, and touches no table but those of the files.\<close>

lemma release_frame:
  assumes "open_rows s = committed s"
  obtains x where "release uuids s = (Ok (), x)" and "\<And>u. u \<notin> file_tables \<Longrightarrow> open_rows x u = open_rows s u"
    and "v \<noteq> Null \<Longrightarrow> unowned v (open_rows s) \<Longrightarrow> unowned v (open_rows x)"
proof -
  let ?I = "\<lambda>_::string list. \<lambda>sh. \<forall>u. u \<notin> file_tables \<longrightarrow> sh u = open_rows s u"
  obtain x where x: "release uuids s = (Ok (), x)" using release_Ok [of uuids s] by (cases "release uuids s") auto
  have "off_files ?I" by (simp add: off_files_def)
  from effect_keepsD [OF off_release [OF this], of s uuids] x assms have i: "standing ?I x" by (simp add: standing_def)
  have "unowned v (open_rows x)" if "v \<noteq> Null" "unowned v (open_rows s)"
    using effect_keepsD [OF unowned_release [OF that(1)], of s uuids] x that(2) assms by (simp add: standing_def)
  with that x i show thesis by (auto simp: standing_def)
qed

section \<open>Nothing personal is left\<close>

definition EMPTIED :: "string list" where
  "EMPTIED = [''first_name'', ''last_name'', ''nickname'', ''avatar'', ''notes'', ''recovery_token'', ''recovery_token_created_at'',
     ''pending_email'', ''confirmation_token'', ''confirmation_sent_at'']"

definition replaced_person :: "house \<Rightarrow> drawn_person \<Rightarrow> item \<Rightarrow> bool" where
  "replaced_person h d r \<longleftrightarrow> (\<forall>name\<in>set EMPTIED. cells r name = Null) \<and> cells r ''status'' = Text ''erased''
     \<and> cells r ''username'' = Text (''erased-'' @ dp_name d) \<and> cells r ''email'' = Text (dp_name d @ ''@erased.invalid'')
     \<and> cells r ''document'' = Text (take 11 (dp_name d)) \<and> cells r ''mobile_phone'' = Text (take 16 (dp_name d))
     \<and> cells r ''password_hash'' = Text (ho_hash h (dp_password d)) \<and> cells r ''token'' = Text (dp_token d) \<and> cells r ''meta'' = Doc ''{}''"

lemma erased_person: "replaced_person h d (edited User stamp (erased_sheet h d stamp) r)"
proof -
  have "list_all (\<lambda>name. column_of User name \<noteq> None)
      (EMPTIED @ [''status'', ''username'', ''email'', ''document'', ''mobile_phone'', ''password_hash'', ''token'', ''meta''])" by code_simp
  then have c: "\<forall>name\<in>set (EMPTIED @ [''status'', ''username'', ''email'', ''document'', ''mobile_phone'', ''password_hash'', ''token'', ''meta'']).
      \<exists>c. column_of User name = Some c" unfolding list_all_iff by blast
  have "cells (edited User stamp (erased_sheet h d stamp) r) name = the (erased_sheet h d stamp name)"
    if "name \<in> set (EMPTIED @ [''status'', ''username'', ''email'', ''document'', ''mobile_phone'', ''password_hash'', ''token'', ''meta''])" for name
  proof -
    from c that obtain c where "column_of User name = Some c" by blast
    moreover have "name \<noteq> ''updated_at''" "erased_sheet h d stamp name \<noteq> None" using that by (auto simp: EMPTIED_def erased_sheet_def)
    ultimately show ?thesis by (auto simp: edited_cell)
  qed
  then show ?thesis by (simp add: replaced_person_def EMPTIED_def erased_sheet_def)
qed

lemma erased_tenant: "cells (edited User stamp (erased_sheet h d stamp) r) ''tenant_id'' = cells r ''tenant_id''"
proof -
  have "column_of User ''tenant_id'' \<noteq> None" by code_simp
  then show ?thesis by (auto simp: edited_cell erased_sheet_def)
qed

lemma log_fits:
  assumes "names_one (sh User) (key_to user_id)" and "tenant_id = Null \<or> names_one (sh Tenant) tenant_id"
  shows "fits sh SystemLog (erasure_log stamp tenant_id user_id\<lparr>rid := i\<rparr>)"
proof -
  have "referenced SystemLog = [(''tenant_id'', Tenant), (''user_id'', User)]" "mo_uniques (model_of SystemLog) = []" by code_simp+
  moreover have "whole_row SystemLog (erasure_log stamp tenant_id user_id\<lparr>rid := i\<rparr>)"
    by (simp add: whole_row_def columns_def system_log_model_def col_def points_def erasure_log_def no_cells_def)
  ultimately show ?thesis using assms by (simp add: fits_def anchored_def alone_def erasure_log_def no_cells_def)
qed

text \<open>What an erased account leaves: its row is nobody, nothing of what the person did is kept, no file is named by it.\<close>

definition forgotten :: "house \<Rightarrow> drawn_person \<Rightarrow> nat \<Rightarrow> item \<Rightarrow> shelves \<Rightarrow> bool" where
  "forgotten h d user_id before sh \<longleftrightarrow> (\<exists>r\<in>set (sh User). rid r = user_id) \<and> (\<forall>r\<in>set (sh User). rid r = user_id \<longrightarrow> replaced_person h d r)
     \<and> nothing_of user_id (cells before ''tenant_id'') (cells before ''email'') sh \<and> unowned (Text (owner_of User user_id)) sh"

text \<open>The tables an erasure may write; what was paid is in none of them.\<close>

definition TOUCHED :: "table list" where
  "TOUCHED = [User, StoredFile, StoredFileMention, EmailLoginChallenge, SystemLog] @ OF_THE_PERSON"

text \<open>Up to the commit, where the row is there and was not erased yet.\<close>

lemma erasure_work:
  assumes files: "named_files_stay g (open_rows s)" and there: "\<exists>r\<in>set (open_rows s User). rid r = user_id"
    and user: "fetch user_id (open_rows s User) = Some user"
  obtains named sh where "\<And>k. andThen (forget (\<lambda>v. v = Text (owner_of User user_id))) (\<lambda>named.
      andThen (forget_behaviour user_id (cells user ''tenant_id'') (cells user ''email'')) (\<lambda>_. k named)) s = k named (s\<lparr>open_rows := sh\<rparr>)"
    and "\<And>u. u \<notin> set TOUCHED \<or> u = User \<Longrightarrow> sh u = open_rows s u"
    and "nothing_of user_id (cells user ''tenant_id'') (cells user ''email'') sh" and "unowned (Text (owner_of User user_id)) sh"
proof -
  obtain named sh where f: "forget (\<lambda>v. v = Text (owner_of User user_id)) s = (Ok named, s\<lparr>open_rows := sh\<rparr>)"
    "\<And>u. u \<noteq> StoredFileMention \<Longrightarrow> sh u = open_rows s u" "unowned (Text (owner_of User user_id)) sh"
    using forget_apply [OF files] by metis
  obtain sh' where b: "forget_behaviour user_id (cells user ''tenant_id'') (cells user ''email'') (s\<lparr>open_rows := sh\<rparr>) = (Ok (), s\<lparr>open_rows := sh'\<rparr>)"
    "\<And>u. u \<notin> set (EmailLoginChallenge # behaviour) \<Longrightarrow> sh' u = sh u"
    "nothing_of user_id (cells user ''tenant_id'') (cells user ''email'') sh'"
    by (rule forget_behaviour_apply [of user_id "cells user ''tenant_id''" "cells user ''email''" "s\<lparr>open_rows := sh\<rparr>"]) auto
  have "sh' StoredFileMention = sh StoredFileMention" by (rule b(2)) (simp add: behaviour_def)
  with f(3) have "unowned (Text (owner_of User user_id)) sh'" by (simp add: unowned_def)
  moreover have "sh' u = open_rows s u" if "u \<notin> set TOUCHED \<or> u = User" for u
    using that b(2) [of u] f(2) [of u] by (auto simp: TOUCHED_def behaviour_def OF_THE_PERSON_def)
  moreover have "andThen (forget (\<lambda>v. v = Text (owner_of User user_id))) (\<lambda>named.
      andThen (forget_behaviour user_id (cells user ''tenant_id'') (cells user ''email'')) (\<lambda>_. k named)) s = k named (s\<lparr>open_rows := sh'\<rparr>)" for k
    using f(1) b(1) by (simp add: andThen_def)
  ultimately show thesis using b(3) by (intro that)
qed

text \<open>From the commit on, where nothing but the drawn values can refuse the row.\<close>

lemma erasure_commits:
  assumes fit: "fits (open_rows u) User written" and w: "rid written = user_id" "replaced_person h d written"
    and there: "\<exists>r\<in>set (open_rows u User). rid r = user_id" and tenant: "cells written ''tenant_id'' = cells user ''tenant_id''"
    and clean: "nothing_of user_id (cells user ''tenant_id'') (cells user ''email'') (open_rows u)" "unowned (Text (owner_of User user_id)) (open_rows u)"
  shows "\<exists>t. andThen (commit_row User written) (\<lambda>_. andThen (release uuids) (\<lambda>_.
      andThen (refusing_rows ''error.duplicated-record'' (insert_row SystemLog (erasure_log stamp (cells user ''tenant_id'') user_id))) (\<lambda>_.
      andThen persist (\<lambda>_. ret written)))) u = (Ok written, t) \<and> open_rows t = committed t
      \<and> forgotten h d user_id user (committed t) \<and> (\<forall>q. q \<notin> set TOUCHED \<longrightarrow> committed t q = open_rows u q)"
proof -
  let ?sh = "(open_rows u)(User := amend (\<lambda>q. rid q = rid written) (\<lambda>_. written) (open_rows u User))"
  let ?v = "u\<lparr>open_rows := ?sh, committed := ?sh\<rparr>"
  have committed: "commit_row User written u = (Ok (), ?v)"
    using fit by (simp add: commit_row_def refusing_rows_def handle_def write_row_apply andThen_def)
  from there obtain q where "q \<in> set (open_rows u User)" "rid q = user_id" by blast
  then have "written \<in> set (?sh User)" using w(1) by (force simp: set_amend)
  then have row: "(\<exists>r\<in>set (?sh User). rid r = user_id) \<and> (\<forall>r\<in>set (?sh User). rid r = user_id \<longrightarrow> replaced_person h d r)"
    using w by (intro conjI) (blast, auto simp: set_amend)
  obtain x where x: "release uuids ?v = (Ok (), x)" "\<And>q. q \<notin> file_tables \<Longrightarrow> open_rows x q = ?sh q"
    "unowned (Text (owner_of User user_id)) (open_rows x)"
    by (rule release_frame [of ?v uuids "Text (owner_of User user_id)"]) (use clean(2) in \<open>simp_all add: unowned_def\<close>)
  have users: "open_rows x User = ?sh User" and tenants: "open_rows x Tenant = open_rows u Tenant" using x(2) [of User] x(2) [of Tenant] by simp_all
  have named: "names_one (open_rows x User) (key_to user_id)" using row by (auto simp: names_one_def users list_ex_iff)
  have "(''tenant_id'', Tenant) \<in> set (referenced User)" by code_simp
  with fit tenant have scoped: "cells user ''tenant_id'' = Null \<or> names_one (open_rows x Tenant) (cells user ''tenant_id'')"
    by (fastforce simp: fits_def anchored_def list_all_iff tenants)
  let ?log = "erasure_log stamp (cells user ''tenant_id'') user_id"
  let ?final = "(open_rows x)(SystemLog := append_row ?log (open_rows x SystemLog))"
  have logged: "refusing_rows ''error.duplicated-record'' (insert_row SystemLog ?log) x = (Ok (?log\<lparr>rid := next_id (open_rows x SystemLog)\<rparr>), x\<lparr>open_rows := ?final\<rparr>)"
    by (simp add: refusing_rows_def handle_def insert_row_apply log_fits [OF named scoped])
  have "nothing_of user_id (cells user ''tenant_id'') (cells user ''email'') ?final"
    using clean(1) x(2) by (simp add: nothing_of_def OF_THE_PERSON_def)
  moreover have "unowned (Text (owner_of User user_id)) ?final" using x(3) by (simp add: unowned_def)
  ultimately have "forgotten h d user_id user ?final" using row by (simp add: forgotten_def users)
  moreover have "?final q = open_rows u q" if "q \<notin> set TOUCHED" for q using that x(2) [of q] by (auto simp: TOUCHED_def OF_THE_PERSON_def)
  ultimately show ?thesis using committed x(1) logged
    by (auto simp: andThen_def persist_def refusing_rows_def handle_def)
qed

text \<open>Where the row is there and unerased, an erasure comes to its commit.\<close>

abbreviation unerased :: "nat \<Rightarrow> item \<Rightarrow> bool" where
  "unerased user_id r \<equiv> rid r = user_id \<and> cells r ''status'' \<noteq> Text ''erased''"

abbreviation erasure_rest :: "house \<Rightarrow> nat \<Rightarrow> datetime \<Rightarrow> item \<Rightarrow> string list \<Rightarrow> item \<Rightarrow> item desk" where
  "erasure_rest h user_id stamp user left written \<equiv>
     andThen (commit_row User written) (\<lambda>_. andThen (release (remdups (mentioned (user_service h) user @ left))) (\<lambda>_.
     andThen (refusing_rows ''error.duplicated-record'' (insert_row SystemLog (erasure_log stamp (cells user ''tenant_id'') user_id))) (\<lambda>_.
     andThen persist (\<lambda>_. ret written))))"

lemma held_row: "hold_row user_id s = (if hits (unerased user_id) (open_rows s User) \<noteq> 1 then Err (ConflictError ''error.account-erased'') else Ok (),
    s\<lparr>open_rows := (open_rows s)(User := amend (unerased user_id) (marked (moment s) ''updated_at'' (Moment (moment s))) (open_rows s User))\<rparr>)"
  by (simp add: hold_row_def mark_rows_apply andThen_def throw_def)

lemma erasure_runs:
  assumes stands: "standing named_files_stay s" and once: "hits (unerased user_id) (open_rows s User) = 1"
  obtains user0 user named sh where "fetch user_id (open_rows s User) = Some user0" and "rid user = user_id"
    and "\<forall>name. name \<noteq> ''updated_at'' \<longrightarrow> cells user name = cells user0 name" and "cells user0 ''updated_at'' \<noteq> Null \<longrightarrow> cells user ''updated_at'' \<noteq> Null"
    and "erase h d user_id s = erasure_rest h user_id (moment s) user named (edited User (moment s) (erased_sheet h d (moment s)) user) (s\<lparr>open_rows := sh\<rparr>)"
    and "\<forall>u. u \<notin> set TOUCHED \<longrightarrow> sh u = open_rows s u" and "\<exists>r\<in>set (sh User). rid r = user_id"
    and "filter (\<lambda>q. rid q \<noteq> user_id) (sh User) = filter (\<lambda>q. rid q \<noteq> user_id) (open_rows s User)"
    and "nothing_of user_id (cells user ''tenant_id'') (cells user ''email'') sh" and "unowned (Text (owner_of User user_id)) sh"
proof -
  let ?mark = "marked (moment s) ''updated_at'' (Moment (moment s))"
  let ?rows = "amend (unerased user_id) ?mark (open_rows s User)"
  let ?s = "s\<lparr>open_rows := (open_rows s)(User := ?rows)\<rparr>"
  from once have "filter (unerased user_id) (open_rows s User) \<noteq> []" by (auto simp: hits_def)
  then obtain q where q: "q \<in> set (open_rows s User)" "rid q = user_id" by (auto simp: filter_empty_conv)
  then obtain user0 where user0: "fetch user_id (open_rows s User) = Some user0" by (metis fetch_None_iff image_eqI option.exhaust)
  define user where "user = (if unerased user_id user0 then ?mark user0 else user0)"
  have user: "fetch user_id ?rows = Some user" using user0 by (simp add: fetch_amend user_def)
  have cells: "rid user = user_id" "\<forall>name. name \<noteq> ''updated_at'' \<longrightarrow> cells user name = cells user0 name"
      "cells user0 ''updated_at'' \<noteq> Null \<longrightarrow> cells user ''updated_at'' \<noteq> Null"
    using fetch_Some_in [OF user0] by (auto simp: user_def marked_def setattr_def)
  have others: "filter (\<lambda>q. rid q \<noteq> user_id) (amend (unerased user_id) ?mark rows) = filter (\<lambda>q. rid q \<noteq> user_id) rows" for rows
    by (induction rows) (auto simp: amend_def)
  have "named_files_stay (discarded s) (open_rows s)" using stands by (simp add: standing_def)
  then have files: "named_files_stay (discarded s) (open_rows ?s)" by (rule stay_frame) simp_all
  have there: "\<exists>r\<in>set (open_rows ?s User). rid r = user_id" using fetch_Some_in [OF user] by auto
  have open_user: "fetch user_id (open_rows ?s User) = Some user" using user by simp
  obtain named sh where work: "\<And>k :: string list \<Rightarrow> item desk. andThen (forget (\<lambda>v. v = Text (owner_of User user_id))) (\<lambda>named.
      andThen (forget_behaviour user_id (cells user ''tenant_id'') (cells user ''email'')) (\<lambda>_. k named)) ?s = k named (?s\<lparr>open_rows := sh\<rparr>)"
    "\<And>u. u \<notin> set TOUCHED \<or> u = User \<Longrightarrow> sh u = open_rows ?s u"
    "nothing_of user_id (cells user ''tenant_id'') (cells user ''email'') sh" "unowned (Text (owner_of User user_id)) sh"
    by (rule erasure_work [OF files there open_user]) auto
  have held: "andThen (hold_row user_id) k s = k () ?s" for k :: "unit \<Rightarrow> item desk" using once by (simp add: held_row andThen_def)
  have refreshed: "andThen (refreshed_row User user_id) k ?s = k user ?s" for k :: "item \<Rightarrow> item desk"
    using user by (simp add: refreshed_row_def andThen_def need_def ret_def)
  have same: "moment ?s = moment s" by simp
  have "erase h d user_id s = erasure_rest h user_id (moment s) user named (edited User (moment s) (erased_sheet h d (moment s)) user) (?s\<lparr>open_rows := sh\<rparr>)"
    unfolding erase_def held refreshed andThen_hour Let_def same work(1) ..
  then have "erase h d user_id s = erasure_rest h user_id (moment s) user named (edited User (moment s) (erased_sheet h d (moment s)) user) (s\<lparr>open_rows := sh\<rparr>)"
    by simp
  moreover have "\<forall>u. u \<notin> set TOUCHED \<longrightarrow> sh u = open_rows s u" using work(2) by (auto simp: TOUCHED_def OF_THE_PERSON_def)
  moreover have "\<exists>r\<in>set (sh User). rid r = user_id" using there work(2) [of User] by simp
  moreover have "filter (\<lambda>q. rid q \<noteq> user_id) (sh User) = filter (\<lambda>q. rid q \<noteq> user_id) (open_rows s User)" using work(2) [of User] others by simp
  ultimately show thesis using user0 cells work(3,4) by (intro that)
qed

text \<open>
  C29: An erasure that is answered left nothing personal: the row of the account holds only what was drawn for it, nothing of what the person did
  is kept, no file is named by it, and whatever was paid is as it was; and it is answered once. One that is refused is refused as a conflict and leaves
  everything that was committed as it was.
\<close>

theorem erasure_leaves_nothing_personal:
  assumes stands: "standing named_files_stay s" and clean: "open_rows s = committed s"
  shows "case erase h d user_id s of
      (Ok _, t) \<Rightarrow> (\<exists>user. fetch user_id (committed s User) = Some user \<and> forgotten h d user_id user (committed t))
        \<and> (\<forall>u. u \<notin> set TOUCHED \<longrightarrow> committed t u = committed s u)
        \<and> fst (erase h other user_id t) = Err (ConflictError ''error.account-erased'')
    | (Err e, t) \<Rightarrow> committed t = committed s \<and> (\<exists>code. e = ConflictError code)
    | (Hangs, t) \<Rightarrow> False"
proof (cases "hits (unerased user_id) (open_rows s User) = 1")
  case False
  then show ?thesis by (simp add: erase_def held_row andThen_def)
next
  case True
  obtain user0 user named sh where run: "fetch user_id (open_rows s User) = Some user0" "rid user = user_id"
    "\<forall>name. name \<noteq> ''updated_at'' \<longrightarrow> cells user name = cells user0 name" "cells user0 ''updated_at'' \<noteq> Null \<longrightarrow> cells user ''updated_at'' \<noteq> Null"
    "erase h d user_id s = erasure_rest h user_id (moment s) user named (edited User (moment s) (erased_sheet h d (moment s)) user) (s\<lparr>open_rows := sh\<rparr>)"
    "\<forall>u. u \<notin> set TOUCHED \<longrightarrow> sh u = open_rows s u" "\<exists>r\<in>set (sh User). rid r = user_id"
    "filter (\<lambda>q. rid q \<noteq> user_id) (sh User) = filter (\<lambda>q. rid q \<noteq> user_id) (open_rows s User)"
    "nothing_of user_id (cells user ''tenant_id'') (cells user ''email'') sh" "unowned (Text (owner_of User user_id)) sh"
    by (rule erasure_runs [OF stands True, of h d])
  let ?written = "edited User (moment s) (erased_sheet h d (moment s)) user"
  let ?u = "s\<lparr>open_rows := sh\<rparr>"
  have written: "rid ?written = user_id" "replaced_person h d ?written" "cells ?written ''tenant_id'' = cells user ''tenant_id''"
    using run(2) by (simp_all add: rid_edited erased_person erased_tenant)
  show ?thesis
  proof (cases "fits (open_rows ?u) User ?written")
    case False
    then have "commit_row User ?written ?u = (Err (ConflictError ''error.duplicated-record''), ?u\<lparr>open_rows := committed s\<rparr>)"
      by (simp add: commit_row_def refusing_rows_def handle_def write_row_apply andThen_def throw_def)
    with run(5) show ?thesis by (simp add: andThen_def)
  next
    case fit: True
    from erasure_commits [where u = ?u and uuids = "remdups (mentioned (user_service h) user @ named)" and stamp = "moment s",
      OF fit written(1,2) _ written(3)] run(7,9,10)
    obtain t where t: "erase h d user_id s = (Ok ?written, t)" "open_rows t = committed t" "forgotten h d user_id user (committed t)"
        "\<forall>q. q \<notin> set TOUCHED \<longrightarrow> committed t q = sh q" by (auto simp: run(5))
    have "hits (unerased user_id) (open_rows t User) = 0"
      using t(2,3) by (auto simp: forgotten_def replaced_person_def hits_def filter_empty_conv)
    then have "fst (erase h other user_id t) = Err (ConflictError ''error.account-erased'')"
      by (simp add: erase_def held_row andThen_def)
    moreover have "forgotten h d user_id user0 (committed t)" using t(3) run(3) by (simp add: forgotten_def)
    ultimately show ?thesis using t(1,4) run(1,6) clean by auto
  qed
qed

section \<open>A reader\<close>

definition reader_row :: item where
  "reader_row = \<lparr>rid = 1, cells = no_cells(''token'' := Text ''reader'', ''tenant_id'' := key_to 1, ''email'' := Text ''reader@example.com'',
     ''first_name'' := Text ''Ada'', ''password_hash'' := Text ''hash'', ''role'' := Text ''normal'', ''reaches_shared'' := Flag False,
     ''status'' := Text ''active'', ''gender'' := Text ''female'', ''timezone'' := Text ''UTC'', ''failed_sign_ins'' := Whole 0,
     ''session_epoch'' := Whole 0, ''meta'' := Doc ''{}'', ''created_at'' := Moment (on_day 2025 1 1), ''updated_at'' := Moment (on_day 2025 1 1))\<rparr>"

definition reader_shelves :: shelves where
  "reader_shelves = small_shelves(User := [reader_row],
     UserAddress := [\<lparr>rid = 1, cells = no_cells(''user_id'' := key_to 1, ''city'' := Text ''London'')\<rparr>],
     Purchase := [\<lparr>rid = 1, cells = no_cells(''user_id'' := key_to 1)\<rparr>])"

definition reader_panel :: panel where
  "reader_panel = \<lparr>open_rows = reader_shelves, committed = reader_shelves, moment = on_day 2026 1 1, discarded = []\<rparr>"

definition nobody_drawn :: drawn_person where
  "nobody_drawn = \<lparr>dp_name = ''00000000000000000000000000000000'', dp_password = ''drawn'', dp_token = ''fresh''\<rparr>"

lemma erased_whole:
  assumes "whole_row User r" and "cells user ''updated_at'' \<noteq> Null" and "\<And>name. name \<noteq> ''updated_at'' \<Longrightarrow> cells user name = cells r name"
  shows "whole_row User (edited User stamp (erased_sheet h d stamp) user)"
proof -
  let ?e = "edited User stamp (erased_sheet h d stamp) user"
  have sheet: "list_all (\<lambda>c. co_nullable c \<or> erased_sheet h d stamp (column.co_name c) \<noteq> Some Null) (columns User)"
    by (simp add: columns_def user_model_def col_def points_def erased_sheet_def)
  have cell: "cells ?e (column.co_name c) \<noteq> Null" if c: "c \<in> set (columns User)" "\<not> co_nullable c" for c
  proof (cases "column.co_name c = ''updated_at''")
    case True
    then show ?thesis using assms(2) by (simp add: edited_def Let_def setattr_def erased_sheet_def split: option.splits)
  next
    case False
    have "column_of User (column.co_name c) \<noteq> None" using c(1) by (auto simp: column_of_def find_None_iff_all)
    then obtain c' where "column_of User (column.co_name c) = Some c'" by blast
    from edited_cell [OF this False] c False assms(1,3) sheet show ?thesis
      by (auto simp: whole_row_def list_all_iff split: option.splits)
  qed
  then show ?thesis by (auto simp: whole_row_def list_all_iff)
qed

lemma reader_erased: "\<exists>r t. erase plain_house nobody_drawn 1 reader_panel = (Ok r, t)"
proof -
  have stands: "standing named_files_stay reader_panel"
    by (simp add: standing_def reader_panel_def reader_shelves_def small_shelves_def named_files_stay_def)
  have rows: "open_rows reader_panel = reader_shelves" "reader_shelves User = [reader_row]" by (simp_all add: reader_panel_def reader_shelves_def)
  have once: "hits (unerased 1) (open_rows reader_panel User) = 1" by (simp add: rows hits_def reader_row_def no_cells_def)
  obtain user0 user named sh where run: "fetch 1 (open_rows reader_panel User) = Some user0" "rid user = 1"
    "\<forall>name. name \<noteq> ''updated_at'' \<longrightarrow> cells user name = cells user0 name" "cells user0 ''updated_at'' \<noteq> Null \<longrightarrow> cells user ''updated_at'' \<noteq> Null"
    "erase plain_house nobody_drawn 1 reader_panel = erasure_rest plain_house 1 (moment reader_panel) user named
        (edited User (moment reader_panel) (erased_sheet plain_house nobody_drawn (moment reader_panel)) user) (reader_panel\<lparr>open_rows := sh\<rparr>)"
    "\<forall>u. u \<notin> set TOUCHED \<longrightarrow> sh u = open_rows reader_panel u" "\<exists>r\<in>set (sh User). rid r = 1"
    "filter (\<lambda>q. rid q \<noteq> 1) (sh User) = filter (\<lambda>q. rid q \<noteq> 1) (open_rows reader_panel User)"
    "nothing_of 1 (cells user ''tenant_id'') (cells user ''email'') sh" "unowned (Text (owner_of User 1)) sh"
    by (rule erasure_runs [OF stands once])
  let ?written = "edited User (moment reader_panel) (erased_sheet plain_house nobody_drawn (moment reader_panel)) user"
  have u0: "user0 = reader_row" using run(1) by (simp add: rows fetch_def reader_row_def)
  have whole: "whole_row User reader_row" by code_simp
  have "cells user ''updated_at'' \<noteq> Null" using run(4) by (simp add: u0 reader_row_def)
  from erased_whole [OF whole this] have "whole_row User ?written" using run(3) u0 by blast
  moreover have "alone User (filter (\<lambda>q. rid q \<noteq> rid ?written) (sh User)) ?written"
  proof -
    have "filter (\<lambda>q. rid q \<noteq> rid ?written) (sh User) = []" using run(8) run(2) by (simp add: rid_edited rows reader_row_def)
    then show ?thesis by (simp add: alone_def free_of_def list_all_iff split: option.splits)
  qed
  moreover have "anchored sh User ?written"
  proof -
    have "referenced User = [(''tenant_id'', Tenant), (''language_id'', Language)]" by code_simp
    moreover have "column_of User ''language_id'' \<noteq> None" by code_simp
    then have "cells ?written ''language_id'' = Null" using u0 run(3) by (auto simp: edited_cell erased_sheet_def reader_row_def no_cells_def)
    moreover have "sh Tenant = reader_shelves Tenant" using run(6) by (simp add: rows TOUCHED_def OF_THE_PERSON_def)
    then have "names_one (sh Tenant) (cells ?written ''tenant_id'')"
      using u0 run(3) by (simp add: erased_tenant reader_row_def reader_shelves_def small_shelves_def names_one_def)
    ultimately show ?thesis by (simp add: anchored_def)
  qed
  ultimately have "fits (open_rows (reader_panel\<lparr>open_rows := sh\<rparr>)) User ?written" by (simp add: fits_def)
  moreover have "rid ?written = 1" "replaced_person plain_house nobody_drawn ?written" "cells ?written ''tenant_id'' = cells user ''tenant_id''"
    using run(2) by (simp_all add: rid_edited erased_person erased_tenant)
  moreover have "\<exists>r\<in>set (open_rows (reader_panel\<lparr>open_rows := sh\<rparr>) User). rid r = 1" using run(7) by simp
  moreover have "nothing_of 1 (cells user ''tenant_id'') (cells user ''email'') (open_rows (reader_panel\<lparr>open_rows := sh\<rparr>))"
      "unowned (Text (owner_of User 1)) (open_rows (reader_panel\<lparr>open_rows := sh\<rparr>))" using run(9,10) by simp_all
  ultimately show ?thesis
    using erasure_commits [where u = "reader_panel\<lparr>open_rows := sh\<rparr>" and written = ?written and h = plain_house and d = nobody_drawn and user_id = 1
      and user = user and uuids = "remdups (mentioned (user_service plain_house) user @ named)" and stamp = "moment reader_panel"] run(5) by metis
qed

lemma erasure_leaves_nothing_personal_witness:
  "\<exists>r t. erase plain_house nobody_drawn 1 reader_panel = (Ok r, t)
     \<and> (\<forall>q\<in>set (committed t UserAddress). cells q ''user_id'' \<noteq> key_to 1)
     \<and> (\<forall>q\<in>set (committed t User). rid q = 1 \<longrightarrow> cells q ''first_name'' = Null)
     \<and> committed t Purchase = reader_shelves Purchase"
proof -
  have "standing named_files_stay reader_panel"
    by (simp add: standing_def reader_panel_def reader_shelves_def small_shelves_def named_files_stay_def)
  note erased = erasure_leaves_nothing_personal [OF this, where h = plain_house and d = nobody_drawn and user_id = 1 and other = nobody_drawn]
  obtain r t where t0: "erase plain_house nobody_drawn 1 reader_panel = (Ok r, t)" using reader_erased by blast
  have "open_rows reader_panel = committed reader_panel" by (simp add: reader_panel_def)
  from erased [OF this] have t: "erase plain_house nobody_drawn 1 reader_panel = (Ok r, t)"
      "\<exists>user. forgotten plain_house nobody_drawn 1 user (committed t)" "\<forall>u. u \<notin> set TOUCHED \<longrightarrow> committed t u = committed reader_panel u"
    unfolding t0 by (auto simp del: One_nat_def)
  have "Purchase \<notin> set TOUCHED" by (simp add: TOUCHED_def OF_THE_PERSON_def)
  with t(3) have "committed t Purchase = reader_shelves Purchase" by (simp add: reader_panel_def)
  with t(1,2) show ?thesis
    by (auto simp: forgotten_def nothing_of_def replaced_person_def OF_THE_PERSON_def EMPTIED_def)
qed

end
