(* ===== verification/Rotation.thy ===== *)
theory Rotation
  imports File_Life
begin

text \<open>
  \<^verbatim>\<open>services/rotation_service.py\<close>: the rewrite that lets a key be replaced. Every column of a stored secret is found on the schema, read with
  every key there is, and written back under the first. The cipher is outside: \<open>opens\<close> is what some key of the ring opens a text as.
\<close>

section \<open>The rewrite\<close>

definition SUFFIX :: string where
  "SUFFIX = ''_encrypted''"

definition BATCH_SIZE :: nat where
  "BATCH_SIZE = 1000"

text \<open>The tables and their columns are in alphabetical order in the schema already.\<close>

definition stored_secrets :: "(table \<times> string list) list" where
  "stored_secrets = filter (\<lambda>(t, names). names \<noteq> [])
     (map (\<lambda>t. (t, filter (\<lambda>name. prefix (rev SUFFIX) (rev name)) (map co_name (columns t)))) tables)"

definition decrypt :: "(string \<Rightarrow> string option) \<Rightarrow> cell \<Rightarrow> string option" where
  "decrypt opens v = (case v of Text k \<Rightarrow> if k = '''' then None else opens k | _ \<Rightarrow> None)"

fun rewrite_row :: "house \<Rightarrow> (string \<Rightarrow> string option) \<Rightarrow> item \<Rightarrow> string list \<Rightarrow> (string \<times> cell) list outcome" where
  "rewrite_row h opens r [] = Ok []"
| "rewrite_row h opens r (column # names) =
     (if \<not> truthy_cell (cells r column) then rewrite_row h opens r names else
      case decrypt opens (cells r column) of
        None \<Rightarrow> Err (ValidationError ''error.secret-unreadable'' column)
      | Some plaintext \<Rightarrow> (case rewrite_row h opens r names of
            Ok changes \<Rightarrow> Ok ((column, encrypt h (Text plaintext)) # changes)
          | Err e \<Rightarrow> Err e | Hangs \<Rightarrow> Hangs))"

definition overwritten :: "datetime \<Rightarrow> (string \<times> cell) list \<Rightarrow> item \<Rightarrow> item" where
  "overwritten stamp changes r = setattr ''updated_at'' (Moment stamp) (foldl (\<lambda>q (name, v). setattr name v q) r changes)"

definition overwrite_rows :: "table \<Rightarrow> (item \<Rightarrow> bool) \<Rightarrow> (string \<times> cell) list \<Rightarrow> nat desk" where
  "overwrite_rows t p changes =
     andThen (look (\<lambda>sh. sh t)) (\<lambda>rows.
     andThen hour (\<lambda>stamp.
     andThen (put_rows t (amend p (overwritten stamp changes) rows)) (\<lambda>_. ret (hits p rows))))"

definition rewrite_one :: "house \<Rightarrow> (string \<Rightarrow> string option) \<Rightarrow> table \<Rightarrow> string list \<Rightarrow> item \<Rightarrow> nat desk" where
  "rewrite_one h opens t names r =
     andThen (lift (rewrite_row h opens r names)) (\<lambda>changes.
     if changes = [] then ret 0 else
     andThen (overwrite_rows t (\<lambda>q. rid q = rid r \<and> list_all (\<lambda>c. cells q c = cells r c) names) changes) (\<lambda>rowcount.
     if rowcount \<noteq> 1 then throw (ConflictError ''error.secret-changed'') else ret (length changes)))"

text \<open>The rows are walked a page at a time, each past the last of the one before. The fuel counts the pages.\<close>

fun rewrite_model :: "nat \<Rightarrow> house \<Rightarrow> (string \<Rightarrow> string option) \<Rightarrow> table \<Rightarrow> string list \<Rightarrow> nat \<Rightarrow> nat desk" where
  "rewrite_model 0 h opens t names last_id = hang"
| "rewrite_model (Suc fuel) h opens t names last_id =
     andThen (look (\<lambda>sh. take BATCH_SIZE (sort_key rid (filter (\<lambda>r. last_id < rid r) (sh t))))) (\<lambda>rows.
     if rows = [] then ret 0 else
     andThen (each (rewrite_one h opens t names) rows) (\<lambda>counts.
     andThen (rewrite_model fuel h opens t names (rid (last rows))) (\<lambda>others. ret (sum_list counts + others))))"

definition rewrite :: "nat \<Rightarrow> house \<Rightarrow> (string \<Rightarrow> string option) \<Rightarrow> nat desk" where
  "rewrite fuel h opens =
     handle (andThen (each (\<lambda>(t, names). rewrite_model fuel h opens t names 0) stored_secrets) (\<lambda>counts.
             andThen persist (\<lambda>_. ret (sum_list counts))))
       (\<lambda>e. andThen undo_rows (\<lambda>_. throw e))"

section \<open>What a row becomes\<close>

lemma stored_secrets: "stored_secrets =
    [(Integration, [''revenuecat_api_key_encrypted'', ''revenuecat_webhook_secret_encrypted'', ''stripe_api_key_encrypted'', ''stripe_webhook_secret_encrypted'']),
     (SocialLoginAttempt, [''verifier_encrypted''])]"
  by code_simp

definition readable :: "(string \<Rightarrow> string option) \<Rightarrow> string list \<Rightarrow> item \<Rightarrow> bool" where
  "readable opens names r \<longleftrightarrow> (\<forall>c\<in>set names. truthy_cell (cells r c) \<longrightarrow> decrypt opens (cells r c) \<noteq> None)"

definition changes_of :: "house \<Rightarrow> (string \<Rightarrow> string option) \<Rightarrow> string list \<Rightarrow> item \<Rightarrow> (string \<times> cell) list" where
  "changes_of h opens names r =
     map (\<lambda>c. (c, encrypt h (Text (the (decrypt opens (cells r c)))))) (filter (\<lambda>c. truthy_cell (cells r c)) names)"

definition resealed :: "house \<Rightarrow> (string \<Rightarrow> string option) \<Rightarrow> datetime \<Rightarrow> string list \<Rightarrow> item \<Rightarrow> item" where
  "resealed h opens stamp names r =
     (if changes_of h opens names r = [] then r else overwritten stamp (changes_of h opens names r) r)"

lemma rewrite_row_apply:
  "rewrite_row h opens r names = Ok (changes_of h opens names r) \<and> readable opens names r
    \<or> (\<exists>e. rewrite_row h opens r names = Err e) \<and> \<not> readable opens names r"
proof (induction names)
  case (Cons c names)
  then show ?case
    by (cases "truthy_cell (cells r c)"; cases "decrypt opens (cells r c)") (auto simp: changes_of_def readable_def)
qed (simp add: changes_of_def readable_def)

lemma rid_overwritten [simp]: "rid (overwritten stamp changes r) = rid r"
proof -
  have "rid (foldl (\<lambda>q (name, v). setattr name v q) r changes) = rid r"
    by (induction changes arbitrary: r) (auto simp: setattr_def)
  then show ?thesis by (simp add: overwritten_def setattr_def)
qed

lemma rid_resealed [simp]: "rid (resealed h opens stamp names r) = rid r"
  by (simp add: resealed_def)

lemma cells_foldl: "distinct (map fst changes) \<Longrightarrow> cells (foldl (\<lambda>q (name, v). setattr name v q) r changes) c
    = (case map_of changes c of None \<Rightarrow> cells r c | Some v \<Rightarrow> v)"
proof (induction changes arbitrary: r)
  case (Cons change changes)
  then show ?case
    by (cases change) (auto simp: setattr_def map_of_eq_None_iff [symmetric] split: option.splits)
qed simp

lemma cells_resealed:
  assumes "distinct names" and "c \<noteq> ''updated_at''"
  shows "cells (resealed h opens stamp names r) c =
    (if c \<in> set names \<and> truthy_cell (cells r c) then encrypt h (Text (the (decrypt opens (cells r c)))) else cells r c)"
proof -
  have d: "distinct (map fst (changes_of h opens names r))" using assms(1) by (simp add: changes_of_def comp_def)
  have m: "map_of (changes_of h opens names r) c =
      (if c \<in> set names \<and> truthy_cell (cells r c) then Some (encrypt h (Text (the (decrypt opens (cells r c))))) else None)"
    by (induction names) (auto simp: changes_of_def)
  show ?thesis
  proof (cases "changes_of h opens names r = []")
    case True
    then have "\<not> (c \<in> set names \<and> truthy_cell (cells r c))" by (auto simp: changes_of_def filter_empty_conv)
    with True show ?thesis by (auto simp: resealed_def)
  next
    case False
    then show ?thesis using assms(2) cells_foldl [OF d, of r c] m
      by (simp add: resealed_def overwritten_def setattr_def)
  qed
qed

section \<open>The pages\<close>

definition resealing :: "house \<Rightarrow> (string \<Rightarrow> string option) \<Rightarrow> datetime \<Rightarrow> string list \<Rightarrow> nat set \<Rightarrow> item list \<Rightarrow> item list" where
  "resealing h opens stamp names D rows = map (\<lambda>r. if rid r \<in> D then resealed h opens stamp names r else r) rows"

lemma left_as_they_were: "filter (\<lambda>r. last_id < rid r) (resealing h opens stamp names {i. i \<le> last_id} rows) = after_row last_id rows"
  by (induction rows) (auto simp: resealing_def after_row_def)

lemma overwrite_rows_apply: "overwrite_rows t p changes s =
    (Ok (hits p (open_rows s t)), s\<lparr>open_rows := (open_rows s)(t := amend p (overwritten (moment s) changes) (open_rows s t))\<rparr>)"
  by (simp add: overwrite_rows_def andThen_def put_rows_def writes_def)

lemma rewrite_one_apply:
  assumes rows: "open_rows s t = resealing h opens (moment s) names D rows" and ids: "distinct (map rid rows)"
    and q: "q \<in> set rows" "rid q \<notin> D"
  shows "(\<exists>n. rewrite_one h opens t names q s = (Ok n, s\<lparr>open_rows := (open_rows s)(t := resealing h opens (moment s) names (insert (rid q) D) rows)\<rparr>))
      \<and> readable opens names q
    \<or> (\<exists>e. rewrite_one h opens t names q s = (Err e, s)) \<and> \<not> readable opens names q"
proof -
  let ?p = "\<lambda>r. rid r = rid q \<and> list_all (\<lambda>c. cells r c = cells q c) names"
  have one: "rid r = rid q \<longleftrightarrow> r = q" if "r \<in> set rows" for r using that q(1) ids by (auto simp: distinct_map inj_on_def)
  have same: "amend ?p (overwritten (moment s) changes) (open_rows s t) =
      map (\<lambda>r. if r = q then overwritten (moment s) changes r else if rid r \<in> D then resealed h opens (moment s) names r else r) rows" for changes
    using one q(2) by (auto simp: rows resealing_def amend_def list_all_iff)
  have hits: "hits ?p (open_rows s t) = 1"
  proof -
    have "filter ?p (open_rows s t) = map (\<lambda>r. if rid r \<in> D then resealed h opens (moment s) names r else r) (filter (\<lambda>r. r = q) rows)"
      unfolding rows resealing_def filter_map comp_def using one q(2)
      by (intro arg_cong [where f = "map _"] filter_cong) (auto simp: list_all_iff)
    then show ?thesis using filter_the_one [OF _ q(1)] ids by (simp add: hits_def distinct_map)
  qed
  show ?thesis
  proof (cases "readable opens names q")
    case True
    then have changes: "rewrite_row h opens q names = Ok (changes_of h opens names q)" using rewrite_row_apply by blast
    have after: "resealing h opens (moment s) names (insert (rid q) D) rows =
        map (\<lambda>r. if r = q then resealed h opens (moment s) names r else if rid r \<in> D then resealed h opens (moment s) names r else r) rows"
      using one by (auto simp: resealing_def)
    show ?thesis
    proof (cases "changes_of h opens names q = []")
      case True
      then have "resealing h opens (moment s) names (insert (rid q) D) rows = open_rows s t"
        using one q(2) by (auto simp: rows resealing_def resealed_def)
      then have "s\<lparr>open_rows := (open_rows s)(t := resealing h opens (moment s) names (insert (rid q) D) rows)\<rparr> = s" by simp
      with True changes \<open>readable opens names q\<close> show ?thesis by (simp add: rewrite_one_def)
    next
      case False
      then have "map (\<lambda>r. if r = q then resealed h opens (moment s) names r else if rid r \<in> D then resealed h opens (moment s) names r else r) rows
          = amend ?p (overwritten (moment s) (changes_of h opens names q)) (open_rows s t)"
        unfolding same by (simp add: resealed_def [of h opens "moment s" names q])
      with after have "resealing h opens (moment s) names (insert (rid q) D) rows = amend ?p (overwritten (moment s) (changes_of h opens names q)) (open_rows s t)" by simp
      with False hits changes True show ?thesis
        by (simp add: rewrite_one_def andThen_Ok [OF overwrite_rows_apply])
    qed
  next
    case False
    then obtain e where "rewrite_row h opens q names = Err e" using rewrite_row_apply by blast
    with False show ?thesis by (simp add: rewrite_one_def)
  qed
qed

lemma rewriting_page:
  assumes "open_rows s t = resealing h opens (moment s) names D rows" and "distinct (map rid rows)"
    and "set page \<subseteq> set rows" and "distinct (map rid page)" and "rid ` set page \<inter> D = {}"
  shows "(\<exists>ns. each (rewrite_one h opens t names) page s =
        (Ok ns, s\<lparr>open_rows := (open_rows s)(t := resealing h opens (moment s) names (rid ` set page \<union> D) rows)\<rparr>)) \<and> list_all (readable opens names) page
    \<or> (\<exists>e u. each (rewrite_one h opens t names) page s = (Err e, u)) \<and> \<not> list_all (readable opens names) page"
  using assms
proof (induction page arbitrary: s D)
  case (Cons q page)
  have q: "q \<in> set rows" "rid q \<notin> D" using Cons.prems by auto
  let ?t = "s\<lparr>open_rows := (open_rows s)(t := resealing h opens (moment s) names (insert (rid q) D) rows)\<rparr>"
  note one = rewrite_one_apply [OF Cons.prems(1,2) q]
  have rest: "(\<exists>ns. each (rewrite_one h opens t names) page ?t =
        (Ok ns, ?t\<lparr>open_rows := (open_rows ?t)(t := resealing h opens (moment ?t) names (rid ` set page \<union> insert (rid q) D) rows)\<rparr>)) \<and> list_all (readable opens names) page
    \<or> (\<exists>e u. each (rewrite_one h opens t names) page ?t = (Err e, u)) \<and> \<not> list_all (readable opens names) page"
    by (rule Cons.IH) (use Cons.prems in auto)
  have again: "?t\<lparr>open_rows := (open_rows ?t)(t := rows')\<rparr> = s\<lparr>open_rows := (open_rows s)(t := rows')\<rparr>" for rows' by simp
  have ids: "rid ` set page \<union> insert (rid q) D = rid ` set (q # page) \<union> D" "moment ?t = moment s" by simp_all
  from one show ?case
  proof (elim disjE conjE exE)
    fix n
    assume n: "rewrite_one h opens t names q s = (Ok n, ?t)" "readable opens names q"
    note first = andThen_Ok [where m = "rewrite_one h opens t names q", OF n(1)]
    from rest show ?thesis unfolding again ids
    proof (elim disjE conjE exE)
      fix ms
      assume m: "each (rewrite_one h opens t names) page ?t
          = (Ok ms, s\<lparr>open_rows := (open_rows s)(t := resealing h opens (moment s) names (rid ` set (q # page) \<union> D) rows)\<rparr>)" "list_all (readable opens names) page"
      have "each (rewrite_one h opens t names) (q # page) s
          = (Ok (n # ms), s\<lparr>open_rows := (open_rows s)(t := resealing h opens (moment s) names (rid ` set (q # page) \<union> D) rows)\<rparr>)"
        by (simp only: each.simps first andThen_Ok [where m = "each (rewrite_one h opens t names) page", OF m(1)] ret_apply)
      moreover have "list_all (readable opens names) (q # page)" using n(2) m(2) by simp
      ultimately show ?thesis by blast
    next
      fix e u
      assume m: "each (rewrite_one h opens t names) page ?t = (Err e, u)" "\<not> list_all (readable opens names) page"
      have "each (rewrite_one h opens t names) (q # page) s = (Err e, u)"
        unfolding each.simps first by (simp add: andThen_def m(1))
      with m(2) show ?thesis by (simp del: each.simps)
    qed
  qed (simp add: andThen_def)
qed (simp add: resealing_def [symmetric] fun_upd_idem)

lemma page_split:
  fixes rows :: "item list" and a :: nat
  defines "page \<equiv> take BATCH_SIZE (sort_key rid (after_row a rows))"
  assumes "distinct (map rid rows)" and some: "page \<noteq> []"
  shows "set page = {r \<in> set rows. a < rid r \<and> rid r \<le> rid (last page)}" and "a < rid (last page)" and "distinct (map rid page)"
    and "length (after_row (rid (last page)) rows) = length (after_row a rows) - BATCH_SIZE"
proof -
  define left where "left = sort_key rid (after_row a rows)"
  have ids: "distinct (map rid left)" using assms(2) by (auto simp: left_def after_row_def distinct_map intro: inj_on_subset)
  then have strict: "sorted_wrt (\<lambda>a b. rid a < rid b) left"
    using strict_sorted_iff [of "map rid left"] sorted_sort_key [of rid "after_row a rows"] by (simp add: sorted_wrt_map left_def)
  have past: "after_row (rid (last page)) left = drop BATCH_SIZE left"
    using after_last [OF strict, of BATCH_SIZE] some by (simp add: page_def left_def)
  have joined: "left = page @ drop BATCH_SIZE left" by (simp add: page_def left_def)
  with ids have apart: "set page \<inter> set (drop BATCH_SIZE left) = {}" "distinct (map rid page)"
    by (metis distinct_append distinct_map) (metis distinct_append ids joined map_append)
  have members: "set left = {r \<in> set rows. a < rid r}" by (auto simp: left_def after_row_def)
  have "set (drop BATCH_SIZE left) = {r \<in> set left. rid (last page) < rid r}"
    using arg_cong [OF past, of set] by (simp add: after_row_def)
  moreover have "set left = set page \<union> set (drop BATCH_SIZE left)" using joined by (metis set_append)
  ultimately show in_page: "set page = {r \<in> set rows. a < rid r \<and> rid r \<le> rid (last page)}"
    using apart(1) members by (auto simp: not_less [symmetric])
  show last: "a < rid (last page)" using last_in_set [OF some] in_page by blast
  show "distinct (map rid page)" by (rule apart)
  have "after_row (rid (last page)) left = sort_key rid (after_row (rid (last page)) (after_row a rows))"
    by (simp add: left_def after_row_def filter_sort)
  moreover have "after_row (rid (last page)) (after_row a rows) = after_row (rid (last page)) rows"
    using last by (auto simp: after_row_def intro!: filter_cong)
  ultimately have "length (after_row (rid (last page)) rows) = length (drop BATCH_SIZE left)" using past by (metis length_sort)
  then show "length (after_row (rid (last page)) rows) = length (after_row a rows) - BATCH_SIZE" by (simp add: left_def)
qed

lemma rewriting_model:
  assumes "open_rows s t = resealing h opens (moment s) names {i. i \<le> last_id} rows" and "distinct (map rid rows)"
    and "length (after_row last_id rows) < fuel"
  shows "(\<exists>n. rewrite_model fuel h opens t names last_id s =
        (Ok n, s\<lparr>open_rows := (open_rows s)(t := map (resealed h opens (moment s) names) rows)\<rparr>)) \<and> list_all (readable opens names) (after_row last_id rows)
    \<or> (\<exists>e u. rewrite_model fuel h opens t names last_id s = (Err e, u)) \<and> \<not> list_all (readable opens names) (after_row last_id rows)"
  using assms(1,3)
proof (induction fuel arbitrary: s last_id)
  case (Suc fuel)
  let ?left = "sort_key rid (after_row last_id rows)"
  let ?page = "take BATCH_SIZE ?left"
  have "filter (\<lambda>r. last_id < rid r) (open_rows s t) = after_row last_id rows"
    unfolding Suc.prems(1) by (rule left_as_they_were)
  then have paged: "rewrite_model (Suc fuel) h opens t names last_id s = (if ?page = [] then ret 0 else
     andThen (each (rewrite_one h opens t names) ?page) (\<lambda>counts.
     andThen (rewrite_model fuel h opens t names (rid (last ?page))) (\<lambda>others. ret (sum_list counts + others)))) s"
    by (simp only: rewrite_model.simps andThen_look)
  show ?case
  proof (cases "after_row last_id rows = []")
    case True
    then have "\<forall>r\<in>set rows. rid r \<le> last_id" by (auto simp: after_row_def filter_empty_conv)
    then have "open_rows s t = map (resealed h opens (moment s) names) rows" unfolding Suc.prems(1) by (auto simp: resealing_def)
    then have "s\<lparr>open_rows := (open_rows s)(t := map (resealed h opens (moment s) names) rows)\<rparr> = s" by (simp add: fun_upd_idem)
    moreover have "rewrite_model (Suc fuel) h opens t names last_id s = (Ok 0, s)" using True paged by (simp del: rewrite_model.simps)
    ultimately show ?thesis using True by (metis list.pred_inject(1))
  next
    case False
    have "0 < BATCH_SIZE" by (simp add: BATCH_SIZE_def)
    then have some: "?page \<noteq> []" using False by simp (metis length_0_conv length_sort)
    let ?last = "rid (last ?page)"
    note page = page_split [OF assms(2) some]
    have "length (after_row ?last rows) < length (after_row last_id rows)"
      using page(4) False \<open>0 < BATCH_SIZE\<close> by (cases "after_row last_id rows") auto
    then have fuel: "length (after_row ?last rows) < fuel" using Suc.prems(2) by simp
    have "set (after_row last_id rows) = set ?page \<union> set (after_row ?last rows)"
      unfolding page(1) using page(2) by (auto simp: after_row_def)
    then have pieces: "list_all (readable opens names) (after_row last_id rows) \<longleftrightarrow>
        list_all (readable opens names) ?page \<and> list_all (readable opens names) (after_row ?last rows)"
      unfolding list_all_iff by blast
    have "set ?page \<subseteq> set rows" "rid ` set ?page \<inter> {i. i \<le> last_id} = {}" unfolding page(1) by auto
    note here = rewriting_page [OF Suc.prems(1) assms(2) this(1) page(3) this(2)]
    have covered: "resealing h opens (moment s) names (rid ` set ?page \<union> {i. i \<le> last_id}) rows = resealing h opens (moment s) names {i. i \<le> ?last} rows"
      unfolding page(1) using page(2) by (auto simp: resealing_def)
    let ?t = "s\<lparr>open_rows := (open_rows s)(t := resealing h opens (moment s) names {i. i \<le> ?last} rows)\<rparr>"
    have again: "?t\<lparr>open_rows := (open_rows ?t)(t := xs)\<rparr> = s\<lparr>open_rows := (open_rows s)(t := xs)\<rparr>" "moment ?t = moment s"
      "open_rows ?t t = resealing h opens (moment s) names {i. i \<le> ?last} rows" for xs by simp_all
    have there: "(\<exists>n. rewrite_model fuel h opens t names ?last ?t =
          (Ok n, s\<lparr>open_rows := (open_rows s)(t := map (resealed h opens (moment s) names) rows)\<rparr>)) \<and> list_all (readable opens names) (after_row ?last rows)
      \<or> (\<exists>e u. rewrite_model fuel h opens t names ?last ?t = (Err e, u)) \<and> \<not> list_all (readable opens names) (after_row ?last rows)"
      by (rule Suc.IH [of ?t ?last, unfolded again, OF refl fuel])
    from here [unfolded covered] show ?thesis
    proof (elim disjE conjE exE)
      fix counts
      assume n: "each (rewrite_one h opens t names) ?page s = (Ok counts, ?t)" "list_all (readable opens names) ?page"
      note whole = andThen_Ok [where m = "each (rewrite_one h opens t names) ?page", OF n(1)]
      from there show ?thesis
      proof (elim disjE conjE exE)
        fix others
        assume m: "rewrite_model fuel h opens t names ?last ?t
            = (Ok others, s\<lparr>open_rows := (open_rows s)(t := map (resealed h opens (moment s) names) rows)\<rparr>)"
          "list_all (readable opens names) (after_row ?last rows)"
        have "rewrite_model (Suc fuel) h opens t names last_id s
            = (Ok (sum_list counts + others), s\<lparr>open_rows := (open_rows s)(t := map (resealed h opens (moment s) names) rows)\<rparr>)"
          unfolding paged by (simp only: some if_False whole andThen_Ok [where m = "rewrite_model fuel h opens t names ?last", OF m(1)] ret_apply)
        with n(2) m(2) show ?thesis unfolding pieces by blast
      next
        fix e u
        assume m: "rewrite_model fuel h opens t names ?last ?t = (Err e, u)" "\<not> list_all (readable opens names) (after_row ?last rows)"
        have "rewrite_model (Suc fuel) h opens t names last_id s = (Err e, u)"
          unfolding paged by (simp only: some if_False whole) (simp add: andThen_def m(1))
        with m(2) show ?thesis unfolding pieces by blast
      qed
    next
      fix e u
      assume n: "each (rewrite_one h opens t names) ?page s = (Err e, u)" "\<not> list_all (readable opens names) ?page"
      have "rewrite_model (Suc fuel) h opens t names last_id s = (Err e, u)"
        unfolding paged by (simp only: some if_False) (simp add: andThen_def n(1))
      with n(2) show ?thesis unfolding pieces by blast
    qed
  qed
qed simp

section \<open>Every secret is kept\<close>

text \<open>What a column of a stored secret says, under a ring of keys: a secret, or that none is set.\<close>

definition secret :: "(string \<Rightarrow> string option) \<Rightarrow> cell \<Rightarrow> string option" where
  "secret opens v = (case decrypt opens v of Some [] \<Rightarrow> None | said \<Rightarrow> said)"

lemma secret_resealed:
  assumes "\<And>x. x \<noteq> [] \<Longrightarrow> ho_encrypt h x \<noteq> [] \<and> first (ho_encrypt h x) = Some x"
    and "distinct names" and "c \<in> set names" and "c \<noteq> ''updated_at''" and "readable opens names r"
  shows "secret first (cells (resealed h opens stamp names r) c) = secret opens (cells r c)"
proof (cases "truthy_cell (cells r c)")
  case True
  with assms(3,5) obtain x where x: "decrypt opens (cells r c) = Some x" by (auto simp: readable_def)
  with True assms(1) [of x] assms(2-4) show ?thesis
    by (cases "x = []") (auto simp: cells_resealed encrypt_def text_cell_def secret_def decrypt_def split: option.splits list.splits)
next
  case False
  then have "decrypt keys (cells r c) = None" for keys
    by (cases "cells r c") (auto simp: decrypt_def truthy_cell_def)
  with False assms(2-4) show ?thesis by (simp add: cells_resealed secret_def)
qed

text \<open>The rows one rewrite leaves in the place of others.\<close>

definition resealed_as :: "(string \<Rightarrow> string option) \<Rightarrow> (string \<Rightarrow> string option) \<Rightarrow> string list \<Rightarrow> item list \<Rightarrow> item list \<Rightarrow> bool" where
  "resealed_as first opens names before after \<longleftrightarrow> list_all2 (\<lambda>a b. rid b = rid a
     \<and> (\<forall>c. c \<in> set names \<longrightarrow> secret first (cells b c) = secret opens (cells a c))
     \<and> (\<forall>c. c \<notin> set names \<and> c \<noteq> ''updated_at'' \<longrightarrow> cells b c = cells a c)) before after"

lemma resealed_rows:
  assumes "\<And>x. x \<noteq> [] \<Longrightarrow> ho_encrypt h x \<noteq> [] \<and> first (ho_encrypt h x) = Some x"
    and "distinct names" and "''updated_at'' \<notin> set names" and "list_all (readable opens names) rows"
  shows "resealed_as first opens names rows (map (resealed h opens stamp names) rows)"
proof -
  have "secret first (cells (resealed h opens stamp names r) c) = secret opens (cells r c)" if "r \<in> set rows" "c \<in> set names" for r c
    by (rule secret_resealed [OF assms(1,2)]) (use assms(3,4) that in \<open>auto simp: list_all_iff\<close>)
  moreover have "cells (resealed h opens stamp names r) c = cells r c" if "c \<notin> set names" "c \<noteq> ''updated_at''" for r c
    using that by (simp add: cells_resealed [OF assms(2)])
  ultimately show ?thesis
    unfolding resealed_as_def list_all2_map2 by (intro list.rel_refl_strong) simp
qed

lemma rewrite_one_uncommitted: "effect (same committed) (rewrite_one h opens t names r)"
proof -
  have "effect (same committed) (put_rows t rows)" for rows
    by (simp add: effect_def same_def put_rows_def writes_def)
  then show ?thesis
    unfolding rewrite_one_def overwrite_rows_def look_def hour_def by (intro same_order.steps)
qed

lemma rewrite_model_uncommitted: "effect (same committed) (rewrite_model fuel h opens t names n)"
proof (induction fuel arbitrary: n)
  case (Suc fuel)
  then show ?case
    unfolding rewrite_model.simps look_def by (intro same_order.steps rewrite_one_uncommitted)
qed (simp add: same_order.hang_ok del: hang_apply)

text \<open>
  C24: The rewrite of the secrets refines doing nothing: whoever reads a stored secret with the first key alone, after it, is told what the whole
  ring of keys told before, column by column, and nothing else of any row changed but its stamp. So the other keys can be taken away. Where one
  secret opens under no key at all it is refused, and nothing of it is written.
\<close>

theorem rotation_keeps_every_secret:
  assumes seals: "\<And>x. x \<noteq> [] \<Longrightarrow> ho_encrypt h x \<noteq> [] \<and> first (ho_encrypt h x) = Some x"
    and clean: "open_rows s = committed s" and rows: "\<And>t. distinct (map rid (committed s t)) \<and> (\<forall>r\<in>set (committed s t). 0 < rid r)"
    and fuel: "\<And>t. length (committed s t) < fuel"
  shows "case rewrite fuel h opens s of
      (Ok _, u) \<Rightarrow> (\<forall>(t, names)\<in>set stored_secrets. resealed_as first opens names (committed s t) (committed u t))
        \<and> (\<forall>t. t \<notin> fst ` set stored_secrets \<longrightarrow> committed u t = committed s t)
    | (Err _, u) \<Rightarrow> committed u = committed s \<and> open_rows u = committed s
        \<and> (\<exists>(t, names)\<in>set stored_secrets. \<exists>r\<in>set (committed s t). \<exists>c\<in>set names. truthy_cell (cells r c) \<and> decrypt opens (cells r c) = None)
    | (Hangs, _) \<Rightarrow> False"
proof -
  have start: "rows' = resealing h opens stamp names {i. i \<le> 0} rows'" "after_row 0 rows' = rows'"
    if "\<forall>r\<in>set rows'. 0 < rid r" for stamp names rows'
    using that by (auto simp: resealing_def after_row_def intro!: map_idI [symmetric])
  have unread: "\<exists>r\<in>set rows'. \<exists>c\<in>set names. truthy_cell (cells r c) \<and> decrypt opens (cells r c) = None"
    if "\<not> list_all (readable opens names) rows'" for names rows'
    using that by (auto simp: list_all_iff readable_def)
  obtain ns ms where stored: "stored_secrets = [(Integration, ns), (SocialLoginAttempt, ms)]"
    and names: "distinct ns" "''updated_at'' \<notin> set ns" "distinct ms" "''updated_at'' \<notin> set ms"
    by (simp add: stored_secrets)
  let ?m1 = "rewrite_model fuel h opens Integration ns 0"
  let ?s1 = "s\<lparr>open_rows := (open_rows s)(Integration := map (resealed h opens (moment s) ns) (committed s Integration))\<rparr>"
  let ?m2 = "rewrite_model fuel h opens SocialLoginAttempt ms 0"
  let ?s2 = "?s1\<lparr>open_rows := (open_rows ?s1)(SocialLoginAttempt := map (resealed h opens (moment s) ms) (committed s SocialLoginAttempt))\<rparr>"
  have one: "(\<exists>n. ?m1 s = (Ok n, ?s1)) \<and> list_all (readable opens ns) (committed s Integration)
      \<or> (\<exists>e u. ?m1 s = (Err e, u)) \<and> \<not> list_all (readable opens ns) (committed s Integration)"
    using rewriting_model [of s Integration h opens ns 0 "committed s Integration" fuel] start [of "committed s Integration"] rows fuel clean by simp
  have two: "(\<exists>n. ?m2 ?s1 = (Ok n, ?s2)) \<and> list_all (readable opens ms) (committed s SocialLoginAttempt)
      \<or> (\<exists>e u. ?m2 ?s1 = (Err e, u)) \<and> \<not> list_all (readable opens ms) (committed s SocialLoginAttempt)"
    using rewriting_model [of ?s1 SocialLoginAttempt h opens ms 0 "committed s SocialLoginAttempt" fuel] start [of "committed s SocialLoginAttempt"] rows fuel clean by simp
  have refused: "rewrite fuel h opens s = (Err e, u\<lparr>open_rows := committed u\<rparr>)"
    if "andThen ?m1 (\<lambda>n. andThen ?m2 (\<lambda>m. ret [n, m])) s = (Err e, u)" for e u
    using that by (auto simp: rewrite_def stored handle_def andThen_def throw_def split: prod.splits outcome.splits)
  consider "list_all (readable opens ns) (committed s Integration) \<and> list_all (readable opens ms) (committed s SocialLoginAttempt)"
    | "\<not> list_all (readable opens ns) (committed s Integration)"
    | "list_all (readable opens ns) (committed s Integration)" "\<not> list_all (readable opens ms) (committed s SocialLoginAttempt)" by blast
  then show ?thesis
  proof cases
    case 1
    with one two obtain n m where "?m1 s = (Ok n, ?s1)" "?m2 ?s1 = (Ok m, ?s2)" by blast
    then have "rewrite fuel h opens s = (Ok (n + m), ?s2\<lparr>committed := open_rows ?s2\<rparr>)"
      by (simp add: rewrite_def stored handle_def andThen_def persist_def refusing_rows_def)
    with 1 clean resealed_rows [OF seals names(1,2)] resealed_rows [OF seals names(3,4)] show ?thesis by (simp add: stored)
  next
    case 2
    with one obtain e u where u: "?m1 s = (Err e, u)" by blast
    with effect_sameD [OF rewrite_model_uncommitted, of fuel h opens Integration ns 0 s] have "committed u = committed s" by simp
    with u refused [of e u] unread [OF 2] show ?thesis by (auto simp: stored andThen_def)
  next
    case 3
    with one two obtain n e u where u: "?m1 s = (Ok n, ?s1)" "?m2 ?s1 = (Err e, u)" by blast
    with effect_sameD [OF rewrite_model_uncommitted, of fuel h opens SocialLoginAttempt ms 0 ?s1] have "committed u = committed s" by simp
    with u refused [of e u] unread [OF 3(2)] show ?thesis by (auto simp: stored andThen_def)
  qed
qed

section \<open>A ring of two keys\<close>

text \<open>What the old key sealed starts with \<open>o:\<close>, and what the first one seals with \<open>e:\<close>.\<close>

definition ring :: "string \<Rightarrow> string option" where
  "ring k = (if prefix ''o:'' k \<or> prefix ''e:'' k then Some (drop 2 k) else None)"

definition first_key :: "string \<Rightarrow> string option" where
  "first_key k = (if prefix ''e:'' k then Some (drop 2 k) else None)"

definition sealed_shelves :: shelves where
  "sealed_shelves = (\<lambda>_. [])(Integration := [\<lparr>rid = 1, cells = no_cells(''stripe_api_key_encrypted'' := Text ''o:key'')\<rparr>])"

definition sealed_panel :: panel where
  "sealed_panel = \<lparr>open_rows = sealed_shelves, committed = sealed_shelves, moment = on_day 2026 1 1, discarded = []\<rparr>"

lemma rotation_keeps_every_secret_witness:
  "case rewrite 2 plain_house ring sealed_panel of
      (Ok _, u) \<Rightarrow> (\<forall>(t, names)\<in>set stored_secrets. resealed_as first_key ring names (committed sealed_panel t) (committed u t))
        \<and> (\<forall>t. t \<notin> fst ` set stored_secrets \<longrightarrow> committed u t = committed sealed_panel t)
    | (Err _, u) \<Rightarrow> committed u = committed sealed_panel \<and> open_rows u = committed sealed_panel
        \<and> (\<exists>(t, names)\<in>set stored_secrets. \<exists>r\<in>set (committed sealed_panel t). \<exists>c\<in>set names. truthy_cell (cells r c) \<and> decrypt ring (cells r c) = None)
    | (Hangs, _) \<Rightarrow> False"
  by (rule rotation_keeps_every_secret) (simp_all add: plain_house_def first_key_def sealed_panel_def sealed_shelves_def)

end
