(* ===== verification/Spec2Isabelle.thy ===== *)
theory Spec2Isabelle
  imports Engine Reconciliation_Facts Idempotency Social Schema_Diff Listings Erasure Rotation
begin

text \<open>
  A verification development of FastKit, a multi-tenant backend written in Python: plans, benefits and what they hand over, payments and
  the gateways that report them, accounts and how they are entered, the mail and the event queues, and the panel every table is managed
  through. Each theory is one part of \<^verbatim>\<open>src/\<close>; the names of its definitions are those of the code, and the manifest says
  which lines each one translates.

  \<^bold>\<open>How the code is modelled.\<close> A coroutine is a service of \<open>Prelude\<close>: a function from a session to an outcome and the session it
  leaves, composed with \<open>andThen\<close>, \<open>handle\<close> (a \<open>try ... except Exception\<close>) and \<open>each\<close> (a \<open>for\<close>). An outcome is a value, an exception or
  \<open>Hangs\<close>, what a loop that never ends answers and no handler catches, so that a theorem with an outcome in it says that the code
  returns. A session holds the database as its transaction sees it, the database as it was last committed and the clock; a
  statement that violates a unique key raises \<open>IntegrityError\<close> where it runs, \<open>commit\<close> and \<open>rollback\<close> copy one database over the
  other. One session runs at a time: two requests that overlap are the conditional UPDATEs they lose to one another, which the queue
  and claim theorems order explicitly, and two readings of the clock within one operation answer the same instant except where the
  code waits between them (\<open>during\<close>). A SELECT without an order answers in the order of the keys.

  \<^bold>\<open>The parts.\<close>
  \<^item> \<open>Prelude\<close>, \<open>Tables\<close>, \<open>Clock\<close>, \<open>Enums\<close>, \<open>Domain\<close>, \<open>Effects\<close>: outcomes, the monad and its calculus of effects and of answers (\<open>wp\<close>,
    \<open>answers\<close>); tables and \<^verbatim>\<open>helpers/db.py\<close>; the proleptic calendar and \<^verbatim>\<open>helpers/dates.py\<close>; \<^verbatim>\<open>enums/\<close>; the rows of \<^verbatim>\<open>models/\<close>
    the services read and write; what a service may do to a database.
  \<^item> \<open>Schedule\<close>, \<open>Delivery\<close>: \<^verbatim>\<open>services/delivery_service.py\<close>, the engine that hands out what a plan promises, cycle after cycle.
    \<open>Laws\<close>, \<open>Delivery_Facts\<close> and \<open>Promises\<close> prove what holds of it.
  \<^item> \<open>Ledger\<close>, \<open>Commerce\<close>, \<open>Checkout\<close>: the ledger of credits, owned products, payments and the sessions a buyer is sent to
    (\<^verbatim>\<open>services/credit_transaction_service.py\<close>, \<^verbatim>\<open>commerce_service.py\<close>, \<^verbatim>\<open>checkout_service.py\<close>).
  \<^item> \<open>Gateway\<close>, \<open>Stripe\<close>, \<open>RevenueCat\<close>, \<open>Signature\<close>, \<open>Json\<close>, \<open>Money\<close>: what a gateway says, and how its two providers prove a call, read a
    notice and answer a question (\<^verbatim>\<open>services/stripe_provider.py\<close>, \<^verbatim>\<open>revenue_cat_provider.py\<close>).
  \<^item> \<open>Reconciliation\<close> (with \<open>_Laws\<close> and \<open>_Facts\<close>) and \<open>Webhook\<close> (with \<open>_Facts\<close>): \<^verbatim>\<open>services/reconciliation_service.py\<close> settles what a
    gateway says onto the subscriptions, \<^verbatim>\<open>services/webhook_service.py\<close> receives it, once.
  \<^item> \<open>Queue\<close>: the abstract queue three services claim their rows from, a locale interpreted by \<open>Delivery_Facts\<close>, \<open>Webhook_Facts\<close>, \<open>Mail\<close>
    and \<open>Reports\<close> (\<^verbatim>\<open>services/app_event_service.py\<close>).
  \<^item> \<open>Settings\<close>, \<open>Mail\<close>: the configuration a brand sends under, \<^verbatim>\<open>services/email_service.py\<close> and \<^verbatim>\<open>helpers/smtp_mailer.py\<close>.
  \<^item> \<open>Idempotency\<close>: \<^verbatim>\<open>helpers/idempotency.py\<close>.
  \<^item> \<open>Text\<close>: \<^verbatim>\<open>helpers/text.py\<close> and \<^verbatim>\<open>helpers/search.py\<close>.
  \<^item> \<open>Accounts\<close>, \<open>Recovery\<close>, \<open>Accounts_Facts\<close>, \<open>Ways_In\<close>: \<^verbatim>\<open>helpers/auth.py\<close>, \<^verbatim>\<open>services/auth_service.py\<close>, one-time codes and tickets.
  \<^item> \<open>Providers\<close>, \<open>Social\<close>: who a social provider says somebody is (\<^verbatim>\<open>services/*_login_provider.py\<close>, \<^verbatim>\<open>helpers/o_auth_login_helper.py\<close>)
    and which account that enters, opens or is connected to (\<^verbatim>\<open>services/social_login_service.py\<close>).
  \<^item> \<open>Engine\<close>: the jobs and the webhook route put together, and every database they reach.
  \<^item> \<open>Registry\<close>, \<open>Panel\<close>, \<open>Panel_Facts\<close>: the schema of \<^verbatim>\<open>models/\<close> as data, the statements of \<^verbatim>\<open>helpers/db.py\<close> over it with the
    cascades, keys and defaults it declares, and what each of them leaves in the tables.
  \<^item> \<open>Files\<close>, \<open>Files_Facts\<close>, \<open>Uploads\<close>, \<open>File_Life\<close>: which files the rows name (\<^verbatim>\<open>services/upload_service.py\<close>), how an upload is accepted,
    resized, named and written down (\<^verbatim>\<open>services/upload.py\<close>, \<^verbatim>\<open>helpers/storage.py\<close>), and the sweep of the ones nothing names
    (\<^verbatim>\<open>services/sweep_service.py\<close>).
  \<^item> \<open>Crud\<close>, \<open>Crud_Facts\<close>: the generic services of \<^verbatim>\<open>services/crud_service.py\<close>. The locale \<open>panel_law\<close> is the contract between a law of the
    rows and the statements of a resource: what inserting, updating and removing may do to it; every law below is an interpretation.
  \<^item> \<open>Catalogue\<close>, \<open>Services\<close>, \<open>Declarations\<close>: the tables each resource of the panel declares, how it prepares and validates what was
    sent, and the check of what they declare against the schema.
  \<^item> \<open>Panel_Routes\<close>, \<open>Brands\<close>, \<open>Removal\<close>, \<open>Listings\<close>: the routes of \<^verbatim>\<open>helpers/crud.py\<close> with their audit, what an operator of one brand
    reads and writes, what a removal takes with it and what the pages of a listing answer.
  \<^item> \<open>Erasure\<close>: the picture of an account and its erasure (\<^verbatim>\<open>services/user_service.py\<close>), over the rows of the panel.
  \<^item> \<open>Upkeep\<close>, \<open>Rotation\<close>: \<^verbatim>\<open>services/retention_service.py\<close>, what is dropped for its age, and \<^verbatim>\<open>services/rotation_service.py\<close>, which
    seals every stored secret again under the newest key.
  \<^item> \<open>Schema_Diff\<close>: \<^verbatim>\<open>services/schema_diff.py\<close>.

  \<^bold>\<open>Bounds and fuel.\<close> \<open>settle_purchase\<close> takes fuel where the code recurses after a lost race; two are enough in a session nobody
  interleaves, and \<open>settling_ends\<close> proves it. The walk over the slots of a schedule is a partial function whose end is proved from the
  step of the calendar. The loops over pages (\<open>find_orphans\<close>, \<open>discard_orphans\<close>, \<open>trim_where\<close>, \<open>drained\<close>, \<open>rewrite_model\<close>) take fuel, and
  hang when it runs out; one page more than the rows they look at is enough, and the theorems about the sweep, the retention and the
  rotation prove that they end with it. Prices count thousandths, the scale of their column; integers are unbounded as in Python, and what a column
  cannot hold is refused where the code refuses it.

  \<^bold>\<open>Parameters.\<close> The network, the digests and signatures, the hash of passwords, encryption, drawn tokens and uuids, the
  decomposition of accents, the ISO parser, \<open>json.loads\<close>, the templates of letters, the collation of the database, the SMTP
  conversation, the image library, the OAuth client with the signatures of its tokens, the ring of keys a secret is sealed
  under and the purges of the libraries of the queue and of the cache are arguments of the definitions that use them.

  \<^bold>\<open>Not modelled.\<close> Screens and templates, the site routes that draw them, the schemas that only describe a payload, the client of a
  bucket, the scheduler, the commands that print, the seed, the captcha and the rate limiter.
\<close>

end
